(* ===== verification/Prelude.thy ===== *)
theory Prelude
  imports Main "HOL-Library.Sublist"
begin

text \<open>
  Shared material of the development: the JavaScript string, array and object operations the
  source uses, JSON values, the table operations a repository's SQL statement stands for, and
  the transaction type the use cases are written in, each with the lemmas the component
  theories rest on.

  Strings are lists of characters (code units); instants (\<open>Date\<close>) are their time values,
  integer milliseconds; \<open>null\<close> and \<open>undefined\<close> are \<open>None\<close>.
\<close>

named_theorems tx_simps "unfolding of transactions run to a result"

type_synonym time = int

section \<open>Strings and arrays\<close>

text \<open>\<open>s.split(sep)\<close> for a one-character separator: never the empty array.\<close>

fun js_split :: "char \<Rightarrow> string \<Rightarrow> string list" where
  "js_split sep [] = [[]]"
| "js_split sep (c # cs) =
     (if c = sep then [] # js_split sep cs
      else (case js_split sep cs of [] \<Rightarrow> [[c]] | p # ps \<Rightarrow> (c # p) # ps))"

text \<open>\<open>xs.join(' ')\<close>\<close>

fun js_join :: "char \<Rightarrow> string list \<Rightarrow> string" where
  "js_join sep [] = []"
| "js_join sep [x] = x"
| "js_join sep (x # y # ys) = x @ sep # js_join sep (y # ys)"

text \<open>\<open>s.split(' ').filter((token) => token.length > 0)\<close>, the reading of a scope string.\<close>

definition tokens :: "string \<Rightarrow> string list" where
  "tokens s = filter (\<lambda>t. t \<noteq> []) (js_split CHR '' '' s)"

definition join_scope :: "string list \<Rightarrow> string" where
  "join_scope = js_join CHR '' ''"

text \<open>White space as \<open>trim\<close> removes it, within one byte.\<close>

definition is_js_space :: "char \<Rightarrow> bool" where
  "is_js_space c \<longleftrightarrow> (of_char c :: nat) \<in> {9, 10, 11, 12, 13, 32, 160}"

definition js_trim :: "string \<Rightarrow> string" where
  "js_trim s = rev (dropWhile is_js_space (rev (dropWhile is_js_space s)))"

text \<open>\<open>[...new Set(xs)]\<close>: the first occurrence of each value, in order.\<close>

fun js_unique :: "'a list \<Rightarrow> 'a list" where
  "js_unique [] = []"
| "js_unique (x # xs) = x # js_unique (filter (\<lambda>y. y \<noteq> x) xs)"

lemma js_split_ne [simp]: "js_split sep s \<noteq> []"
  by (induction s) (auto split: list.splits)

lemma js_split_no_sep: "t \<in> set (js_split sep s) \<Longrightarrow> sep \<notin> set t"
proof (induction s arbitrary: t)
  case (Cons c cs)
  then show ?case
    by (cases "js_split sep cs") (auto split: if_splits)
qed simp

lemma js_split_word: "sep \<notin> set w \<Longrightarrow> js_split sep w = [w]"
  by (induction w) auto

lemma js_split_app: "sep \<notin> set w \<Longrightarrow> js_split sep (w @ sep # s) = w # js_split sep s"
  by (induction w) auto

lemma js_split_join:
  "\<forall>w \<in> set ws. sep \<notin> set w \<Longrightarrow> ws \<noteq> [] \<Longrightarrow> js_split sep (js_join sep ws) = ws"
  by (induction sep ws rule: js_join.induct) (auto simp: js_split_word js_split_app)

text \<open>A scope token: not empty and with no space, so it survives being joined and split.\<close>

definition scope_token :: "string \<Rightarrow> bool" where
  "scope_token t \<longleftrightarrow> t \<noteq> [] \<and> CHR '' '' \<notin> set t"

lemma tokens_scope_token: "t \<in> set (tokens s) \<Longrightarrow> scope_token t"
  using js_split_no_sep by (auto simp: tokens_def scope_token_def)

lemma tokens_Nil [simp]: "tokens [] = []"
  by (simp add: tokens_def)

lemma tokens_join_scope:
  assumes "\<forall>t \<in> set ts. scope_token t"
  shows "tokens (join_scope ts) = ts"
proof (cases "ts = []")
  case False
  with assms have "js_split CHR '' '' (join_scope ts) = ts"
    unfolding join_scope_def by (intro js_split_join) (auto simp: scope_token_def)
  moreover from assms have "filter (\<lambda>t. t \<noteq> []) ts = ts"
    by (auto simp: scope_token_def filter_id_conv)
  ultimately show ?thesis by (simp add: tokens_def)
qed (simp add: join_scope_def)

lemma set_js_unique [simp]: "set (js_unique xs) = set xs"
  by (induction xs rule: js_unique.induct) auto

lemma distinct_js_unique [simp]: "distinct (js_unique xs)"
  by (induction xs rule: js_unique.induct) auto

lemma js_unique_distinct: "distinct xs \<Longrightarrow> js_unique xs = xs"
proof (induction xs)
  case (Cons x xs)
  then have "filter (\<lambda>y. y \<noteq> x) xs = xs" by (auto simp: filter_id_conv)
  with Cons show ?case by simp
qed simp

lemma js_unique_Nil_iff [simp]: "js_unique xs = [] \<longleftrightarrow> xs = []"
  by (cases xs) auto

text \<open>\<open>??\<close> on an optional value.\<close>

fun coalesce :: "'a option \<Rightarrow> 'a \<Rightarrow> 'a" where
  "coalesce None d = d"
| "coalesce (Some x) d = x"

fun js_or_else :: "'a option \<Rightarrow> 'a option \<Rightarrow> 'a option" where
  "js_or_else None d = d"
| "js_or_else (Some x) d = Some x"

section \<open>JSON values and objects\<close>

datatype json = JNull | JBool bool | JNum int | JStr string | JArr "json list"
  | JObj "(string \<times> json) list"

type_synonym obj = "(string \<times> json) list"

text \<open>Reading and setting a property; a set of a present key keeps its position.\<close>

definition obj_get :: "string \<Rightarrow> obj \<Rightarrow> json option" where
  "obj_get k o1 = map_of o1 k"

fun obj_set :: "string \<Rightarrow> json \<Rightarrow> obj \<Rightarrow> obj" where
  "obj_set k v [] = [(k, v)]"
| "obj_set k v ((k', v') # ps) = (if k' = k then (k, v) # ps else (k', v') # obj_set k v ps)"

text \<open>\<open>{ ...a, ...b }\<close>\<close>

fun obj_spread :: "obj \<Rightarrow> obj \<Rightarrow> obj" where
  "obj_spread a [] = a"
| "obj_spread a ((k, v) # ps) = obj_spread (obj_set k v a) ps"

lemma obj_get_Nil [simp]: "obj_get k [] = None"
  by (simp add: obj_get_def)

lemma obj_get_Cons [simp]: "obj_get k ((k', v) # ps) = (if k' = k then Some v else obj_get k ps)"
  by (simp add: obj_get_def)

lemma obj_get_set: "obj_get k (obj_set k' v ps) = (if k = k' then Some v else obj_get k ps)"
  by (induction ps) auto

lemma obj_get_append: "obj_get k (a @ b) = js_or_else (obj_get k a) (obj_get k b)"
  by (induction a) auto

lemma obj_get_None_iff: "obj_get k b = None \<longleftrightarrow> k \<notin> fst ` set b"
  by (simp add: obj_get_def map_of_eq_None_iff)

lemma obj_get_spread_other: "obj_get k b = None \<Longrightarrow> obj_get k (obj_spread a b) = obj_get k a"
  by (induction a b rule: obj_spread.induct) (auto simp: obj_get_set split: if_splits)

lemma obj_get_spread_Some:
  "distinct (map fst b) \<Longrightarrow> obj_get k b = Some v \<Longrightarrow> obj_get k (obj_spread a b) = Some v"
proof (induction a b rule: obj_spread.induct)
  case (2 a k' v' ps)
  show ?case
  proof (cases "k' = k")
    case True
    with "2.prems" have "obj_get k ps = None" by (auto simp: obj_get_None_iff)
    with True "2.prems" show ?thesis by (auto simp: obj_get_spread_other obj_get_set)
  next
    case False
    with 2 show ?thesis by simp
  qed
qed simp

text \<open>\<open>{ ...a, ...b }\<close> reads as \<open>b\<close> where \<open>b\<close> has the key.\<close>

lemma obj_get_spread:
  "distinct (map fst b) \<Longrightarrow> obj_get k (obj_spread a b) = js_or_else (obj_get k b) (obj_get k a)"
  by (cases "obj_get k b") (auto simp: obj_get_spread_other obj_get_spread_Some)

text \<open>A conditional member, \<open>...(b ? { k: v } : {})\<close>.\<close>

definition when_member :: "bool \<Rightarrow> string \<Rightarrow> json \<Rightarrow> obj" where
  "when_member b k v = (if b then [(k, v)] else [])"

definition some_member :: "string \<Rightarrow> json option \<Rightarrow> obj" where
  "some_member k v = (case v of None \<Rightarrow> [] | Some x \<Rightarrow> [(k, x)])"

lemma obj_get_when_member [simp]:
  "obj_get k (when_member b k' v) = (if b \<and> k = k' then Some v else None)"
  by (auto simp: when_member_def)

lemma obj_get_some_member [simp]:
  "obj_get k (some_member k' v) = (if k = k' then v else None)"
  by (auto simp: some_member_def split: option.splits)

lemma set_when_member: "fst ` set (when_member b k v) \<subseteq> {k}"
  by (auto simp: when_member_def)

lemma set_some_member: "fst ` set (some_member k v) \<subseteq> {k}"
  by (auto simp: some_member_def split: option.splits)


section \<open>Tables\<close>

text \<open>
  A table is the list of the rows one tenant can see (row level security hides the rest). A
  statement \<open>UPDATE t SET f WHERE p\<close> is \<open>update_where p f\<close>, and the rows its
  \<open>RETURNING\<close> lists are \<open>returning p f\<close>; \<open>rows[0] ?? null\<close> of a select is
  \<open>find\<close>; an insert fails on a row with the same primary key.
\<close>

definition update_where :: "('r \<Rightarrow> bool) \<Rightarrow> ('r \<Rightarrow> 'r) \<Rightarrow> 'r list \<Rightarrow> 'r list" where
  "update_where p f rows = map (\<lambda>r. if p r then f r else r) rows"

definition returning :: "('r \<Rightarrow> bool) \<Rightarrow> ('r \<Rightarrow> 'r) \<Rightarrow> 'r list \<Rightarrow> 'r list" where
  "returning p f rows = map f (filter p rows)"

definition first_row :: "'r list \<Rightarrow> 'r option" where
  "first_row rows = (case rows of [] \<Rightarrow> None | r # _ \<Rightarrow> Some r)"

definition insert_row :: "('r \<Rightarrow> 'k) \<Rightarrow> 'r \<Rightarrow> 'r list \<Rightarrow> 'r list option" where
  "insert_row key r rows = (if key r \<in> key ` set rows then None else Some (rows @ [r]))"

lemma first_row_map: "first_row (map f rs) = map_option f (first_row rs)"
  by (cases rs) (simp_all add: first_row_def)

lemma first_row_filter: "first_row (filter p rs) = find p rs"
  by (induction rs) (auto simp: first_row_def)

lemma first_row_returning: "first_row (returning p f rs) = map_option f (find p rs)"
  by (simp add: returning_def first_row_map first_row_filter)

lemma find_SomeD: "find p rs = Some r \<Longrightarrow> r \<in> set rs \<and> p r"
  by (induction rs) (auto split: if_splits)

lemma find_key:
  "distinct (map key rs) \<Longrightarrow> r \<in> set rs \<Longrightarrow> find (\<lambda>x. key x = key r) rs = Some r"
  by (induction rs) (auto simp: image_iff)

lemma find_append:
  "find p (xs @ ys) = (case find p xs of None \<Rightarrow> find p ys | Some x \<Rightarrow> Some x)"
  by (induction xs) auto

lemma find_keyI:
  "distinct (map key rs) \<Longrightarrow> r \<in> set rs \<Longrightarrow> key r = k \<Longrightarrow> find (\<lambda>x. key x = k) rs = Some r"
  using find_key [of key rs r] by simp

lemma distinct_keyD:
  "distinct (map key rs) \<Longrightarrow> r \<in> set rs \<Longrightarrow> r' \<in> set rs \<Longrightarrow> key r = key r' \<Longrightarrow> r = r'"
  by (induction rs) (auto simp: image_iff)

lemma map_update_where [simp]:
  "(\<And>r. g (f r) = g r) \<Longrightarrow> map g (update_where p f rs) = map g rs"
  by (auto simp: update_where_def)

lemma set_update_where:
  "r \<in> set (update_where p f rs) \<longleftrightarrow> (\<exists>r0 \<in> set rs. r = (if p r0 then f r0 else r0))"
  by (auto simp: update_where_def)

lemma update_where_all:
  assumes "\<forall>r \<in> set rs. P r" "\<And>r. r \<in> set rs \<Longrightarrow> P r \<Longrightarrow> p r \<Longrightarrow> P (f r)"
  shows "\<forall>r \<in> set (update_where p f rs). P r"
  using assms by (auto simp: set_update_where)

lemma find_update_where:
  "(\<And>r. q (f r) = q r) \<Longrightarrow>
     find q (update_where p f rs) = map_option (\<lambda>r. if p r then f r else r) (find q rs)"
  by (induction rs) (auto simp: update_where_def)

lemma update_where_id: "(\<And>r. r \<in> set rs \<Longrightarrow> p r \<Longrightarrow> f r = r) \<Longrightarrow> update_where p f rs = rs"
  by (auto simp: update_where_def intro: map_idI)

lemma update_where_none: "\<forall>r \<in> set rs. \<not> p r \<Longrightarrow> update_where p f rs = rs"
  by (rule update_where_id) auto

lemma insert_row_Some: "insert_row key r rs = Some rs' \<longleftrightarrow> key r \<notin> key ` set rs \<and> rs' = rs @ [r]"
  by (auto simp: insert_row_def)

lemma distinct_insert_row:
  "insert_row key r rs = Some rs' \<Longrightarrow> distinct (map key rs) \<Longrightarrow> distinct (map key rs')"
  by (auto simp: insert_row_Some)

section \<open>Transactions\<close>

text \<open>
  An \<open>async\<close> function on a transaction: it reads and writes the state, and ends in a value
  or in the exception it throws, with the state as the statements before left it.
\<close>

type_synonym ('s, 'e, 'a) tx = "'s \<Rightarrow> ('e + 'a) \<times> 's"

definition tret :: "'a \<Rightarrow> ('s, 'e, 'a) tx" where
  "tret x s = (Inr x, s)"

definition tfail :: "'e \<Rightarrow> ('s, 'e, 'a) tx" where
  "tfail e s = (Inl e, s)"

definition tget :: "('s \<Rightarrow> 'a) \<Rightarrow> ('s, 'e, 'a) tx" where
  "tget f s = (Inr (f s), s)"

definition tbind :: "('s, 'e, 'a) tx \<Rightarrow> ('a \<Rightarrow> ('s, 'e, 'b) tx) \<Rightarrow> ('s, 'e, 'b) tx" where
  "tbind m f s = (case m s of (Inl e, s') \<Rightarrow> (Inl e, s') | (Inr x, s') \<Rightarrow> f x s')"

definition tguard :: "bool \<Rightarrow> 'e \<Rightarrow> ('s, 'e, unit) tx" where
  "tguard b e = (if b then tret () else tfail e)"

text \<open>A value or the exception thrown for its absence.\<close>

definition tsome :: "'a option \<Rightarrow> 'e \<Rightarrow> ('s, 'e, 'a) tx" where
  "tsome v e = (case v of None \<Rightarrow> tfail e | Some x \<Rightarrow> tret x)"

text \<open>\<open>withTenant\<close> and \<open>withSavepoint\<close>: a body that throws leaves no write behind.\<close>

definition atomically :: "('s, 'e, 'a) tx \<Rightarrow> ('s, 'e, 'a) tx" where
  "atomically m s = (case m s of (Inl e, s') \<Rightarrow> (Inl e, s) | (Inr x, s') \<Rightarrow> (Inr x, s'))"

lemma tret_run [tx_simps]: "tret x s = (r, s') \<longleftrightarrow> r = Inr x \<and> s' = s"
  by (auto simp: tret_def)

lemma tfail_run [tx_simps]: "tfail e s = (r, s') \<longleftrightarrow> r = Inl e \<and> s' = s"
  by (auto simp: tfail_def)

lemma tget_run [tx_simps]: "tget f s = (r, s') \<longleftrightarrow> r = Inr (f s) \<and> s' = s"
  by (auto simp: tget_def)

lemma tbind_Inr [tx_simps]:
  "tbind m f s = (Inr y, s') \<longleftrightarrow> (\<exists>x s1. m s = (Inr x, s1) \<and> f x s1 = (Inr y, s'))"
  by (auto simp: tbind_def split: prod.splits sum.splits)

lemma tbind_Inl:
  "tbind m f s = (Inl e, s') \<longleftrightarrow>
     m s = (Inl e, s') \<or> (\<exists>x s1. m s = (Inr x, s1) \<and> f x s1 = (Inl e, s'))"
  by (auto simp: tbind_def split: prod.splits sum.splits)

lemma tguard_Inr [tx_simps]: "tguard b e s = (Inr u, s') \<longleftrightarrow> b \<and> s' = s"
  by (auto simp: tguard_def tret_def tfail_def)

lemma tguard_Inl: "tguard b e s = (Inl e', s') \<longleftrightarrow> \<not> b \<and> e' = e \<and> s' = s"
  by (auto simp: tguard_def tret_def tfail_def)

lemma tsome_Inr [tx_simps]: "tsome v e s = (Inr x, s') \<longleftrightarrow> v = Some x \<and> s' = s"
  by (auto simp: tsome_def tret_def tfail_def split: option.splits)

lemma tsome_Inl: "tsome v e s = (Inl e', s') \<longleftrightarrow> v = None \<and> e' = e \<and> s' = s"
  by (auto simp: tsome_def tret_def tfail_def split: option.splits)

lemma atomically_Inr [tx_simps]: "atomically m s = (Inr x, s') \<longleftrightarrow> m s = (Inr x, s')"
  by (auto simp: atomically_def split: prod.splits sum.splits)

lemma atomically_Inl:
  "atomically m s = (Inl e, s') \<longleftrightarrow> s' = s \<and> (\<exists>s1. m s = (Inl e, s1))"
  by (auto simp: atomically_def split: prod.splits sum.splits)

lemmas tx_fail_simps = tbind_Inl tguard_Inl tsome_Inl atomically_Inl

text \<open>
  A transaction keeps a predicate when every run from a state that satisfies it ends in one
  that does, thrown or not. The rules below follow the program text.
\<close>

definition keeps :: "('s \<Rightarrow> bool) \<Rightarrow> ('s, 'e, 'a) tx \<Rightarrow> bool" where
  "keeps I m \<longleftrightarrow> (\<forall>s r s'. I s \<longrightarrow> m s = (r, s') \<longrightarrow> I s')"

named_theorems keeps_intros "predicates a transaction keeps"

lemma keepsD: "keeps I m \<Longrightarrow> I s \<Longrightarrow> m s = (r, s') \<Longrightarrow> I s'"
  by (auto simp: keeps_def)

lemma keepsI: "(\<And>s r s'. I s \<Longrightarrow> m s = (r, s') \<Longrightarrow> I s') \<Longrightarrow> keeps I m"
  by (auto simp: keeps_def)

lemma keeps_tret [keeps_intros]: "keeps I (tret x)"
  by (auto simp: keeps_def tret_def)

lemma keeps_tfail [keeps_intros]: "keeps I (tfail e)"
  by (auto simp: keeps_def tfail_def)

lemma keeps_tget [keeps_intros]: "keeps I (tget f)"
  by (auto simp: keeps_def tget_def)

lemma keeps_tguard [keeps_intros]: "keeps I (tguard b e)"
  by (auto simp: keeps_def tguard_def tret_def tfail_def)

lemma keeps_tsome [keeps_intros]: "keeps I (tsome v e)"
  by (auto simp: keeps_def tsome_def tret_def tfail_def split: option.splits)

lemma keeps_tbind [keeps_intros]:
  "keeps I m \<Longrightarrow> (\<And>x. keeps I (f x)) \<Longrightarrow> keeps I (tbind m f)"
proof (rule keepsI)
  fix s r s'
  assume m: "keeps I m" and f: "\<And>x. keeps I (f x)" and s: "I s" "tbind m f s = (r, s')"
  show "I s'"
  proof (cases "m s")
    case (Pair q s1)
    with m s(1) have s1: "I s1" by (rule keepsD)
    show ?thesis
    proof (cases q)
      case (Inl e)
      with Pair s(2) s1 show ?thesis by (simp add: tbind_def)
    next
      case (Inr x)
      with Pair s(2) have "f x s1 = (r, s')" by (simp add: tbind_def)
      with f s1 show ?thesis by (rule keepsD)
    qed
  qed
qed

lemma keeps_atomically [keeps_intros]: "keeps I m \<Longrightarrow> keeps I (atomically m)"
  unfolding keeps_def atomically_def by (auto split: prod.splits sum.splits)

lemma keeps_if [keeps_intros]: "keeps I m \<Longrightarrow> keeps I n \<Longrightarrow> keeps I (if b then m else n)"
  by simp

lemma keeps_option [keeps_intros]:
  "keeps I m \<Longrightarrow> (\<And>x. keeps I (f x)) \<Longrightarrow> keeps I (case v of None \<Rightarrow> m | Some x \<Rightarrow> f x)"
  by (cases v) auto

lemma keeps_Let [keeps_intros]: "(\<And>x. keeps I (f x)) \<Longrightarrow> keeps I (Let v f)"
  by simp

end
