(* ===== verification/Scopes.thy ===== *)
theory Scopes
  imports Prelude "HOL-Library.List_Lexorder" "HOL-Library.Char_ord"
begin

text \<open>
  The scope rules of \<open>packages/protocol-oidc/src/service\<close>: resolution of a requested scope
  (\<open>scope.ts\<close>), the two MCP scopes and where they may be signed (\<open>mcp-scopes.ts\<close>,
  \<open>domain-tenant/src/service/mcp-client.ts\<close>), resource indicators
  (\<open>resource-indicator.ts\<close>), the \<open>mcp\<close> registration policy
  (\<open>mcp-registration-policy.ts\<close>), the consent decision (\<open>consent.ts\<close>) and a client's
  token lifetimes (\<open>client-token-ttl.ts\<close>). The \<open>URL\<close> parser and the collation of
  \<open>localeCompare\<close> are parameters.
\<close>

section \<open>URLs\<close>

record url =
  url_protocol :: string
  url_hostname :: string
  url_port :: string
  url_username :: string
  url_password :: string
  url_pathname :: string
  url_search :: string
  url_hash :: string

text \<open>\<open>new URL(raw)\<close>: \<open>None\<close> where the constructor throws.\<close>

type_synonym url_parser = "string \<Rightarrow> url option"

section \<open>MCP scopes\<close>

definition MCP_READ_SCOPE :: string where
  "MCP_READ_SCOPE = ''mcp:read''"

definition MCP_WRITE_SCOPE :: string where
  "MCP_WRITE_SCOPE = ''mcp:write''"

definition MCP_SCOPES :: "string list" where
  "MCP_SCOPES = [MCP_READ_SCOPE, MCP_WRITE_SCOPE]"

definition isMcpScope :: "string \<Rightarrow> bool" where
  "isMcpScope scope \<longleftrightarrow> scope \<in> set MCP_SCOPES"

definition holdsMcpScope :: "string list \<Rightarrow> bool" where
  "holdsMcpScope scopes = list_ex isMcpScope scopes"

definition MCP_RESOURCE_PATH :: string where
  "MCP_RESOURCE_PATH = ''/mcp''"

definition mcpAudienceOfIssuer :: "string \<Rightarrow> string" where
  "mcpAudienceOfIssuer issuer = issuer @ MCP_RESOURCE_PATH"

definition ADMIN_API_AUDIENCE :: string where
  "ADMIN_API_AUDIENCE = ''urn:odudu:params:admin-api''"

definition scopeAllowedAt :: "string \<Rightarrow> string \<Rightarrow> string \<Rightarrow> string \<Rightarrow> bool" where
  "scopeAllowedAt scope audience mcpAudience adminAudience =
     (if scope \<notin> set MCP_SCOPES then True
      else audience = mcpAudience \<or> audience = adminAudience)"

definition scopesCoherentWithAudience ::
  "string list \<Rightarrow> string list \<Rightarrow> string \<Rightarrow> string \<Rightarrow> bool" where
  "scopesCoherentWithAudience scopes audiences mcpAudience adminAudience =
     list_all (\<lambda>scope.
       if scope \<notin> set MCP_SCOPES then True
       else length audiences > 0 \<and>
         list_all (\<lambda>audience. scopeAllowedAt scope audience mcpAudience adminAudience) audiences)
       scopes"

definition withMcpScopes :: "string list \<Rightarrow> string list" where
  "withMcpScopes scopes = sort (js_unique (scopes @ MCP_SCOPES))"

definition MCP_WRITE_MAX_TTL_SECONDS :: int where
  "MCP_WRITE_MAX_TTL_SECONDS = 600"

definition capLifetimeForScope :: "int \<Rightarrow> string list \<Rightarrow> int" where
  "capLifetimeForScope ttlSeconds scope =
     (if MCP_WRITE_SCOPE \<in> set scope then min ttlSeconds MCP_WRITE_MAX_TTL_SECONDS
      else ttlSeconds)"

definition refreshAllowedForScope :: "string list \<Rightarrow> bool" where
  "refreshAllowedForScope scope \<longleftrightarrow> MCP_WRITE_SCOPE \<notin> set scope"

definition AGENT_TOKEN_MAX_TTL_SECONDS :: int where
  "AGENT_TOKEN_MAX_TTL_SECONDS = 300"

lemma holdsMcpScope_iff: "holdsMcpScope xs \<longleftrightarrow> (\<exists>s \<in> set xs. isMcpScope s)"
  by (simp add: holdsMcpScope_def list_ex_iff)

lemma holdsMcpScope_mono: "set xs \<subseteq> set ys \<Longrightarrow> holdsMcpScope xs \<Longrightarrow> holdsMcpScope ys"
  by (auto simp: holdsMcpScope_iff)

lemma write_is_mcp [simp]: "isMcpScope MCP_WRITE_SCOPE"
  by (simp add: isMcpScope_def MCP_SCOPES_def)

lemma read_is_mcp [simp]: "isMcpScope MCP_READ_SCOPE"
  by (simp add: isMcpScope_def MCP_SCOPES_def)

lemma coherent_mcp_audience:
  assumes "scopesCoherentWithAudience scopes audiences mcp admin" "holdsMcpScope scopes"
  shows "audiences \<noteq> [] \<and> set audiences \<subseteq> {mcp, admin}"
  using assms
  by (auto simp: scopesCoherentWithAudience_def list_all_iff holdsMcpScope_iff scopeAllowedAt_def
      isMcpScope_def split: if_splits)

lemma coherent_no_mcp:
  "\<not> holdsMcpScope scopes \<Longrightarrow> scopesCoherentWithAudience scopes audiences mcp admin"
  by (auto simp: scopesCoherentWithAudience_def list_all_iff holdsMcpScope_iff isMcpScope_def)

lemma cap_le: "capLifetimeForScope ttl scope \<le> ttl"
  by (simp add: capLifetimeForScope_def)

lemma cap_write: "MCP_WRITE_SCOPE \<in> set scope \<Longrightarrow> capLifetimeForScope ttl scope \<le> 600"
  by (simp add: capLifetimeForScope_def MCP_WRITE_MAX_TTL_SECONDS_def)

section \<open>Scope resolution\<close>

text \<open>
  \<open>resolveScope\<close>: what was requested, narrowed to the client's assignments, then by
  consent and by delegation where either applies (\<open>None\<close> means it does not).
\<close>

definition resolveScope ::
  "string \<Rightarrow> string list \<Rightarrow> string list option \<Rightarrow> string list option \<Rightarrow> string list" where
  "resolveScope requested clientAllowed consented delegated =
     (let requestedTokens = tokens requested;
          scope0 = filter (\<lambda>token. token \<in> set clientAllowed) requestedTokens;
          scope1 = (case consented of None \<Rightarrow> scope0
                    | Some c \<Rightarrow> filter (\<lambda>token. token \<in> set c) scope0);
          scope2 = (case delegated of None \<Rightarrow> scope1
                    | Some d \<Rightarrow> filter (\<lambda>token. token \<in> set d) scope1)
      in scope2)"

lemma set_resolveScope:
  "set (resolveScope requested allowed consented delegated) =
     {t \<in> set (tokens requested). t \<in> set allowed
        \<and> (\<forall>c. consented = Some c \<longrightarrow> t \<in> set c) \<and> (\<forall>d. delegated = Some d \<longrightarrow> t \<in> set d)}"
  by (auto simp: resolveScope_def Let_def split: option.splits)

text \<open>A scope row as \<open>forClientByAssignment\<close> lists it.\<close>

datatype assignment = Default | Optional

record scope_row =
  sr_name :: string
  sr_displayOrder :: int
  sr_assignment :: assignment

text \<open>
  \<open>Array.prototype.sort\<close> with a comparator: stable, and \<open>b\<close> stays before \<open>a\<close> unless
  the comparator is negative on \<open>(a, b)\<close>.
\<close>

fun insort_cmp :: "('a \<Rightarrow> 'a \<Rightarrow> int) \<Rightarrow> 'a \<Rightarrow> 'a list \<Rightarrow> 'a list" where
  "insort_cmp cmp x [] = [x]"
| "insort_cmp cmp x (y # ys) = (if cmp x y \<le> 0 then x # y # ys else y # insort_cmp cmp x ys)"

fun sort_cmp :: "('a \<Rightarrow> 'a \<Rightarrow> int) \<Rightarrow> 'a list \<Rightarrow> 'a list" where
  "sort_cmp cmp [] = []"
| "sort_cmp cmp (x # xs) = insort_cmp cmp x (sort_cmp cmp xs)"

definition scope_order :: "(string \<Rightarrow> string \<Rightarrow> int) \<Rightarrow> scope_row \<Rightarrow> scope_row \<Rightarrow> int" where
  "scope_order localeCompare a b =
     (let openid = (\<lambda>r. if sr_name r = ''openid'' then 1 else 0 :: int)
      in if openid b - openid a \<noteq> 0 then openid b - openid a
         else if sr_displayOrder a - sr_displayOrder b \<noteq> 0
         then sr_displayOrder a - sr_displayOrder b
         else localeCompare (sr_name a) (sr_name b))"

definition defaultScopeNames :: "(string \<Rightarrow> string \<Rightarrow> int) \<Rightarrow> scope_row list \<Rightarrow> string list" where
  "defaultScopeNames localeCompare rows =
     map sr_name (sort_cmp (scope_order localeCompare)
       (filter (\<lambda>row. sr_assignment row = Default) rows))"

lemma set_insort_cmp [simp]: "set (insort_cmp cmp x ys) = insert x (set ys)"
  by (induction ys) auto

lemma set_sort_cmp [simp]: "set (sort_cmp cmp xs) = set xs"
  by (induction xs) auto

lemma hd_insort_cmp_openid:
  assumes "\<And>b. b \<in> set ys \<Longrightarrow> sr_name b = ''openid'' \<Longrightarrow> sr_name (hd ys) = ''openid''"
    and "b \<in> insert a (set ys)" "sr_name b = ''openid''"
  shows "sr_name (hd (insort_cmp (scope_order lc) a ys)) = ''openid''"
proof (cases ys)
  case Nil
  with assms show ?thesis by auto
next
  case (Cons y zs)
  with assms show ?thesis
    by (cases "sr_name a = ''openid''"; cases "sr_name y = ''openid''")
       (auto simp: scope_order_def Let_def)
qed

lemma hd_sort_openid:
  "b \<in> set xs \<Longrightarrow> sr_name b = ''openid'' \<Longrightarrow>
     sr_name (hd (sort_cmp (scope_order lc) xs)) = ''openid''"
proof (induction xs arbitrary: b)
  case (Cons x xs)
  show ?case
    using hd_insort_cmp_openid [of "sort_cmp (scope_order lc) xs" b x lc] Cons by auto
qed simp

section \<open>Resource indicators\<close>

text \<open>A parameter a form body may repeat: \<open>string | string[]\<close>.\<close>

datatype param = One string | Many "string list"

datatype resource_outcome = ResourceOk "string list" | ResourceInvalidTarget

definition parseResource :: "url_parser \<Rightarrow> param option \<Rightarrow> string list \<Rightarrow> resource_outcome" where
  "parseResource URL raw registered =
     (case raw of
        None \<Rightarrow> ResourceOk registered
      | Some (Many _) \<Rightarrow> ResourceInvalidTarget
      | Some (One raw) \<Rightarrow>
          (case URL raw of
             None \<Rightarrow> ResourceInvalidTarget
           | Some parsed \<Rightarrow>
               if url_hash parsed \<noteq> [] then ResourceInvalidTarget
               else if raw \<notin> set registered then ResourceInvalidTarget
               else ResourceOk [raw]))"

lemma parseResource_subset:
  "parseResource URL raw registered = ResourceOk audience \<Longrightarrow> set audience \<subseteq> set registered"
  by (auto simp: parseResource_def split: option.splits param.splits if_splits)

lemma parseResource_named:
  "parseResource URL (Some p) registered = ResourceOk audience \<Longrightarrow>
     \<exists>raw. p = One raw \<and> audience = [raw] \<and> raw \<in> set registered"
  by (auto simp: parseResource_def split: option.splits param.splits if_splits)

end
