(* ===== verification/Registration_Policy.thy ===== *)
theory Registration_Policy
  imports Scopes
begin

text \<open>
  What a client nobody at the tenant vetted may hold: the \<open>mcp\<close> registration policy
  (\<open>mcp-registration-policy.ts\<close>), the consent decision (\<open>consent.ts\<close>) and a
  client's token lifetimes (\<open>client-token-ttl.ts\<close>).
\<close>

section \<open>Consent\<close>

text \<open>\<open>prompt\<close> values, as \<open>CORE_PROMPT_VALUES\<close> and \<open>create\<close> name them.\<close>

datatype prompt_value = PromptNone | PromptLogin | PromptConsent | PromptSelectAccount | PromptCreate

record consent_input =
  ci_requestedScopes :: "string list"
  ci_defaultScopes :: "string list"
  ci_optionalScopes :: "string list"
  ci_grantedScopes :: "string list"
  ci_prompt :: "prompt_value list"
  ci_consentRequired :: bool
  ci_approvalRequired :: bool
  ci_approved :: bool

datatype consent_decision =
    ConsentNotRequired
  | ConsentAsk (ask_default: "string list") (ask_optional: "string list")
      (ask_granted: "string list")
  | ConsentRefuse

definition needsApproval :: "string \<Rightarrow> bool" where
  "needsApproval registrationOrigin \<longleftrightarrow>
     registrationOrigin = ''anonymous'' \<or> registrationOrigin = ''cimd''"

definition decideConsent :: "consent_input \<Rightarrow> consent_decision" where
  "decideConsent input =
     (let requested = set (ci_requestedScopes input);
          granted = set (ci_grantedScopes input);
          askDefault = filter (\<lambda>s. s \<in> requested) (ci_defaultScopes input);
          askOptional = filter (\<lambda>s. s \<in> requested) (ci_optionalScopes input);
          alreadyGranted = filter (\<lambda>s. s \<in> granted \<and> s \<noteq> MCP_WRITE_SCOPE) askOptional;
          ask = ConsentAsk askDefault askOptional alreadyGranted;
          askOrRefuse = (if PromptNone \<in> set (ci_prompt input) then ConsentRefuse else ask)
      in if PromptConsent \<in> set (ci_prompt input) then ask
         else if MCP_WRITE_SCOPE \<in> set (askDefault @ askOptional) then askOrRefuse
         else if ci_approvalRequired input \<and> \<not> ci_approved input then askOrRefuse
         else if \<not> ci_consentRequired input then ConsentNotRequired
         else if \<not> list_ex (\<lambda>s. s \<notin> granted) (askDefault @ askOptional)
         then ConsentNotRequired
         else askOrRefuse)"

section \<open>The mcp registration policy\<close>

definition REGISTRATION_SCOPES :: "string list" where
  "REGISTRATION_SCOPES = [''openid'', ''profile'', ''email'', ''offline_access'', MCP_READ_SCOPE]"

definition REGISTRATION_GRANTS :: "string list" where
  "REGISTRATION_GRANTS = [''authorization_code'', ''refresh_token'']"

record registration_input =
  ri_redirectUris :: "string list"
  ri_grantTypes :: "string list"
  ri_tokenEndpointAuthMethod :: string
  ri_scope :: "json option"
  ri_audience :: "json option"
  ri_mcpAudience :: string
  ri_holdsKeys :: bool
  ri_hasLogoutUri :: bool

datatype registration_error = InvalidRedirectUri | InvalidClientMetadata

datatype registration_decision =
    RegistrationOk "string list" "string option"
  | RegistrationInvalid registration_error string

definition isLoopbackHost :: "string \<Rightarrow> bool" where
  "isLoopbackHost hostname \<longleftrightarrow>
     hostname = ''127.0.0.1'' \<or> hostname = ''[::1]'' \<or> hostname = ''localhost''"

definition isHttpsOrLoopbackHttp :: "url_parser \<Rightarrow> string \<Rightarrow> bool" where
  "isHttpsOrLoopbackHttp URL raw =
     (case URL raw of
        None \<Rightarrow> False
      | Some url \<Rightarrow> url_protocol url = ''https:''
          \<or> (url_protocol url = ''http:'' \<and> isLoopbackHost (url_hostname url)))"

definition audienceRefusal :: "json option \<Rightarrow> string \<Rightarrow> string option" where
  "audienceRefusal audience mcpAudience =
     (case audience of
        None \<Rightarrow> None
      | Some a \<Rightarrow>
          (let listed = (case a of JArr xs \<Rightarrow> xs | _ \<Rightarrow> [a])
           in if listed = [JStr mcpAudience] then None
              else Some (''audience must be '' @ mcpAudience @
                '' and nothing else under this tenant's registration policy'')))"

text \<open>\<open>scope.split(/\s+/u).filter((token) => token !== '')\<close>\<close>

fun split_space :: "string \<Rightarrow> string list" where
  "split_space [] = [[]]"
| "split_space (c # cs) =
     (if is_js_space c then [] # split_space cs
      else (case split_space cs of [] \<Rightarrow> [[c]] | p # ps \<Rightarrow> (c # p) # ps))"

definition space_tokens :: "string \<Rightarrow> string list" where
  "space_tokens s = filter (\<lambda>t. t \<noteq> []) (split_space s)"

datatype scope_decision = ScopeOk "string option" | ScopeRefused string

definition registrableScope :: "json option \<Rightarrow> scope_decision" where
  "registrableScope scope =
     (case scope of
        None \<Rightarrow> ScopeOk None
      | Some (JStr s) \<Rightarrow>
          (let asked = space_tokens s;
               held = js_unique (filter (\<lambda>t. t \<in> set REGISTRATION_SCOPES) asked)
           in if held = [] \<and> asked \<noteq> []
              then ScopeRefused (''scope '' @ hd asked @
                '' is not available under this tenant's registration policy'')
              else ScopeOk (Some (join_scope held)))
      | Some _ \<Rightarrow> ScopeRefused ''scope must be a space-separated string'')"

definition scopeHeldOf :: "string option \<Rightarrow> string list \<Rightarrow> string option" where
  "scopeHeldOf asked assigned =
     map_option (\<lambda>a. join_scope (filter (\<lambda>t. t \<in> set assigned) (js_split CHR '' '' a))) asked"

definition decideMcpRegistration :: "url_parser \<Rightarrow> registration_input \<Rightarrow> registration_decision" where
  "decideMcpRegistration URL input =
     (if ri_tokenEndpointAuthMethod input \<noteq> ''none'' then
        RegistrationInvalid InvalidClientMetadata
          ''token_endpoint_auth_method must be none: this tenant's registration policy admits public clients only''
      else case find (\<lambda>g. g \<notin> set REGISTRATION_GRANTS) (ri_grantTypes input) of
        Some badGrant \<Rightarrow>
          RegistrationInvalid InvalidClientMetadata (''grant_types must not include '' @ badGrant)
      | None \<Rightarrow>
      if ri_holdsKeys input then
        RegistrationInvalid InvalidClientMetadata
          ''jwks and jwks_uri are not accepted: a public client holds no key''
      else if ri_hasLogoutUri input then
        RegistrationInvalid InvalidClientMetadata
          ''logout addresses are not accepted under this tenant's registration policy''
      else case find (\<lambda>uri. \<not> isHttpsOrLoopbackHttp URL uri) (ri_redirectUris input) of
        Some badRedirect \<Rightarrow>
          RegistrationInvalid InvalidRedirectUri
            (''redirect_uris entry '' @ badRedirect @ '' must be https, or http on a loopback host'')
      | None \<Rightarrow>
      (case registrableScope (ri_scope input) of
         ScopeRefused description \<Rightarrow> RegistrationInvalid InvalidClientMetadata description
       | ScopeOk scope \<Rightarrow>
      (case audienceRefusal (ri_audience input) (ri_mcpAudience input) of
         Some problem \<Rightarrow> RegistrationInvalid InvalidClientMetadata problem
       | None \<Rightarrow> RegistrationOk [ri_mcpAudience input] scope)))"

definition isMcpUrl :: "url_parser \<Rightarrow> string \<Rightarrow> bool" where
  "isMcpUrl URL audience =
     (case URL audience of None \<Rightarrow> False | Some u \<Rightarrow> suffix MCP_RESOURCE_PATH (url_pathname u))"

definition audiencesUnderPolicy :: "url_parser \<Rightarrow> string list \<Rightarrow> string \<Rightarrow> bool \<Rightarrow> string list" where
  "audiencesUnderPolicy URL current mcpAudience policyIsMcp =
     (if policyIsMcp then [mcpAudience] else filter (\<lambda>a. \<not> isMcpUrl URL a) current)"

record mcp_policy_grant =
  mg_audience :: string
  mg_granted :: bool

definition mcpGrantOf :: "string \<Rightarrow> string \<Rightarrow> mcp_policy_grant" where
  "mcpGrantOf policy mcpAudience = \<lparr>mg_audience = mcpAudience, mg_granted = (policy = ''mcp'')\<rparr>"

definition NO_MCP_GRANT :: mcp_policy_grant where
  "NO_MCP_GRANT = \<lparr>mg_audience = [], mg_granted = False\<rparr>"

definition grantForClient :: "mcp_policy_grant \<Rightarrow> bool \<Rightarrow> mcp_policy_grant" where
  "grantForClient policy publicClient =
     (if publicClient then policy else policy\<lparr>mg_granted := False\<rparr>)"

definition grantableScopes :: "string \<Rightarrow> string list \<Rightarrow> string list" where
  "grantableScopes registrationOrigin requestedScopes =
     (if \<not> needsApproval registrationOrigin then requestedScopes
      else let kept = filter (\<lambda>s. s \<noteq> MCP_WRITE_SCOPE) requestedScopes
           in if kept = [] then requestedScopes else kept)"

text \<open>\<open>requestWithGrantableScope\<close> on the \<open>scope\<close> member it rewrites.\<close>

definition requestWithGrantableScope :: "string \<Rightarrow> string option \<Rightarrow> string option" where
  "requestWithGrantableScope registrationOrigin scope =
     (case scope of
        None \<Rightarrow> None
      | Some s \<Rightarrow>
          (let asked = tokens s; grantable = grantableScopes registrationOrigin asked
           in if length grantable = length asked then Some s else Some (join_scope grantable)))"

definition refusesWriteScope :: "string \<Rightarrow> string list \<Rightarrow> bool" where
  "refusesWriteScope registrationOrigin requestedScopes \<longleftrightarrow>
     needsApproval registrationOrigin \<and> MCP_WRITE_SCOPE \<in> set requestedScopes"

definition audiencesHeld ::
  "url_parser \<Rightarrow> string \<Rightarrow> string \<Rightarrow> string list \<Rightarrow> string \<Rightarrow> string list" where
  "audiencesHeld URL registrationOrigin policy audiences mcpAudience =
     (if \<not> needsApproval registrationOrigin then audiences
      else let others = filter (\<lambda>a. \<not> isMcpUrl URL a) audiences;
               heldOne = length others < length audiences
           in if policy = ''mcp'' \<and> heldOne then others @ [mcpAudience] else others)"

definition refreshUnderPolicy ::
  "url_parser \<Rightarrow> string \<Rightarrow> string \<Rightarrow> string \<Rightarrow> string list \<Rightarrow> string list
     \<Rightarrow> string list \<times> string list" where
  "refreshUnderPolicy URL registrationOrigin policy mcpAudience scope audience =
     (let audience' = audiencesHeld URL registrationOrigin policy audience mcpAudience
      in if \<not> needsApproval registrationOrigin \<or> policy = ''mcp'' then (scope, audience')
         else (filter (\<lambda>s. s \<noteq> MCP_READ_SCOPE) scope, audience'))"

lemma refreshUnderPolicy_scope_subset:
  "refreshUnderPolicy URL origin policy mcp scope audience = (scope', audience') \<Longrightarrow>
     set scope' \<subseteq> set scope"
  by (auto simp: refreshUnderPolicy_def Let_def split: if_splits)

lemma audiencesHeld_subset:
  "set (audiencesHeld URL origin policy audiences mcp) \<subseteq> set audiences \<union> {mcp}"
  by (auto simp: audiencesHeld_def Let_def)

lemma registrable_scope_held:
  "registrableScope scope = ScopeOk (Some s) \<Longrightarrow> set (tokens s) \<subseteq> set REGISTRATION_SCOPES"
proof -
  assume "registrableScope scope = ScopeOk (Some s)"
  then obtain a where "s = join_scope (js_unique (filter (\<lambda>t. t \<in> set REGISTRATION_SCOPES) a))"
    by (auto simp: registrableScope_def Let_def split: option.splits json.splits if_splits)
  moreover have "\<forall>t \<in> set REGISTRATION_SCOPES. scope_token t"
    by (simp add: REGISTRATION_SCOPES_def MCP_READ_SCOPE_def scope_token_def)
  ultimately have "tokens s = js_unique (filter (\<lambda>t. t \<in> set REGISTRATION_SCOPES) a)"
    by (simp add: tokens_join_scope)
  then show ?thesis by auto
qed

section \<open>Narrowing\<close>

text \<open>
  The interface every rule that cuts a scope down shares: under one policy it returns a part of
  what it was given, and cutting twice is cutting once. What follows for a chain of requests
  is proved here once.
\<close>

locale narrowing =
  fixes narrow :: "'p \<Rightarrow> string list \<Rightarrow> string list"
  assumes narrow_subset: "set (narrow p scope) \<subseteq> set scope"
    and narrow_idem: "narrow p (narrow p scope) = narrow p scope"
begin

fun chain :: "'p list \<Rightarrow> string list \<Rightarrow> string list" where
  "chain [] scope = scope"
| "chain (p # ps) scope = chain ps (narrow p scope)"

lemma chain_subset: "set (chain ps scope) \<subseteq> set scope"
proof (induction ps arbitrary: scope)
  case (Cons p ps)
  then show ?case using narrow_subset [of p scope] by fastforce
qed simp

lemma chain_no_mcp: "\<not> holdsMcpScope scope \<Longrightarrow> \<not> holdsMcpScope (chain ps scope)"
  using chain_subset holdsMcpScope_mono by blast

lemma chain_same: "chain (replicate (Suc n) p) scope = narrow p scope"
  by (induction n arbitrary: scope) (auto simp: narrow_idem)

end

interpretation grantable: narrowing grantableScopes
  by unfold_locales (auto simp: grantableScopes_def Let_def filter_empty_conv)

text \<open>The scope half of a refresh under a policy, and a scope cut to an allowlist.\<close>

definition refreshScopeUnderPolicy :: "string \<times> string \<Rightarrow> string list \<Rightarrow> string list" where
  "refreshScopeUnderPolicy = (\<lambda>(registrationOrigin, policy) scope.
     if \<not> needsApproval registrationOrigin \<or> policy = ''mcp'' then scope
     else filter (\<lambda>s. s \<noteq> MCP_READ_SCOPE) scope)"

lemma refreshUnderPolicy_scope:
  "fst (refreshUnderPolicy URL origin policy mcp scope audience) =
     refreshScopeUnderPolicy (origin, policy) scope"
  by (simp add: refreshUnderPolicy_def refreshScopeUnderPolicy_def Let_def)

interpretation policy_scope: narrowing refreshScopeUnderPolicy
  by unfold_locales (auto simp: refreshScopeUnderPolicy_def split: if_splits)

section \<open>Token lifetimes\<close>

record token_lifetimes =
  tl_accessTokenTtlSeconds :: int
  tl_idTokenTtlSeconds :: int
  tl_refreshTokenTtlSeconds :: int

record client_token_lifetimes =
  cl_accessTtl :: "int option"
  cl_idTtl :: "int option"
  cl_refreshTtl :: "int option"

definition effectiveLifetimes :: "client_token_lifetimes \<Rightarrow> token_lifetimes \<Rightarrow> token_lifetimes" where
  "effectiveLifetimes client tenant =
     \<lparr>tl_accessTokenTtlSeconds = coalesce (cl_accessTtl client) (tl_accessTokenTtlSeconds tenant),
      tl_idTokenTtlSeconds = coalesce (cl_idTtl client) (tl_idTokenTtlSeconds tenant),
      tl_refreshTokenTtlSeconds =
        coalesce (cl_refreshTtl client) (tl_refreshTokenTtlSeconds tenant)\<rparr>"

end
