(* ===== verification/Schema.thy ===== *)
theory Schema
  imports Registration_Policy
begin

text \<open>
  The rows and exceptions the token endpoint works on: the records of
  \<open>packages/protocol-oidc/src/schema\<close>, of \<open>domain-tenant\<close>, \<open>domain-identity\<close>,
  \<open>authn-flows\<close>, \<open>crypto\<close> and \<open>domain-audit\<close>, the exceptions of
  \<open>service/errors.ts\<close>, and the state of one tenant's tables. Columns nothing modelled reads
  (names, descriptions, display metadata, timestamps kept for listings) are left out.
\<close>

section \<open>Rows\<close>

datatype client_type = Public | Confidential

record client =
  cl_id :: string
  cl_clientId :: string
  cl_enabled :: bool
  cl_type :: client_type
  cl_secretHash :: "string option"
  cl_previousSecretHash :: "string option"
  cl_previousSecretExpiresAt :: "time option"
  cl_serviceSubjectId :: "string option"
  cl_fullScopeAllowed :: bool
  cl_registrationOrigin :: string

datatype auth_method = AuthNone | ClientSecretBasic | ClientSecretPost | PrivateKeyJwt | TlsClientAuth

record oidc_config =
  oc_clientId :: string
  oc_redirectUris :: "string list"
  oc_grantTypes :: "string list"
  oc_authMethod :: auth_method
  oc_audiences :: "string list"
  oc_lifetimes :: client_token_lifetimes
  oc_clientCredentialsScopes :: "string list"
  oc_impersonationAllowed :: bool
  oc_allowedForPublic :: bool
  oc_actorFromOtherClient :: bool
  oc_idTokenSignedResponseAlg :: "string option"
  oc_requireAuthTime :: bool
  oc_backchannelLogoutUri :: "string option"
  oc_jwks :: "json option"
  oc_jwksUri :: "string option"
  oc_tlsClientAuthSubjectDn :: "string option"
  oc_postLogoutRedirectUris :: "string list"
  oc_frontchannelLogoutUri :: "string option"
  oc_frontchannelLogoutSessionRequired :: bool
  oc_consentRequired :: bool
  oc_defaultMaxAge :: "int option"

record subject =
  sj_id :: string
  sj_disabledAt :: "time option"

record session =
  ss_id :: string
  ss_subjectId :: string
  ss_createdAt :: time
  ss_expiresAt :: time
  ss_lastActiveAt :: time
  ss_authenticators :: "string list"
  ss_remembered :: bool
  ss_secretHash :: "string option"

text \<open>The stored \<open>claims\<close> parameter (\<open>service/claims-request.ts\<close>).\<close>

record claim_entry =
  ce_essential :: bool
  ce_value :: "string option"
  ce_values :: "string list option"

record claims_request =
  cq_idToken :: "(string \<times> claim_entry) list"
  cq_userinfo :: "(string \<times> claim_entry) list"

record auth_code =
  ac_codeHash :: string
  ac_clientId :: string
  ac_subjectId :: string
  ac_redirectUri :: string
  ac_scope :: string
  ac_nonce :: "string option"
  ac_codeChallenge :: string
  ac_authTime :: time
  ac_expiresAt :: time
  ac_consumedAt :: "time option"
  ac_grantId :: "string option"
  ac_sessionId :: "string option"
  ac_resource :: "string list"
  ac_claims :: claims_request

record token_grant =
  tg_id :: string
  tg_clientId :: string
  tg_subjectId :: string
  tg_scope :: string
  tg_audience :: "string list"
  tg_createdAt :: time
  tg_revokedAt :: "time option"
  tg_sessionId :: "string option"
  tg_actorSubjectId :: "string option"
  tg_exchangedFromGrantId :: "string option"
  tg_actChain :: "json option"
  tg_expCeiling :: "time option"
  tg_requestedUserinfoClaims :: "string list option"
  tg_agentWrites :: int
  tg_agentCreates :: int
  tg_budgetGrantId :: "string option"

record refresh_token =
  rt_tokenHash :: string
  rt_grantId :: string
  rt_issuedAt :: time
  rt_expiresAt :: time
  rt_usedAt :: "time option"
  rt_replacedBy :: "string option"

record client_scope =
  cs_id :: string
  cs_name :: string
  cs_includeInIdToken :: bool
  cs_includeInAccessToken :: bool

datatype key_status = KeyActive | KeyRotating | KeyRetired

record signing_key =
  sk_kid :: string
  sk_alg :: string
  sk_status :: key_status

datatype audit_outcome = Allowed | Refused | Failed

record audit_event =
  ae_eventType :: string
  ae_action :: string
  ae_outcome :: audit_outcome
  ae_actorSubjectId :: "string option"
  ae_actorClientId :: "string option"
  ae_resourceType :: "string option"
  ae_resourceId :: "string option"
  ae_detail :: obj

record logout_delivery =
  ld_clientId :: string
  ld_sessionId :: string
  ld_endpoint :: string
  ld_logoutToken :: string
  ld_nextAttemptAt :: time

record assertion_jti =
  aj_oauthClientId :: string
  aj_jti :: string
  aj_expiresAt :: time

section \<open>Exceptions\<close>

datatype token_error_code =
    InvalidClient | InvalidGrant | InvalidRequest | InvalidScope | InvalidTarget
  | UnauthorizedClient | UnsupportedGrantType

record refusal_audit =
  ra_action :: string
  ra_reason :: string
  ra_clientDbId :: string
  ra_subjectId :: "string option"
  ra_grantId :: "string option"
  ra_method :: "string option"

record token_error =
  te_error :: token_error_code
  te_status :: int
  te_wwwAuthenticate :: "string option"
  te_audit :: "refusal_audit option"

text \<open>
  What an \<open>async\<close> function of the endpoint throws: a \<open>TokenError\<close>, a
  \<open>TokenRateLimited\<close>, a database error, or any other \<open>Error\<close>.
\<close>

datatype exn =
    TokenError token_error
  | TokenRateLimited int "refusal_audit option"
  | ForeignKeyViolation string
  | UniqueViolation string
  | Thrown string

definition token_error_of :: "token_error_code \<Rightarrow> int \<Rightarrow> string option \<Rightarrow> token_error" where
  "token_error_of code status www =
     \<lparr>te_error = code, te_status = status, te_wwwAuthenticate = www, te_audit = None\<rparr>"

definition withAudit :: "token_error \<Rightarrow> refusal_audit \<Rightarrow> token_error" where
  "withAudit err au = err\<lparr>te_audit := Some au\<rparr>"

definition invalidGrant :: token_error where
  "invalidGrant = token_error_of InvalidGrant 400 None"

definition invalidClient :: "string \<Rightarrow> token_error" where
  "invalidClient www = token_error_of InvalidClient 401 (Some www)"

definition invalidRequest :: token_error where
  "invalidRequest = token_error_of InvalidRequest 400 None"

definition unsupportedGrantType :: token_error where
  "unsupportedGrantType = token_error_of UnsupportedGrantType 400 None"

definition invalidScope :: token_error where
  "invalidScope = token_error_of InvalidScope 400 None"

definition unauthorizedClient :: token_error where
  "unauthorizedClient = token_error_of UnauthorizedClient 400 None"

definition invalidTarget :: token_error where
  "invalidTarget = token_error_of InvalidTarget 400 None"

lemmas token_error_defs =
  token_error_of_def invalidGrant_def invalidClient_def invalidRequest_def
  unsupportedGrantType_def invalidScope_def unauthorizedClient_def invalidTarget_def

text \<open>What the response shows of an error: never the audit annotation.\<close>

definition response_of :: "token_error \<Rightarrow> token_error_code \<times> int \<times> string option" where
  "response_of e = (te_error e, te_status e, te_wwwAuthenticate e)"

lemma response_withAudit [simp]: "response_of (withAudit e au) = response_of e"
  by (simp add: response_of_def withAudit_def)

section \<open>One tenant's tables\<close>

record store =
  st_clients :: "client list"
  st_configs :: "oidc_config list"
  st_subjects :: "subject list"
  st_sessions :: "session list"
  st_codes :: "auth_code list"
  st_grants :: "token_grant list"
  st_refresh :: "refresh_token list"
  st_scopes :: "client_scope list"
  st_assignments :: "(string \<times> string) list"
  st_scopeRoles :: "(string \<times> string) list"
  st_keys :: "signing_key list"
  st_jtis :: "assertion_jti list"
  st_audit :: "audit_event list"
  st_deliveries :: "logout_delivery list"
  st_auditTypes :: "string list option"
  st_policy :: "string option"
  st_lifetimes :: token_lifetimes

section \<open>What the code is given\<close>

text \<open>
  The platform: Node's \<open>URL\<close> and \<open>crypto\<close>, and the \<open>jose\<close> package. \<open>pf_header\<close>
  is the base64url and JSON reading of a token's header, \<open>pf_verify\<close> is \<open>jwtVerify\<close> for a
  key, a list of issuers, an audience or none, and whether the clock is the epoch.
\<close>

record platform =
  pf_URL :: url_parser
  pf_sha256 :: "string \<Rightarrow> string"
  pf_sign :: "signing_key \<Rightarrow> string option \<Rightarrow> obj \<Rightarrow> string"
  pf_header :: "string \<Rightarrow> obj option"
  pf_verify :: "signing_key \<Rightarrow> string list \<Rightarrow> string list option \<Rightarrow> bool \<Rightarrow> string \<Rightarrow> obj option"

record effective_role =
  er_roleId :: string
  er_name :: string
  er_clientKey :: "string option"

text \<open>\<open>ClaimContext\<close> with the bindings that travel beside it (\<open>LoadedClaimContext\<close>).\<close>

record claim_context =
  cx_subjectId :: string
  cx_user :: "obj option"
  cx_roles :: "effective_role list"
  cx_groups :: "string list"
  cx_bindings :: "(string \<times> string list) list"

record lifespans =
  lf_ssoIdle :: int
  lf_ssoMax :: int
  lf_rememberIdle :: int
  lf_rememberMax :: int

text \<open>
  The dependencies of one request: its issuer, the issuers it accepts, the clock, the start of
  the request's transaction as the database reads it (\<open>now()\<close>), the tenant's session
  lifespans, the claim mappers and the claim context they are given, the random values the
  request draws (\<open>newId\<close>, \<open>generateRefreshToken\<close>), and the audit rows the database
  refuses to store.
\<close>

record deps =
  dp_platform :: platform
  dp_issuer :: string
  dp_acceptedIssuers :: "string list"
  dp_now :: time
  dp_dbNow :: time
  dp_lifespans :: lifespans
  dp_claims :: "string \<Rightarrow> claim_context"
  dp_assemble :: "string list \<Rightarrow> claim_context \<Rightarrow> obj"
  dp_newGrantId :: string
  dp_newJti :: string
  dp_newRefresh :: string
  dp_auditRefused :: "audit_event \<Rightarrow> bool"

end
