(* ===== verification/Token_Rules.thy ===== *)
theory Token_Rules
  imports Schema
begin

text \<open>
  The grant rules of the token endpoint that run no query: PKCE (\<open>pkce.ts\<close>), the
  authorization code, client credentials and refresh decisions
  (\<open>authorization-code-grant.ts\<close>, \<open>client-credentials-grant.ts\<close>, \<open>refresh.ts\<close>),
  token exchange (\<open>token-exchange.ts\<close>), the claims of a token (\<open>token-claims.ts\<close>,
  \<open>issued-claims.ts\<close>, \<open>scope-mapping.ts\<close>) and what authenticated it (\<open>acr.ts\<close>).
\<close>

section \<open>PKCE and subjects\<close>

text \<open>\<open>/^[A-Za-z0-9\-._~]{43,128}$/\<close>\<close>

definition is_unreserved :: "char \<Rightarrow> bool" where
  "is_unreserved c \<longleftrightarrow>
     (CHR ''A'' \<le> c \<and> c \<le> CHR ''Z'') \<or> (CHR ''a'' \<le> c \<and> c \<le> CHR ''z'')
     \<or> (CHR ''0'' \<le> c \<and> c \<le> CHR ''9'') \<or> c \<in> {CHR ''-'', CHR ''.'', CHR ''_'', CHR ''~''}"

definition isWellFormedPkceString :: "string \<Rightarrow> bool" where
  "isWellFormedPkceString value \<longleftrightarrow>
     43 \<le> length value \<and> length value \<le> 128 \<and> list_all is_unreserved value"

definition verifyPkce :: "(string \<Rightarrow> string) \<Rightarrow> string \<Rightarrow> string \<Rightarrow> bool" where
  "verifyPkce sha256 verifier challenge =
     (if \<not> isWellFormedPkceString verifier then False else sha256 verifier = challenge)"

definition subjectIsEnabled :: "subject option \<Rightarrow> bool" where
  "subjectIsEnabled sj = (case sj of None \<Rightarrow> False | Some s \<Rightarrow> sj_disabledAt s = None)"

section \<open>Grant decisions\<close>

datatype code_refusal = ClientMismatch | RedirectUriMismatch | PkceMismatch

definition evaluateAuthorizationCodeGrant ::
  "(string \<Rightarrow> string) \<Rightarrow> auth_code \<Rightarrow> client \<Rightarrow> string \<Rightarrow> string \<Rightarrow> code_refusal option" where
  "evaluateAuthorizationCodeGrant sha256 record client redirectUri codeVerifier =
     (if ac_clientId record \<noteq> cl_id client then Some ClientMismatch
      else if ac_redirectUri record \<noteq> redirectUri then Some RedirectUriMismatch
      else if \<not> verifyPkce sha256 codeVerifier (ac_codeChallenge record) then Some PkceMismatch
      else None)"

datatype cc_refusal = NotConfidential | NoServiceSubject | CcScopeWidened

definition evaluateClientCredentialsGrant ::
  "client \<Rightarrow> string list \<Rightarrow> string \<Rightarrow> cc_refusal + string list" where
  "evaluateClientCredentialsGrant client allowedScopes requestedScope =
     (if cl_type client \<noteq> Confidential then Inl NotConfidential
      else if cl_serviceSubjectId client = None then Inl NoServiceSubject
      else let requestedTokens = tokens requestedScope
           in if list_ex (\<lambda>t. t \<notin> set allowedScopes) requestedTokens then Inl CcScopeWidened
              else Inr requestedTokens)"

datatype refresh_refusal =
    RefreshClientMismatch | GrantRevoked | SubjectDisabled | WriteNotRefreshable
  | ScopeWidened | McpScopeDropped

definition refusalIsAboutScope :: "refresh_refusal \<Rightarrow> bool" where
  "refusalIsAboutScope reason \<longleftrightarrow> reason = ScopeWidened \<or> reason = McpScopeDropped"

definition evaluateRefreshGrant ::
  "token_grant \<Rightarrow> client \<Rightarrow> subject \<Rightarrow> string \<Rightarrow> refresh_refusal + string list" where
  "evaluateRefreshGrant grant client subject requestedScope =
     (if tg_clientId grant \<noteq> cl_id client then Inl RefreshClientMismatch
      else if tg_revokedAt grant \<noteq> None then Inl GrantRevoked
      else if \<not> subjectIsEnabled (Some subject) then Inl SubjectDisabled
      else
        (let grantedTokens = tokens (tg_scope grant);
             requestedTokens =
               (if length (js_trim requestedScope) > 0 then tokens requestedScope
                else grantedTokens)
         in if \<not> refreshAllowedForScope grantedTokens then Inl WriteNotRefreshable
            else if list_ex (\<lambda>t. t \<notin> set grantedTokens) requestedTokens then Inl ScopeWidened
            else if holdsMcpScope grantedTokens \<and> \<not> holdsMcpScope requestedTokens
            then Inl McpScopeDropped
            else Inr requestedTokens))"

lemma evaluateRefreshGrant_Inr:
  assumes "evaluateRefreshGrant grant client subject requestedScope = Inr scope"
  shows "tg_clientId grant = cl_id client \<and> tg_revokedAt grant = None
    \<and> sj_disabledAt subject = None
    \<and> MCP_WRITE_SCOPE \<notin> set (tokens (tg_scope grant))
    \<and> set scope \<subseteq> set (tokens (tg_scope grant))
    \<and> (holdsMcpScope (tokens (tg_scope grant)) \<longrightarrow> holdsMcpScope scope)"
  using assms
  by (auto simp: evaluateRefreshGrant_def Let_def subjectIsEnabled_def list_ex_iff
      refreshAllowedForScope_def split: if_splits)

lemma evaluateClientCredentialsGrant_Inr:
  assumes "evaluateClientCredentialsGrant client allowed requested = Inr scope"
  shows "cl_type client = Confidential \<and> cl_serviceSubjectId client \<noteq> None
    \<and> scope = tokens requested \<and> set scope \<subseteq> set allowed"
  using assms
  by (auto simp: evaluateClientCredentialsGrant_def Let_def list_ex_iff split: if_splits)

section \<open>Token exchange\<close>

definition TOKEN_EXCHANGE_GRANT :: string where
  "TOKEN_EXCHANGE_GRANT = ''urn:ietf:params:oauth:grant-type:token-exchange''"

definition ACCESS_TOKEN_TYPE :: string where
  "ACCESS_TOKEN_TYPE = ''urn:ietf:params:oauth:token-type:access_token''"

definition REFRESH_TOKEN_TYPE :: string where
  "REFRESH_TOKEN_TYPE = ''urn:ietf:params:oauth:token-type:refresh_token''"

definition ID_TOKEN_TYPE :: string where
  "ID_TOKEN_TYPE = ''urn:ietf:params:oauth:token-type:id_token''"

datatype exchange_token_type = AccessToken | RefreshToken | IdToken

datatype token_type_outcome = Accepted exchange_token_type | TypeRefused | TypeDeferred | TypeUnknown

definition parseTokenType :: "string \<Rightarrow> token_type_outcome" where
  "parseTokenType raw =
     (case map_of [(ACCESS_TOKEN_TYPE, AccessToken), (REFRESH_TOKEN_TYPE, RefreshToken),
                   (ID_TOKEN_TYPE, IdToken)] raw of
        Some t \<Rightarrow> Accepted t
      | None \<Rightarrow>
          if raw = ''urn:ietf:params:oauth:token-type:jwt'' then TypeRefused
          else if raw \<in> {''urn:ietf:params:oauth:token-type:saml1'',
                         ''urn:ietf:params:oauth:token-type:saml2''} then TypeDeferred
          else TypeUnknown)"

text \<open>\<open>single\<close>: absent, more than one value (\<open>MANY\<close>), or the value.\<close>

datatype single_outcome = Absent | ManyValues | Single string

definition single :: "param option \<Rightarrow> single_outcome" where
  "single raw =
     (case raw of
        None \<Rightarrow> Absent
      | Some (Many xs) \<Rightarrow>
          (if length xs > 1 then ManyValues
           else case xs of [] \<Rightarrow> Absent | x # _ \<Rightarrow> Single x)
      | Some (One x) \<Rightarrow> Single x)"

definition resolveExchangeAudience ::
  "url_parser \<Rightarrow> param option \<Rightarrow> param option \<Rightarrow> string list \<Rightarrow> exchange_token_type
     \<Rightarrow> resource_outcome" where
  "resolveExchangeAudience URL rawResource rawAudience ceiling issuedType =
     (let resource = single rawResource; audience = single rawAudience
      in if resource = ManyValues \<or> audience = ManyValues then ResourceInvalidTarget
         else if issuedType = IdToken then
           (if resource = Absent \<and> audience = Absent then ResourceOk []
            else ResourceInvalidTarget)
         else if resource \<noteq> Absent \<and> audience \<noteq> Absent \<and> resource \<noteq> audience
         then ResourceInvalidTarget
         else case (resource, audience) of
             (Single r, _) \<Rightarrow> parseResource URL (Some (One r)) ceiling
           | (_, Single a) \<Rightarrow> (if a \<in> set ceiling then ResourceOk [a] else ResourceInvalidTarget)
           | _ \<Rightarrow> ResourceOk ceiling)"

definition attenuateScope :: "string \<Rightarrow> string list \<Rightarrow> string list option" where
  "attenuateScope requested granted =
     (if requested = [] then Some granted
      else let asked = js_unique (tokens requested)
           in if asked = [] then None
              else if list_all (\<lambda>t. t \<in> set granted) asked then Some asked
              else None)"

lemma exchange_audience_subset:
  "resolveExchangeAudience URL r a ceiling t = ResourceOk audience \<Longrightarrow>
     set audience \<subseteq> set ceiling"
  by (auto simp: resolveExchangeAudience_def Let_def split: if_splits single_outcome.splits
      dest!: parseResource_subset)

lemma attenuateScope_subset:
  "attenuateScope requested granted = Some scope \<Longrightarrow> set scope \<subseteq> set granted"
  by (auto simp: attenuateScope_def Let_def list_all_iff split: if_splits)

section \<open>Actor chains\<close>

datatype act_claim = Act (act_sub: string) (act_act: "act_claim option")

definition MAX_DELEGATION_DEPTH :: nat where
  "MAX_DELEGATION_DEPTH = 8"

datatype narrow_outcome = Narrowed act_claim | Malformed | TooDeep

fun narrowAct :: "json option \<Rightarrow> nat \<Rightarrow> narrow_outcome" where
  "narrowAct value 0 = TooDeep"
| "narrowAct value (Suc budget) =
     (case value of
        Some (JObj o1) \<Rightarrow>
          (case obj_get ''sub'' o1 of
             Some (JStr subject) \<Rightarrow>
               (if subject = [] then Malformed
                else case obj_get ''act'' o1 of
                    None \<Rightarrow> Narrowed (Act subject None)
                  | Some nested \<Rightarrow>
                      (case narrowAct (Some nested) budget of
                         Narrowed inner \<Rightarrow> Narrowed (Act subject (Some inner))
                       | Malformed \<Rightarrow> Malformed
                       | TooDeep \<Rightarrow> TooDeep))
           | _ \<Rightarrow> Malformed)
      | _ \<Rightarrow> Malformed)"

definition buildActChain :: "string \<Rightarrow> json option \<Rightarrow> narrow_outcome" where
  "buildActChain actorSubject priorAct =
     (case priorAct of
        None \<Rightarrow> Narrowed (Act actorSubject None)
      | Some p \<Rightarrow>
          (case narrowAct (Some p) (MAX_DELEGATION_DEPTH - 1) of
             TooDeep \<Rightarrow> TooDeep
           | Malformed \<Rightarrow> Malformed
           | Narrowed inner \<Rightarrow> Narrowed (Act actorSubject (Some inner))))"

definition narrowActClaim :: "json option \<Rightarrow> act_claim option" where
  "narrowActClaim value =
     (if value = None \<or> value = Some JNull then None
      else case narrowAct value MAX_DELEGATION_DEPTH of Narrowed a \<Rightarrow> Some a | _ \<Rightarrow> None)"

definition mayActPermits :: "json option \<Rightarrow> string \<Rightarrow> bool" where
  "mayActPermits mayAct actorSubject =
     (case mayAct of
        None \<Rightarrow> True
      | Some (JObj o1) \<Rightarrow> obj_get ''sub'' o1 = Some (JStr actorSubject)
      | Some _ \<Rightarrow> False)"

text \<open>The value as JSON, which is how it is signed and stored.\<close>

fun act_json :: "act_claim \<Rightarrow> json" where
  "act_json (Act sub None) = JObj [(''sub'', JStr sub)]"
| "act_json (Act sub (Some inner)) = JObj [(''sub'', JStr sub), (''act'', act_json inner)]"

fun act_depth :: "act_claim \<Rightarrow> nat" where
  "act_depth (Act sub None) = 1"
| "act_depth (Act sub (Some inner)) = Suc (act_depth inner)"

fun act_named :: "act_claim \<Rightarrow> bool" where
  "act_named (Act sub None) = (sub \<noteq> [])"
| "act_named (Act sub (Some inner)) = (sub \<noteq> [] \<and> act_named inner)"

lemma narrowAct_bound:
  "narrowAct v budget = Narrowed a \<Longrightarrow> act_depth a \<le> budget \<and> act_named a"
proof (induction v budget arbitrary: a rule: narrowAct.induct)
  case (2 v budget)
  then show ?case
    by (auto split: option.splits json.splits if_splits narrow_outcome.splits)
qed simp

lemma narrowAct_act_json:
  "act_depth a \<le> budget \<Longrightarrow> act_named a \<Longrightarrow> narrowAct (Some (act_json a)) budget = Narrowed a"
proof (induction a arbitrary: budget rule: act_json.induct)
  case (1 sub)
  then show ?case by (cases budget) auto
next
  case (2 sub inner)
  then show ?case by (cases budget) auto
qed

text \<open>What is built for a named actor is read back from the grant it is stored on.\<close>

lemma buildActChain_stored:
  assumes "buildActChain actorSubject prior = Narrowed a" "actorSubject \<noteq> []"
  shows "narrowActClaim (Some (act_json a)) = Some a"
proof -
  have bounds: "act_depth a \<le> MAX_DELEGATION_DEPTH \<and> act_named a"
    using assms
    by (auto simp: buildActChain_def MAX_DELEGATION_DEPTH_def dest: narrowAct_bound
        split: option.splits narrow_outcome.splits)
  moreover have "act_json a \<noteq> JNull" by (cases a rule: act_json.cases) auto
  ultimately show ?thesis by (simp add: narrowActClaim_def narrowAct_act_json)
qed

section \<open>Claims\<close>

definition withRegisteredClaimsWinning :: "obj \<Rightarrow> obj \<Rightarrow> obj" where
  "withRegisteredClaimsWinning mapped registered = obj_spread mapped registered"

definition narrowByScopeMappings ::
  "effective_role list \<Rightarrow> string list \<Rightarrow> bool \<Rightarrow> effective_role list" where
  "narrowByScopeMappings held reachableRoleIds fullScopeAllowed =
     (if fullScopeAllowed then held
      else filter (\<lambda>role. er_roleId role \<in> set reachableRoleIds) held)"

definition mappedClaims ::
  "(string list \<Rightarrow> claim_context \<Rightarrow> obj) \<Rightarrow> string list \<Rightarrow> claim_context \<Rightarrow> string list \<Rightarrow> bool
     \<Rightarrow> obj" where
  "mappedClaims assemble scope loaded reachableRoleIds fullScopeAllowed =
     assemble scope
       (loaded\<lparr>cx_roles := narrowByScopeMappings (cx_roles loaded) reachableRoleIds fullScopeAllowed\<rparr>)"

definition idTokenScopeOf :: "client_scope list \<Rightarrow> string list \<Rightarrow> string list" where
  "idTokenScopeOf assigned scope =
     map cs_name (filter (\<lambda>cs. cs_name cs \<in> set scope \<and> cs_includeInIdToken cs) assigned)"

definition AMR_VALUES :: "string \<Rightarrow> string list" where
  "AMR_VALUES name =
     (if name = ''password'' then [''pwd'']
      else if name = ''otp'' then [''otp'']
      else if name = ''passkey'' then [''hwk'', ''user''] else [])"

definition amrFor :: "string list \<Rightarrow> string list" where
  "amrFor authenticators = sort (js_unique (concat (map AMR_VALUES authenticators)))"

definition FACTOR_COUNT :: "string \<Rightarrow> int" where
  "FACTOR_COUNT name = (if name = ''passkey'' then 2 else 1)"

definition acrFor :: "string list \<Rightarrow> string option" where
  "acrFor authenticators =
     (if authenticators = [] then None
      else let factors = foldl (\<lambda>total name. total + FACTOR_COUNT name) 0 authenticators
           in Some (if factors \<ge> 2 then ''2'' else ''1''))"

lemma foldl_factors: "foldl (\<lambda>total name. total + FACTOR_COUNT name) n xs = n + sum_list (map FACTOR_COUNT xs)"
  by (induction xs arbitrary: n) auto

lemma factors_ge_length: "int (length xs) \<le> sum_list (map FACTOR_COUNT xs)"
  by (induction xs) (auto simp: FACTOR_COUNT_def)

lemma acrFor_two:
  "acrFor xs = Some ''2'' \<longleftrightarrow> length xs \<ge> 2 \<or> ''passkey'' \<in> set xs"
proof (cases xs)
  case (Cons x ys)
  have "sum_list (map FACTOR_COUNT xs) \<ge> 2 \<longleftrightarrow> length xs \<ge> 2 \<or> ''passkey'' \<in> set xs"
    using factors_ge_length [of ys] Cons by (cases ys) (auto simp: FACTOR_COUNT_def)
  then show ?thesis using Cons by (simp add: acrFor_def foldl_factors)
qed (simp add: acrFor_def)

end
