(* ===== verification/Repositories.thy ===== *)
theory Repositories
  imports Token_Rules
begin

text \<open>
  The repositories of the token endpoint, one definition per method: authorization codes
  (\<open>protocol-oidc/src/repository/codes.ts\<close>), refresh tokens (\<open>refresh.ts\<close>), grants and
  the write budget of an agent (\<open>grants.ts\<close>), spent assertions (\<open>assertion-jti.ts\<close>),
  sessions (\<open>authn-flows/src/repository/sessions.ts\<close>) and the audit trail
  (\<open>domain-audit/src/repository/audit.ts\<close>). Methods on one table are functions on its rows;
  those that insert are transactions, since a constraint may refuse the row. The foreign keys
  and primary keys are those of \<open>packages/db/drizzle\<close>.
\<close>

type_synonym 'a db = "(store, exn, 'a) tx"

section \<open>Single use\<close>

text \<open>
  The interface of a credential redeemed once: consuming a key reports the row or nothing, a
  key consumed is dead, a dead key is never reported again, and consuming one key revives no
  other. However the presentations are ordered, each key is reported at most once.
\<close>

locale single_use =
  fixes consume :: "time \<Rightarrow> 'k \<Rightarrow> 't \<Rightarrow> 'r option \<times> 't"
    and dead :: "'k \<Rightarrow> 't \<Rightarrow> bool"
    and invar :: "'t \<Rightarrow> bool"
  assumes consume_hit: "invar t \<Longrightarrow> consume now k t = (Some r, t') \<Longrightarrow> dead k t'"
    and consume_dead: "dead k t \<Longrightarrow> fst (consume now k t) = None"
    and dead_kept: "dead k t \<Longrightarrow> dead k (snd (consume now k' t))"
    and consume_invar: "invar t \<Longrightarrow> invar (snd (consume now k t))"
begin

fun presented :: "(time \<times> 'k) list \<Rightarrow> 't \<Rightarrow> ('k \<times> 'r option) list" where
  "presented [] t = []"
| "presented ((now, k) # ps) t = (k, fst (consume now k t)) # presented ps (snd (consume now k t))"

definition wins :: "'k \<Rightarrow> ('k \<times> 'r option) list \<Rightarrow> nat" where
  "wins k rs = length (filter (\<lambda>(k', r). k' = k \<and> r \<noteq> None) rs)"

lemma dead_no_wins: "dead k t \<Longrightarrow> wins k (presented ps t) = 0"
proof (induction ps arbitrary: t)
  case (Cons p ps)
  obtain now k' where p: "p = (now, k')" by (cases p)
  have "wins k (presented ps (snd (consume now k' t))) = 0"
    using Cons dead_kept by blast
  then show ?case
    using consume_dead [OF Cons.prems, of now] by (auto simp: wins_def p)
qed (simp add: wins_def)

lemma at_most_one: "invar t \<Longrightarrow> wins k (presented ps t) \<le> 1"
proof (induction ps arbitrary: t)
  case (Cons p ps)
  obtain now k' where p: "p = (now, k')" by (cases p)
  let ?c = "consume now k' t"
  have inv: "invar (snd ?c)" using Cons.prems by (rule consume_invar)
  show ?case
  proof (cases "k' = k \<and> fst ?c \<noteq> None")
    case True
    then have "dead k (snd ?c)" using consume_hit [OF Cons.prems] by (cases ?c) auto
    then have "wins k (presented ps (snd ?c)) = 0" by (rule dead_no_wins)
    with True show ?thesis by (simp add: wins_def p)
  next
    case False
    with Cons.IH [OF inv] show ?thesis by (auto simp: wins_def p)
  qed
qed (simp add: wins_def)

end

section \<open>Authorization codes\<close>

definition consume_code :: "time \<Rightarrow> string \<Rightarrow> auth_code list \<Rightarrow> auth_code option \<times> auth_code list" where
  "consume_code dbNow codeHash rows =
     (let p = (\<lambda>r. ac_codeHash r = codeHash \<and> ac_consumedAt r = None \<and> ac_expiresAt r > dbNow);
          f = (\<lambda>r. r\<lparr>ac_consumedAt := Some dbNow\<rparr>)
      in (first_row (returning p f rows), update_where p f rows))"

definition attachGrant :: "string \<Rightarrow> string \<Rightarrow> auth_code list \<Rightarrow> auth_code list" where
  "attachGrant codeHash grantId rows =
     update_where (\<lambda>r. ac_codeHash r = codeHash) (\<lambda>r. r\<lparr>ac_grantId := Some grantId\<rparr>) rows"

definition code_byHash :: "string \<Rightarrow> auth_code list \<Rightarrow> auth_code option" where
  "code_byHash codeHash rows = find (\<lambda>r. ac_codeHash r = codeHash) rows"

definition has_client :: "store \<Rightarrow> string \<Rightarrow> bool" where
  "has_client s i \<longleftrightarrow> i \<in> cl_id ` set (st_clients s)"

definition has_subject :: "store \<Rightarrow> string \<Rightarrow> bool" where
  "has_subject s i \<longleftrightarrow> i \<in> sj_id ` set (st_subjects s)"

definition has_session :: "store \<Rightarrow> string \<Rightarrow> bool" where
  "has_session s i \<longleftrightarrow> i \<in> ss_id ` set (st_sessions s)"

definition has_grant :: "store \<Rightarrow> string \<Rightarrow> bool" where
  "has_grant s i \<longleftrightarrow> i \<in> tg_id ` set (st_grants s)"

definition create_code :: "auth_code \<Rightarrow> unit db" where
  "create_code input s =
     (case insert_row ac_codeHash (input\<lparr>ac_consumedAt := None, ac_grantId := None\<rparr>) (st_codes s) of
        None \<Rightarrow> (Inl (UniqueViolation ''authorization_codes_pkey''), s)
      | Some rows \<Rightarrow>
          if \<not> has_client s (ac_clientId input)
          then (Inl (ForeignKeyViolation ''authorization_codes_client_fk''), s)
          else if \<not> has_subject s (ac_subjectId input)
          then (Inl (ForeignKeyViolation ''authorization_codes_subject_fk''), s)
          else (Inr (), s\<lparr>st_codes := rows\<rparr>))"

definition code_dead :: "string \<Rightarrow> auth_code list \<Rightarrow> bool" where
  "code_dead h rows \<longleftrightarrow> (\<forall>r \<in> set rows. ac_codeHash r = h \<longrightarrow> ac_consumedAt r \<noteq> None)"

lemma consume_code_None: "consume_code now h rows = (None, rows') \<Longrightarrow> rows' = rows"
  by (auto simp: consume_code_def Let_def first_row_returning find_None_iff
      intro!: update_where_none)

lemma consume_code_Some:
  assumes "consume_code now h rows = (Some r, rows')"
  shows "\<exists>r0 \<in> set rows. r = r0\<lparr>ac_consumedAt := Some now\<rparr> \<and> ac_codeHash r0 = h
    \<and> ac_consumedAt r0 = None \<and> now < ac_expiresAt r0"
  using assms
  by (auto simp: consume_code_def Let_def first_row_returning dest!: find_SomeD)

lemma consume_code_rows:
  "snd (consume_code now h rows) =
     update_where (\<lambda>r. ac_codeHash r = h \<and> ac_consumedAt r = None \<and> ac_expiresAt r > now)
       (\<lambda>r. r\<lparr>ac_consumedAt := Some now\<rparr>) rows"
  by (simp add: consume_code_def Let_def)

lemma consume_code_hit:
  assumes d: "distinct (map ac_codeHash rows)" and c: "consume_code now h rows = (Some r, rows')"
  shows "code_dead h rows'"
  unfolding code_dead_def
proof (intro ballI impI)
  fix x assume x: "x \<in> set rows'" "ac_codeHash x = h"
  from consume_code_Some [OF c] obtain r0 where r0: "r0 \<in> set rows" "ac_codeHash r0 = h"
    "ac_consumedAt r0 = None" "now < ac_expiresAt r0" by blast
  from c have "rows' = snd (consume_code now h rows)" by simp
  with x(1) obtain x0 where x0: "x0 \<in> set rows"
    "x = (if ac_codeHash x0 = h \<and> ac_consumedAt x0 = None \<and> ac_expiresAt x0 > now
          then x0\<lparr>ac_consumedAt := Some now\<rparr> else x0)"
    by (auto simp: consume_code_rows set_update_where)
  show "ac_consumedAt x \<noteq> None"
  proof (cases "ac_codeHash x0 = h")
    case True
    with x0(1) r0 distinct_keyD [OF d] have "x0 = r0" by metis
    with x0(2) r0 show ?thesis by simp
  next
    case False
    with x0(2) x(2) show ?thesis by simp
  qed
qed

interpretation codes: single_use consume_code code_dead "\<lambda>rows. distinct (map ac_codeHash rows)"
proof (unfold_locales, goal_cases)
  case (1 t now k r t')
  then show ?case by (rule consume_code_hit)
next
  case (2 k t now)
  then show ?case
    by (auto simp: consume_code_def code_dead_def Let_def first_row_returning find_None_iff)
next
  case (3 k t now k')
  then show ?case by (auto simp: consume_code_rows code_dead_def set_update_where)
next
  case (4 t now k)
  then show ?case by (simp add: consume_code_rows)
qed

section \<open>Refresh tokens\<close>

definition consume_refresh ::
  "time \<Rightarrow> string \<Rightarrow> refresh_token list \<Rightarrow> refresh_token option \<times> refresh_token list" where
  "consume_refresh dbNow tokenHash rows =
     (let p = (\<lambda>r. rt_tokenHash r = tokenHash \<and> rt_usedAt r = None \<and> rt_expiresAt r > dbNow);
          f = (\<lambda>r. r\<lparr>rt_usedAt := Some dbNow\<rparr>)
      in (first_row (returning p f rows), update_where p f rows))"

definition refresh_byHash :: "string \<Rightarrow> refresh_token list \<Rightarrow> refresh_token option" where
  "refresh_byHash tokenHash rows = find (\<lambda>r. rt_tokenHash r = tokenHash) rows"

definition attachReplacement :: "string \<Rightarrow> string \<Rightarrow> refresh_token list \<Rightarrow> refresh_token list" where
  "attachReplacement tokenHash replacedBy rows =
     update_where (\<lambda>r. rt_tokenHash r = tokenHash) (\<lambda>r. r\<lparr>rt_replacedBy := Some replacedBy\<rparr>) rows"

definition create_refresh :: "time \<Rightarrow> string \<Rightarrow> string \<Rightarrow> time \<Rightarrow> unit db" where
  "create_refresh dbNow tokenHash grantId expiresAt s =
     (case insert_row rt_tokenHash
        \<lparr>rt_tokenHash = tokenHash, rt_grantId = grantId, rt_issuedAt = dbNow,
         rt_expiresAt = expiresAt, rt_usedAt = None, rt_replacedBy = None\<rparr> (st_refresh s) of
        None \<Rightarrow> (Inl (UniqueViolation ''refresh_tokens_pkey''), s)
      | Some rows \<Rightarrow>
          if \<not> has_grant s grantId then (Inl (ForeignKeyViolation ''refresh_tokens_grant_fk''), s)
          else (Inr (), s\<lparr>st_refresh := rows\<rparr>))"

definition refresh_dead :: "string \<Rightarrow> refresh_token list \<Rightarrow> bool" where
  "refresh_dead h rows \<longleftrightarrow> (\<forall>r \<in> set rows. rt_tokenHash r = h \<longrightarrow> rt_usedAt r \<noteq> None)"

lemma consume_refresh_None: "consume_refresh now h rows = (None, rows') \<Longrightarrow> rows' = rows"
  by (auto simp: consume_refresh_def Let_def first_row_returning find_None_iff
      intro!: update_where_none)

lemma consume_refresh_Some:
  assumes "consume_refresh now h rows = (Some r, rows')"
  shows "\<exists>r0 \<in> set rows. r = r0\<lparr>rt_usedAt := Some now\<rparr> \<and> rt_tokenHash r0 = h
    \<and> rt_usedAt r0 = None \<and> now < rt_expiresAt r0"
  using assms
  by (auto simp: consume_refresh_def Let_def first_row_returning dest!: find_SomeD)

lemma consume_refresh_rows:
  "snd (consume_refresh now h rows) =
     update_where (\<lambda>r. rt_tokenHash r = h \<and> rt_usedAt r = None \<and> rt_expiresAt r > now)
       (\<lambda>r. r\<lparr>rt_usedAt := Some now\<rparr>) rows"
  by (simp add: consume_refresh_def Let_def)

lemma consume_refresh_hit:
  assumes d: "distinct (map rt_tokenHash rows)" and c: "consume_refresh now h rows = (Some r, rows')"
  shows "refresh_dead h rows'"
  unfolding refresh_dead_def
proof (intro ballI impI)
  fix x assume x: "x \<in> set rows'" "rt_tokenHash x = h"
  from consume_refresh_Some [OF c] obtain r0 where r0: "r0 \<in> set rows" "rt_tokenHash r0 = h"
    "rt_usedAt r0 = None" "now < rt_expiresAt r0" by blast
  from c have "rows' = snd (consume_refresh now h rows)" by simp
  with x(1) obtain x0 where x0: "x0 \<in> set rows"
    "x = (if rt_tokenHash x0 = h \<and> rt_usedAt x0 = None \<and> rt_expiresAt x0 > now
          then x0\<lparr>rt_usedAt := Some now\<rparr> else x0)"
    by (auto simp: consume_refresh_rows set_update_where)
  show "rt_usedAt x \<noteq> None"
  proof (cases "rt_tokenHash x0 = h")
    case True
    with x0(1) r0 distinct_keyD [OF d] have "x0 = r0" by metis
    with x0(2) r0 show ?thesis by simp
  next
    case False
    with x0(2) x(2) show ?thesis by simp
  qed
qed

interpretation refreshes: single_use consume_refresh refresh_dead "\<lambda>rows. distinct (map rt_tokenHash rows)"
proof (unfold_locales, goal_cases)
  case (1 t now k r t')
  then show ?case by (rule consume_refresh_hit)
next
  case (2 k t now)
  then show ?case
    by (auto simp: consume_refresh_def refresh_dead_def Let_def first_row_returning find_None_iff)
next
  case (3 k t now k')
  then show ?case by (auto simp: consume_refresh_rows refresh_dead_def set_update_where)
next
  case (4 t now k)
  then show ?case by (simp add: consume_refresh_rows)
qed

section \<open>Spent assertions\<close>

text \<open>A row is keyed by the client's identifier and the \<open>jti\<close>; inserting a present key does nothing.\<close>

definition jti_key :: "assertion_jti \<Rightarrow> string \<times> string" where
  "jti_key row = (aj_oauthClientId row, aj_jti row)"

definition spentWithin :: "string \<times> string \<Rightarrow> assertion_jti list \<Rightarrow> bool" where
  "spentWithin k rows \<longleftrightarrow> filter (\<lambda>row. jti_key row = k) rows \<noteq> []"

definition claimWithin ::
  "time \<Rightarrow> string \<times> string \<Rightarrow> assertion_jti list \<Rightarrow> assertion_jti option \<times> assertion_jti list" where
  "claimWithin expiresAt k rows =
     (let row = \<lparr>aj_oauthClientId = fst k, aj_jti = snd k, aj_expiresAt = expiresAt\<rparr>
      in case insert_row jti_key row rows of None \<Rightarrow> (None, rows) | Some rows' \<Rightarrow> (Some row, rows'))"

lemma spentWithin_iff: "spentWithin k rows \<longleftrightarrow> k \<in> jti_key ` set rows"
  by (auto simp: spentWithin_def filter_empty_conv)

lemma claimWithin_eq:
  "claimWithin e k rows =
     (let row = \<lparr>aj_oauthClientId = fst k, aj_jti = snd k, aj_expiresAt = e\<rparr>
      in if spentWithin k rows then (None, rows) else (Some row, rows @ [row]))"
  by (simp add: claimWithin_def insert_row_def spentWithin_iff jti_key_def Let_def)

interpretation jtis: single_use claimWithin spentWithin "\<lambda>rows. distinct (map jti_key rows)"
  by unfold_locales
     (auto simp: claimWithin_eq spentWithin_iff jti_key_def Let_def split: if_splits)

end
