(* ===== verification/Grants.thy ===== *)
theory Grants
  imports Repositories
begin

text \<open>
  The grants table (\<open>protocol-oidc/src/repository/grants.ts\<close>): creation, the six ways a
  grant is revoked, and the write budget an agent spends on the grant its tokens descend from.
\<close>

section \<open>Reading and creating\<close>

definition grant_byId :: "string \<Rightarrow> token_grant list \<Rightarrow> token_grant option" where
  "grant_byId i rows = find (\<lambda>g. tg_id g = i) rows"

definition bySession :: "string \<Rightarrow> token_grant list \<Rightarrow> token_grant list" where
  "bySession sessionId rows = filter (\<lambda>g. tg_sessionId g = Some sessionId) rows"

text \<open>The grant whose counters this one spends.\<close>

definition budgetGrant :: "string \<Rightarrow> token_grant list \<Rightarrow> string option" where
  "budgetGrant i rows =
     (case grant_byId i rows of
        None \<Rightarrow> None
      | Some row \<Rightarrow>
          (case tg_budgetGrantId row of
             Some root \<Rightarrow> Some root
           | None \<Rightarrow> if tg_exchangedFromGrantId row = None then Some i else None))"

record new_grant =
  ng_id :: string
  ng_clientId :: string
  ng_subjectId :: string
  ng_scope :: string
  ng_audience :: "string list"
  ng_sessionId :: "string option"
  ng_actorSubjectId :: "string option"
  ng_exchangedFromGrantId :: "string option"
  ng_actChain :: "json option"
  ng_expCeiling :: "time option"
  ng_requestedUserinfoClaims :: "string list option"

definition grant_row :: "time \<Rightarrow> token_grant list \<Rightarrow> new_grant \<Rightarrow> token_grant" where
  "grant_row dbNow rows input =
     \<lparr>tg_id = ng_id input, tg_clientId = ng_clientId input, tg_subjectId = ng_subjectId input,
      tg_scope = ng_scope input, tg_audience = ng_audience input, tg_createdAt = dbNow,
      tg_revokedAt = None, tg_sessionId = ng_sessionId input,
      tg_actorSubjectId = ng_actorSubjectId input,
      tg_exchangedFromGrantId = ng_exchangedFromGrantId input,
      tg_actChain = ng_actChain input, tg_expCeiling = ng_expCeiling input,
      tg_requestedUserinfoClaims = ng_requestedUserinfoClaims input,
      tg_agentWrites = 0, tg_agentCreates = 0,
      tg_budgetGrantId =
        (case ng_exchangedFromGrantId input of None \<Rightarrow> None | Some p \<Rightarrow> budgetGrant p rows)\<rparr>"

definition create_grant :: "time \<Rightarrow> new_grant \<Rightarrow> token_grant db" where
  "create_grant dbNow input s =
     (let row = grant_row dbNow (st_grants s) input
      in case insert_row tg_id row (st_grants s) of
           None \<Rightarrow> (Inl (UniqueViolation ''token_grants_pkey''), s)
         | Some rows \<Rightarrow>
             if \<not> has_client s (tg_clientId row)
             then (Inl (ForeignKeyViolation ''token_grants_client_fk''), s)
             else if \<not> has_subject s (tg_subjectId row)
             then (Inl (ForeignKeyViolation ''token_grants_subject_fk''), s)
             else if (\<exists>i \<in> set_option (tg_sessionId row). \<not> has_session s i)
             then (Inl (ForeignKeyViolation ''token_grants_session_fk''), s)
             else if (\<exists>i \<in> set_option (tg_actorSubjectId row). \<not> has_subject s i)
             then (Inl (ForeignKeyViolation ''token_grants_actor_subject_fk''), s)
             else if (\<exists>i \<in> set_option (tg_exchangedFromGrantId row). \<not> has_grant s i)
             then (Inl (ForeignKeyViolation ''token_grants_exchanged_from_grant_fk''), s)
             else (Inr row, s\<lparr>st_grants := rows\<rparr>))"

lemma create_grant_Inr:
  assumes "create_grant dbNow input s = (Inr row, s')"
  shows "row = grant_row dbNow (st_grants s) input \<and> s' = s\<lparr>st_grants := st_grants s @ [row]\<rparr>
    \<and> \<not> has_grant s (ng_id input) \<and> has_client s (ng_clientId input)
    \<and> has_subject s (ng_subjectId input)
    \<and> (\<forall>i. ng_sessionId input = Some i \<longrightarrow> has_session s i)"
  using assms
  by (auto simp: create_grant_def Let_def insert_row_Some has_grant_def grant_row_def
      split: option.splits if_splits)

lemma create_grant_Inl: "create_grant dbNow input s = (Inl e, s') \<Longrightarrow> s' = s"
  by (auto simp: create_grant_def Let_def split: option.splits if_splits)

section \<open>Revocation\<close>

definition revoke :: "string \<Rightarrow> time \<Rightarrow> token_grant list \<Rightarrow> bool \<times> token_grant list" where
  "revoke i revokedAt rows =
     (let p = (\<lambda>g. tg_id g = i \<and> tg_revokedAt g = None);
          f = (\<lambda>g. g\<lparr>tg_revokedAt := Some revokedAt\<rparr>)
      in (returning p f rows \<noteq> [], update_where p f rows))"

definition revokeForSession :: "string \<Rightarrow> time \<Rightarrow> token_grant list \<Rightarrow> nat \<times> token_grant list" where
  "revokeForSession sessionId revokedAt rows =
     (let p = (\<lambda>g. tg_sessionId g = Some sessionId);
          f = (\<lambda>g. g\<lparr>tg_revokedAt := js_or_else (tg_revokedAt g) (Some revokedAt)\<rparr>)
      in (length (returning p f rows), update_where p f rows))"

definition revokeForSessions ::
  "string list \<Rightarrow> time \<Rightarrow> token_grant list \<Rightarrow> nat \<times> token_grant list" where
  "revokeForSessions sessionIds revokedAt rows =
     (if sessionIds = [] then (0, rows)
      else let p = (\<lambda>g. \<exists>i \<in> set_option (tg_sessionId g). i \<in> set sessionIds);
               f = (\<lambda>g. g\<lparr>tg_revokedAt := js_or_else (tg_revokedAt g) (Some revokedAt)\<rparr>)
           in (length (returning p f rows), update_where p f rows))"

definition revokeForSubjectClient ::
  "string \<Rightarrow> string \<Rightarrow> time \<Rightarrow> token_grant list \<Rightarrow> nat \<times> token_grant list" where
  "revokeForSubjectClient subjectId clientId revokedAt rows =
     (let p = (\<lambda>g. tg_subjectId g = subjectId \<and> tg_clientId g = clientId \<and> tg_revokedAt g = None);
          f = (\<lambda>g. g\<lparr>tg_revokedAt := Some revokedAt\<rparr>)
      in (length (returning p f rows), update_where p f rows))"

definition revokeForSubject :: "string \<Rightarrow> time \<Rightarrow> token_grant list \<Rightarrow> nat \<times> token_grant list" where
  "revokeForSubject subjectId revokedAt rows =
     (let p = (\<lambda>g. tg_subjectId g = subjectId \<and> tg_revokedAt g = None);
          f = (\<lambda>g. g\<lparr>tg_revokedAt := Some revokedAt\<rparr>)
      in (length (returning p f rows), update_where p f rows))"

definition revokeForActor :: "string \<Rightarrow> time \<Rightarrow> token_grant list \<Rightarrow> nat \<times> token_grant list" where
  "revokeForActor actorSubjectId dbNow rows =
     (let p = (\<lambda>g. tg_actorSubjectId g = Some actorSubjectId \<and> tg_revokedAt g = None);
          f = (\<lambda>g. g\<lparr>tg_revokedAt := Some dbNow\<rparr>)
      in (length (returning p f rows), update_where p f rows))"

text \<open>
  The contract the six share: the grants a key reaches that were live are stamped, and nothing
  else about any grant changes, so an earlier stamp survives every later revocation.
\<close>

definition stamp :: "(token_grant \<Rightarrow> bool) \<Rightarrow> time \<Rightarrow> token_grant \<Rightarrow> token_grant" where
  "stamp p t g = (if p g \<and> tg_revokedAt g = None then g\<lparr>tg_revokedAt := Some t\<rparr> else g)"

locale revocation =
  fixes revoke_by :: "'k \<Rightarrow> time \<Rightarrow> token_grant list \<Rightarrow> token_grant list"
    and reaches :: "'k \<Rightarrow> token_grant \<Rightarrow> bool"
  assumes revoke_stamps: "revoke_by k t rows = map (stamp (reaches k) t) rows"
    and reaches_stamp: "reaches k (g\<lparr>tg_revokedAt := r\<rparr>) = reaches k g"
begin

lemma revoked_all:
  "g \<in> set (revoke_by k t rows) \<Longrightarrow> reaches k g \<Longrightarrow> tg_revokedAt g \<noteq> None"
  by (auto simp: revoke_stamps stamp_def reaches_stamp split: if_splits)

lemma first_stamp_kept:
  "g \<in> set rows \<Longrightarrow> tg_revokedAt g = Some t0 \<Longrightarrow> g \<in> set (revoke_by k t rows)"
  by (force simp: revoke_stamps stamp_def)

lemma revoke_twice: "revoke_by k t' (revoke_by k t rows) = revoke_by k t rows"
  by (auto simp: revoke_stamps stamp_def reaches_stamp)

lemma unreached_kept: "g \<in> set rows \<Longrightarrow> \<not> reaches k g \<Longrightarrow> g \<in> set (revoke_by k t rows)"
  by (force simp: revoke_stamps stamp_def)

lemma never_restored:
  "g' \<in> set (revoke_by k t rows) \<Longrightarrow>
     \<exists>g \<in> set rows. g' = g\<lparr>tg_revokedAt := tg_revokedAt g'\<rparr>
       \<and> (tg_revokedAt g \<noteq> None \<longrightarrow> tg_revokedAt g' = tg_revokedAt g)"
proof -
  assume "g' \<in> set (revoke_by k t rows)"
  then obtain g where "g \<in> set rows" "g' = stamp (reaches k) t g"
    by (auto simp: revoke_stamps)
  then show ?thesis by (intro bexI [of _ g]) (auto simp: stamp_def)
qed

end

text \<open>The two shapes of the statement: a live-only condition, and \<open>coalesce\<close> in the value.\<close>

lemma update_live_stamp:
  "update_where (\<lambda>g. q g \<and> tg_revokedAt g = None) (\<lambda>g. g\<lparr>tg_revokedAt := Some t\<rparr>) rows =
     map (stamp q t) rows"
  by (auto simp: update_where_def stamp_def)

lemma update_coalesce_stamp:
  "update_where q (\<lambda>g. g\<lparr>tg_revokedAt := js_or_else (tg_revokedAt g) (Some t)\<rparr>) rows =
     map (stamp q t) rows"
proof -
  have "(if q g then g\<lparr>tg_revokedAt := js_or_else (tg_revokedAt g) (Some t)\<rparr> else g) = stamp q t g"
    for g
    by (cases "tg_revokedAt g") (auto simp: stamp_def)
  then show ?thesis by (simp add: update_where_def)
qed

lemma revoke_rows: "snd (revoke i t rows) = map (stamp (\<lambda>g. tg_id g = i) t) rows"
  by (simp add: revoke_def Let_def update_live_stamp)

lemma revokeForSession_rows:
  "snd (revokeForSession i t rows) = map (stamp (\<lambda>g. tg_sessionId g = Some i) t) rows"
  by (simp add: revokeForSession_def Let_def update_coalesce_stamp)

lemma revokeForSessions_rows:
  "snd (revokeForSessions is t rows) =
     map (stamp (\<lambda>g. \<exists>i \<in> set_option (tg_sessionId g). i \<in> set is) t) rows"
  by (auto simp: revokeForSessions_def Let_def update_coalesce_stamp stamp_def intro!: map_idI [symmetric])

lemma revokeForSubjectClient_rows:
  "snd (revokeForSubjectClient sub client t rows) =
     map (stamp (\<lambda>g. tg_subjectId g = sub \<and> tg_clientId g = client) t) rows"
  using update_live_stamp [of "\<lambda>g. tg_subjectId g = sub \<and> tg_clientId g = client" t rows]
  by (simp add: revokeForSubjectClient_def Let_def)

lemma revokeForSubject_rows:
  "snd (revokeForSubject i t rows) = map (stamp (\<lambda>g. tg_subjectId g = i) t) rows"
  by (simp add: revokeForSubject_def Let_def update_live_stamp)

lemma revokeForActor_rows:
  "snd (revokeForActor i t rows) = map (stamp (\<lambda>g. tg_actorSubjectId g = Some i) t) rows"
  by (simp add: revokeForActor_def Let_def update_live_stamp)

interpretation by_id: revocation "\<lambda>i t rows. snd (revoke i t rows)" "\<lambda>i g. tg_id g = i"
  by unfold_locales (simp_all add: revoke_rows)

interpretation by_session: revocation
  "\<lambda>i t rows. snd (revokeForSession i t rows)" "\<lambda>i g. tg_sessionId g = Some i"
  by unfold_locales (simp_all add: revokeForSession_rows)

interpretation by_sessions: revocation
  "\<lambda>is t rows. snd (revokeForSessions is t rows)"
  "\<lambda>is g. \<exists>i \<in> set_option (tg_sessionId g). i \<in> set is"
  by unfold_locales (simp_all add: revokeForSessions_rows)

interpretation by_consent: revocation
  "\<lambda>(sub, client) t rows. snd (revokeForSubjectClient sub client t rows)"
  "\<lambda>(sub, client) g. tg_subjectId g = sub \<and> tg_clientId g = client"
  by unfold_locales (auto simp: revokeForSubjectClient_rows)

interpretation by_subject: revocation
  "\<lambda>i t rows. snd (revokeForSubject i t rows)" "\<lambda>i g. tg_subjectId g = i"
  by unfold_locales (simp_all add: revokeForSubject_rows)

interpretation by_actor: revocation
  "\<lambda>i t rows. snd (revokeForActor i t rows)" "\<lambda>i g. tg_actorSubjectId g = Some i"
  by unfold_locales (simp_all add: revokeForActor_rows)

text \<open>\<open>revoke\<close> answers true exactly when the call is the one that revoked it.\<close>

lemma revoke_fst: "fst (revoke i t rows) \<longleftrightarrow> (\<exists>g \<in> set rows. tg_id g = i \<and> tg_revokedAt g = None)"
  by (auto simp: revoke_def Let_def returning_def filter_empty_conv)

section \<open>The write budget of an agent\<close>

datatype write_kind = Mutating | Create

record write_limits =
  wl_mutating :: int
  wl_creates :: int

definition reserveAgentWrite ::
  "string \<Rightarrow> write_kind \<Rightarrow> write_limits \<Rightarrow> token_grant list \<Rightarrow> bool \<times> token_grant list" where
  "reserveAgentWrite i kind limits rows =
     (case budgetGrant i rows of
        None \<Rightarrow> (False, rows)
      | Some root \<Rightarrow>
          (let p = (\<lambda>g. tg_id g = root \<and> tg_revokedAt g = None
                       \<and> tg_agentWrites g < wl_mutating limits
                       \<and> (kind = Create \<longrightarrow> tg_agentCreates g < wl_creates limits));
               f = (\<lambda>g. g\<lparr>tg_agentWrites := tg_agentWrites g + 1,
                         tg_agentCreates := tg_agentCreates g + (if kind = Create then 1 else 0)\<rparr>)
           in (returning p f rows \<noteq> [], update_where p f rows)))"

definition releaseAgentWrite :: "string \<Rightarrow> write_kind \<Rightarrow> token_grant list \<Rightarrow> token_grant list" where
  "releaseAgentWrite i kind rows =
     (case budgetGrant i rows of
        None \<Rightarrow> rows
      | Some root \<Rightarrow>
          update_where (\<lambda>g. tg_id g = root)
            (\<lambda>g. g\<lparr>tg_agentWrites := max (tg_agentWrites g - 1) 0,
                   tg_agentCreates :=
                     max (tg_agentCreates g - (if kind = Create then 1 else 0)) 0\<rparr>) rows)"

definition isLive :: "string \<Rightarrow> token_grant list \<Rightarrow> bool" where
  "isLive i rows =
     (case budgetGrant i rows of
        None \<Rightarrow> False
      | Some root \<Rightarrow>
          length (filter (\<lambda>g. tg_id g \<in> {i, root} \<and> tg_revokedAt g = None) rows) = card {i, root})"

definition row_within :: "write_limits \<Rightarrow> token_grant \<Rightarrow> bool" where
  "row_within limits g \<longleftrightarrow>
     0 \<le> tg_agentWrites g \<and> tg_agentWrites g \<le> wl_mutating limits
     \<and> 0 \<le> tg_agentCreates g \<and> tg_agentCreates g \<le> wl_creates limits"

definition within_budget :: "write_limits \<Rightarrow> token_grant list \<Rightarrow> bool" where
  "within_budget limits rows \<longleftrightarrow> (\<forall>g \<in> set rows. row_within limits g)"

lemma reserve_within:
  assumes "within_budget limits rows"
  shows "within_budget limits (snd (reserveAgentWrite i kind limits rows))"
proof (cases "budgetGrant i rows")
  case None
  with assms show ?thesis by (simp add: reserveAgentWrite_def)
next
  case (Some root)
  show ?thesis
    unfolding within_budget_def reserveAgentWrite_def Some option.case Let_def snd_conv
    using assms
    by (intro update_where_all) (auto simp: within_budget_def row_within_def)
qed

lemma release_within:
  assumes "within_budget limits rows"
  shows "within_budget limits (releaseAgentWrite i kind rows)"
proof (cases "budgetGrant i rows")
  case None
  with assms show ?thesis by (simp add: releaseAgentWrite_def)
next
  case (Some root)
  show ?thesis
    unfolding within_budget_def releaseAgentWrite_def Some option.case
    using assms
    by (intro update_where_all) (auto simp: within_budget_def row_within_def)
qed

lemma find_grant_update:
  "(\<And>g. tg_id (f g) = tg_id g) \<Longrightarrow>
     grant_byId i (update_where p f rows) = map_option (\<lambda>g. if p g then f g else g) (grant_byId i rows)"
  unfolding grant_byId_def by (rule find_update_where) simp

lemma budgetGrant_update:
  assumes "\<And>g. tg_id (f g) = tg_id g" "\<And>g. tg_budgetGrantId (f g) = tg_budgetGrantId g"
    "\<And>g. tg_exchangedFromGrantId (f g) = tg_exchangedFromGrantId g"
  shows "budgetGrant i (update_where p f rows) = budgetGrant i rows"
  using assms
  by (auto simp: budgetGrant_def find_grant_update split: option.splits)

lemma budgetGrant_reserve [simp]:
  "budgetGrant j (snd (reserveAgentWrite i kind limits rows)) = budgetGrant j rows"
  by (auto simp: reserveAgentWrite_def Let_def split: option.splits intro!: budgetGrant_update)

text \<open>
  How many reservations of a run of calls were granted. Each call names a grant; those that
  spend the same root share its counter.
\<close>

fun reserve_all ::
  "write_limits \<Rightarrow> (string \<times> write_kind) list \<Rightarrow> token_grant list \<Rightarrow> bool list \<times> token_grant list"
  where
  "reserve_all limits [] rows = ([], rows)"
| "reserve_all limits ((i, kind) # calls) rows =
     (let (ok, rows') = reserveAgentWrite i kind limits rows;
          (oks, rows'') = reserve_all limits calls rows'
      in (ok # oks, rows''))"

definition writes_of :: "string \<Rightarrow> token_grant list \<Rightarrow> int" where
  "writes_of root rows = (case grant_byId root rows of None \<Rightarrow> 0 | Some g \<Rightarrow> tg_agentWrites g)"

lemma writes_of_reserve:
  assumes d: "distinct (map tg_id rows)" and root: "budgetGrant i rows = Some root"
    and r: "reserveAgentWrite i kind limits rows = (ok, rows')"
  shows "writes_of root rows' = writes_of root rows + (if ok then 1 else 0)
    \<and> (ok \<longrightarrow> writes_of root rows' \<le> wl_mutating limits)"
proof -
  let ?p = "\<lambda>g. tg_id g = root \<and> tg_revokedAt g = None \<and> tg_agentWrites g < wl_mutating limits
    \<and> (kind = Create \<longrightarrow> tg_agentCreates g < wl_creates limits)"
  let ?f = "\<lambda>g. g\<lparr>tg_agentWrites := tg_agentWrites g + 1,
    tg_agentCreates := tg_agentCreates g + (if kind = Create then 1 else 0)\<rparr>"
  have rows': "rows' = update_where ?p ?f rows" and ok: "ok \<longleftrightarrow> (\<exists>g \<in> set rows. ?p g)"
    using r root by (auto simp: reserveAgentWrite_def Let_def returning_def filter_empty_conv)
  have look: "grant_byId root rows' =
      map_option (\<lambda>g. if ?p g then ?f g else g) (grant_byId root rows)"
    unfolding rows' by (rule find_grant_update) simp
  show ?thesis
  proof (cases "grant_byId root rows")
    case None
    then have "\<forall>g \<in> set rows. tg_id g \<noteq> root" by (auto simp: grant_byId_def find_None_iff)
    with ok None look show ?thesis by (auto simp: writes_of_def)
  next
    case (Some g)
    then have g: "g \<in> set rows" "tg_id g = root" by (auto simp: grant_byId_def dest: find_SomeD)
    have "ok \<longleftrightarrow> ?p g" using ok g distinct_keyD [OF d] by metis
    with Some look show ?thesis by (simp add: writes_of_def)
  qed
qed

lemma reserve_all_count:
  assumes "distinct (map tg_id rows)" "\<forall>(i, kind) \<in> set calls. budgetGrant i rows = Some root"
    and "reserve_all limits calls rows = (oks, rows')" "writes_of root rows \<le> max n (wl_mutating limits)"
  shows "writes_of root rows' = writes_of root rows + int (length (filter id oks))
    \<and> writes_of root rows' \<le> max n (wl_mutating limits)"
  using assms
proof (induction calls arbitrary: rows oks rows')
  case (Cons c calls)
  obtain i kind where c: "c = (i, kind)" by (cases c)
  obtain ok rows1 where r: "reserveAgentWrite i kind limits rows = (ok, rows1)"
    by (cases "reserveAgentWrite i kind limits rows")
  obtain oks2 rows2 where r2: "reserve_all limits calls rows1 = (oks2, rows2)"
    by (cases "reserve_all limits calls rows1")
  have out: "oks = ok # oks2" "rows' = rows2" using Cons.prems(3) r r2 by (auto simp: c)
  have root: "budgetGrant i rows = Some root" using Cons.prems(2) by (auto simp: c)
  note step = writes_of_reserve [OF Cons.prems(1) root r]
  have rows1: "rows1 = snd (reserveAgentWrite i kind limits rows)" using r by simp
  have "distinct (map tg_id rows1)"
    using Cons.prems(1) unfolding rows1 by (auto simp: reserveAgentWrite_def Let_def root)
  moreover have "\<forall>(i, kind) \<in> set calls. budgetGrant i rows1 = Some root"
    using Cons.prems(2) unfolding rows1 by auto
  moreover have "writes_of root rows1 \<le> max n (wl_mutating limits)"
    using step Cons.prems(4) by (cases ok) auto
  ultimately show ?case using Cons.IH [OF _ _ r2] step by (auto simp: out)
qed simp

end
