(* ===== verification/Audit_Trail.thy ===== *)
theory Audit_Trail
  imports Repositories
begin

text \<open>
  The audit trail (\<open>packages/domain-audit\<close>): the vocabulary of actions and the keys an
  action's \<open>detail\<close> may hold (\<open>service/vocabulary.ts\<close>), and the two writers of
  \<open>repository/audit.ts\<close>. The messages of the exceptions leave out the offending value.
  A row the database will not take (\<open>dp_auditRefused\<close>) fails the insert.
\<close>

section \<open>Vocabulary\<close>

definition AUDIT_ACTIONS :: "(string \<times> string list) list" where
  "AUDIT_ACTIONS =
     [(''admin_access'', [''capability.refused'', ''token.foreign_issuer'', ''agent.tool_call'']),
      (''authentication'',
        [''login.password'', ''login.otp'', ''login.recovery_code'', ''login.passkey'',
         ''factor.offered'', ''lockout.tripped'', ''client.authenticate'']),
      (''session'', [''session.created'', ''session.ended'']),
      (''token'',
        [''token.issue'', ''token.refresh'', ''token.exchange'', ''token.revoke'',
         ''grant.revoked_on_reuse'', ''grant.revoked_on_code_replay'']),
      (''credential'',
        [''account.registered'', ''account.registration_duplicate'', ''account.address_proved'',
         ''email.verified'', ''password.reset'', ''password.changed'', ''otp.enrolled'',
         ''passkey.enrolled'', ''recovery_codes.issued''])]"

definition AUDIT_EVENT_TYPES :: "string list" where
  "AUDIT_EVENT_TYPES =
     [''admin_mutation'', ''admin_access'', ''authentication'', ''session'', ''token'', ''credential'']"

definition AUDIT_REASONS :: "string list" where
  "AUDIT_REASONS =
     [''unknown_subject'', ''bad_credential'', ''locked_out'', ''replayed'', ''already_used'',
      ''subject_mismatch'', ''invalid_grant'', ''invalid_scope'', ''invalid_target'',
      ''unauthorized_client'', ''unsupported_token_type'', ''rate_limited'', ''foreign_issuer'',
      ''missing_capability'', ''agent_without_mcp_scope'', ''insufficient_scope'',
      ''already_registered'', ''timeout_outcome_unknown'', ''write_budget'']"

definition ACTION_DETAIL_KEYS :: "(string \<times> string list) list" where
  "ACTION_DETAIL_KEYS =
     [(''capability.refused'', [''capability'', ''also_admits'']),
      (''agent.tool_call'', [''agent_client'', ''owner'', ''tool'', ''route'']),
      (''login.password'', [''factor'']),
      (''login.otp'', [''factor'']),
      (''login.recovery_code'', [''factor'']),
      (''login.passkey'', [''factor'']),
      (''factor.offered'', [''factor'']),
      (''client.authenticate'', [''method'']),
      (''session.ended'', [''via'']),
      (''token.issue'', [''grant_type'', ''scope'']),
      (''token.refresh'', [''scope'']),
      (''token.exchange'', [''mode'', ''scope'', ''requested_token_type''])]"

definition KNOWN_VOCABULARY_ACTIONS :: "string list" where
  "KNOWN_VOCABULARY_ACTIONS = concat (map snd AUDIT_ACTIONS)"

definition isVocabularyAction :: "string \<Rightarrow> bool" where
  "isVocabularyAction action \<longleftrightarrow> action \<in> set KNOWN_VOCABULARY_ACTIONS"

definition isAuditReason :: "json option \<Rightarrow> bool" where
  "isAuditReason v = (case v of Some (JStr s) \<Rightarrow> s \<in> set AUDIT_REASONS | _ \<Rightarrow> False)"

definition STRING_DETAIL_KEYS :: "string list" where
  "STRING_DETAIL_KEYS =
     [''factor'', ''scope'', ''method'', ''grant_type'', ''requested_token_type'', ''capability'',
      ''agent_client'', ''owner'', ''tool'', ''route'']"

definition is_lower :: "char \<Rightarrow> bool" where
  "is_lower c \<longleftrightarrow> CHR ''a'' \<le> c \<and> c \<le> CHR ''z''"

definition is_upper :: "char \<Rightarrow> bool" where
  "is_upper c \<longleftrightarrow> CHR ''A'' \<le> c \<and> c \<le> CHR ''Z''"

definition is_digit :: "char \<Rightarrow> bool" where
  "is_digit c \<longleftrightarrow> CHR ''0'' \<le> c \<and> c \<le> CHR ''9''"

text \<open>\<open>/^[a-z0-9_.-]{1,64}$/u\<close>\<close>

definition TOOL_NAME :: "string \<Rightarrow> bool" where
  "TOOL_NAME s \<longleftrightarrow> 1 \<le> length s \<and> length s \<le> 64
     \<and> list_all (\<lambda>c. is_lower c \<or> is_digit c \<or> c \<in> {CHR ''_'', CHR ''.'', CHR ''-''}) s"

text \<open>\<open>/^[A-Z]{3,7} \/[A-Za-z0-9/:_.-]{0,160}$/u\<close>: the method ends at the first character
  that is no capital.\<close>

definition ROUTE_KEY :: "string \<Rightarrow> bool" where
  "ROUTE_KEY s =
     (let verb = takeWhile is_upper s; rest = dropWhile is_upper s
      in 3 \<le> length verb \<and> length verb \<le> 7
         \<and> (case rest of
              a # b # path \<Rightarrow>
                a = CHR '' '' \<and> b = CHR ''/'' \<and> length path \<le> 160
                \<and> list_all (\<lambda>c. is_lower c \<or> is_upper c \<or> is_digit c
                     \<or> c \<in> {CHR ''/'', CHR '':'', CHR ''_'', CHR ''.'', CHR ''-''}) path
            | _ \<Rightarrow> False))"

definition is_string :: "json \<Rightarrow> bool" where
  "is_string v = (case v of JStr _ \<Rightarrow> True | _ \<Rightarrow> False)"

definition isValidDetailValue :: "string \<Rightarrow> json \<Rightarrow> bool" where
  "isValidDetailValue key v =
     (if key = ''tool'' then (case v of JStr s \<Rightarrow> TOOL_NAME s | _ \<Rightarrow> False)
      else if key = ''route'' then (case v of JStr s \<Rightarrow> ROUTE_KEY s | _ \<Rightarrow> False)
      else if key = ''mode'' then v = JStr ''delegation'' \<or> v = JStr ''impersonation''
      else if key = ''via'' then v = JStr ''logout'' \<or> v = JStr ''admin'' \<or> v = JStr ''evicted''
      else if key = ''also_admits'' then
        (case v of JArr xs \<Rightarrow> list_all is_string xs | _ \<Rightarrow> False)
      else if key \<in> set STRING_DETAIL_KEYS then is_string v
      else True)"

definition allowed_keys :: "string \<Rightarrow> string list" where
  "allowed_keys action = coalesce (map_of ACTION_DETAIL_KEYS action) [] @ [''reason'']"

text \<open>The first entry \<open>assertDetailAllowed\<close> throws on, as its message.\<close>

fun bad_detail :: "string \<Rightarrow> obj \<Rightarrow> string option" where
  "bad_detail action [] = None"
| "bad_detail action ((key, v) # rest) =
     (if key \<notin> set (allowed_keys action)
      then Some (''audit event '' @ action @ '' does not allow detail key '' @ key)
      else if key \<noteq> ''reason'' \<and> \<not> isValidDetailValue key v
      then Some (''audit event '' @ action @ '' has an invalid value for detail key '' @ key)
      else bad_detail action rest)"

definition assertDetailAllowed :: "string \<Rightarrow> obj \<Rightarrow> string option" where
  "assertDetailAllowed action detail =
     (if \<not> isVocabularyAction action then None
      else case bad_detail action detail of
          Some e \<Rightarrow> Some e
        | None \<Rightarrow>
            if obj_get ''reason'' detail \<noteq> None \<and> \<not> isAuditReason (obj_get ''reason'' detail)
            then Some (''audit event '' @ action @ '' has an invalid reason'')
            else None)"

definition assertActionKnown :: "string \<Rightarrow> string \<Rightarrow> string option" where
  "assertActionKnown eventType action =
     (if action \<in> set (coalesce (map_of AUDIT_ACTIONS eventType) []) then None
      else Some (''event type '' @ eventType @ '' has no action '' @ action))"

section \<open>Writing\<close>

definition validatedRow :: "audit_event \<Rightarrow> exn + audit_event" where
  "validatedRow event =
     (if ae_eventType event = ''admin_mutation'' then Inr event
      else case assertActionKnown (ae_eventType event) (ae_action event) of
          Some e \<Rightarrow> Inl (Thrown e)
        | None \<Rightarrow>
            if ae_outcome event = Refused \<and> \<not> isAuditReason (obj_get ''reason'' (ae_detail event))
            then Inl (Thrown (''audit event '' @ ae_action event @
              '' is refused but has no valid reason''))
            else case assertDetailAllowed (ae_action event) (ae_detail event) of
                Some e \<Rightarrow> Inl (Thrown e)
              | None \<Rightarrow> Inr event)"

definition ALWAYS_STORED :: "string list" where
  "ALWAYS_STORED = [''admin_mutation'', ''admin_access'']"

definition storedTypes :: "store \<Rightarrow> string list" where
  "storedTypes s = (case st_auditTypes s of None \<Rightarrow> AUDIT_EVENT_TYPES | Some types \<Rightarrow> types)"

definition storedOf :: "store \<Rightarrow> audit_event list \<Rightarrow> audit_event list" where
  "storedOf s events =
     (if list_all (\<lambda>e. ae_eventType e \<in> set ALWAYS_STORED) events then events
      else filter (\<lambda>e. ae_eventType e \<in> set ALWAYS_STORED
                     \<or> ae_eventType e \<in> set (storedTypes s)) events)"

definition audit_record :: "deps \<Rightarrow> audit_event \<Rightarrow> unit db" where
  "audit_record d event s =
     (case validatedRow event of
        Inl e \<Rightarrow> (Inl e, s)
      | Inr row \<Rightarrow>
          if storedOf s [event] = [] then (Inr (), s)
          else if dp_auditRefused d row then (Inl (Thrown ''audit_events insert''), s)
          else (Inr (), s\<lparr>st_audit := st_audit s @ [row]\<rparr>))"

fun validated_all :: "audit_event list \<Rightarrow> exn + audit_event list" where
  "validated_all [] = Inr []"
| "validated_all (e # es) =
     (case validatedRow e of
        Inl x \<Rightarrow> Inl x
      | Inr r \<Rightarrow> (case validated_all es of Inl x \<Rightarrow> Inl x | Inr rs \<Rightarrow> Inr (r # rs)))"

definition audit_recordAll :: "deps \<Rightarrow> audit_event list \<Rightarrow> unit db" where
  "audit_recordAll d events s =
     (case validated_all events of
        Inl e \<Rightarrow> (Inl e, s)
      | Inr validated \<Rightarrow>
          (let kept = set (storedOf s events);
               rows = filter (\<lambda>r. r \<in> kept) validated
           in if rows = [] then (Inr (), s)
              else if list_ex (dp_auditRefused d) rows
              then (Inl (Thrown ''audit_events insert''), s)
              else (Inr (), s\<lparr>st_audit := st_audit s @ rows\<rparr>)))"

section \<open>Lemmas\<close>

text \<open>A row fit for the trail.\<close>

definition row_ok :: "audit_event \<Rightarrow> bool" where
  "row_ok e \<longleftrightarrow> ae_eventType e = ''admin_mutation'' \<or>
     (ae_action e \<in> set (coalesce (map_of AUDIT_ACTIONS (ae_eventType e)) [])
      \<and> fst ` set (ae_detail e) \<subseteq> set (allowed_keys (ae_action e))
      \<and> (ae_outcome e = Refused \<longrightarrow> isAuditReason (obj_get ''reason'' (ae_detail e))))"

lemma bad_detail_None: "bad_detail action detail = None \<Longrightarrow> fst ` set detail \<subseteq> set (allowed_keys action)"
  by (induction action detail rule: bad_detail.induct) (auto split: if_splits)

lemma known_vocabulary:
  "action \<in> set (coalesce (map_of AUDIT_ACTIONS t) []) \<Longrightarrow> isVocabularyAction action"
  by (cases "map_of AUDIT_ACTIONS t")
     (auto simp: isVocabularyAction_def KNOWN_VOCABULARY_ACTIONS_def dest!: map_of_SomeD
       intro: bexI [rotated])

lemma validatedRow_Inr: "validatedRow e = Inr r \<Longrightarrow> r = e \<and> row_ok e"
  using known_vocabulary [of "ae_action e" "ae_eventType e"]
  by (auto simp: validatedRow_def row_ok_def assertActionKnown_def assertDetailAllowed_def
      dest: bad_detail_None split: if_splits option.splits)

lemma audit_record_Inr:
  assumes "audit_record d e s = (Inr u, s')"
  shows "s' = (if storedOf s [e] = [] then s else s\<lparr>st_audit := st_audit s @ [e]\<rparr>)"
    and "row_ok e"
  using assms by (auto simp: audit_record_def dest: validatedRow_Inr split: sum.splits if_splits)

lemma audit_record_Inl: "audit_record d e s = (Inl x, s') \<Longrightarrow> s' = s"
  by (auto simp: audit_record_def split: sum.splits if_splits)

lemma audit_record_rest: "audit_record d e s = (r, s') \<Longrightarrow> \<exists>rows. s' = s\<lparr>st_audit := rows\<rparr>"
  by (auto simp: audit_record_def split: sum.splits if_splits intro: exI [of _ "st_audit s"])

lemma validated_all_Inr: "validated_all es = Inr rs \<Longrightarrow> rs = es \<and> list_all row_ok es"
  by (induction es arbitrary: rs) (auto dest: validatedRow_Inr split: sum.splits)

lemma storedOf_subset: "set (storedOf s es) \<subseteq> set es"
  by (auto simp: storedOf_def)

lemma audit_recordAll_state:
  "audit_recordAll d es s = (r, s') \<Longrightarrow>
     \<exists>rows. s' = s\<lparr>st_audit := st_audit s @ rows\<rparr> \<and> list_all row_ok rows"
  by (auto simp: audit_recordAll_def Let_def list_all_iff dest!: validated_all_Inr
      split: sum.splits if_splits intro: exI [of _ "[]"])

text \<open>A trail that takes every row takes every valid event.\<close>

lemma record_succeeds:
  assumes "\<And>row. \<not> dp_auditRefused d row" "\<And>e. e \<in> set es \<Longrightarrow> validatedRow e = Inr e"
  shows "\<exists>au. audit_recordAll d es s = (Inr (), s\<lparr>st_audit := au\<rparr>)"
proof -
  have "validated_all es = Inr es" using assms(2) by (induction es) auto
  then show ?thesis
    by (auto simp: audit_recordAll_def Let_def list_ex_iff assms(1) intro: exI [of _ "st_audit s"])
qed

lemma record_one_succeeds:
  assumes "\<And>row. \<not> dp_auditRefused d row" "validatedRow e = Inr e"
  shows "\<exists>au. audit_record d e s = (Inr (), s\<lparr>st_audit := au\<rparr>)"
  using assms by (auto simp: audit_record_def intro: exI [of _ "st_audit s"])

text \<open>Writers of the trail change nothing else, so a predicate that ignores it is kept.\<close>

lemma keeps_audit_record [keeps_intros]:
  "(\<And>s rows. I s \<Longrightarrow> I (s\<lparr>st_audit := rows\<rparr>)) \<Longrightarrow> keeps I (audit_record d e)"
  by (auto simp: keeps_def audit_record_def split: sum.splits if_splits)

lemma keeps_audit_recordAll [keeps_intros]:
  "(\<And>s rows. I s \<Longrightarrow> I (s\<lparr>st_audit := rows\<rparr>)) \<Longrightarrow> keeps I (audit_recordAll d es)"
  by (auto simp: keeps_def audit_recordAll_def Let_def split: sum.splits if_splits)

end
