(* ===== verification/Sessions.thy ===== *)
theory Sessions
  imports Audit_Trail
begin

text \<open>
  Established sessions (\<open>packages/authn-flows\<close>): the lifespan and liveness rules, the
  repository (\<open>repository/sessions.ts\<close>), the cookie entry a browser proves one with
  (\<open>service/session-entry.ts\<close>), the cap on the sessions of one browser
  (\<open>service/session-set.ts\<close>, \<open>usecase/session-admission.ts\<close>), and the session a request
  at the authorization endpoint may reuse (\<open>protocol-oidc/src/usecase/session-reuse.ts\<close>,
  \<open>service/session-selection.ts\<close>). \<open>digest\<close> is SHA-256, bytes to bytes.
\<close>

section \<open>Lifespans and liveness\<close>

text \<open>\<open>lifespanFor\<close>: idle and maximum seconds.\<close>

definition lifespanFor :: "lifespans \<Rightarrow> bool \<Rightarrow> int \<times> int" where
  "lifespanFor tenant remembered =
     (if remembered then (lf_rememberIdle tenant, lf_rememberMax tenant)
      else (lf_ssoIdle tenant, lf_ssoMax tenant))"

definition isSessionLive :: "session \<Rightarrow> int \<Rightarrow> time \<Rightarrow> bool" where
  "isSessionLive session idleSeconds now =
     (if now \<ge> ss_expiresAt session then False
      else now - ss_lastActiveAt session < idleSeconds * 1000)"

definition stillLive :: "session \<Rightarrow> lifespans \<Rightarrow> time \<Rightarrow> bool" where
  "stillLive row tenant now =
     (if ss_secretHash row = None then False
      else isSessionLive row (fst (lifespanFor tenant (ss_remembered row))) now)"

text \<open>The same predicate as the SQL text states it.\<close>

definition liveSessionCondition :: "lifespans \<Rightarrow> time \<Rightarrow> session \<Rightarrow> bool" where
  "liveSessionCondition tenant now row \<longleftrightarrow>
     ss_secretHash row \<noteq> None
     \<and> ss_expiresAt row > now
     \<and> ss_lastActiveAt row > now -
         1000 * (if ss_remembered row then lf_rememberIdle tenant else lf_ssoIdle tenant)"

section \<open>Cookie entries\<close>

record session_entry =
  en_id :: string
  en_secret :: string

text \<open>\<open>/^[0-9a-f]{8}-[0-9a-f]{4}-[0-9a-f]{4}-[0-9a-f]{4}-[0-9a-f]{12}$/iu\<close>\<close>

definition is_hex :: "char \<Rightarrow> bool" where
  "is_hex c \<longleftrightarrow> is_digit c \<or> (CHR ''a'' \<le> c \<and> c \<le> CHR ''f'') \<or> (CHR ''A'' \<le> c \<and> c \<le> CHR ''F'')"

definition isUuid :: "string \<Rightarrow> bool" where
  "isUuid value \<longleftrightarrow> map length (js_split CHR ''-'' value) = [8, 4, 4, 4, 12]
     \<and> list_all (list_all is_hex) (js_split CHR ''-'' value)"

text \<open>\<open>/^[A-Za-z0-9_-]{43}$/\<close>\<close>

definition SECRET :: "string \<Rightarrow> bool" where
  "SECRET s \<longleftrightarrow> length s = 43
     \<and> list_all (\<lambda>c. is_upper c \<or> is_lower c \<or> is_digit c \<or> c = CHR ''_'' \<or> c = CHR ''-'') s"

definition parse_entry :: "string \<Rightarrow> session_entry option" where
  "parse_entry value =
     (if CHR '':'' \<notin> set value then None
      else let i = takeWhile (\<lambda>c. c \<noteq> CHR '':'') value;
               secret = tl (dropWhile (\<lambda>c. c \<noteq> CHR '':'') value)
           in if \<not> isUuid i \<or> \<not> SECRET secret then None
              else Some \<lparr>en_id = i, en_secret = secret\<rparr>)"

definition cookieValue :: "session_entry \<Rightarrow> string" where
  "cookieValue e = en_id e @ CHR '':'' # en_secret e"

text \<open>Node's hex coding: lower case out; in, up to the first pair that is no hex.\<close>

definition hex_char :: "nat \<Rightarrow> char" where
  "hex_char n = (''0123456789abcdef'') ! n"

fun hex_encode :: "string \<Rightarrow> string" where
  "hex_encode [] = []"
| "hex_encode (c # cs) =
     hex_char (of_char c div 16) # hex_char (of_char c mod 16) # hex_encode cs"

definition hex_val :: "char \<Rightarrow> nat option" where
  "hex_val c =
     map_of (zip (''0123456789abcdef'' @ ''ABCDEF'') ([0..<16] @ [10..<16])) c"

fun hex_decode :: "string \<Rightarrow> string" where
  "hex_decode (a # b # cs) =
     (case (hex_val a, hex_val b) of
        (Some x, Some y) \<Rightarrow> char_of (16 * x + y) # hex_decode cs
      | _ \<Rightarrow> [])"
| "hex_decode _ = []"

definition entry_secretHash :: "(string \<Rightarrow> string) \<Rightarrow> session_entry \<Rightarrow> string" where
  "entry_secretHash digest e = hex_encode (digest (en_secret e))"

definition entry_matches :: "(string \<Rightarrow> string) \<Rightarrow> session_entry \<Rightarrow> string option \<Rightarrow> bool" where
  "entry_matches digest e storedHash =
     (case storedHash of
        None \<Rightarrow> False
      | Some h \<Rightarrow> length (hex_decode h) = length (digest (en_secret e))
                    \<and> hex_decode h = digest (en_secret e))"

lemma hex_val_char: "n < 16 \<Longrightarrow> hex_val (hex_char n) = Some n"
proof -
  have "\<forall>n \<in> set [0..<16]. hex_val (hex_char n) = Some n"
    by (simp add: hex_val_def hex_char_def upt_rec)
  then show "n < 16 \<Longrightarrow> hex_val (hex_char n) = Some n" by simp
qed

lemma hex_decode_encode [simp]: "hex_decode (hex_encode bs) = bs"
proof (induction bs)
  case (Cons c cs)
  have "of_char c < (256 :: nat)" by (rule nat_of_char_less_256)
  then have "of_char c div 16 < (16 :: nat)" by (simp add: less_mult_imp_div_less)
  then show ?case using Cons by (simp add: hex_val_char)
qed simp

text \<open>An entry proves exactly the rows whose hash is its own.\<close>

lemma entry_matches_issued:
  "entry_matches digest e (Some (entry_secretHash digest e')) \<longleftrightarrow>
     digest (en_secret e) = digest (en_secret e')"
  by (auto simp: entry_matches_def entry_secretHash_def)

section \<open>The cookies\<close>

definition lower_char :: "char \<Rightarrow> char" where
  "lower_char c = (if is_upper c then char_of (of_char c + 32 :: nat) else c)"

definition toLowerCase :: "string \<Rightarrow> string" where
  "toLowerCase s = map lower_char s"

definition sessionCookieName :: "string \<Rightarrow> bool \<Rightarrow> string" where
  "sessionCookieName tenant tls =
     (if tls then ''__Host-'' @ tenant @ ''-session'' else tenant @ ''-session'')"

definition PERSISTENT_SUFFIX :: string where
  "PERSISTENT_SUFFIX = ''-persistent''"

definition persistentName :: "string \<Rightarrow> bool \<Rightarrow> string" where
  "persistentName tenant tls = sessionCookieName tenant tls @ PERSISTENT_SUFFIX"

text \<open>\<open>attributes\<close>, \<open>cookie\<close> and \<open>listCookie\<close>; a maximum age is given in digits.\<close>

definition cookie_attributes :: "bool \<Rightarrow> string list" where
  "cookie_attributes tls =
     [''HttpOnly'', ''SameSite=Lax'', ''Path=/''] @ (if tls then [''Secure''] else [])"

fun join_with :: "string \<Rightarrow> string list \<Rightarrow> string" where
  "join_with sep [] = []"
| "join_with sep [x] = x"
| "join_with sep (x # y # ys) = x @ sep @ join_with sep (y # ys)"

definition cookie :: "string \<Rightarrow> string \<Rightarrow> bool \<Rightarrow> string option \<Rightarrow> string" where
  "cookie name val tls maxAge =
     join_with ''; '' ((name @ ''='' @ val) # cookie_attributes tls
       @ (case maxAge of None \<Rightarrow> [] | Some a \<Rightarrow> [''Max-Age='' @ a]))"

definition entries_value :: "session_entry list \<Rightarrow> string" where
  "entries_value entries = js_join CHR ''.'' (map cookieValue entries)"

definition listCookie :: "string \<Rightarrow> session_entry list \<Rightarrow> bool \<Rightarrow> string option \<Rightarrow> string" where
  "listCookie name entries tls maxAge =
     (if entries = [] then cookie name [] tls (Some ''0'')
      else cookie name (entries_value entries) tls maxAge)"

definition sessionCookies ::
  "string \<Rightarrow> bool \<Rightarrow> session_entry list \<Rightarrow> session_entry list \<Rightarrow> string \<Rightarrow> string list" where
  "sessionCookies tenant tls ephemeral persistent persistentMaxAge =
     [listCookie (sessionCookieName tenant tls) ephemeral tls None,
      listCookie (persistentName tenant tls) persistent tls (Some persistentMaxAge)]"

definition clearedSessionCookies :: "string \<Rightarrow> bool \<Rightarrow> string list" where
  "clearedSessionCookies tenant tls =
     [cookie (sessionCookieName tenant tls) [] tls (Some ''0''),
      cookie (persistentName tenant tls) [] tls (Some ''0'')]"

text \<open>\<open>entriesOf\<close>: the first pair of the header with the name, each malformed entry dropped.\<close>

definition pair_name :: "string \<Rightarrow> string" where
  "pair_name p = takeWhile (\<lambda>c. c \<noteq> CHR ''='') p"

definition pair_value :: "string \<Rightarrow> string" where
  "pair_value p = tl (dropWhile (\<lambda>c. c \<noteq> CHR ''='') p)"

definition entriesOf :: "string \<Rightarrow> string \<Rightarrow> session_entry list" where
  "entriesOf header name =
     (case find (\<lambda>p. CHR ''='' \<in> set p \<and> js_trim (pair_name p) = name)
             (js_split CHR '';'' header) of
        None \<Rightarrow> []
      | Some p \<Rightarrow>
          List.map_filter parse_entry (js_split CHR ''.'' (js_trim (pair_value p))))"

text \<open>\<open>readSessionEntries\<close>: the ordinary and the remembered list.\<close>

definition readSessionEntries ::
  "string option \<Rightarrow> string \<Rightarrow> bool \<Rightarrow> session_entry list \<times> session_entry list" where
  "readSessionEntries header tenant tls =
     (case header of
        None \<Rightarrow> ([], [])
      | Some h \<Rightarrow> (entriesOf h (sessionCookieName tenant tls), entriesOf h (persistentName tenant tls)))"

section \<open>The repository\<close>

definition session_byId :: "string \<Rightarrow> session list \<Rightarrow> session option" where
  "session_byId i rows = find (\<lambda>r. ss_id r = i) rows"

definition session_liveById :: "string \<Rightarrow> lifespans \<Rightarrow> time \<Rightarrow> session list \<Rightarrow> session option" where
  "session_liveById i tenant now rows =
     (case session_byId i rows of
        None \<Rightarrow> None
      | Some row \<Rightarrow> if stillLive row tenant now then Some row else None)"

definition session_touch :: "string \<Rightarrow> time \<Rightarrow> session list \<Rightarrow> session list" where
  "session_touch i now rows =
     update_where (\<lambda>r. ss_id r = i) (\<lambda>r. r\<lparr>ss_lastActiveAt := now\<rparr>) rows"

definition session_end :: "string \<Rightarrow> time \<Rightarrow> session list \<Rightarrow> bool \<times> session list" where
  "session_end i now rows =
     (let p = (\<lambda>r. ss_id r = i \<and> ss_expiresAt r > now); f = (\<lambda>r. r\<lparr>ss_expiresAt := now\<rparr>)
      in (length (returning p f rows) > 0, update_where p f rows))"

definition session_endAll :: "string list \<Rightarrow> time \<Rightarrow> session list \<Rightarrow> string list \<times> session list" where
  "session_endAll ids now rows =
     (if length ids = 0 then ([], rows)
      else let p = (\<lambda>r. ss_id r \<in> set ids \<and> ss_expiresAt r > now);
               f = (\<lambda>r. r\<lparr>ss_expiresAt := now\<rparr>)
           in (map ss_id (returning p f rows), update_where p f rows))"

definition session_liveIdsFor :: "string \<Rightarrow> time \<Rightarrow> nat \<Rightarrow> session list \<Rightarrow> string list" where
  "session_liveIdsFor subjectId now limit rows =
     take limit (sort (map ss_id
       (filter (\<lambda>r. ss_subjectId r = subjectId \<and> ss_expiresAt r > now) rows)))"

definition session_endMany :: "string list \<Rightarrow> time \<Rightarrow> session list \<Rightarrow> session list" where
  "session_endMany ids now rows =
     (if length ids = 0 then rows
      else update_where (\<lambda>r. ss_id r \<in> set ids) (\<lambda>r. r\<lparr>ss_expiresAt := now\<rparr>) rows)"

definition proved_by :: "(string \<Rightarrow> string) \<Rightarrow> session_entry list \<Rightarrow> session \<Rightarrow> session_entry option" where
  "proved_by digest entries row =
     find (\<lambda>candidate. toLowerCase (en_id candidate) = ss_id row
             \<and> entry_matches digest candidate (ss_secretHash row)) entries"

definition session_liveByEntries ::
  "(string \<Rightarrow> string) \<Rightarrow> session_entry list \<Rightarrow> lifespans \<Rightarrow> time \<Rightarrow> session list
     \<Rightarrow> (session \<times> session_entry) list" where
  "session_liveByEntries digest entries tenant now rows =
     (if length entries = 0 then []
      else List.map_filter
        (\<lambda>row. case proved_by digest entries row of
                 None \<Rightarrow> None
               | Some entry \<Rightarrow> if stillLive row tenant now then Some (row, entry) else None)
        (filter (\<lambda>row. ss_id row \<in> set (map (\<lambda>e. toLowerCase (en_id e)) entries)) rows))"

definition session_liveBySubject :: "string \<Rightarrow> lifespans \<Rightarrow> time \<Rightarrow> session list \<Rightarrow> session list" where
  "session_liveBySubject subjectId tenant now rows =
     filter (\<lambda>row. stillLive row tenant now)
       (sort_key ss_id (filter (\<lambda>r. ss_subjectId r = subjectId) rows))"

record new_session =
  ns_id :: string
  ns_subjectId :: string
  ns_expiresAt :: time
  ns_authenticators :: "string list"
  ns_secretHash :: string
  ns_remembered :: bool

definition session_row :: "time \<Rightarrow> new_session \<Rightarrow> session" where
  "session_row dbNow v =
     \<lparr>ss_id = ns_id v, ss_subjectId = ns_subjectId v, ss_createdAt = dbNow,
      ss_expiresAt = ns_expiresAt v, ss_lastActiveAt = dbNow,
      ss_authenticators = ns_authenticators v, ss_remembered = ns_remembered v,
      ss_secretHash = Some (ns_secretHash v)\<rparr>"

definition session_create :: "time \<Rightarrow> new_session \<Rightarrow> unit db" where
  "session_create dbNow v s =
     (case insert_row ss_id (session_row dbNow v) (st_sessions s) of
        None \<Rightarrow> (Inl (UniqueViolation ''sessions_pkey''), s)
      | Some rows \<Rightarrow>
          if \<not> has_subject s (ns_subjectId v)
          then (Inl (ForeignKeyViolation ''sessions_subject_fk''), s)
          else (Inr (), s\<lparr>st_sessions := rows\<rparr>))"

section \<open>Cookies round trip\<close>

definition entry_wf :: "session_entry \<Rightarrow> bool" where
  "entry_wf e \<longleftrightarrow> isUuid (en_id e) \<and> SECRET (en_secret e)"

lemma js_split_chars:
  "c \<in> set s \<Longrightarrow> c = sep \<or> (\<exists>p \<in> set (js_split sep s). c \<in> set p)"
proof (induction s)
  case (Cons a s)
  then show ?case by (cases "js_split sep s") auto
qed simp

text \<open>The characters of an id and of a secret.\<close>

definition entry_char :: "char \<Rightarrow> bool" where
  "entry_char c \<longleftrightarrow> is_upper c \<or> is_lower c \<or> is_digit c \<or> c = CHR ''_'' \<or> c = CHR ''-''"

lemmas char_class_defs = is_upper_def is_lower_def is_digit_def is_hex_def

lemma entry_char_not [simp]:
  "\<not> entry_char CHR '':''" "\<not> entry_char CHR ''.''" "\<not> entry_char CHR '';''"
  "\<not> entry_char CHR ''=''" "\<not> entry_char CHR '' ''"
  by (simp_all add: entry_char_def char_class_defs)

lemma entry_char_no_space: "entry_char c \<Longrightarrow> \<not> is_js_space c"
  by (auto simp: is_js_space_def entry_char_def char_class_defs less_eq_char_def)

lemma is_hex_entry_char: "is_hex c \<Longrightarrow> entry_char c"
  by (auto simp: entry_char_def char_class_defs less_eq_char_def)

lemma isUuid_chars: "isUuid i \<Longrightarrow> c \<in> set i \<Longrightarrow> entry_char c"
  using js_split_chars [of c i "CHR ''-''"] is_hex_entry_char
  by (auto simp: isUuid_def list_all_iff entry_char_def)

lemma SECRET_chars: "SECRET s \<Longrightarrow> c \<in> set s \<Longrightarrow> entry_char c"
  by (auto simp: SECRET_def list_all_iff entry_char_def)

lemma parse_cookieValue [simp]:
  assumes "entry_wf e"
  shows "parse_entry (cookieValue e) = Some e"
proof -
  have "c \<noteq> CHR '':''" if "c \<in> set (en_id e)" for c
    using isUuid_chars [OF _ that] assms by (auto simp: entry_wf_def)
  then have "takeWhile (\<lambda>c. c \<noteq> CHR '':'') (cookieValue e) = en_id e"
    "dropWhile (\<lambda>c. c \<noteq> CHR '':'') (cookieValue e) = CHR '':'' # en_secret e"
    by (auto simp: cookieValue_def takeWhile_append dropWhile_append)
  then show ?thesis using assms by (auto simp: parse_entry_def entry_wf_def cookieValue_def)
qed

lemma cookieValue_chars:
  "entry_wf e \<Longrightarrow> c \<in> set (cookieValue e) \<Longrightarrow> entry_char c \<or> c = CHR '':''"
  by (auto simp: cookieValue_def entry_wf_def dest: isUuid_chars SECRET_chars)

lemma js_join_chars:
  "c \<in> set (js_join sep ws) \<Longrightarrow> c = sep \<or> (\<exists>w \<in> set ws. c \<in> set w)"
  by (induction sep ws rule: js_join.induct) auto

lemma entries_value_chars:
  "\<forall>e \<in> set es. entry_wf e \<Longrightarrow> c \<in> set (entries_value es) \<Longrightarrow>
     entry_char c \<or> c = CHR '':'' \<or> c = CHR ''.''"
  using js_join_chars [of c "CHR ''.''" "map cookieValue es"] cookieValue_chars
  by (fastforce simp: entries_value_def)

lemma entries_value_parse:
  assumes "\<forall>e \<in> set es. entry_wf e" "es \<noteq> []"
  shows "List.map_filter parse_entry (js_split CHR ''.'' (entries_value es)) = es"
proof -
  have "\<forall>w \<in> set (map cookieValue es). CHR ''.'' \<notin> set w"
    using assms(1) cookieValue_chars by fastforce
  then have "js_split CHR ''.'' (entries_value es) = map cookieValue es"
    unfolding entries_value_def using assms(2) by (intro js_split_join) auto
  moreover have "List.map_filter parse_entry (map cookieValue es) = es"
    using assms(1) by (induction es) (auto simp: List.map_filter_simps)
  ultimately show ?thesis by simp
qed

lemma js_trim_none: "\<forall>c \<in> set s. \<not> is_js_space c \<Longrightarrow> js_trim s = s"
proof -
  have keep: "dropWhile is_js_space t = t" if "\<forall>c \<in> set t. \<not> is_js_space c" for t
    using that by (cases t) auto
  assume "\<forall>c \<in> set s. \<not> is_js_space c"
  then show ?thesis by (simp add: js_trim_def keep)
qed

lemma js_trim_lead: "js_trim (CHR '' '' # s) = js_trim s"
  by (simp add: js_trim_def is_js_space_def)

lemma entries_value_no_space:
  "\<forall>e \<in> set es. entry_wf e \<Longrightarrow> \<forall>c \<in> set (entries_value es). \<not> is_js_space c"
  using entries_value_chars entry_char_no_space by (fastforce simp: is_js_space_def)

text \<open>A name a cookie can have: no separator and no white space.\<close>

definition cookie_name :: "string \<Rightarrow> bool" where
  "cookie_name n \<longleftrightarrow> CHR ''='' \<notin> set n \<and> CHR '';'' \<notin> set n \<and> (\<forall>c \<in> set n. \<not> is_js_space c)"

definition cookie_pair :: "string \<Rightarrow> session_entry list \<Rightarrow> string" where
  "cookie_pair name es = name @ CHR ''='' # entries_value es"

lemma pair_cookie:
  "cookie_name n \<Longrightarrow> pair_name (cookie_pair n es) = n"
  "cookie_name n \<Longrightarrow> pair_value (cookie_pair n es) = entries_value es"
  "pair_name (CHR '' '' # p) = CHR '' '' # pair_name p"
  "pair_value (CHR '' '' # p) = pair_value p"
  by (auto simp: pair_name_def pair_value_def cookie_pair_def cookie_name_def
      takeWhile_append dropWhile_append)

lemma js_trim_name: "cookie_name n \<Longrightarrow> js_trim n = n"
  by (simp add: js_trim_none cookie_name_def)

lemma pair_no_semicolon:
  "cookie_name n \<Longrightarrow> \<forall>e \<in> set es. entry_wf e \<Longrightarrow> CHR '';'' \<notin> set (cookie_pair n es)"
  using entries_value_chars [of es "CHR '';''"] by (auto simp: cookie_pair_def cookie_name_def)

text \<open>What a browser sends back of the two cookies it was set: an empty one was expired.\<close>

definition cookie_header :: "string \<Rightarrow> session_entry list \<Rightarrow> string \<Rightarrow> session_entry list \<Rightarrow> string" where
  "cookie_header n1 es1 n2 es2 =
     (let p1 = cookie_pair n1 es1; p2 = cookie_pair n2 es2
      in if es1 = [] then (if es2 = [] then [] else p2)
         else if es2 = [] then p1 else p1 @ CHR '';'' # CHR '' '' # p2)"

lemma cookie_header_entries:
  assumes n: "cookie_name n1" "cookie_name n2" "n1 \<noteq> n2"
    and es: "\<forall>e \<in> set es1. entry_wf e" "\<forall>e \<in> set es2. entry_wf e"
  shows "entriesOf (cookie_header n1 es1 n2 es2) n1 = es1"
    and "entriesOf (cookie_header n1 es1 n2 es2) n2 = es2"
proof -
  have sp: "js_split CHR '';'' (cookie_pair n1 es1) = [cookie_pair n1 es1]"
    "js_split CHR '';'' (cookie_pair n2 es2) = [cookie_pair n2 es2]"
    "js_split CHR '';'' (cookie_pair n1 es1 @ CHR '';'' # CHR '' '' # cookie_pair n2 es2) =
       [cookie_pair n1 es1, CHR '' '' # cookie_pair n2 es2]"
    using n es by (simp_all add: pair_no_semicolon js_split_word js_split_app)
  have eq: "CHR ''='' \<in> set (cookie_pair n1 es1)" "CHR ''='' \<in> set (cookie_pair n2 es2)"
    by (auto simp: cookie_pair_def)
  have v: "js_trim (entries_value es1) = entries_value es1" "js_trim (entries_value es2) = entries_value es2"
    using es by (auto intro!: js_trim_none entries_value_no_space)
  note simps = entriesOf_def cookie_header_def Let_def sp eq v pair_cookie js_trim_lead js_trim_name
    n n(3) [symmetric] entries_value_parse es
  show "entriesOf (cookie_header n1 es1 n2 es2) n1 = es1" by (simp add: simps)
  show "entriesOf (cookie_header n1 es1 n2 es2) n2 = es2" by (simp add: simps)
qed

end
