(* ===== verification/Admission.thy ===== *)
theory Admission
  imports Sessions "HOL-Library.Multiset"
begin

text \<open>
  How a session is admitted and which one a request reuses: the cap on one browser's sessions
  (\<open>authn-flows/src/service/session-set.ts\<close>, \<open>usecase/session-admission.ts\<close>,
  \<open>establishSession\<close>), the choice among the sessions a browser holds
  (\<open>protocol-oidc/src/usecase/session-reuse.ts\<close>, \<open>service/session-selection.ts\<close>) and
  the steps of a login flow (\<open>authn-flows/src/service/requirements.ts\<close>).
\<close>

section \<open>The cap\<close>

definition chooseEvictions :: "session list \<Rightarrow> int \<Rightarrow> string list" where
  "chooseEvictions live cap =
     (let surplus = int (length live) + 1 - cap
      in if surplus \<le> 0 then []
         else map ss_id (take (nat surplus) (sort_key ss_lastActiveAt live)))"

record admit_input =
  ad_subjectId :: string
  ad_authenticators :: "string list"
  ad_remembered :: bool
  ad_browserSessions :: "session_entry list"
  ad_maxSessionsPerBrowser :: int
  ad_lifespans :: lifespans

definition eviction_event :: "session \<Rightarrow> audit_event" where
  "eviction_event sess =
     \<lparr>ae_eventType = ''session'', ae_action = ''session.ended'', ae_outcome = Allowed,
      ae_actorSubjectId = Some (ss_subjectId sess), ae_actorClientId = None,
      ae_resourceType = Some ''session'', ae_resourceId = Some (ss_id sess),
      ae_detail = [(''via'', JStr ''evicted'')]\<rparr>"

text \<open>\<open>establishSession\<close>; \<open>entry\<close> is what \<open>SessionEntry.issue(newId())\<close> drew.\<close>

definition establishSession ::
  "(string \<Rightarrow> string) \<Rightarrow> time \<Rightarrow> time \<Rightarrow> session_entry \<Rightarrow> string \<Rightarrow> int \<Rightarrow> string list \<Rightarrow> bool
     \<Rightarrow> session_entry db" where
  "establishSession digest dbNow now entry subjectId maxSeconds authenticators remembered =
     tbind (session_create dbNow
       \<lparr>ns_id = en_id entry, ns_subjectId = subjectId, ns_expiresAt = now + maxSeconds * 1000,
        ns_authenticators = authenticators, ns_secretHash = entry_secretHash digest entry,
        ns_remembered = remembered\<rparr>) (\<lambda>_.
     tret entry)"

definition admitSession ::
  "deps \<Rightarrow> (string \<Rightarrow> string) \<Rightarrow> session_entry \<Rightarrow> admit_input \<Rightarrow> session_entry db" where
  "admitSession d digest entry input s =
     (let now = dp_now d;
          live = session_liveByEntries digest (ad_browserSessions input) (ad_lifespans input) now
                   (st_sessions s);
          evicted = chooseEvictions (map fst live) (ad_maxSessionsPerBrowser input);
          s1 = s\<lparr>st_sessions := session_endMany evicted now (st_sessions s)\<rparr>
      in tbind (audit_recordAll d
            (map eviction_event (filter (\<lambda>r. ss_id r \<in> set evicted) (map fst live)))) (\<lambda>_.
         establishSession digest (dp_dbNow d) now entry (ad_subjectId input)
           (snd (lifespanFor (ad_lifespans input) (ad_remembered input)))
           (ad_authenticators input) (ad_remembered input)) s1)"

section \<open>Reuse\<close>

record resolved_session =
  rs_id :: string
  rs_subjectId :: string
  rs_authTime :: time

datatype reuse_error = LoginRequired | AccountSelectionRequired

datatype reuse_decision =
    Reuse resolved_session
  | Select "resolved_session list"
  | Authenticate
  | RefuseReuse reuse_error

definition withinMaxAge :: "time \<Rightarrow> int option \<Rightarrow> time \<Rightarrow> bool" where
  "withinMaxAge authTime maxAge now =
     (case maxAge of None \<Rightarrow> True | Some m \<Rightarrow> now - authTime < m * 1000)"

definition decideReuse ::
  "resolved_session list \<Rightarrow> prompt_value list \<Rightarrow> int option \<Rightarrow> time \<Rightarrow> reuse_decision" where
  "decideReuse sessions prompts maxAge now =
     (let silent = PromptNone \<in> set prompts
      in if PromptLogin \<in> set prompts
         then (if silent then RefuseReuse LoginRequired else Authenticate)
         else
           let candidates = filter (\<lambda>x. withinMaxAge (rs_authTime x) maxAge now) sessions
           in if length candidates = 0
              then (if silent then RefuseReuse LoginRequired else Authenticate)
              else if length candidates = 1 \<and> PromptSelectAccount \<notin> set prompts
              then Reuse (hd candidates)
              else if silent then RefuseReuse AccountSelectionRequired
              else Select candidates)"

definition more_recent :: "session option \<Rightarrow> session \<Rightarrow> session option" where
  "more_recent current candidate =
     (case current of
        None \<Rightarrow> Some candidate
      | Some c \<Rightarrow>
          if ss_lastActiveAt candidate > ss_lastActiveAt c then Some candidate
          else if ss_lastActiveAt candidate < ss_lastActiveAt c then current
          else if ss_id candidate > ss_id c then Some candidate else current)"

definition mostRecentlyActive :: "session list \<Rightarrow> session option" where
  "mostRecentlyActive sessions = foldl more_recent None sessions"

section \<open>Flow steps\<close>

datatype requirement = Required | Alternative | Conditional | Disabled

record flow_step =
  sp_authenticator :: string
  sp_requirement :: requirement
  sp_applicable :: bool

datatype next_step = Run string | Complete | Fail

datatype group_kind = AlternativeGroup | SingleGroup

type_synonym group = "group_kind \<times> flow_step list"

text \<open>\<open>groupSteps\<close>, the groups so far kept with the last one first.\<close>

fun add_step :: "flow_step \<Rightarrow> group list \<Rightarrow> group list" where
  "add_step s ((AlternativeGroup, ms) # gs) =
     (if sp_requirement s = Alternative then (AlternativeGroup, ms @ [s]) # gs
      else (SingleGroup, [s]) # (AlternativeGroup, ms) # gs)"
| "add_step s gs =
     ((if sp_requirement s = Alternative then AlternativeGroup else SingleGroup), [s]) # gs"

definition groupSteps :: "flow_step list \<Rightarrow> group list" where
  "groupSteps steps =
     rev (foldl (\<lambda>gs s. if sp_requirement s = Disabled then gs else add_step s gs) [] steps)"

definition isGroupSatisfied :: "group \<Rightarrow> string set \<Rightarrow> bool" where
  "isGroupSatisfied g satisfied =
     (if list_ex (\<lambda>m. sp_authenticator m \<in> satisfied) (snd g) then True
      else if fst g = SingleGroup then
        (case snd g of
           [] \<Rightarrow> False
         | only # _ \<Rightarrow> if sp_requirement only = Required then False else \<not> sp_applicable only)
      else False)"

fun first_open :: "group list \<Rightarrow> string set \<Rightarrow> next_step" where
  "first_open [] satisfied = Complete"
| "first_open (g # gs) satisfied =
     (if isGroupSatisfied g satisfied then first_open gs satisfied
      else case find sp_applicable (snd g) of
          None \<Rightarrow> Fail
        | Some m \<Rightarrow> Run (sp_authenticator m))"

definition nextStep :: "flow_step list \<Rightarrow> string set \<Rightarrow> next_step" where
  "nextStep executions satisfied =
     (let groups = groupSteps executions
      in if groups = [] then Fail else first_open groups satisfied)"

section \<open>The sessions a browser proves\<close>

lemma live_filter:
  "map fst (session_liveByEntries digest es tenant now rows) =
     filter (\<lambda>r. proved_by digest es r \<noteq> None \<and> stillLive r tenant now) rows"
proof -
  have named: "ss_id r \<in> set (map (\<lambda>e. toLowerCase (en_id e)) es)" if "proved_by digest es r = Some e" for r e
    using that unfolding proved_by_def by (force dest!: find_SomeD)
  have "map fst (List.map_filter
      (\<lambda>row. case proved_by digest es row of None \<Rightarrow> None
        | Some entry \<Rightarrow> if stillLive row tenant now then Some (row, entry) else None)
      (filter (\<lambda>row. ss_id row \<in> set (map (\<lambda>e. toLowerCase (en_id e)) es)) rows)) =
    filter (\<lambda>r. proved_by digest es r \<noteq> None \<and> stillLive r tenant now) rows"
  proof (induction rows)
    case (Cons r rows)
    then show ?case
      using named [of r] by (cases "proved_by digest es r") (auto simp: List.map_filter_simps)
  qed (simp add: List.map_filter_simps)
  moreover have "es = [] \<Longrightarrow> proved_by digest es r = None" for r by (simp add: proved_by_def)
  ultimately show ?thesis by (auto simp: session_liveByEntries_def)
qed

lemma live_length:
  "length (session_liveByEntries digest es tenant now rows) =
     length (filter (\<lambda>r. proved_by digest es r \<noteq> None \<and> stillLive r tenant now) rows)"
  using live_filter [of digest es tenant now rows] by (metis length_map)

lemma chooseEvictions_subset: "set (chooseEvictions live cap) \<subseteq> ss_id ` set live"
  by (auto simp: chooseEvictions_def Let_def dest: in_set_takeD)

text \<open>What is left beside one more session fits the cap.\<close>

lemma chooseEvictions_room:
  assumes d: "distinct (map ss_id live)" and cap: "1 \<le> cap"
  shows "int (length (filter (\<lambda>r. ss_id r \<notin> set (chooseEvictions live cap)) live)) + 1 \<le> cap"
proof (cases "int (length live) + 1 - cap \<le> 0")
  case True
  then have "int (length (filter (\<lambda>r. ss_id r \<notin> set (chooseEvictions live cap)) live)) \<le> cap - 1"
    using length_filter_le [of "\<lambda>r. ss_id r \<notin> set (chooseEvictions live cap)" live] by linarith
  then show ?thesis by simp
next
  case False
  define n where "n = nat (int (length live) + 1 - cap)"
  define L where "L = sort_key ss_lastActiveAt live"
  let ?Q = "\<lambda>r. ss_id r \<notin> set (chooseEvictions live cap)"
  have ids: "chooseEvictions live cap = map ss_id (take n L)"
    using False by (simp add: chooseEvictions_def Let_def n_def L_def)
  have "mset (map ss_id L) = mset (map ss_id live)" by (simp add: L_def)
  with d have dL: "distinct (map ss_id (take n L @ drop n L))"
    using mset_eq_imp_distinct_iff by (metis append_take_drop_id)
  have none: "filter ?Q (take n L) = []" by (auto simp: ids filter_empty_conv)
  have all: "filter ?Q (drop n L) = drop n L"
    unfolding filter_id_conv ids using dL by (auto simp del: append_take_drop_id)
  have "filter ?Q L = filter ?Q (take n L) @ filter ?Q (drop n L)"
    by (metis append_take_drop_id filter_append)
  then have "length (filter ?Q L) = length L - n" using none all by simp
  moreover have "length (filter ?Q live) = length (filter ?Q L)"
    using mset_filter [of ?Q L] mset_filter [of ?Q live] by (metis L_def mset_sort size_mset)
  ultimately show ?thesis using False cap by (simp add: L_def n_def)
qed

text \<open>No session is ended while one less recently active is kept.\<close>

lemma chooseEvictions_oldest:
  assumes d: "distinct (map ss_id live)" and x: "x \<in> set live" "ss_id x \<in> set (chooseEvictions live cap)"
    and y: "y \<in> set live" "ss_id y \<notin> set (chooseEvictions live cap)"
  shows "ss_lastActiveAt x \<le> ss_lastActiveAt y"
proof -
  define L where "L = sort_key ss_lastActiveAt live"
  from x(2) obtain n where ids: "chooseEvictions live cap = map ss_id (take n L)"
    by (auto simp: chooseEvictions_def Let_def L_def split: if_splits)
  have L: "set L = set live" by (simp add: L_def)
  from x ids obtain x' where "x' \<in> set (take n L)" "ss_id x' = ss_id x" by auto
  with x(1) L d have "x \<in> set (take n L)" by (metis distinct_keyD in_set_takeD)
  moreover have "y \<in> set (drop n L)"
    using y ids L by (metis append_take_drop_id Un_iff set_append image_eqI set_map)
  moreover have "sorted (map ss_lastActiveAt (take n L @ drop n L))" by (simp add: L_def)
  ultimately show ?thesis by (auto simp: sorted_append simp del: append_take_drop_id)
qed

lemma session_endMany_ids [simp]: "map ss_id (session_endMany ids now rows) = map ss_id rows"
  by (simp add: session_endMany_def)

lemma session_create_Inr:
  "session_create dbNow v s = (Inr u, s') \<Longrightarrow>
     s' = s\<lparr>st_sessions := st_sessions s @ [session_row dbNow v]\<rparr>
     \<and> ns_id v \<notin> ss_id ` set (st_sessions s)"
  by (auto simp: session_create_def insert_row_Some session_row_def split: option.splits if_splits)

lemma admitSession_Inr:
  assumes "admitSession d digest entry input s = (Inr e, s')"
  shows "\<exists>row. st_sessions s' = session_endMany
      (chooseEvictions (map fst (session_liveByEntries digest (ad_browserSessions input)
         (ad_lifespans input) (dp_now d) (st_sessions s))) (ad_maxSessionsPerBrowser input))
      (dp_now d) (st_sessions s) @ [row]
    \<and> ss_id row = en_id entry \<and> en_id entry \<notin> ss_id ` set (st_sessions s)"
proof -
  let ?ev = "chooseEvictions (map fst (session_liveByEntries digest (ad_browserSessions input)
    (ad_lifespans input) (dp_now d) (st_sessions s))) (ad_maxSessionsPerBrowser input)"
  let ?rows = "session_endMany ?ev (dp_now d) (st_sessions s)"
  from assms obtain s1 v u u' where
    a: "audit_recordAll d (map eviction_event (filter (\<lambda>r. ss_id r \<in> set ?ev)
        (map fst (session_liveByEntries digest (ad_browserSessions input)
          (ad_lifespans input) (dp_now d) (st_sessions s))))) (s\<lparr>st_sessions := ?rows\<rparr>) = (Inr u, s1)"
    and c: "session_create (dp_dbNow d) v s1 = (Inr u', s')" "ns_id v = en_id entry"
    by (auto simp: admitSession_def Let_def establishSession_def tx_simps)
  from audit_recordAll_state [OF a] have "st_sessions s1 = ?rows" by auto
  moreover from session_create_Inr [OF c(1)]
  have "st_sessions s' = st_sessions s1 @ [session_row (dp_dbNow d) v]"
    "ns_id v \<notin> ss_id ` set (st_sessions s1)" by auto
  moreover have "ss_id ` set ?rows = ss_id ` set (st_sessions s)"
    by (simp add: session_endMany_ids flip: set_map)
  ultimately show ?thesis using c(2) by (auto simp: session_row_def)
qed

lemma proved_by_snoc:
  "toLowerCase (en_id e) \<noteq> ss_id r \<Longrightarrow> proved_by digest (es @ [e]) r = proved_by digest es r"
  by (induction es) (auto simp: proved_by_def)

lemma proved_by_cong:
  "ss_id r' = ss_id r \<Longrightarrow> ss_secretHash r' = ss_secretHash r \<Longrightarrow>
     proved_by digest es r' = proved_by digest es r"
  by (simp add: proved_by_def)

lemma ended_not_live: "ss_expiresAt r \<le> now \<Longrightarrow> \<not> stillLive r tenant now"
  by (simp add: stillLive_def isSessionLive_def)

text \<open>The rows a browser proves after some of its sessions are ended.\<close>

lemma live_after_endMany:
  "length (filter (\<lambda>r. proved_by digest es r \<noteq> None \<and> stillLive r tenant now)
      (session_endMany ids now rows)) =
   length (filter (\<lambda>r. ss_id r \<notin> set ids)
      (filter (\<lambda>r. proved_by digest es r \<noteq> None \<and> stillLive r tenant now) rows))"
proof -
  have "proved_by digest es (r\<lparr>ss_expiresAt := now\<rparr>) = proved_by digest es r" for r
    by (rule proved_by_cong) simp_all
  then show ?thesis
    by (induction rows) (auto simp: session_endMany_def update_where_def ended_not_live)
qed

lemma admitSession_room:
  assumes a: "admitSession d digest entry input s = (Inr e, s')"
    and d: "distinct (map ss_id (st_sessions s))" and cap: "1 \<le> ad_maxSessionsPerBrowser input"
    and lower: "toLowerCase (en_id entry) = en_id entry"
  shows "int (length (session_liveByEntries digest (ad_browserSessions input @ [entry])
      (ad_lifespans input) (dp_now d) (st_sessions s'))) \<le> ad_maxSessionsPerBrowser input"
proof -
  let ?es = "ad_browserSessions input" and ?now = "dp_now d" and ?t = "ad_lifespans input"
  let ?P = "\<lambda>r. proved_by digest ?es r \<noteq> None \<and> stillLive r ?t ?now"
  let ?P' = "\<lambda>r. proved_by digest (?es @ [entry]) r \<noteq> None \<and> stillLive r ?t ?now"
  let ?live = "filter ?P (st_sessions s)"
  let ?ev = "chooseEvictions ?live (ad_maxSessionsPerBrowser input)"
  from admitSession_Inr [OF a] obtain row where
    s': "st_sessions s' = session_endMany ?ev ?now (st_sessions s) @ [row]"
    and fresh: "en_id entry \<notin> ss_id ` set (st_sessions s)"
    unfolding live_filter by blast
  have ids: "ss_id r \<in> ss_id ` set (st_sessions s)"
    if "r \<in> set (session_endMany ?ev ?now (st_sessions s))" for r
  proof -
    have "ss_id r \<in> set (map ss_id (session_endMany ?ev ?now (st_sessions s)))"
      unfolding set_map by (rule imageI [OF that])
    then show ?thesis by (simp only: session_endMany_ids set_map)
  qed
  have "filter ?P' (session_endMany ?ev ?now (st_sessions s)) =
      filter ?P (session_endMany ?ev ?now (st_sessions s))"
  proof (rule filter_cong [OF refl])
    fix r assume "r \<in> set (session_endMany ?ev ?now (st_sessions s))"
    then have "ss_id r \<in> ss_id ` set (st_sessions s)" by (rule ids)
    then have "toLowerCase (en_id entry) \<noteq> ss_id r" using fresh lower by metis
    then show "?P' r = ?P r" by (simp add: proved_by_snoc)
  qed
  then have kept: "length (filter ?P' (session_endMany ?ev ?now (st_sessions s))) =
      length (filter (\<lambda>r. ss_id r \<notin> set ?ev) ?live)"
    by (simp only: live_after_endMany)
  have "length (filter ?P' [row]) \<le> 1"
    using length_filter_le [of ?P' "[row]"] by (simp only: list.size)
  then have "length (filter ?P' (st_sessions s')) \<le>
      length (filter (\<lambda>r. ss_id r \<notin> set ?ev) ?live) + 1"
    unfolding s' filter_append length_append kept by (rule add_left_mono)
  moreover have "distinct (map ss_id ?live)" using d by (rule distinct_map_filter)
  then have "int (length (filter (\<lambda>r. ss_id r \<notin> set ?ev) ?live)) + 1 \<le> ad_maxSessionsPerBrowser input"
    using cap by (rule chooseEvictions_room)
  ultimately show ?thesis unfolding live_length by linarith
qed

section \<open>Choosing\<close>

lemma decideReuse_silent:
  "PromptNone \<in> set prompts \<Longrightarrow>
     (\<exists>r. decideReuse sessions prompts maxAge now = Reuse r)
     \<or> (\<exists>e. decideReuse sessions prompts maxAge now = RefuseReuse e)"
  by (auto simp: decideReuse_def Let_def)

lemma decideReuse_Reuse:
  assumes "decideReuse sessions prompts maxAge now = Reuse r"
  shows "filter (\<lambda>x. withinMaxAge (rs_authTime x) maxAge now) sessions = [r]
    \<and> PromptLogin \<notin> set prompts \<and> PromptSelectAccount \<notin> set prompts"
  using assms
  by (cases "filter (\<lambda>x. withinMaxAge (rs_authTime x) maxAge now) sessions")
     (auto simp: decideReuse_def Let_def split: if_splits)

definition at_least :: "session \<Rightarrow> session \<Rightarrow> bool" where
  "at_least m x \<longleftrightarrow> ss_lastActiveAt x < ss_lastActiveAt m
     \<or> (ss_lastActiveAt x = ss_lastActiveAt m \<and> ss_id x \<le> ss_id m)"

lemma at_least_refl [simp]: "at_least m m"
  by (simp add: at_least_def)

lemma more_recent_at_least:
  "\<exists>m'. more_recent (Some m) x = Some m' \<and> m' \<in> {m, x} \<and> at_least m' m \<and> at_least m' x"
  by (auto simp: more_recent_def at_least_def)

lemma at_least_trans: "at_least a b \<Longrightarrow> at_least b c \<Longrightarrow> at_least a c"
  by (auto simp: at_least_def)

lemma foldl_more_recent:
  "\<exists>m'. foldl more_recent (Some m) xs = Some m' \<and> m' \<in> insert m (set xs)
     \<and> (\<forall>x \<in> insert m (set xs). at_least m' x)"
proof (induction xs arbitrary: m)
  case (Cons x xs)
  from more_recent_at_least [of m x] obtain m1 where
    m1: "more_recent (Some m) x = Some m1" "m1 \<in> {m, x}" "at_least m1 m" "at_least m1 x" by blast
  from Cons.IH [of m1] obtain m' where
    "foldl more_recent (Some m1) xs = Some m'" "m' \<in> insert m1 (set xs)"
    "\<forall>y \<in> insert m1 (set xs). at_least m' y" by blast
  with m1 show ?case by (intro exI [of _ m']) (auto intro: at_least_trans)
qed simp

lemma mostRecentlyActive_max:
  assumes "xs \<noteq> []"
  shows "\<exists>m. mostRecentlyActive xs = Some m \<and> m \<in> set xs \<and> (\<forall>x \<in> set xs. at_least m x)"
proof (cases xs)
  case (Cons y ys)
  then show ?thesis
    using foldl_more_recent [of y ys] by (simp add: mostRecentlyActive_def more_recent_def)
qed (use assms in simp)

lemma mostRecentlyActive_perm_lemma:
  assumes "set xs = set ys" "distinct (map ss_id xs)"
  shows "mostRecentlyActive xs = mostRecentlyActive ys"
proof (cases "xs = []")
  case True
  with assms show ?thesis by (simp add: mostRecentlyActive_def)
next
  case False
  with assms have ys: "ys \<noteq> []" by auto
  from mostRecentlyActive_max [OF False] obtain m where
    m: "mostRecentlyActive xs = Some m" "m \<in> set xs" "\<forall>x \<in> set xs. at_least m x" by blast
  from mostRecentlyActive_max [OF ys] obtain n where
    n: "mostRecentlyActive ys = Some n" "n \<in> set ys" "\<forall>x \<in> set ys. at_least n x" by blast
  from m n assms(1) have "at_least m n" "at_least n m" by auto
  then have "ss_id m = ss_id n" by (auto simp: at_least_def)
  with m n assms have "m = n" by (metis distinct_keyD)
  with m n show ?thesis by simp
qed

section \<open>Flows\<close>

definition group_ok :: "group \<Rightarrow> bool" where
  "group_ok g = (case fst g of
     AlternativeGroup \<Rightarrow> snd g \<noteq> [] \<and> (\<forall>m \<in> set (snd g). sp_requirement m = Alternative)
   | SingleGroup \<Rightarrow> (\<exists>m. snd g = [m] \<and> sp_requirement m \<in> {Required, Conditional}))"

lemma add_step_ok:
  "sp_requirement s \<noteq> Disabled \<Longrightarrow> list_all group_ok gs \<Longrightarrow>
     list_all group_ok (add_step s gs)
     \<and> concat (map snd (rev (add_step s gs))) = concat (map snd (rev gs)) @ [s]"
  by (induction s gs rule: add_step.induct; case_tac "sp_requirement s") (simp_all add: group_ok_def)

lemma groupSteps_ok:
  "list_all group_ok (groupSteps steps)
   \<and> concat (map snd (groupSteps steps)) = filter (\<lambda>s. sp_requirement s \<noteq> Disabled) steps"
proof -
  have "list_all group_ok gs \<Longrightarrow>
      list_all group_ok (foldl (\<lambda>gs s. if sp_requirement s = Disabled then gs else add_step s gs) gs steps)
      \<and> concat (map snd (rev (foldl (\<lambda>gs s. if sp_requirement s = Disabled then gs else add_step s gs) gs steps)))
        = concat (map snd (rev gs)) @ filter (\<lambda>s. sp_requirement s \<noteq> Disabled) steps" for gs
  proof (induction steps arbitrary: gs)
    case (Cons s steps)
    then show ?case by (cases "sp_requirement s = Disabled") (auto simp: add_step_ok)
  qed simp
  from this [of "[]"] show ?thesis by (simp add: groupSteps_def list_all_iff)
qed

lemma first_open_Complete:
  "first_open gs satisfied = Complete \<longleftrightarrow> (\<forall>g \<in> set gs. isGroupSatisfied g satisfied)"
  by (induction gs) (auto split: option.splits)

lemma first_open_Run:
  assumes "first_open gs satisfied = Run a"
  shows "\<exists>pre g post m. gs = pre @ g # post \<and> (\<forall>h \<in> set pre. isGroupSatisfied h satisfied)
    \<and> \<not> isGroupSatisfied g satisfied \<and> m \<in> set (snd g) \<and> sp_applicable m
    \<and> sp_authenticator m = a \<and> a \<notin> satisfied"
  using assms
proof (induction gs)
  case (Cons g gs)
  show ?case
  proof (cases "isGroupSatisfied g satisfied")
    case True
    with Cons obtain pre h post m where "gs = pre @ h # post" "\<forall>x \<in> set pre. isGroupSatisfied x satisfied"
      "\<not> isGroupSatisfied h satisfied" "m \<in> set (snd h)" "sp_applicable m" "sp_authenticator m = a"
      "a \<notin> satisfied" by auto
    with True show ?thesis by (intro exI [of _ "g # pre"] exI [of _ h] exI [of _ post] exI [of _ m]) auto
  next
    case False
    with Cons.prems obtain m where m: "find sp_applicable (snd g) = Some m" "sp_authenticator m = a"
      by (auto split: option.splits)
    have "\<not> list_ex (\<lambda>m. sp_authenticator m \<in> satisfied) (snd g)"
    proof
      assume "list_ex (\<lambda>m. sp_authenticator m \<in> satisfied) (snd g)"
      then have "isGroupSatisfied g satisfied" by (simp add: isGroupSatisfied_def)
      with False show False by simp
    qed
    with find_SomeD [OF m(1)] m(2) have "a \<notin> satisfied" by (auto simp: list_ex_iff)
    with m False show ?thesis by (intro exI [of _ "[]"] exI [of _ g] exI [of _ gs] exI [of _ m]) (auto dest: find_SomeD)
  qed
qed simp

lemma group_satisfied_required:
  "group_ok g \<Longrightarrow> isGroupSatisfied g satisfied \<Longrightarrow> m \<in> set (snd g) \<Longrightarrow>
     (sp_requirement m = Required \<longrightarrow> sp_authenticator m \<in> satisfied)
     \<and> (sp_requirement m = Conditional \<and> sp_applicable m \<longrightarrow> sp_authenticator m \<in> satisfied)
     \<and> (sp_requirement m = Alternative \<longrightarrow> (\<exists>m' \<in> set (snd g). sp_requirement m' = Alternative
          \<and> sp_authenticator m' \<in> satisfied))"
  by (auto simp: group_ok_def isGroupSatisfied_def list_ex_iff split: group_kind.splits if_splits)

lemma groupSteps_members:
  "(\<exists>g \<in> set (groupSteps steps). m \<in> set (snd g)) \<longleftrightarrow> m \<in> set steps \<and> sp_requirement m \<noteq> Disabled"
proof -
  have "(\<exists>g \<in> set (groupSteps steps). m \<in> set (snd g)) \<longleftrightarrow> m \<in> set (concat (map snd (groupSteps steps)))"
    by auto
  also have "\<dots> \<longleftrightarrow> m \<in> set (filter (\<lambda>s. sp_requirement s \<noteq> Disabled) steps)"
    using groupSteps_ok [of steps] by presburger
  finally show ?thesis by simp
qed

lemma groupSteps_group_ok: "g \<in> set (groupSteps steps) \<Longrightarrow> group_ok g"
  using groupSteps_ok [of steps] by (simp add: list_all_iff)

lemma nextStep_Complete:
  assumes c: "nextStep steps satisfied = Complete" and m: "m \<in> set steps"
  shows "sp_requirement m = Required \<Longrightarrow> sp_authenticator m \<in> satisfied"
    and "sp_requirement m = Conditional \<Longrightarrow> sp_applicable m \<Longrightarrow> sp_authenticator m \<in> satisfied"
    and "sp_requirement m = Alternative \<Longrightarrow>
      \<exists>m' \<in> set steps. sp_requirement m' = Alternative \<and> sp_authenticator m' \<in> satisfied"
proof -
  have sat: "\<forall>g \<in> set (groupSteps steps). isGroupSatisfied g satisfied"
    using c by (auto simp: nextStep_def Let_def first_open_Complete split: if_splits)
  have *: "(sp_requirement m = Required \<longrightarrow> sp_authenticator m \<in> satisfied)
      \<and> (sp_requirement m = Conditional \<and> sp_applicable m \<longrightarrow> sp_authenticator m \<in> satisfied)
      \<and> (sp_requirement m = Alternative \<longrightarrow> (\<exists>m' \<in> set steps. sp_requirement m' = Alternative
           \<and> sp_authenticator m' \<in> satisfied))"
  proof (cases "sp_requirement m = Disabled")
    case False
    with m have "\<exists>g \<in> set (groupSteps steps). m \<in> set (snd g)" unfolding groupSteps_members by simp
    then obtain g where g: "g \<in> set (groupSteps steps)" "m \<in> set (snd g)" by (elim bexE)
    have "m' \<in> set steps" if "m' \<in> set (snd g)" for m'
      using groupSteps_members [of steps m', THEN iffD1] g(1) that by auto
    with group_satisfied_required [OF groupSteps_group_ok [OF g(1)] sat [rule_format, OF g(1)] g(2)]
    show ?thesis by auto
  qed simp
  then show "sp_requirement m = Required \<Longrightarrow> sp_authenticator m \<in> satisfied"
    "sp_requirement m = Conditional \<Longrightarrow> sp_applicable m \<Longrightarrow> sp_authenticator m \<in> satisfied"
    "sp_requirement m = Alternative \<Longrightarrow>
      \<exists>m' \<in> set steps. sp_requirement m' = Alternative \<and> sp_authenticator m' \<in> satisfied" by auto
qed

lemma nextStep_enabled:
  assumes "nextStep steps satisfied = Complete"
  shows "\<exists>m \<in> set steps. sp_requirement m \<noteq> Disabled"
proof -
  obtain g where g: "g \<in> set (groupSteps steps)"
    using assms by (cases "groupSteps steps") (auto simp: nextStep_def)
  from groupSteps_group_ok [OF g] have "snd g \<noteq> []" by (auto simp: group_ok_def split: group_kind.splits)
  then obtain m where "m \<in> set (snd g)" by (cases "snd g") auto
  then show ?thesis using g groupSteps_members [of steps m, THEN iffD1] by auto
qed

lemma nextStep_Run:
  assumes "nextStep steps satisfied = Run a"
  shows "a \<notin> satisfied"
    and "\<exists>m \<in> set steps. sp_authenticator m = a \<and> sp_requirement m \<noteq> Disabled \<and> sp_applicable m"
proof -
  have "first_open (groupSteps steps) satisfied = Run a"
    using assms by (simp add: nextStep_def Let_def split: if_splits)
  from first_open_Run [OF this] obtain pre g post m where
    m: "groupSteps steps = pre @ g # post" "m \<in> set (snd g)" "sp_applicable m" "sp_authenticator m = a"
      "a \<notin> satisfied" by blast
  then show "a \<notin> satisfied" by blast
  have "g \<in> set (groupSteps steps)" using m(1) by simp
  with m groupSteps_members [of steps m, THEN iffD1] show
    "\<exists>m \<in> set steps. sp_authenticator m = a \<and> sp_requirement m \<noteq> Disabled \<and> sp_applicable m" by auto
qed

end
