(* ===== verification/Rotation.thy ===== *)
theory Rotation
  imports Grants Admission
begin

text \<open>
  The rotation of a refresh token (\<open>protocol-oidc/src/usecase/refresh-rotation.ts\<close>), with
  the ways a statement on one table is a step of a transaction, and what \<open>withSavepoint\<close> in
  a \<open>try\<close> whose \<open>catch\<close> only logs amounts to.
\<close>

section \<open>Statements\<close>

definition codes_tx :: "(auth_code list \<Rightarrow> 'a \<times> auth_code list) \<Rightarrow> 'a db" where
  "codes_tx f s = (case f (st_codes s) of (x, rows) \<Rightarrow> (Inr x, s\<lparr>st_codes := rows\<rparr>))"

definition refresh_tx :: "(refresh_token list \<Rightarrow> 'a \<times> refresh_token list) \<Rightarrow> 'a db" where
  "refresh_tx f s = (case f (st_refresh s) of (x, rows) \<Rightarrow> (Inr x, s\<lparr>st_refresh := rows\<rparr>))"

definition grants_tx :: "(token_grant list \<Rightarrow> 'a \<times> token_grant list) \<Rightarrow> 'a db" where
  "grants_tx f s = (case f (st_grants s) of (x, rows) \<Rightarrow> (Inr x, s\<lparr>st_grants := rows\<rparr>))"

definition sessions_tx :: "(session list \<Rightarrow> 'a \<times> session list) \<Rightarrow> 'a db" where
  "sessions_tx f s = (case f (st_sessions s) of (x, rows) \<Rightarrow> (Inr x, s\<lparr>st_sessions := rows\<rparr>))"

text \<open>\<open>try { await withSavepoint(tx, m) } catch (error) { logger.error(...) }\<close>\<close>

definition logged :: "unit db \<Rightarrow> unit db" where
  "logged m s = (case atomically m s of (Inl e, s') \<Rightarrow> (Inr (), s') | (Inr u, s') \<Rightarrow> (Inr (), s'))"

lemma codes_tx_run [tx_simps]:
  "codes_tx f s = (r, s') \<longleftrightarrow> r = Inr (fst (f (st_codes s))) \<and> s' = s\<lparr>st_codes := snd (f (st_codes s))\<rparr>"
  by (cases "f (st_codes s)") (auto simp: codes_tx_def)

lemma refresh_tx_run [tx_simps]:
  "refresh_tx f s = (r, s') \<longleftrightarrow>
     r = Inr (fst (f (st_refresh s))) \<and> s' = s\<lparr>st_refresh := snd (f (st_refresh s))\<rparr>"
  by (cases "f (st_refresh s)") (auto simp: refresh_tx_def)

lemma grants_tx_run [tx_simps]:
  "grants_tx f s = (r, s') \<longleftrightarrow>
     r = Inr (fst (f (st_grants s))) \<and> s' = s\<lparr>st_grants := snd (f (st_grants s))\<rparr>"
  by (cases "f (st_grants s)") (auto simp: grants_tx_def)

lemma sessions_tx_run [tx_simps]:
  "sessions_tx f s = (r, s') \<longleftrightarrow>
     r = Inr (fst (f (st_sessions s))) \<and> s' = s\<lparr>st_sessions := snd (f (st_sessions s))\<rparr>"
  by (cases "f (st_sessions s)") (auto simp: sessions_tx_def)

lemma logged_Inr: "\<exists>s'. logged m s = (Inr (), s')"
  by (auto simp: logged_def split: prod.splits sum.splits)

text \<open>A logged audit record may add its row, and cannot fail.\<close>

lemma logged_record:
  "logged (audit_record d e) s = (r, s') \<Longrightarrow>
     r = Inr () \<and> s' \<in> {s, s\<lparr>st_audit := st_audit s @ [e]\<rparr>}"
  by (auto simp: logged_def atomically_def dest: audit_record_Inr audit_record_Inl
      split: prod.splits sum.splits if_splits)

lemma keeps_logged [keeps_intros]: "keeps I m \<Longrightarrow> keeps I (logged m)"
  unfolding keeps_def logged_def atomically_def by (auto split: prod.splits sum.splits)

lemma keeps_codes_tx:
  "(\<And>s. I s \<Longrightarrow> I (s\<lparr>st_codes := snd (f (st_codes s))\<rparr>)) \<Longrightarrow> keeps I (codes_tx f)"
  by (auto simp: keeps_def codes_tx_run)

lemma keeps_refresh_tx:
  "(\<And>s. I s \<Longrightarrow> I (s\<lparr>st_refresh := snd (f (st_refresh s))\<rparr>)) \<Longrightarrow> keeps I (refresh_tx f)"
  by (auto simp: keeps_def refresh_tx_run)

lemma keeps_grants_tx:
  "(\<And>s. I s \<Longrightarrow> I (s\<lparr>st_grants := snd (f (st_grants s))\<rparr>)) \<Longrightarrow> keeps I (grants_tx f)"
  by (auto simp: keeps_def grants_tx_run)

lemma keeps_sessions_tx:
  "(\<And>s. I s \<Longrightarrow> I (s\<lparr>st_sessions := snd (f (st_sessions s))\<rparr>)) \<Longrightarrow> keeps I (sessions_tx f)"
  by (auto simp: keeps_def sessions_tx_run)

section \<open>Rotation\<close>

datatype rotation_outcome =
    Rotated (rotated_grant: token_grant) (rotated_next: string)
  | Reused (reused_family: string) (reused_subject: "string option")
  | FamilyRevoked
  | UnknownToken

definition token_event ::
  "string \<Rightarrow> string option \<Rightarrow> string option \<Rightarrow> string option \<Rightarrow> obj \<Rightarrow> audit_event" where
  "token_event action subjectId clientId resourceId detail =
     \<lparr>ae_eventType = ''token'', ae_action = action, ae_outcome = Allowed,
      ae_actorSubjectId = subjectId, ae_actorClientId = clientId,
      ae_resourceType = map_option (\<lambda>_. ''grant'') resourceId, ae_resourceId = resourceId,
      ae_detail = detail\<rparr>"

definition hash_token :: "deps \<Rightarrow> string \<Rightarrow> string" where
  "hash_token d token = pf_sha256 (dp_platform d) token"

text \<open>The branch of a token that was not redeemable: unknown, expired, or used before.\<close>

definition refuse_rotation :: "deps \<Rightarrow> string \<Rightarrow> rotation_outcome db" where
  "refuse_rotation d presentedHash =
     tbind (tget (\<lambda>s. refresh_byHash presentedHash (st_refresh s))) (\<lambda>found.
     case found of
       None \<Rightarrow> tret UnknownToken
     | Some existing \<Rightarrow>
         if rt_usedAt existing = None then tret UnknownToken
         else
           tbind (tget (\<lambda>s. grant_byId (rt_grantId existing) (st_grants s))) (\<lambda>family.
           tbind (grants_tx (revoke (rt_grantId existing) (dp_now d))) (\<lambda>revoked.
           tbind (if revoked then
                    logged (audit_record d
                      (token_event ''grant.revoked_on_reuse'' (map_option tg_subjectId family)
                        (map_option tg_clientId family) (Some (rt_grantId existing))
                        [(''reason'', JStr ''replayed'')]))
                  else tret ()) (\<lambda>_.
           tret (Reused (rt_grantId existing) (map_option tg_subjectId family))))))"

text \<open>What the family's session allows: the session is touched, or the family is over.\<close>

definition session_allows :: "deps \<Rightarrow> token_grant \<Rightarrow> bool db" where
  "session_allows d grant =
     (case tg_sessionId grant of
        None \<Rightarrow> tret True
      | Some i \<Rightarrow>
          tbind (tget (\<lambda>s. session_liveById i (dp_lifespans d) (dp_now d) (st_sessions s)))
            (\<lambda>session.
          case session of
            None \<Rightarrow> tret False
          | Some _ \<Rightarrow>
              tbind (sessions_tx (\<lambda>rows. ((), session_touch i (dp_now d) rows))) (\<lambda>_.
              tret True)))"

definition capped :: "time option \<Rightarrow> time \<Rightarrow> time" where
  "capped ceiling raw = (case ceiling of None \<Rightarrow> raw | Some c \<Rightarrow> if c < raw then c else raw)"

text \<open>The successor of a consumed token.\<close>

definition replace_token :: "deps \<Rightarrow> string \<Rightarrow> int \<Rightarrow> string list \<Rightarrow> token_grant \<Rightarrow> rotation_outcome db"
  where
  "replace_token d presentedHash ttlSeconds issuedScope grant =
     (let next = dp_newRefresh d; nextHash = hash_token d next;
          expiresAt = capped (tg_expCeiling grant) (dp_now d + ttlSeconds * 1000)
      in tbind (create_refresh (dp_dbNow d) nextHash (tg_id grant) expiresAt) (\<lambda>_.
         tbind (refresh_tx (\<lambda>rows. ((), attachReplacement presentedHash nextHash rows))) (\<lambda>_.
         tbind (audit_record d (token_event ''token.refresh'' (Some (tg_subjectId grant))
                  (Some (tg_clientId grant)) (Some (tg_id grant))
                  [(''scope'', JStr (join_scope issuedScope))])) (\<lambda>_.
         tret (Rotated grant next)))))"

definition rotateRefreshToken ::
  "deps \<Rightarrow> string \<Rightarrow> int \<Rightarrow> string list \<Rightarrow> rotation_outcome db" where
  "rotateRefreshToken d presentedHash ttlSeconds issuedScope =
     tbind (refresh_tx (consume_refresh (dp_dbNow d) presentedHash)) (\<lambda>consumed.
     case consumed of
       None \<Rightarrow> refuse_rotation d presentedHash
     | Some c \<Rightarrow>
         tbind (tget (\<lambda>s. grant_byId (rt_grantId c) (st_grants s))) (\<lambda>found.
         case found of
           None \<Rightarrow> tfail (Thrown ''refresh token references a nonexistent grant'')
         | Some grant \<Rightarrow>
             if tg_revokedAt grant \<noteq> None then tret FamilyRevoked
             else
               tbind (session_allows d grant) (\<lambda>live.
               if \<not> live then tret FamilyRevoked
               else replace_token d presentedHash ttlSeconds issuedScope grant)))"

section \<open>Lemmas\<close>

lemma create_refresh_Inr:
  "create_refresh dbNow h i e s = (Inr u, s') \<Longrightarrow>
     s' = s\<lparr>st_refresh := st_refresh s @
       [\<lparr>rt_tokenHash = h, rt_grantId = i, rt_issuedAt = dbNow, rt_expiresAt = e,
         rt_usedAt = None, rt_replacedBy = None\<rparr>]\<rparr>
     \<and> h \<notin> rt_tokenHash ` set (st_refresh s) \<and> has_grant s i"
  by (auto simp: create_refresh_def insert_row_Some split: option.splits if_splits)

lemma create_refresh_Inl: "create_refresh dbNow h i e s = (Inl x, s') \<Longrightarrow> s' = s"
  by (auto simp: create_refresh_def split: option.splits if_splits)

lemma capped_le: "capped c raw \<le> raw" "c = Some t \<Longrightarrow> capped c raw \<le> t"
  by (auto simp: capped_def split: option.splits)

text \<open>A reuse is answered, never thrown, and its family is revoked whether or not the trail
  takes the row.\<close>

lemma refuse_rotation_used:
  assumes d: "distinct (map rt_tokenHash (st_refresh s))"
    and t: "t \<in> set (st_refresh s)" "rt_tokenHash t = h" "rt_usedAt t \<noteq> None"
    and r: "refuse_rotation d h s = (out, s')"
  shows "(\<exists>sub. out = Inr (Reused (rt_grantId t) sub))
    \<and> st_grants s' = snd (revoke (rt_grantId t) (dp_now d) (st_grants s))
    \<and> st_refresh s' = st_refresh s \<and> st_sessions s' = st_sessions s \<and> st_codes s' = st_codes s"
proof -
  have look: "refresh_byHash h (st_refresh s) = Some t"
    unfolding refresh_byHash_def using find_keyI [OF d t(1,2)] .
  let ?s1 = "s\<lparr>st_grants := snd (revoke (rt_grantId t) (dp_now d) (st_grants s))\<rparr>"
  obtain x s2 where l: "logged (audit_record d
      (token_event ''grant.revoked_on_reuse''
        (map_option tg_subjectId (grant_byId (rt_grantId t) (st_grants s)))
        (map_option tg_clientId (grant_byId (rt_grantId t) (st_grants s)))
        (Some (rt_grantId t)) [(''reason'', JStr ''replayed'')])) ?s1 = (x, s2)"
    by (cases "logged (audit_record d
      (token_event ''grant.revoked_on_reuse''
        (map_option tg_subjectId (grant_byId (rt_grantId t) (st_grants s)))
        (map_option tg_clientId (grant_byId (rt_grantId t) (st_grants s)))
        (Some (rt_grantId t)) [(''reason'', JStr ''replayed'')])) ?s1")
  note l' = logged_record [OF l]
  have "refuse_rotation d h s =
    (Inr (Reused (rt_grantId t) (map_option tg_subjectId (grant_byId (rt_grantId t) (st_grants s)))),
     if fst (revoke (rt_grantId t) (dp_now d) (st_grants s)) then s2 else ?s1)"
    using t(3) l l'
    by (simp add: refuse_rotation_def tbind_def tget_def look tret_def grants_tx_def split_beta)
  with r l' show ?thesis by auto
qed

lemma session_allows_True:
  assumes "session_allows d g s = (Inr True, s')"
  shows "(\<forall>i. tg_sessionId g = Some i \<longrightarrow>
      (\<exists>row. session_byId i (st_sessions s) = Some row \<and> stillLive row (dp_lifespans d) (dp_now d)))
    \<and> (\<exists>rows. s' = s\<lparr>st_sessions := rows\<rparr> \<and> map ss_id rows = map ss_id (st_sessions s))"
  using assms
  by (cases "tg_sessionId g")
     (auto simp: session_allows_def tx_simps session_liveById_def session_touch_def
       split: option.splits if_splits intro: exI [of _ "st_sessions s"])

lemma session_allows_False: "session_allows d g s = (Inr False, s') \<Longrightarrow> s' = s"
  by (auto simp: session_allows_def tx_simps split: option.splits)

lemma session_allows_Inl: "session_allows d g s \<noteq> (Inl e, s')"
  by (auto simp: session_allows_def tx_simps tx_fail_simps split: option.splits)

lemma grant_byId_SomeD: "grant_byId i rows = Some g \<Longrightarrow> g \<in> set rows \<and> tg_id g = i"
  unfolding grant_byId_def by (drule find_SomeD) simp

text \<open>What a rotation that hands out a token has checked and done.\<close>

lemma rotate_Rotated:
  assumes r: "rotateRefreshToken d h ttl scope s = (Inr (Rotated g next), s')"
  shows "next = dp_newRefresh d \<and> g \<in> set (st_grants s) \<and> tg_revokedAt g = None
    \<and> (\<exists>t \<in> set (st_refresh s). rt_tokenHash t = h \<and> rt_usedAt t = None
         \<and> dp_dbNow d < rt_expiresAt t \<and> rt_grantId t = tg_id g)
    \<and> (\<forall>i. tg_sessionId g = Some i \<longrightarrow>
         (\<exists>row. session_byId i (st_sessions s) = Some row
            \<and> stillLive row (dp_lifespans d) (dp_now d)))
    \<and> st_grants s' = st_grants s \<and> st_codes s' = st_codes s
    \<and> hash_token d next \<notin> rt_tokenHash ` set (st_refresh s)
    \<and> st_refresh s' = attachReplacement h (hash_token d next)
        (snd (consume_refresh (dp_dbNow d) h (st_refresh s)) @
          [\<lparr>rt_tokenHash = hash_token d next, rt_grantId = tg_id g, rt_issuedAt = dp_dbNow d,
            rt_expiresAt = capped (tg_expCeiling g) (dp_now d + ttl * 1000),
            rt_usedAt = None, rt_replacedBy = None\<rparr>])"
proof -
  let ?s1 = "s\<lparr>st_refresh := snd (consume_refresh (dp_dbNow d) h (st_refresh s))\<rparr>"
  obtain c where c: "fst (consume_refresh (dp_dbNow d) h (st_refresh s)) = Some c"
    using r by (cases "fst (consume_refresh (dp_dbNow d) h (st_refresh s))")
      (auto simp: rotateRefreshToken_def tx_simps refuse_rotation_def split: option.splits if_splits)
  then have cons: "consume_refresh (dp_dbNow d) h (st_refresh s) =
      (Some c, snd (consume_refresh (dp_dbNow d) h (st_refresh s)))"
    by (cases "consume_refresh (dp_dbNow d) h (st_refresh s)") simp
  from consume_refresh_Some [OF cons] obtain t where t: "t \<in> set (st_refresh s)"
    "c = t\<lparr>rt_usedAt := Some (dp_dbNow d)\<rparr>" "rt_tokenHash t = h" "rt_usedAt t = None"
    "dp_dbNow d < rt_expiresAt t" by blast
  obtain g' s2 where g': "grant_byId (rt_grantId c) (st_grants s) = Some g'" "tg_revokedAt g' = None"
    "session_allows d g' ?s1 = (Inr True, s2)"
    "replace_token d h ttl scope g' s2 = (Inr (Rotated g next), s')"
    using r c by (auto simp: rotateRefreshToken_def tx_simps split: option.splits if_splits)
  from session_allows_True [OF g'(3)] obtain rows where
    s2: "s2 = ?s1\<lparr>st_sessions := rows\<rparr>" by auto
  from g'(4) obtain s3 u where
    cr: "create_refresh (dp_dbNow d) (hash_token d (dp_newRefresh d)) (tg_id g')
      (capped (tg_expCeiling g') (dp_now d + ttl * 1000)) s2 = (Inr u, s3)"
    and au: "\<exists>e u'. audit_record d e (s3\<lparr>st_refresh := attachReplacement h
        (hash_token d (dp_newRefresh d)) (st_refresh s3)\<rparr>) = (Inr u', s')"
    and eq: "g = g'" "next = dp_newRefresh d"
    by (auto simp: replace_token_def Let_def tx_simps)
  from create_refresh_Inr [OF cr] have s3: "s3 = s2\<lparr>st_refresh := st_refresh s2 @
       [\<lparr>rt_tokenHash = hash_token d (dp_newRefresh d), rt_grantId = tg_id g', rt_issuedAt = dp_dbNow d,
         rt_expiresAt = capped (tg_expCeiling g') (dp_now d + ttl * 1000),
         rt_usedAt = None, rt_replacedBy = None\<rparr>]\<rparr>"
    and fresh: "hash_token d (dp_newRefresh d) \<notin> rt_tokenHash ` set (st_refresh s2)" by auto
  have ids: "rt_tokenHash ` set (st_refresh s2) = rt_tokenHash ` set (st_refresh s)"
    by (simp add: s2 consume_refresh_rows flip: set_map)
  from au audit_record_rest obtain rows' where
    s': "s' = s3\<lparr>st_refresh := attachReplacement h (hash_token d (dp_newRefresh d)) (st_refresh s3),
      st_audit := rows'\<rparr>" by metis
  have "st_grants s' = st_grants s" "st_codes s' = st_codes s"
    "st_refresh s' = attachReplacement h (hash_token d (dp_newRefresh d)) (st_refresh s3)"
    by (simp_all add: s' s3 s2)
  with g' t session_allows_True [OF g'(3)] grant_byId_SomeD [OF g'(1)] fresh ids eq show ?thesis
    by (auto simp: s3 s2)
qed

end
