(* ===== verification/Subject_Tokens.thy ===== *)
theory Subject_Tokens
  imports Rotation
begin

text \<open>
  What a presented token stands for: verification of a signed token
  (\<open>crypto/src/service/sign.ts\<close>), the keys it is verified with
  (\<open>crypto/src/repository/signing-keys.ts\<close>, rows in creation order), the ID token hint
  (\<open>usecase/authorization-request.ts\<close>), the subject and actor tokens of an exchange
  (\<open>usecase/token-exchange-subject.ts\<close>), introspection (\<open>usecase/introspection.ts\<close>)
  and revocation (\<open>usecase/revocation.ts\<close>).
\<close>

section \<open>Keys\<close>

definition key_listPublishable :: "signing_key list \<Rightarrow> signing_key list" where
  "key_listPublishable rows = filter (\<lambda>k. sk_status k \<noteq> KeyRetired) rows"

definition key_active :: "signing_key db" where
  "key_active s =
     (case find (\<lambda>k. sk_status k = KeyActive) (st_keys s) of
        None \<Rightarrow> (Inl (Thrown ''no active signing key''), s)
      | Some k \<Rightarrow> (Inr k, s))"

definition key_forAlg :: "string \<Rightarrow> signing_key list \<Rightarrow> signing_key option" where
  "key_forAlg alg rows =
     (let records = filter (\<lambda>k. sk_status k \<noteq> KeyRetired \<and> sk_alg k = alg) rows
      in js_or_else (find (\<lambda>k. sk_status k = KeyActive) records) (first_row records))"

lemma key_active_Inr: "key_active s = (Inr k, s') \<Longrightarrow> s' = s \<and> k \<in> set (st_keys s) \<and> sk_status k = KeyActive"
  by (auto simp: key_active_def dest: find_SomeD split: option.splits)

lemma key_active_state: "key_active s = (r, s') \<Longrightarrow> s' = s"
  by (auto simp: key_active_def split: option.splits)

lemma key_forAlg_alg: "key_forAlg alg rows = Some k \<Longrightarrow> sk_alg k = alg \<and> sk_status k \<noteq> KeyRetired"
  by (cases "find (\<lambda>k. sk_status k = KeyActive)
        (filter (\<lambda>k. sk_status k \<noteq> KeyRetired \<and> sk_alg k = alg) rows)")
     (auto simp: key_forAlg_def Let_def first_row_filter dest: find_SomeD)

section \<open>Verification\<close>

datatype expected_typ = TypIs string | TypRefused string | TypUnchecked | TypAbsent

datatype jwt_error =
    JwtHeaderInvalid | JwtKidMissing | JwtUnknownKey | JwtAlgMismatch | JwtTypMismatch
  | JwtNotVerified

definition checkTyp :: "json option \<Rightarrow> expected_typ \<Rightarrow> bool" where
  "checkTyp headerTyp expected =
     (case expected of
        TypUnchecked \<Rightarrow> True
      | TypAbsent \<Rightarrow> headerTyp = None
      | TypIs t \<Rightarrow> headerTyp = Some (JStr t)
      | TypRefused t \<Rightarrow> headerTyp \<noteq> Some (JStr t))"

definition named :: "string list \<Rightarrow> string list" where
  "named expected = filter (\<lambda>v. v \<noteq> []) expected"

definition verifyJwt ::
  "platform \<Rightarrow> signing_key list \<Rightarrow> string list \<Rightarrow> string list option \<Rightarrow> expected_typ \<Rightarrow> bool \<Rightarrow> string
     \<Rightarrow> jwt_error + obj" where
  "verifyJwt pl keys issuers audience typ notExpiring token =
     (case pf_header pl token of
        None \<Rightarrow> Inl JwtHeaderInvalid
      | Some header \<Rightarrow>
      (case obj_get ''kid'' header of
         Some (JStr kid) \<Rightarrow>
           (if length kid = 0 then Inl JwtKidMissing
            else case find (\<lambda>k. sk_kid k = kid) keys of
                None \<Rightarrow> Inl JwtUnknownKey
              | Some record \<Rightarrow>
                  if obj_get ''alg'' header \<noteq> Some (JStr (sk_alg record)) then Inl JwtAlgMismatch
                  else if \<not> checkTyp (obj_get ''typ'' header) typ then Inl JwtTypMismatch
                  else case pf_verify pl record (named issuers) (map_option named audience)
                         notExpiring token of
                      None \<Rightarrow> Inl JwtNotVerified
                    | Some payload \<Rightarrow> Inr payload)
       | _ \<Rightarrow> Inl JwtKidMissing))"

text \<open>One policy's token is never another's: the \<open>typ\<close> of the header decides.\<close>

lemma verifyJwt_typ:
  "verifyJwt pl keys issuers audience typ e token = Inr payload \<Longrightarrow>
     \<exists>header. pf_header pl token = Some header \<and> checkTyp (obj_get ''typ'' header) typ"
  by (auto simp: verifyJwt_def split: option.splits json.splits if_splits)

lemma verifyJwt_key:
  "verifyJwt pl keys issuers audience typ e token = Inr payload \<Longrightarrow>
     \<exists>k \<in> set keys. pf_verify pl k (named issuers) (map_option named audience) e token = Some payload"
  by (auto simp: verifyJwt_def dest!: find_SomeD split: option.splits json.splits if_splits)

section \<open>ID token hints\<close>

record hint_claims =
  hc_subject :: string
  hc_sid :: "string option"
  hc_audiences :: "string list"
  hc_mayAct :: "json option"
  hc_expiresAt :: "time option"

definition str_claim :: "string \<Rightarrow> obj \<Rightarrow> string option" where
  "str_claim k p = (case obj_get k p of Some (JStr v) \<Rightarrow> Some v | _ \<Rightarrow> None)"

definition num_claim :: "string \<Rightarrow> obj \<Rightarrow> int option" where
  "num_claim k p = (case obj_get k p of Some (JNum v) \<Rightarrow> Some v | _ \<Rightarrow> None)"

text \<open>A claim that must be a string and not empty.\<close>

definition nonempty_claim :: "string \<Rightarrow> obj \<Rightarrow> string option" where
  "nonempty_claim k p = (case str_claim k p of Some v \<Rightarrow> if length v > 0 then Some v else None | None \<Rightarrow> None)"

fun strings_of :: "json list \<Rightarrow> string list" where
  "strings_of [] = []"
| "strings_of (JStr x # xs) = x # strings_of xs"
| "strings_of (_ # xs) = strings_of xs"

definition audiencesOf :: "json option \<Rightarrow> string list" where
  "audiencesOf claim =
     (case claim of Some (JStr a) \<Rightarrow> [a] | Some (JArr xs) \<Rightarrow> strings_of xs | _ \<Rightarrow> [])"

definition verifiedHint ::
  "platform \<Rightarrow> signing_key list \<Rightarrow> string list \<Rightarrow> string \<Rightarrow> string list option \<Rightarrow> bool
     \<Rightarrow> hint_claims option" where
  "verifiedHint pl keys issuers hint audience notExpiring =
     (case verifyJwt pl keys issuers audience TypAbsent notExpiring hint of
        Inl _ \<Rightarrow> None
      | Inr payload \<Rightarrow>
          (case nonempty_claim ''sub'' payload of
             None \<Rightarrow> None
           | Some sub \<Rightarrow>
               Some \<lparr>hc_subject = sub, hc_sid = nonempty_claim ''sid'' payload,
                 hc_audiences = audiencesOf (obj_get ''aud'' payload),
                 hc_mayAct = obj_get ''may_act'' payload,
                 hc_expiresAt = map_option (\<lambda>e. e * 1000) (num_claim ''exp'' payload)\<rparr>))"

definition subjectOfIdTokenHint ::
  "platform \<Rightarrow> signing_key list \<Rightarrow> string list \<Rightarrow> string \<Rightarrow> string list option \<Rightarrow> hint_claims option" where
  "subjectOfIdTokenHint pl keys issuers hint audience =
     verifiedHint pl keys issuers hint audience False"

definition subjectOfLogoutHint ::
  "platform \<Rightarrow> signing_key list \<Rightarrow> string list \<Rightarrow> string \<Rightarrow> hint_claims option" where
  "subjectOfLogoutHint pl keys issuers hint = verifiedHint pl keys issuers hint None True"

definition subjectOfAuthorizeHint ::
  "platform \<Rightarrow> signing_key list \<Rightarrow> string list \<Rightarrow> string \<Rightarrow> string \<Rightarrow> hint_claims option" where
  "subjectOfAuthorizeHint pl keys issuers hint clientId =
     verifiedHint pl keys issuers hint (Some [clientId]) True"

section \<open>Exchanged tokens\<close>

record resolved_token =
  rv_subjectId :: string
  rv_scope :: "string list"
  rv_sessionId :: "string option"
  rv_grantId :: "string option"
  rv_clientDbId :: string
  rv_requestedUserinfoClaims :: "string list option"
  rv_act :: "json option"
  rv_mayAct :: "json option"
  rv_expiresAt :: "time option"

definition clientIsLive :: "client option \<Rightarrow> bool" where
  "clientIsLive client = (case client of None \<Rightarrow> False | Some c \<Rightarrow> cl_enabled c)"

definition client_byId :: "string \<Rightarrow> client list \<Rightarrow> client option" where
  "client_byId i rows = find (\<lambda>c. cl_id c = i) rows"

definition client_byClientId :: "string \<Rightarrow> client list \<Rightarrow> client option" where
  "client_byClientId i rows = find (\<lambda>c. cl_clientId c = i) rows"

definition subject_byId :: "string \<Rightarrow> subject list \<Rightarrow> subject option" where
  "subject_byId i rows = find (\<lambda>x. sj_id x = i) rows"

definition sessionIsLive :: "deps \<Rightarrow> string \<Rightarrow> store \<Rightarrow> bool" where
  "sessionIsLive d sessionId s \<longleftrightarrow>
     session_liveById sessionId (dp_lifespans d) (dp_now d) (st_sessions s) \<noteq> None"

definition grantClientIsLive :: "string \<Rightarrow> store \<Rightarrow> bool" where
  "grantClientIsLive clientDbId s = clientIsLive (client_byId clientDbId (st_clients s))"

definition heldScope :: "string \<Rightarrow> json option \<Rightarrow> string list" where
  "heldScope grantScope tokenScope =
     (let granted = tokens grantScope
      in case tokenScope of
           Some (JStr t) \<Rightarrow> filter (\<lambda>entry. entry \<in> set (js_split CHR '' '' t)) granted
         | _ \<Rightarrow> granted)"

text \<open>The checks a grant passes before a token of it is exchanged.\<close>

definition grant_usable :: "deps \<Rightarrow> token_grant \<Rightarrow> store \<Rightarrow> bool" where
  "grant_usable d grant s \<longleftrightarrow>
     tg_revokedAt grant = None \<and> grantClientIsLive (tg_clientId grant) s
     \<and> (\<forall>i \<in> set_option (tg_sessionId grant). sessionIsLive d i s)"

definition resolveAccessToken :: "deps \<Rightarrow> string \<Rightarrow> store \<Rightarrow> resolved_token option" where
  "resolveAccessToken d token s =
     (case verifyJwt (dp_platform d) (key_listPublishable (st_keys s)) (dp_acceptedIssuers d) None
             (TypIs ''at+jwt'') False token of
        Inl _ \<Rightarrow> None
      | Inr payload \<Rightarrow>
      (case str_claim ''grant_id'' payload of
         None \<Rightarrow> None
       | Some grantId \<Rightarrow>
      (case grant_byId grantId (st_grants s) of
         None \<Rightarrow> None
       | Some grant \<Rightarrow>
           if \<not> grant_usable d grant s then None
           else Some
             \<lparr>rv_subjectId = tg_subjectId grant,
              rv_scope = heldScope (tg_scope grant) (obj_get ''scope'' payload),
              rv_sessionId = tg_sessionId grant, rv_grantId = Some (tg_id grant),
              rv_clientDbId = tg_clientId grant,
              rv_requestedUserinfoClaims = tg_requestedUserinfoClaims grant,
              rv_act = obj_get ''act'' payload, rv_mayAct = obj_get ''may_act'' payload,
              rv_expiresAt = map_option (\<lambda>e. e * 1000) (num_claim ''exp'' payload)\<rparr>)))"

definition resolveRefreshToken :: "deps \<Rightarrow> string \<Rightarrow> store \<Rightarrow> resolved_token option" where
  "resolveRefreshToken d token s =
     (case refresh_byHash (hash_token d token) (st_refresh s) of
        None \<Rightarrow> None
      | Some record \<Rightarrow>
          if rt_usedAt record \<noteq> None then None
          else if rt_expiresAt record \<le> dp_now d then None
          else case grant_byId (rt_grantId record) (st_grants s) of
              None \<Rightarrow> None
            | Some grant \<Rightarrow>
                if \<not> grant_usable d grant s then None
                else Some
                  \<lparr>rv_subjectId = tg_subjectId grant, rv_scope = tokens (tg_scope grant),
                   rv_sessionId = tg_sessionId grant, rv_grantId = Some (tg_id grant),
                   rv_clientDbId = tg_clientId grant,
                   rv_requestedUserinfoClaims = tg_requestedUserinfoClaims grant,
                   rv_act = tg_actChain grant, rv_mayAct = None,
                   rv_expiresAt = Some (rt_expiresAt record)\<rparr>)"

definition resolveIdToken :: "deps \<Rightarrow> string \<Rightarrow> string \<Rightarrow> store \<Rightarrow> resolved_token option" where
  "resolveIdToken d requestingClientId token s =
     (case subjectOfIdTokenHint (dp_platform d) (key_listPublishable (st_keys s))
             (dp_acceptedIssuers d) token (Some [requestingClientId]) of
        None \<Rightarrow> None
      | Some claims \<Rightarrow>
      (case client_byClientId requestingClientId (st_clients s) of
         None \<Rightarrow> None
       | Some client \<Rightarrow>
           if \<not> clientIsLive (Some client) then None
           else if (\<exists>i \<in> set_option (hc_sid claims). \<not> sessionIsLive d i s) then None
           else Some
             \<lparr>rv_subjectId = hc_subject claims, rv_scope = [], rv_sessionId = hc_sid claims,
              rv_grantId = None, rv_clientDbId = cl_id client,
              rv_requestedUserinfoClaims = None, rv_act = None, rv_mayAct = hc_mayAct claims,
              rv_expiresAt = hc_expiresAt claims\<rparr>))"

definition resolveByType ::
  "deps \<Rightarrow> string \<Rightarrow> exchange_token_type \<Rightarrow> string \<Rightarrow> store \<Rightarrow> resolved_token option" where
  "resolveByType d requestingClientId type token s =
     (case type of
        AccessToken \<Rightarrow> resolveAccessToken d token s
      | RefreshToken \<Rightarrow> resolveRefreshToken d token s
      | IdToken \<Rightarrow> resolveIdToken d requestingClientId token s)"

definition resolveExchangeToken ::
  "deps \<Rightarrow> string \<Rightarrow> exchange_token_type \<Rightarrow> string \<Rightarrow> store \<Rightarrow> resolved_token option" where
  "resolveExchangeToken d requestingClientId type token s =
     (case resolveByType d requestingClientId type token s of
        None \<Rightarrow> None
      | Some r \<Rightarrow>
          if subjectIsEnabled (subject_byId (rv_subjectId r) (st_subjects s)) then Some r else None)"

section \<open>Introspection\<close>

definition is_JStr :: "json \<Rightarrow> bool" where
  "is_JStr v = (case v of JStr _ \<Rightarrow> True | _ \<Rightarrow> False)"

definition audienceOf :: "json option \<Rightarrow> string list" where
  "audienceOf aud =
     (case aud of
        Some (JStr a) \<Rightarrow> [a]
      | Some (JArr xs) \<Rightarrow> (if list_all is_JStr xs then strings_of xs else [])
      | _ \<Rightarrow> [])"

text \<open>The caller: its \<open>client_id\<close> and its registered audiences.\<close>

definition callerIsAddressed :: "string \<times> string list \<Rightarrow> string list \<Rightarrow> bool" where
  "callerIsAddressed caller aud \<longleftrightarrow> list_ex (\<lambda>identity. identity \<in> set aud) (fst caller # snd caller)"

datatype introspection_response =
    Inactive
  | Active (in_scope: string) (in_client_id: string) (in_sub: string) (in_aud: "string list")
      (in_exp: int) (in_iat: int)

definition introspect :: "deps \<Rightarrow> string \<Rightarrow> string \<times> string list \<Rightarrow> store \<Rightarrow> introspection_response" where
  "introspect d token caller s =
     (case verifyJwt (dp_platform d) (key_listPublishable (st_keys s)) (dp_acceptedIssuers d) None
             (TypIs ''at+jwt'') False token of
        Inl _ \<Rightarrow> Inactive
      | Inr payload \<Rightarrow>
      (case (nonempty_claim ''client_id'' payload, nonempty_claim ''sub'' payload,
             str_claim ''scope'' payload, nonempty_claim ''grant_id'' payload) of
         (Some clientId, Some sub, Some scope, Some grantId) \<Rightarrow>
           (case grant_byId grantId (st_grants s) of
              None \<Rightarrow> Inactive
            | Some grant \<Rightarrow>
                if tg_revokedAt grant \<noteq> None then Inactive
                else if \<not> clientIsLive (client_byClientId clientId (st_clients s)) then Inactive
                else if \<not> subjectIsEnabled (subject_byId sub (st_subjects s)) then Inactive
                else if (\<exists>i \<in> set_option (nonempty_claim ''sid'' payload). \<not> sessionIsLive d i s)
                then Inactive
                else
                  let aud = audienceOf (obj_get ''aud'' payload)
                  in if \<not> callerIsAddressed caller aud then Inactive
                     else case (num_claim ''exp'' payload, num_claim ''iat'' payload) of
                         (Some exp, Some iat) \<Rightarrow> Active scope clientId sub aud exp iat
                       | _ \<Rightarrow> Inactive)
       | _ \<Rightarrow> Inactive))"

section \<open>Revocation\<close>

definition resolveGrantId :: "deps \<Rightarrow> string \<Rightarrow> store \<Rightarrow> string option" where
  "resolveGrantId d token s =
     (case refresh_byHash (hash_token d token) (st_refresh s) of
        Some refreshRecord \<Rightarrow> Some (rt_grantId refreshRecord)
      | None \<Rightarrow>
          (case verifyJwt (dp_platform d) (key_listPublishable (st_keys s)) (dp_acceptedIssuers d)
                  None (TypIs ''at+jwt'') False token of
             Inl _ \<Rightarrow> None
           | Inr payload \<Rightarrow> nonempty_claim ''grant_id'' payload))"

definition revokeFor :: "deps \<Rightarrow> string \<Rightarrow> client \<Rightarrow> unit db" where
  "revokeFor d token client =
     tbind (tget (resolveGrantId d token)) (\<lambda>named.
     case named of
       None \<Rightarrow> tret ()
     | Some grantId \<Rightarrow>
         tbind (tget (\<lambda>s. grant_byId grantId (st_grants s))) (\<lambda>found.
         case found of
           None \<Rightarrow> tret ()
         | Some grant \<Rightarrow>
             if tg_clientId grant \<noteq> cl_id client then
               tfail (TokenError (withAudit invalidGrant
                 \<lparr>ra_action = ''token.revoke'', ra_reason = ''invalid_grant'',
                  ra_clientDbId = cl_id client, ra_subjectId = Some (tg_subjectId grant),
                  ra_grantId = Some (tg_id grant), ra_method = None\<rparr>))
             else
               tbind (grants_tx (revoke (tg_id grant) (dp_now d))) (\<lambda>revoked.
               if \<not> revoked then tret ()
               else audit_record d (token_event ''token.revoke'' (Some (tg_subjectId grant))
                      (Some (cl_id client)) (Some (tg_id grant)) []))))"

section \<open>Lemmas\<close>

lemma set_strings_of: "list_all is_JStr xs \<Longrightarrow> map JStr (strings_of xs) = xs"
  by (induction xs rule: strings_of.induct) (auto simp: is_JStr_def)

lemma strings_of_map [simp]: "strings_of (map JStr xs) = xs"
  by (induction xs) auto

lemma audienceOf_map [simp]: "audienceOf (Some (JArr (map JStr xs))) = xs"
  by (simp add: audienceOf_def list_all_iff is_JStr_def)

lemma heldScope_subset: "set (heldScope g t) \<subseteq> set (tokens g)"
  by (auto simp: heldScope_def Let_def split: option.splits json.splits)

text \<open>A resolved access or refresh token: its grant is live and bounds it.\<close>

definition held_of :: "token_grant \<Rightarrow> resolved_token \<Rightarrow> bool" where
  "held_of g r \<longleftrightarrow> rv_grantId r = Some (tg_id g) \<and> rv_subjectId r = tg_subjectId g
     \<and> rv_sessionId r = tg_sessionId g \<and> set (rv_scope r) \<subseteq> set (tokens (tg_scope g))"

lemma resolveAccessToken_held:
  "resolveAccessToken d token s = Some r \<Longrightarrow>
     \<exists>g i. grant_byId i (st_grants s) = Some g \<and> grant_usable d g s \<and> held_of g r"
  using heldScope_subset
  by (fastforce simp: resolveAccessToken_def held_of_def split: sum.splits option.splits if_splits)

lemma resolveRefreshToken_held:
  "resolveRefreshToken d token s = Some r \<Longrightarrow>
     \<exists>g i. grant_byId i (st_grants s) = Some g \<and> grant_usable d g s \<and> held_of g r"
  by (auto simp: resolveRefreshToken_def held_of_def split: option.splits if_splits)

lemma resolve_grant:
  assumes "resolveExchangeToken d client type token s = Some r" "type \<noteq> IdToken"
  shows "\<exists>g. grant_byId (tg_id g) (st_grants s) = Some g \<and> grant_usable d g s \<and> held_of g r
    \<and> subjectIsEnabled (subject_byId (tg_subjectId g) (st_subjects s))"
proof -
  from assms(1) have r: "resolveByType d client type token s = Some r"
    and e: "subjectIsEnabled (subject_byId (rv_subjectId r) (st_subjects s))"
    by (auto simp: resolveExchangeToken_def split: option.splits if_splits)
  then obtain g i where g: "grant_byId i (st_grants s) = Some g" "grant_usable d g s" "held_of g r"
  proof (cases type)
    case AccessToken
    with r that resolveAccessToken_held show ?thesis by (auto simp: resolveByType_def) metis
  next
    case RefreshToken
    with r that resolveRefreshToken_held show ?thesis by (auto simp: resolveByType_def) metis
  qed (use assms(2) in simp)
  with e grant_byId_SomeD [OF g(1)] show ?thesis by (auto simp: held_of_def)
qed

lemma resolve_id_token:
  "resolveExchangeToken d client IdToken token s = Some r \<Longrightarrow> rv_scope r = [] \<and> rv_grantId r = None \<and> rv_act r = None"
  by (auto simp: resolveExchangeToken_def resolveByType_def resolveIdToken_def
      split: option.splits if_splits)

lemma resolve_scope_tokens:
  assumes "resolveExchangeToken d client type token s = Some r"
  shows "\<forall>x \<in> set (rv_scope r). scope_token x"
proof (cases "type = IdToken")
  case True
  with assms resolve_id_token show ?thesis by auto
next
  case False
  with resolve_grant [OF assms] show ?thesis by (auto simp: held_of_def intro: tokens_scope_token)
qed

lemma introspect_Active:
  assumes "introspect d token caller s = Active scope clientId sub aud exp iat"
  shows "\<exists>payload g. verifyJwt (dp_platform d) (key_listPublishable (st_keys s))
        (dp_acceptedIssuers d) None (TypIs ''at+jwt'') False token = Inr payload
    \<and> nonempty_claim ''grant_id'' payload = Some (tg_id g) \<and> grant_byId (tg_id g) (st_grants s) = Some g
    \<and> tg_revokedAt g = None
    \<and> clientIsLive (client_byClientId clientId (st_clients s))
    \<and> subjectIsEnabled (subject_byId sub (st_subjects s))
    \<and> (\<forall>i. nonempty_claim ''sid'' payload = Some i \<longrightarrow> sessionIsLive d i s)
    \<and> callerIsAddressed caller aud"
proof -
  obtain payload where p: "verifyJwt (dp_platform d) (key_listPublishable (st_keys s))
      (dp_acceptedIssuers d) None (TypIs ''at+jwt'') False token = Inr payload"
    using assms by (cases "verifyJwt (dp_platform d) (key_listPublishable (st_keys s))
      (dp_acceptedIssuers d) None (TypIs ''at+jwt'') False token") (simp_all add: introspect_def)
  obtain c sb sc i where f: "nonempty_claim ''client_id'' payload = Some c"
    "nonempty_claim ''sub'' payload = Some sb" "str_claim ''scope'' payload = Some sc"
    "nonempty_claim ''grant_id'' payload = Some i"
    using assms p by (simp add: introspect_def split: option.splits)
  obtain g where g: "grant_byId i (st_grants s) = Some g"
    using assms p f by (cases "grant_byId i (st_grants s)") (simp_all add: introspect_def)
  show ?thesis
    using assms p f g grant_byId_SomeD [OF g]
    by (intro exI [of _ payload] exI [of _ g])
       (simp add: introspect_def Let_def split: option.splits if_splits)
qed

lemma revokeFor_run:
  assumes "revokeFor d token client s = (Inr u, s')"
  shows "(\<exists>rows. st_grants s' = st_grants s \<and> s' = s)
    \<or> (\<exists>g rows. resolveGrantId d token s = Some (tg_id g) \<and> grant_byId (tg_id g) (st_grants s) = Some g
         \<and> tg_clientId g = cl_id client
         \<and> s' = s\<lparr>st_grants := snd (revoke (tg_id g) (dp_now d) (st_grants s)), st_audit := rows\<rparr>)"
proof (cases "resolveGrantId d token s")
  case None
  with assms show ?thesis by (auto simp: revokeFor_def tx_simps)
next
  case (Some i)
  show ?thesis
  proof (cases "grant_byId i (st_grants s)")
    case None
    with Some assms show ?thesis by (auto simp: revokeFor_def tx_simps)
  next
    case g: (Some g)
    note id = grant_byId_SomeD [OF g]
    let ?s1 = "s\<lparr>st_grants := snd (revoke i (dp_now d) (st_grants s))\<rparr>"
    from Some g id assms have own: "tg_clientId g = cl_id client"
      by (auto simp: revokeFor_def tx_simps split: if_splits)
    obtain rows where "s' = ?s1\<lparr>st_audit := rows\<rparr>"
    proof (cases "fst (revoke i (dp_now d) (st_grants s))")
      case True
      with Some g id own assms have
        "audit_record d (token_event ''token.revoke'' (Some (tg_subjectId g)) (Some (cl_id client))
          (Some i) []) ?s1 = (Inr u, s')"
        by (auto simp: revokeFor_def tx_simps)
      with audit_record_rest that show ?thesis by metis
    next
      case False
      with Some g id own assms have "s' = ?s1\<lparr>st_audit := st_audit s\<rparr>"
        by (auto simp: revokeFor_def tx_simps)
      with that show ?thesis by blast
    qed
    with Some g id own show ?thesis by auto
  qed
qed

end
