(* ===== verification/Requests.thy ===== *)
theory Requests
  imports Subject_Tokens
begin

text \<open>
  A request at the token endpoint: its transactions, and the structure of its body
  (\<open>parseStructure\<close> of \<open>protocol-oidc/src/usecase/token-issuance.ts\<close>).
\<close>

section \<open>The transactions of a request\<close>

text \<open>
  A request runs in one transaction, and may run a step in a transaction of its own that
  commits whatever the request does next (\<open>withTenant(deps.database.db, ...)\<close> within the
  request). Its state is the committed store and the store as its own transaction sees it. A
  step of the second kind runs on the committed store; the code takes one only where the
  request's own transaction has written nothing, so what it commits is what the request sees
  after. A request that throws leaves the committed store; one that returns commits its own.
\<close>

type_synonym 'a req = "(store \<times> store, exn, 'a) tx"

definition on_work :: "'a db \<Rightarrow> 'a req" where
  "on_work m cw = (case m (snd cw) of (r, w) \<Rightarrow> (r, (fst cw, w)))"

definition independently :: "'a db \<Rightarrow> 'a req" where
  "independently m cw = (case atomically m (fst cw) of (r, c) \<Rightarrow> (r, (c, c)))"

definition in_request :: "'a req \<Rightarrow> 'a db" where
  "in_request m s =
     (case m (s, s) of (Inl e, cw) \<Rightarrow> (Inl e, fst cw) | (Inr x, cw) \<Rightarrow> (Inr x, snd cw))"

lemma on_work_run [tx_simps]:
  "on_work m cw = (r, cw') \<longleftrightarrow> m (snd cw) = (r, snd cw') \<and> fst cw' = fst cw"
  by (cases cw') (auto simp: on_work_def split: prod.splits)

lemma independently_run:
  "independently m cw = (r, cw') \<longleftrightarrow> (\<exists>c. atomically m (fst cw) = (r, c) \<and> cw' = (c, c))"
  by (auto simp: independently_def split: prod.splits)

lemma in_request_Inr [tx_simps]: "in_request m s = (Inr x, s') \<longleftrightarrow> (\<exists>c. m (s, s) = (Inr x, (c, s')))"
  by (auto simp: in_request_def split: prod.splits sum.splits)

lemma in_request_Inl: "in_request m s = (Inl e, s') \<longleftrightarrow> (\<exists>w. m (s, s) = (Inl e, (s', w)))"
  by (auto simp: in_request_def split: prod.splits sum.splits)

text \<open>What both stores satisfy at every step holds of what the request leaves.\<close>

lemma keeps_on_work [keeps_intros]: "keeps I m \<Longrightarrow> keeps (\<lambda>cw. I (fst cw) \<and> I (snd cw)) (on_work m)"
  by (rule keepsI) (auto simp: on_work_run dest: keepsD)

lemma keeps_independently [keeps_intros]:
  "keeps I m \<Longrightarrow> keeps (\<lambda>cw. I (fst cw) \<and> I (snd cw)) (independently m)"
  by (rule keepsI) (auto simp: independently_run dest: keepsD [OF keeps_atomically])

lemma keeps_in_request:
  assumes "keeps (\<lambda>cw. I (fst cw) \<and> I (snd cw)) m"
  shows "keeps I (in_request m)"
proof (rule keepsI)
  fix s r s'
  assume "I s" "in_request m s = (r, s')"
  then show "I s'"
    using keepsD [OF assms, of "(s, s)"]
    by (cases r) (auto simp: in_request_Inl in_request_Inr)
qed

section \<open>The body\<close>

type_synonym body = "string \<Rightarrow> param option"

definition readField :: "body \<Rightarrow> string \<Rightarrow> string" where
  "readField body key = (case body key of Some (One v) \<Rightarrow> v | _ \<Rightarrow> [])"

definition readOptionalField :: "body \<Rightarrow> string \<Rightarrow> string option" where
  "readOptionalField body key =
     (case body key of Some (One v) \<Rightarrow> (if length v > 0 then Some v else None) | _ \<Rightarrow> None)"

definition readMultiField :: "body \<Rightarrow> string \<Rightarrow> param option" where
  "readMultiField body key =
     (let sent = (case body key of Some (Many xs) \<Rightarrow> xs | None \<Rightarrow> [] | Some (One x) \<Rightarrow> [x]);
          present = filter (\<lambda>entry. entry \<noteq> []) sent
      in if length present > 1 then Some (Many present)
         else map_option One (first_row present))"

definition readResourceField :: "body \<Rightarrow> param option" where
  "readResourceField body = readMultiField body ''resource''"

record code_request =
  cr_code :: string
  cr_redirectUri :: string
  cr_clientId :: "string option"
  cr_codeVerifier :: string
  cr_resource :: "param option"

record refresh_request =
  rq_refreshToken :: string
  rq_clientId :: "string option"
  rq_scope :: string
  rq_resource :: "param option"

record cc_request =
  cc_clientId :: "string option"
  cc_scope :: string
  cc_resource :: "param option"

record exchange_request =
  xr_clientId :: "string option"
  xr_subjectToken :: string
  xr_subjectTokenType :: string
  xr_actorToken :: "string option"
  xr_actorTokenType :: "string option"
  xr_requestedTokenType :: "string option"
  xr_scope :: string
  xr_resource :: "param option"
  xr_audience :: "param option"

datatype structured_request =
    CodeRequest code_request
  | RefreshRequest refresh_request
  | ClientCredentialsRequest cc_request
  | ExchangeRequest exchange_request

definition grantType :: "structured_request \<Rightarrow> string" where
  "grantType request =
     (case request of
        CodeRequest _ \<Rightarrow> ''authorization_code''
      | RefreshRequest _ \<Rightarrow> ''refresh_token''
      | ClientCredentialsRequest _ \<Rightarrow> ''client_credentials''
      | ExchangeRequest _ \<Rightarrow> TOKEN_EXCHANGE_GRANT)"

definition parseStructure :: "body \<Rightarrow> token_error + structured_request" where
  "parseStructure body =
     (let grant_type = readField body ''grant_type''
      in if length grant_type = 0 then Inl invalidRequest
         else if grant_type = ''authorization_code'' then
           (let code = readField body ''code''; redirectUri = readField body ''redirect_uri''
            in if length code = 0 \<or> length redirectUri = 0 then Inl invalidRequest
               else Inr (CodeRequest
                 \<lparr>cr_code = code, cr_redirectUri = redirectUri,
                  cr_clientId = readOptionalField body ''client_id'',
                  cr_codeVerifier = readField body ''code_verifier'',
                  cr_resource = readResourceField body\<rparr>))
         else if grant_type = ''refresh_token'' then
           (let refreshToken = readField body ''refresh_token''
            in if length refreshToken = 0 then Inl invalidRequest
               else Inr (RefreshRequest
                 \<lparr>rq_refreshToken = refreshToken,
                  rq_clientId = readOptionalField body ''client_id'',
                  rq_scope = readField body ''scope'', rq_resource = readResourceField body\<rparr>))
         else if grant_type = ''client_credentials'' then
           Inr (ClientCredentialsRequest
             \<lparr>cc_clientId = readOptionalField body ''client_id'',
              cc_scope = readField body ''scope'', cc_resource = readResourceField body\<rparr>)
         else if grant_type = TOKEN_EXCHANGE_GRANT then
           (let subjectToken = readField body ''subject_token'';
                subjectTokenType = readField body ''subject_token_type''
            in if length subjectToken = 0 \<or> length subjectTokenType = 0 then Inl invalidRequest
               else
                 let actorToken = readOptionalField body ''actor_token'';
                     actorTokenType = readOptionalField body ''actor_token_type''
                 in if actorToken \<noteq> None \<and> actorTokenType = None then Inl invalidRequest
                    else Inr (ExchangeRequest
                      \<lparr>xr_clientId = readOptionalField body ''client_id'',
                       xr_subjectToken = subjectToken, xr_subjectTokenType = subjectTokenType,
                       xr_actorToken = actorToken, xr_actorTokenType = actorTokenType,
                       xr_requestedTokenType = readOptionalField body ''requested_token_type'',
                       xr_scope = readField body ''scope'',
                       xr_resource = readResourceField body,
                       xr_audience = readMultiField body ''audience''\<rparr>))
         else Inl unsupportedGrantType)"

text \<open>What a parsed request is known to carry.\<close>

fun well_structured :: "structured_request \<Rightarrow> bool" where
  "well_structured (CodeRequest r) = (cr_code r \<noteq> [] \<and> cr_redirectUri r \<noteq> [])"
| "well_structured (RefreshRequest r) = (rq_refreshToken r \<noteq> [])"
| "well_structured (ClientCredentialsRequest r) = True"
| "well_structured (ExchangeRequest r) =
     (xr_subjectToken r \<noteq> [] \<and> xr_subjectTokenType r \<noteq> []
      \<and> (xr_actorToken r \<noteq> None \<longrightarrow> xr_actorTokenType r \<noteq> None))"

lemma readMultiField_shape:
  "readMultiField body key = Some p \<Longrightarrow>
     (\<exists>x. p = One x \<and> x \<noteq> []) \<or> (\<exists>xs. p = Many xs \<and> length xs > 1 \<and> [] \<notin> set xs)"
proof -
  define present where "present = filter (\<lambda>entry. entry \<noteq> [])
    (case body key of Some (Many xs) \<Rightarrow> xs | None \<Rightarrow> [] | Some (One x) \<Rightarrow> [x])"
  assume "readMultiField body key = Some p"
  then have p: "(if length present > 1 then Some (Many present)
      else map_option One (first_row present)) = Some p"
    unfolding readMultiField_def Let_def present_def .
  have ne: "[] \<notin> set present" by (simp add: present_def)
  show ?thesis using p ne by (cases present) (auto simp: first_row_def split: if_splits)
qed

lemma parseStructure_well:
  assumes "parseStructure body = Inr request"
  shows "well_structured request \<and> grantType request = readField body ''grant_type''"
  using assms by (auto simp: parseStructure_def Let_def grantType_def split: if_splits)

lemma parseStructure_refusal:
  "parseStructure body = Inl e \<Longrightarrow> e = invalidRequest \<or> e = unsupportedGrantType"
  by (auto simp: parseStructure_def Let_def split: if_splits)

end
