(* ===== verification/Minting.thy ===== *)
theory Minting
  imports Requests
begin

text \<open>
  Signing an access token (\<open>mintAccessToken\<close> and what it reads: the scopes a client is
  assigned and the roles they reach, \<open>resolveAudience\<close>, \<open>idTokenKey\<close>), of
  \<open>protocol-oidc/src/usecase/token-issuance.ts\<close>, \<open>repository/scope-role-reach.ts\<close> and
  \<open>domain-tenant/src/repository/client-scopes.ts\<close>.
\<close>

section \<open>Scopes and roles\<close>

definition scope_byNames :: "string list \<Rightarrow> store \<Rightarrow> client_scope list" where
  "scope_byNames names s =
     (if length names = 0 then []
      else List.map_filter (\<lambda>name. find (\<lambda>cs. cs_name cs = name) (st_scopes s)) (js_unique names))"

definition scope_forClient :: "string \<Rightarrow> store \<Rightarrow> client_scope list" where
  "scope_forClient clientId s =
     List.map_filter (\<lambda>(c, i). if c = clientId then find (\<lambda>cs. cs_id cs = i) (st_scopes s) else None)
       (st_assignments s)"

definition idsForClientScopes :: "string list \<Rightarrow> store \<Rightarrow> string list" where
  "idsForClientScopes clientScopeIds s =
     (if length clientScopeIds = 0 then []
      else js_unique (map snd (filter (\<lambda>(i, r). i \<in> set clientScopeIds) (st_scopeRoles s))))"

definition reachableRoleIds :: "string list \<Rightarrow> store \<Rightarrow> string list" where
  "reachableRoleIds grantedScope s = idsForClientScopes (map cs_id (scope_byNames grantedScope s)) s"

definition accessTokenEligibleScope :: "string list \<Rightarrow> store \<Rightarrow> string list" where
  "accessTokenEligibleScope grantedScope s =
     map cs_name (filter cs_includeInAccessToken (scope_byNames grantedScope s))"

lemma scope_byNames_names: "cs \<in> set (scope_byNames names s) \<Longrightarrow> cs_name cs \<in> set names"
proof -
  assume "cs \<in> set (scope_byNames names s)"
  then obtain n where "n \<in> set names" "find (\<lambda>cs. cs_name cs = n) (st_scopes s) = Some cs"
    by (auto simp: scope_byNames_def List.map_filter_def split: if_splits)
  then show ?thesis by (auto dest: find_SomeD)
qed

lemma accessTokenEligibleScope_subset: "set (accessTokenEligibleScope scope s) \<subseteq> set scope"
  by (auto simp: accessTokenEligibleScope_def dest: scope_byNames_names)

section \<open>Audience\<close>

definition resolveAudience :: "deps \<Rightarrow> string list \<Rightarrow> param option \<Rightarrow> exn + string list" where
  "resolveAudience d base requestedResource =
     (case parseResource (pf_URL (dp_platform d)) requestedResource base of
        ResourceInvalidTarget \<Rightarrow> Inl (TokenError invalidTarget)
      | ResourceOk audience \<Rightarrow> Inr audience)"

lemma resolveAudience_subset: "resolveAudience d base r = Inr audience \<Longrightarrow> set audience \<subseteq> set base"
  by (auto simp: resolveAudience_def dest: parseResource_subset split: resource_outcome.splits)

text \<open>A value or the exception thrown for it.\<close>

definition tsum :: "exn + 'a \<Rightarrow> 'a db" where
  "tsum r = (case r of Inl e \<Rightarrow> tfail e | Inr x \<Rightarrow> tret x)"

lemma tsum_Inr [tx_simps]: "tsum v s = (Inr x, s') \<longleftrightarrow> v = Inr x \<and> s' = s"
  by (auto simp: tsum_def tret_def tfail_def split: sum.splits)

lemma tsum_Inl: "tsum v s = (Inl e, s') \<longleftrightarrow> v = Inl e \<and> s' = s"
  by (auto simp: tsum_def tret_def tfail_def split: sum.splits)

lemma keeps_tsum [keeps_intros]: "keeps I (tsum v)"
  by (auto simp: keeps_def tsum_def tret_def tfail_def split: sum.splits)

lemma keeps_key_active [keeps_intros]: "keeps I key_active"
  by (auto simp: keeps_def dest: key_active_state)

section \<open>The client as it issues\<close>

definition idTokenKey :: "oidc_config \<Rightarrow> signing_key \<Rightarrow> signing_key db" where
  "idTokenKey config active s =
     (case oc_idTokenSignedResponseAlg config of
        None \<Rightarrow> (Inr active, s)
      | Some alg \<Rightarrow>
          if alg = sk_alg active then (Inr active, s)
          else case key_forAlg alg (st_keys s) of
              None \<Rightarrow> (Inl (Thrown (''no signing key produces '' @ alg @ '' for an ID token'')), s)
            | Some key \<Rightarrow> (Inr key, s))"

lemma idTokenKey_state: "idTokenKey config active s = (r, s') \<Longrightarrow> s' = s"
  by (auto simp: idTokenKey_def split: option.splits if_splits)

lemma keeps_idTokenKey [keeps_intros]: "keeps I (idTokenKey config active)"
  by (auto simp: keeps_def dest: idTokenKey_state)

text \<open>A client that named an algorithm is never signed for with another.\<close>

lemma idTokenKey_alg:
  "idTokenKey config active s = (Inr k, s') \<Longrightarrow> oc_idTokenSignedResponseAlg config = Some alg \<Longrightarrow>
     sk_alg k = alg"
  by (auto simp: idTokenKey_def dest: key_forAlg_alg split: option.splits if_splits)

section \<open>Access tokens\<close>

record mint_input =
  mi_subjectId :: string
  mi_clientId :: string
  mi_scope :: "string list"
  mi_accessTtl :: int
  mi_audience :: "string list"
  mi_claimContext :: claim_context
  mi_reachableRoleIds :: "string list"
  mi_fullScopeAllowed :: bool
  mi_accessTokenScope :: "string list"
  mi_sessionId :: "string option"
  mi_grantId :: string
  mi_requestedUserinfoClaims :: "string list option"
  mi_act :: "act_claim option"
  mi_endpointMinted :: bool
  mi_expCeiling :: "time option"

record minted =
  mt_accessToken :: string
  mt_audience :: "string list"
  mt_iat :: int
  mt_exp :: int

text \<open>\<open>Math.floor(t / 1000)\<close>\<close>

definition epoch_seconds :: "time \<Rightarrow> int" where
  "epoch_seconds t = t div 1000"

definition mint_exp :: "mint_input \<Rightarrow> time \<Rightarrow> int" where
  "mint_exp input now =
     (let iat = epoch_seconds now;
          ttlExp = iat + capLifetimeForScope (mi_accessTtl input) (mi_scope input);
          ceiling = (case mi_expCeiling input of None \<Rightarrow> ttlExp | Some c \<Rightarrow> epoch_seconds c)
      in min ttlExp ceiling)"

definition mint_audience :: "deps \<Rightarrow> mint_input \<Rightarrow> string list" where
  "mint_audience d input =
     (if dp_issuer d \<in> set (mi_audience input) then mi_audience input
      else mi_audience input @ [dp_issuer d])"

definition registered_claims :: "deps \<Rightarrow> mint_input \<Rightarrow> time \<Rightarrow> obj" where
  "registered_claims d input now =
     [(''iss'', JStr (dp_issuer d)), (''sub'', JStr (mi_subjectId input)),
      (''aud'', JArr (map JStr (mint_audience d input))),
      (''client_id'', JStr (mi_clientId input)),
      (''scope'', JStr (join_scope (mi_scope input))),
      (''iat'', JNum (epoch_seconds now)), (''exp'', JNum (mint_exp input now)),
      (''jti'', JStr (dp_newJti d))]
     @ some_member ''sid'' (map_option JStr (mi_sessionId input))
     @ [(''grant_id'', JStr (mi_grantId input))]
     @ when_member (length (coalesce (mi_requestedUserinfoClaims input) []) > 0)
         ''requested_userinfo_claims''
         (JArr (map JStr (coalesce (mi_requestedUserinfoClaims input) [])))
     @ some_member ''act'' (map_option act_json (mi_act input))
     @ when_member (mi_endpointMinted input) ''via'' (JStr ''mcp'')"

definition access_claims :: "deps \<Rightarrow> mint_input \<Rightarrow> time \<Rightarrow> obj" where
  "access_claims d input now =
     withRegisteredClaimsWinning
       (filter (\<lambda>(name, v). name \<noteq> ''via'')
         (mappedClaims (dp_assemble d) (mi_accessTokenScope input) (mi_claimContext input)
           (mi_reachableRoleIds input) (mi_fullScopeAllowed input)))
       (registered_claims d input now)"

definition mintAccessToken :: "deps \<Rightarrow> mint_input \<Rightarrow> signing_key \<Rightarrow> time \<Rightarrow> exn + minted" where
  "mintAccessToken d input key now =
     (if \<not> scopesCoherentWithAudience (mi_scope input)
           (filter (\<lambda>a. a \<noteq> dp_issuer d) (mi_audience input))
           (mcpAudienceOfIssuer (dp_issuer d)) ADMIN_API_AUDIENCE
      then Inl (TokenError invalidScope)
      else Inr
        \<lparr>mt_accessToken =
           pf_sign (dp_platform d) key (Some ''at+jwt'') (access_claims d input now),
         mt_audience = mint_audience d input, mt_iat = epoch_seconds now,
         mt_exp = mint_exp input now\<rparr>)"

text \<open>\<open>mintSubjectAccessToken\<close>: the input completed with what the subject and scope give.\<close>

definition complete_input :: "deps \<Rightarrow> mint_input \<Rightarrow> store \<Rightarrow> mint_input" where
  "complete_input d input s =
     input\<lparr>mi_claimContext := dp_claims d (mi_subjectId input),
           mi_reachableRoleIds := reachableRoleIds (mi_scope input) s,
           mi_accessTokenScope := accessTokenEligibleScope (mi_scope input) s\<rparr>"

definition mintSubjectAccessToken :: "deps \<Rightarrow> mint_input \<Rightarrow> time \<Rightarrow> minted db" where
  "mintSubjectAccessToken d input now =
     tbind (tget (complete_input d input)) (\<lambda>full.
     tbind key_active (\<lambda>key.
     tsum (mintAccessToken d full key now)))"

section \<open>Lemmas\<close>

lemma registered_distinct: "distinct (map fst (registered_claims d input now))"
  by (auto simp: registered_claims_def some_member_def when_member_def split: option.splits)

lemma access_claims_get:
  "obj_get k (access_claims d input now) =
     js_or_else (obj_get k (registered_claims d input now))
       (obj_get k (filter (\<lambda>(name, v). name \<noteq> ''via'')
         (mappedClaims (dp_assemble d) (mi_accessTokenScope input) (mi_claimContext input)
           (mi_reachableRoleIds input) (mi_fullScopeAllowed input))))"
  unfolding access_claims_def withRegisteredClaimsWinning_def
  by (rule obj_get_spread [OF registered_distinct])

text \<open>The envelope of every access token, whatever a mapper returned.\<close>

lemma access_claims_envelope:
  "obj_get ''iss'' (access_claims d input now) = Some (JStr (dp_issuer d))"
  "obj_get ''sub'' (access_claims d input now) = Some (JStr (mi_subjectId input))"
  "obj_get ''aud'' (access_claims d input now) = Some (JArr (map JStr (mint_audience d input)))"
  "obj_get ''client_id'' (access_claims d input now) = Some (JStr (mi_clientId input))"
  "obj_get ''scope'' (access_claims d input now) = Some (JStr (join_scope (mi_scope input)))"
  "obj_get ''iat'' (access_claims d input now) = Some (JNum (epoch_seconds now))"
  "obj_get ''exp'' (access_claims d input now) = Some (JNum (mint_exp input now))"
  "obj_get ''grant_id'' (access_claims d input now) = Some (JStr (mi_grantId input))"
  by (simp_all add: access_claims_get registered_claims_def obj_get_append)

lemma obj_get_filter_out: "obj_get k (filter (\<lambda>(name, v). name \<noteq> k) ps) = None"
  by (auto simp: obj_get_None_iff)

lemma access_claims_via:
  "obj_get ''via'' (access_claims d input now) =
     (if mi_endpointMinted input then Some (JStr ''mcp'') else None)"
  by (simp add: access_claims_get registered_claims_def obj_get_append obj_get_filter_out)

lemma access_claims_sid:
  "mi_sessionId input = Some i \<Longrightarrow> obj_get ''sid'' (access_claims d input now) = Some (JStr i)"
  by (simp add: access_claims_get registered_claims_def obj_get_append)

lemma mint_audience_issuer: "dp_issuer d \<in> set (mint_audience d input)"
  by (simp add: mint_audience_def)

lemma mint_exp_bounds:
  "mint_exp input now \<le> epoch_seconds now + mi_accessTtl input"
  "MCP_WRITE_SCOPE \<in> set (mi_scope input) \<Longrightarrow> mint_exp input now \<le> epoch_seconds now + 600"
  "mi_expCeiling input = Some c \<Longrightarrow> mint_exp input now * 1000 \<le> c"
proof -
  show "mint_exp input now \<le> epoch_seconds now + mi_accessTtl input"
    using cap_le [of "mi_accessTtl input" "mi_scope input"]
    by (auto simp: mint_exp_def Let_def split: option.splits)
  show "mint_exp input now \<le> epoch_seconds now + 600" if "MCP_WRITE_SCOPE \<in> set (mi_scope input)"
    using cap_write [OF that, of "mi_accessTtl input"]
    by (auto simp: mint_exp_def Let_def split: option.splits)
  show "mint_exp input now * 1000 \<le> c" if "mi_expCeiling input = Some c"
  proof -
    have "mint_exp input now \<le> c div 1000" using that by (simp add: mint_exp_def Let_def epoch_seconds_def)
    then have "mint_exp input now * 1000 \<le> c div 1000 * 1000" by simp
    also have "\<dots> \<le> c" using minus_mod_eq_div_mult [of c 1000] pos_mod_sign [of 1000 c] by linarith
    finally show ?thesis .
  qed
qed

lemma mintAccessToken_Inr:
  assumes "mintAccessToken d input key now = Inr m"
  shows "mt_accessToken m = pf_sign (dp_platform d) key (Some ''at+jwt'') (access_claims d input now)
    \<and> mt_audience m = mint_audience d input \<and> mt_iat m = epoch_seconds now
    \<and> mt_exp m = mint_exp input now
    \<and> (holdsMcpScope (mi_scope input) \<longrightarrow>
        (set (mi_audience input) - {dp_issuer d}) \<noteq> {}
        \<and> set (mi_audience input) - {dp_issuer d} \<subseteq>
            {mcpAudienceOfIssuer (dp_issuer d), ADMIN_API_AUDIENCE})"
proof -
  from assms have c: "scopesCoherentWithAudience (mi_scope input)
      (filter (\<lambda>a. a \<noteq> dp_issuer d) (mi_audience input))
      (mcpAudienceOfIssuer (dp_issuer d)) ADMIN_API_AUDIENCE"
    by (auto simp: mintAccessToken_def split: if_splits)
  have "set (filter (\<lambda>a. a \<noteq> dp_issuer d) (mi_audience input)) =
      set (mi_audience input) - {dp_issuer d}" by auto
  with coherent_mcp_audience [OF c] have mcp: "holdsMcpScope (mi_scope input) \<longrightarrow>
      (set (mi_audience input) - {dp_issuer d}) \<noteq> {}
      \<and> set (mi_audience input) - {dp_issuer d} \<subseteq>
          {mcpAudienceOfIssuer (dp_issuer d), ADMIN_API_AUDIENCE}"
    by (metis set_empty)
  from assms c have "m = \<lparr>mt_accessToken =
           pf_sign (dp_platform d) key (Some ''at+jwt'') (access_claims d input now),
         mt_audience = mint_audience d input, mt_iat = epoch_seconds now,
         mt_exp = mint_exp input now\<rparr>"
    by (simp add: mintAccessToken_def)
  with mcp show ?thesis by simp
qed

lemma mintSubjectAccessToken_Inr:
  "mintSubjectAccessToken d input now s = (Inr m, s') \<Longrightarrow>
     s' = s \<and> (\<exists>key. mintAccessToken d (complete_input d input s) key now = Inr m)"
  by (auto simp: mintSubjectAccessToken_def tx_simps dest: key_active_Inr)

lemma keeps_mintSubjectAccessToken [keeps_intros]: "keeps I (mintSubjectAccessToken d input now)"
  unfolding mintSubjectAccessToken_def by (intro keeps_intros)

end
