(* ===== verification/Code_Grant.thy ===== *)
theory Code_Grant
  imports Minting
begin

text \<open>
  The \<open>authorization_code\<close> grant (\<open>protocol-oidc/src/usecase/token-issuance.ts\<close>): the
  redemption of a code, the revocation a replayed code brings, and the tokens a redeemed code
  is exchanged for. \<open>expires_in\<close>, lifetimes and claims are in seconds, instants in
  milliseconds.
\<close>

datatype token_type = Bearer | NotApplicable

record token_response =
  tr_access_token :: string
  tr_id_token :: "string option"
  tr_refresh_token :: "string option"
  tr_token_type :: token_type
  tr_expires_in :: int
  tr_scope :: string
  tr_issued_token_type :: "string option"

section \<open>Redemption\<close>

definition refusal_audit_of ::
  "string \<Rightarrow> string \<Rightarrow> string \<Rightarrow> string option \<Rightarrow> string option \<Rightarrow> refusal_audit" where
  "refusal_audit_of action reason clientDbId subjectId grantId =
     \<lparr>ra_action = action, ra_reason = reason, ra_clientDbId = clientDbId,
      ra_subjectId = subjectId, ra_grantId = grantId, ra_method = None\<rparr>"

definition recordCodeReplayRevocation :: "deps \<Rightarrow> auth_code \<Rightarrow> string \<Rightarrow> unit db" where
  "recordCodeReplayRevocation d code grantId =
     logged (audit_record d
       (token_event ''grant.revoked_on_code_replay'' (Some (ac_subjectId code))
         (Some (ac_clientId code)) (Some grantId) [(''reason'', JStr ''replayed'')]))"

definition revoke_replayed :: "deps \<Rightarrow> auth_code \<Rightarrow> string \<Rightarrow> unit db" where
  "revoke_replayed d existing grantId =
     tbind (grants_tx (revoke grantId (dp_now d))) (\<lambda>revoked.
     if revoked then recordCodeReplayRevocation d existing grantId else tret ())"

definition redeemAuthorizationCode :: "deps \<Rightarrow> code_request \<Rightarrow> client \<Rightarrow> auth_code req" where
  "redeemAuthorizationCode d request client =
     (let codeHash = hash_token d (cr_code request)
      in tbind (on_work (codes_tx (consume_code (dp_dbNow d) codeHash))) (\<lambda>consumed.
      case consumed of
        None \<Rightarrow>
          tbind (on_work (tget (\<lambda>s. code_byHash codeHash (st_codes s)))) (\<lambda>found.
          case found of
            None \<Rightarrow> tfail (TokenError invalidGrant)
          | Some existing \<Rightarrow>
              (case ac_grantId existing of
                 None \<Rightarrow> tfail (TokenError invalidGrant)
               | Some grantId \<Rightarrow>
                   tbind (independently (revoke_replayed d existing grantId)) (\<lambda>_.
                   tfail (TokenError (withAudit invalidGrant
                     (refusal_audit_of ''token.issue'' ''replayed'' (cl_id client)
                       (Some (ac_subjectId existing)) (Some grantId)))))))
      | Some code \<Rightarrow>
          if evaluateAuthorizationCodeGrant (pf_sha256 (dp_platform d)) code client
               (cr_redirectUri request) (cr_codeVerifier request) \<noteq> None
          then tfail (TokenError invalidGrant)
          else
            tbind (on_work (tget (\<lambda>s. subject_byId (ac_subjectId code) (st_subjects s)))) (\<lambda>subject.
            if \<not> subjectIsEnabled subject then tfail (TokenError invalidGrant)
            else tret code)))"

section \<open>The ID token\<close>

definition narrowToRequestedClaims :: "obj \<Rightarrow> string list \<Rightarrow> obj" where
  "narrowToRequestedClaims claims requested =
     (if length requested = 0 then claims
      else filter (\<lambda>(name, v). name \<in> set requested) claims)"

text \<open>The envelope of the ID token a code is exchanged for.\<close>

definition id_token_envelope ::
  "deps \<Rightarrow> auth_code \<Rightarrow> client \<Rightarrow> oidc_config \<Rightarrow> token_lifetimes \<Rightarrow> string option \<Rightarrow> string list \<Rightarrow> int
     \<Rightarrow> obj" where
  "id_token_envelope d code client config lifetimes sessionId authenticators iat =
     (let amr = amrFor authenticators; acr = acrFor authenticators
      in [(''iss'', JStr (dp_issuer d)), (''sub'', JStr (ac_subjectId code)),
          (''aud'', JStr (cl_clientId client)), (''iat'', JNum iat),
          (''exp'', JNum (iat + tl_idTokenTtlSeconds lifetimes))]
         @ when_member
             ((case map_of (cq_idToken (ac_claims code)) ''auth_time'' of
                 None \<Rightarrow> False | Some e \<Rightarrow> ce_essential e) \<or> oc_requireAuthTime config)
             ''auth_time'' (JNum (epoch_seconds (ac_authTime code)))
         @ some_member ''nonce'' (map_option JStr (ac_nonce code))
         @ some_member ''sid'' (map_option JStr sessionId)
         @ when_member (length amr > 0) ''amr'' (JArr (map JStr amr))
         @ some_member ''acr'' (map_option JStr acr))"

definition code_authenticators :: "auth_code \<Rightarrow> store \<Rightarrow> string list" where
  "code_authenticators code s =
     (case ac_sessionId code of
        None \<Rightarrow> []
      | Some i \<Rightarrow> (case session_byId i (st_sessions s) of None \<Rightarrow> [] | Some r \<Rightarrow> ss_authenticators r))"

definition id_token_claims ::
  "deps \<Rightarrow> auth_code \<Rightarrow> client \<Rightarrow> oidc_config \<Rightarrow> token_lifetimes \<Rightarrow> string list \<Rightarrow> string option \<Rightarrow> int
     \<Rightarrow> store \<Rightarrow> obj" where
  "id_token_claims d code client config lifetimes scope sessionId iat s =
     (let assembled = mappedClaims (dp_assemble d)
            (idTokenScopeOf (scope_forClient (cl_id client) s) scope)
            (dp_claims d (ac_subjectId code)) (reachableRoleIds scope s) (cl_fullScopeAllowed client);
          requested = filter (\<lambda>name. name \<noteq> ''auth_time'') (map fst (cq_idToken (ac_claims code)))
      in withRegisteredClaimsWinning (narrowToRequestedClaims assembled requested)
           (id_token_envelope d code client config lifetimes sessionId
             (code_authenticators code s) iat))"

definition code_id_token ::
  "deps \<Rightarrow> auth_code \<Rightarrow> client \<Rightarrow> oidc_config \<Rightarrow> token_lifetimes \<Rightarrow> string list \<Rightarrow> string option \<Rightarrow> int
     \<Rightarrow> signing_key \<Rightarrow> string option db" where
  "code_id_token d code client config lifetimes scope sessionId iat key =
     (if ''openid'' \<notin> set scope then tret None
      else
        tbind (tget (id_token_claims d code client config lifetimes scope sessionId iat)) (\<lambda>claims.
        tbind (idTokenKey config key) (\<lambda>signer.
        tret (Some (pf_sign (dp_platform d) signer None claims)))))"

section \<open>Issuance\<close>

definition offline_session :: "string list \<Rightarrow> string option \<Rightarrow> string option" where
  "offline_session scope sessionId =
     (if ''offline_access'' \<in> set scope \<and> refreshAllowedForScope scope then None else sessionId)"

definition code_userinfo_claims :: "auth_code \<Rightarrow> string list option" where
  "code_userinfo_claims code =
     (let names = map fst (cq_userinfo (ac_claims code))
      in if length names > 0 then Some names else None)"

definition code_scope :: "auth_code \<Rightarrow> client \<Rightarrow> store \<Rightarrow> string list" where
  "code_scope code client s =
     resolveScope (ac_scope code) (map cs_name (scope_forClient (cl_id client) s)) None None"

definition code_mint_input ::
  "deps \<Rightarrow> auth_code \<Rightarrow> client \<Rightarrow> token_lifetimes \<Rightarrow> string list \<Rightarrow> string list \<Rightarrow> store \<Rightarrow> mint_input" where
  "code_mint_input d code client lifetimes scope audience s =
     \<lparr>mi_subjectId = ac_subjectId code, mi_clientId = cl_clientId client, mi_scope = scope,
      mi_accessTtl = tl_accessTokenTtlSeconds lifetimes, mi_audience = audience,
      mi_claimContext = dp_claims d (ac_subjectId code),
      mi_reachableRoleIds = reachableRoleIds scope s,
      mi_fullScopeAllowed = cl_fullScopeAllowed client,
      mi_accessTokenScope = accessTokenEligibleScope scope s,
      mi_sessionId = offline_session scope (ac_sessionId code), mi_grantId = dp_newGrantId d,
      mi_requestedUserinfoClaims = code_userinfo_claims code, mi_act = None,
      mi_endpointMinted = False, mi_expCeiling = None\<rparr>"

definition code_grant :: "deps \<Rightarrow> auth_code \<Rightarrow> client \<Rightarrow> string list \<Rightarrow> string list \<Rightarrow> new_grant" where
  "code_grant d code client scope audience =
     \<lparr>ng_id = dp_newGrantId d, ng_clientId = cl_id client, ng_subjectId = ac_subjectId code,
      ng_scope = join_scope scope, ng_audience = audience,
      ng_sessionId = offline_session scope (ac_sessionId code), ng_actorSubjectId = None,
      ng_exchangedFromGrantId = None, ng_actChain = None, ng_expCeiling = None,
      ng_requestedUserinfoClaims = code_userinfo_claims code\<rparr>"

text \<open>The refresh token of a new grant, for a client configured for it.\<close>

definition code_refresh_token ::
  "deps \<Rightarrow> oidc_config \<Rightarrow> token_lifetimes \<Rightarrow> string list \<Rightarrow> string \<Rightarrow> string option db" where
  "code_refresh_token d config lifetimes scope grantId =
     (if ''refresh_token'' \<in> set (oc_grantTypes config) \<and> refreshAllowedForScope scope then
        tbind (create_refresh (dp_dbNow d) (hash_token d (dp_newRefresh d)) grantId
          (dp_now d + tl_refreshTokenTtlSeconds lifetimes * 1000)) (\<lambda>_.
        tret (Some (dp_newRefresh d)))
      else tret None)"

definition issue_for_code ::
  "deps \<Rightarrow> code_request \<Rightarrow> client \<Rightarrow> oidc_config \<Rightarrow> token_lifetimes \<Rightarrow> auth_code \<Rightarrow> token_response db"
  where
  "issue_for_code d request client config lifetimes code =
     tbind (tget (code_scope code client)) (\<lambda>scope.
     tbind key_active (\<lambda>key.
     tbind (tsum (resolveAudience d (ac_resource code) (cr_resource request))) (\<lambda>resolved.
     tbind (tget (code_mint_input d code client lifetimes scope resolved)) (\<lambda>input.
     tbind (tsum (mintAccessToken d input key (dp_now d))) (\<lambda>m.
     tbind (code_id_token d code client config lifetimes scope
       (offline_session scope (ac_sessionId code)) (mt_iat m) key) (\<lambda>idToken.
     tbind (create_grant (dp_dbNow d) (code_grant d code client scope (mt_audience m))) (\<lambda>grant.
     tbind (codes_tx (\<lambda>rows. ((), attachGrant (ac_codeHash code) (tg_id grant) rows))) (\<lambda>_.
     tbind (audit_record d (token_event ''token.issue'' (Some (ac_subjectId code))
       (Some (cl_id client)) (Some (tg_id grant))
       [(''grant_type'', JStr ''authorization_code''), (''scope'', JStr (join_scope scope))])) (\<lambda>_.
     tbind (code_refresh_token d config lifetimes scope (tg_id grant)) (\<lambda>refreshToken.
     tret \<lparr>tr_access_token = mt_accessToken m, tr_id_token = idToken,
           tr_refresh_token = refreshToken, tr_token_type = Bearer,
           tr_expires_in = mt_exp m - mt_iat m, tr_scope = join_scope scope,
           tr_issued_token_type = None\<rparr>))))))))))"

definition issueAuthorizationCodeTokens ::
  "deps \<Rightarrow> code_request \<Rightarrow> client \<Rightarrow> oidc_config \<Rightarrow> token_lifetimes \<Rightarrow> token_response req" where
  "issueAuthorizationCodeTokens d request client config lifetimes =
     tbind (redeemAuthorizationCode d request client) (\<lambda>code.
     on_work (issue_for_code d request client config lifetimes code))"

section \<open>Lemmas\<close>

lemma evaluateAuthorizationCodeGrant_None:
  "evaluateAuthorizationCodeGrant sha code client redirectUri verifier = None \<longleftrightarrow>
     ac_clientId code = cl_id client \<and> ac_redirectUri code = redirectUri
     \<and> verifyPkce sha verifier (ac_codeChallenge code)"
  by (auto simp: evaluateAuthorizationCodeGrant_def)

text \<open>A code that was redeemed: a live row, its own client's, with its redirect and verifier.\<close>

definition redeemable :: "deps \<Rightarrow> code_request \<Rightarrow> client \<Rightarrow> store \<Rightarrow> auth_code \<Rightarrow> bool" where
  "redeemable d request client s row \<longleftrightarrow>
     row \<in> set (st_codes s) \<and> ac_codeHash row = hash_token d (cr_code request)
     \<and> ac_consumedAt row = None \<and> dp_dbNow d < ac_expiresAt row
     \<and> ac_clientId row = cl_id client \<and> ac_redirectUri row = cr_redirectUri request
     \<and> verifyPkce (pf_sha256 (dp_platform d)) (cr_codeVerifier request) (ac_codeChallenge row)
     \<and> subjectIsEnabled (subject_byId (ac_subjectId row) (st_subjects s))"

lemma redeem_Inr:
  assumes "redeemAuthorizationCode d request client (c, w) = (Inr code, cw)"
  shows "\<exists>row. redeemable d request client w row \<and> code = row\<lparr>ac_consumedAt := Some (dp_dbNow d)\<rparr>
    \<and> cw = (c, w\<lparr>st_codes := snd (consume_code (dp_dbNow d) (hash_token d (cr_code request)) (st_codes w))\<rparr>)"
proof -
  let ?h = "hash_token d (cr_code request)"
  let ?cons = "consume_code (dp_dbNow d) ?h (st_codes w)"
  show ?thesis
  proof (cases "fst ?cons")
    case None
    with assms show ?thesis
      by (auto simp: redeemAuthorizationCode_def Let_def tx_simps split: option.splits)
  next
    case (Some code')
    then have cons: "?cons = (Some code', snd ?cons)" by (cases ?cons) simp
    from consume_code_Some [OF cons] obtain row where row: "row \<in> set (st_codes w)"
      "code' = row\<lparr>ac_consumedAt := Some (dp_dbNow d)\<rparr>" "ac_codeHash row = ?h"
      "ac_consumedAt row = None" "dp_dbNow d < ac_expiresAt row" by blast
    have run: "code = code'" "cw = (c, w\<lparr>st_codes := snd ?cons\<rparr>)"
      "evaluateAuthorizationCodeGrant (pf_sha256 (dp_platform d)) code' client
         (cr_redirectUri request) (cr_codeVerifier request) = None"
      "subjectIsEnabled (subject_byId (ac_subjectId code') (st_subjects w))"
      using assms Some
      by (auto simp: redeemAuthorizationCode_def Let_def tx_simps split: if_splits intro: prod_eqI)
    with row show ?thesis
      by (intro exI [of _ row]) (auto simp: redeemable_def evaluateAuthorizationCodeGrant_None)
  qed
qed

text \<open>A refused redemption commits nothing, unless the code had been redeemed: then the grant
  that redemption left is revoked, whether or not the trail takes the row.\<close>

lemma audit_same: "s\<lparr>st_grants := g\<rparr> = s\<lparr>st_grants := g, st_audit := st_audit s\<rparr>"
  by (cases s) simp

lemma revoke_replayed_run:
  "revoke_replayed d code i s = (r, s') \<Longrightarrow>
     r = Inr () \<and> (\<exists>rows. s' = s\<lparr>st_grants := snd (revoke i (dp_now d) (st_grants s)), st_audit := rows\<rparr>)"
proof -
  let ?s1 = "s\<lparr>st_grants := snd (revoke i (dp_now d) (st_grants s))\<rparr>"
  assume run: "revoke_replayed d code i s = (r, s')"
  show ?thesis
  proof (cases "fst (revoke i (dp_now d) (st_grants s))")
    case True
    with run have l: "logged (audit_record d
       (token_event ''grant.revoked_on_code_replay'' (Some (ac_subjectId code))
         (Some (ac_clientId code)) (Some i) [(''reason'', JStr ''replayed'')])) ?s1 = (r, s')"
      by (simp add: revoke_replayed_def recordCodeReplayRevocation_def tbind_def grants_tx_def split_beta)
    show ?thesis using logged_record [OF l] audit_same [where s = s] by (metis insertE singletonD)
  next
    case False
    with run have "r = Inr ()" "s' = ?s1"
      by (simp_all add: revoke_replayed_def tbind_def grants_tx_def split_beta tret_def)
    then show ?thesis using audit_same [where s = s] by metis
  qed
qed

definition replay_of :: "deps \<Rightarrow> code_request \<Rightarrow> store \<Rightarrow> string option" where
  "replay_of d request s =
     (let h = hash_token d (cr_code request)
      in if fst (consume_code (dp_dbNow d) h (st_codes s)) \<noteq> None then None
         else case code_byHash h (st_codes s) of None \<Rightarrow> None | Some existing \<Rightarrow> ac_grantId existing)"

lemma redeem_Inl:
  assumes "redeemAuthorizationCode d request client (c, w) = (Inl e, (c', w'))"
  shows "response_of (case e of TokenError te \<Rightarrow> te | _ \<Rightarrow> undefined) = response_of invalidGrant
    \<and> (\<exists>te. e = TokenError te)
    \<and> (case replay_of d request w of
        None \<Rightarrow> c' = c
      | Some i \<Rightarrow> \<exists>rows. c' = c\<lparr>st_grants := snd (revoke i (dp_now d) (st_grants c)), st_audit := rows\<rparr>)"
proof -
  let ?h = "hash_token d (cr_code request)"
  let ?cons = "consume_code (dp_dbNow d) ?h (st_codes w)"
  show ?thesis
  proof (cases "fst ?cons")
    case (Some code')
    with assms show ?thesis
      by (auto simp: redeemAuthorizationCode_def Let_def tx_simps tx_fail_simps replay_of_def
          split: if_splits)
  next
    case None
    then have same: "snd ?cons = st_codes w"
      using consume_code_None [of "dp_dbNow d" ?h "st_codes w"] by (cases ?cons) auto
    show ?thesis
    proof (cases "code_byHash ?h (st_codes w)")
      case no: None
      with None same assms show ?thesis
        by (auto simp: redeemAuthorizationCode_def Let_def tx_simps tx_fail_simps replay_of_def)
    next
      case ex: (Some existing)
      show ?thesis
      proof (cases "ac_grantId existing")
        case no: None
        with None ex same assms show ?thesis
          by (auto simp: redeemAuthorizationCode_def Let_def tx_simps tx_fail_simps replay_of_def)
      next
        case (Some i)
        obtain r c1 where a: "atomically (revoke_replayed d existing i) c = (r, c1)"
          by (cases "atomically (revoke_replayed d existing i) c")
        obtain r0 c0 where r0: "revoke_replayed d existing i c = (r0, c0)"
          by (cases "revoke_replayed d existing i c")
        note run = revoke_replayed_run [OF r0]
        with a r0 have "c1 = c0" "r = Inr ()" by (auto simp: atomically_def)
        with a None ex same Some assms run show ?thesis
          by (auto simp: redeemAuthorizationCode_def Let_def tx_simps tx_fail_simps replay_of_def
              independently_run)
      qed
    qed
  qed
qed

lemma code_id_token_state: "code_id_token d code client config lt scope sid iat key s = (r, s') \<Longrightarrow> s' = s"
  by (auto simp: code_id_token_def tbind_def tget_def tret_def split: if_splits prod.splits sum.splits
      dest: idTokenKey_state)

lemma code_id_token_None:
  "code_id_token d code client config lt scope sid iat key s = (Inr t, s') \<Longrightarrow>
     t = None \<longleftrightarrow> ''openid'' \<notin> set scope"
  by (auto simp: code_id_token_def tx_simps split: if_splits)

text \<open>The refresh row of a new grant.\<close>

definition fresh_refresh :: "deps \<Rightarrow> string \<Rightarrow> time \<Rightarrow> refresh_token" where
  "fresh_refresh d grantId expiresAt =
     \<lparr>rt_tokenHash = hash_token d (dp_newRefresh d), rt_grantId = grantId, rt_issuedAt = dp_dbNow d,
      rt_expiresAt = expiresAt, rt_usedAt = None, rt_replacedBy = None\<rparr>"

lemma code_refresh_token_Inr:
  assumes "code_refresh_token d config lt scope i s = (Inr t, s')"
  shows "(t = None \<and> s' = s)
    \<or> (t = Some (dp_newRefresh d) \<and> ''refresh_token'' \<in> set (oc_grantTypes config)
       \<and> refreshAllowedForScope scope
       \<and> hash_token d (dp_newRefresh d) \<notin> rt_tokenHash ` set (st_refresh s)
       \<and> s' = s\<lparr>st_refresh := st_refresh s @
           [fresh_refresh d i (dp_now d + tl_refreshTokenTtlSeconds lt * 1000)]\<rparr>)"
  using assms
  by (auto simp: code_refresh_token_def tx_simps fresh_refresh_def dest!: create_refresh_Inr
      split: if_splits)

text \<open>What a redeemed code was exchanged for.\<close>

lemma issue_for_code_Inr:
  assumes "issue_for_code d request client config lt code s = (Inr resp, s')"
  defines "scope \<equiv> code_scope code client s"
  shows "\<exists>key resolved m g.
      resolveAudience d (ac_resource code) (cr_resource request) = Inr resolved
    \<and> mintAccessToken d (code_mint_input d code client lt scope resolved s) key (dp_now d) = Inr m
    \<and> g = grant_row (dp_dbNow d) (st_grants s) (code_grant d code client scope (mt_audience m))
    \<and> \<not> has_grant s (dp_newGrantId d)
    \<and> (\<forall>i. offline_session scope (ac_sessionId code) = Some i \<longrightarrow> has_session s i)
    \<and> (\<exists>refresh audit. s' = s\<lparr>st_grants := st_grants s @ [g],
          st_codes := attachGrant (ac_codeHash code) (dp_newGrantId d) (st_codes s),
          st_audit := audit, st_refresh := refresh\<rparr>
        \<and> (refresh = st_refresh s \<and> tr_refresh_token resp = None
           \<or> refresh = st_refresh s @ [fresh_refresh d (dp_newGrantId d)
                (dp_now d + tl_refreshTokenTtlSeconds lt * 1000)]
              \<and> tr_refresh_token resp = Some (dp_newRefresh d) \<and> refreshAllowedForScope scope
              \<and> hash_token d (dp_newRefresh d) \<notin> rt_tokenHash ` set (st_refresh s)))
    \<and> tr_access_token resp = mt_accessToken m \<and> tr_expires_in resp = mt_exp m - mt_iat m
    \<and> tr_scope resp = join_scope scope \<and> (tr_id_token resp = None \<longleftrightarrow> ''openid'' \<notin> set scope)"
proof -
  from assms(1) obtain key resolved m idToken grant s2 s3 s4 u t where
    r: "resolveAudience d (ac_resource code) (cr_resource request) = Inr resolved"
    and m: "mintAccessToken d (code_mint_input d code client lt scope resolved s) key (dp_now d) = Inr m"
    and idt: "code_id_token d code client config lt scope
       (offline_session scope (ac_sessionId code)) (mt_iat m) key s = (Inr idToken, s2)"
    and cg: "create_grant (dp_dbNow d) (code_grant d code client scope (mt_audience m)) s2 = (Inr grant, s3)"
    and au: "audit_record d (token_event ''token.issue'' (Some (ac_subjectId code))
       (Some (cl_id client)) (Some (tg_id grant))
       [(''grant_type'', JStr ''authorization_code''), (''scope'', JStr (join_scope scope))])
       (s3\<lparr>st_codes := attachGrant (ac_codeHash code) (tg_id grant) (st_codes s3)\<rparr>) = (Inr u, s4)"
    and rt: "code_refresh_token d config lt scope (tg_id grant) s4 = (Inr t, s')"
    and resp: "resp = \<lparr>tr_access_token = mt_accessToken m, tr_id_token = idToken,
           tr_refresh_token = t, tr_token_type = Bearer,
           tr_expires_in = mt_exp m - mt_iat m, tr_scope = join_scope scope,
           tr_issued_token_type = None\<rparr>"
    by (auto simp: issue_for_code_def tx_simps scope_def dest!: key_active_Inr)
  have s2: "s2 = s" using code_id_token_state [OF idt] .
  note g = create_grant_Inr [OF cg [unfolded s2]]
  have gid: "tg_id grant = dp_newGrantId d" "ng_id (code_grant d code client scope (mt_audience m)) = dp_newGrantId d"
    "ng_sessionId (code_grant d code client scope (mt_audience m)) = offline_session scope (ac_sessionId code)"
    using g by (simp_all add: grant_row_def code_grant_def)
  from audit_record_rest [OF au] obtain rows where
    s4: "s4 = s3\<lparr>st_codes := attachGrant (ac_codeHash code) (tg_id grant) (st_codes s3), st_audit := rows\<rparr>"
    by auto
  have s4': "s4 = s\<lparr>st_grants := st_grants s @ [grant],
      st_codes := attachGrant (ac_codeHash code) (dp_newGrantId d) (st_codes s), st_audit := rows,
      st_refresh := st_refresh s\<rparr>"
  proof -
    have "s3 = s\<lparr>st_grants := st_grants s @ [grant]\<rparr>" using g by simp
    then show ?thesis unfolding s4 gid(1) by simp
  qed
  show ?thesis
  proof (rule exI [of _ key], rule exI [of _ resolved], rule exI [of _ m], rule exI [of _ grant],
      intro conjI)
    show "\<exists>refresh audit. s' = s\<lparr>st_grants := st_grants s @ [grant],
          st_codes := attachGrant (ac_codeHash code) (dp_newGrantId d) (st_codes s),
          st_audit := audit, st_refresh := refresh\<rparr>
        \<and> (refresh = st_refresh s \<and> tr_refresh_token resp = None
           \<or> refresh = st_refresh s @ [fresh_refresh d (dp_newGrantId d)
                (dp_now d + tl_refreshTokenTtlSeconds lt * 1000)]
              \<and> tr_refresh_token resp = Some (dp_newRefresh d) \<and> refreshAllowedForScope scope
              \<and> hash_token d (dp_newRefresh d) \<notin> rt_tokenHash ` set (st_refresh s))"
      using code_refresh_token_Inr [OF rt]
      by (intro exI [of _ "st_refresh s'"] exI [of _ rows]) (auto simp: s4' gid resp)
  qed (use r m g gid idt code_id_token_None [OF idt] resp in \<open>auto simp: has_grant_def\<close>)
qed

end
