(* ===== verification/Issuance.thy ===== *)
theory Issuance
  imports Code_Grant
begin

text \<open>
  The \<open>refresh_token\<close>, \<open>client_credentials\<close> and token exchange grants and the dispatch
  among the four (\<open>protocol-oidc/src/usecase/token-issuance.ts\<close>), for an authenticated
  client.
\<close>

section \<open>Refresh\<close>

definition refreshPolicy :: "client \<Rightarrow> store \<Rightarrow> string" where
  "refreshPolicy client s =
     (if \<not> needsApproval (cl_registrationOrigin client) then ''disabled''
      else coalesce (st_policy s) ''disabled'')"

definition refreshCeiling ::
  "deps \<Rightarrow> client \<Rightarrow> string list \<Rightarrow> string list \<Rightarrow> string \<Rightarrow> exn + string list \<times> string list" where
  "refreshCeiling d client scope audience policy =
     (let held = refreshUnderPolicy (pf_URL (dp_platform d)) (cl_registrationOrigin client) policy
            (mcpAudienceOfIssuer (dp_issuer d)) scope audience
      in if holdsMcpScope scope \<and> \<not> holdsMcpScope (fst held)
            \<and> ADMIN_API_AUDIENCE \<in> set (snd held)
         then Inl (TokenError invalidScope)
         else Inr held)"

text \<open>The grant decision as the exception its refusal throws.\<close>

definition decide_refresh ::
  "token_grant \<Rightarrow> client \<Rightarrow> subject \<Rightarrow> string \<Rightarrow> exn + string list" where
  "decide_refresh grant client subject requestedScope =
     (case evaluateRefreshGrant grant client subject requestedScope of
        Inl reason \<Rightarrow>
          Inl (TokenError (if refusalIsAboutScope reason then invalidScope else invalidGrant))
      | Inr scope \<Rightarrow> Inr scope)"

definition evaluatePresentedRefreshToken ::
  "deps \<Rightarrow> refresh_request \<Rightarrow> client \<Rightarrow> string \<Rightarrow> (string list \<times> string) db" where
  "evaluatePresentedRefreshToken d request client presentedHash =
     tbind (tget (\<lambda>s. refresh_byHash presentedHash (st_refresh s))) (\<lambda>p.
     tbind (tsome p (TokenError invalidGrant)) (\<lambda>presented.
     tbind (tget (\<lambda>s. grant_byId (rt_grantId presented) (st_grants s))) (\<lambda>g.
     tbind (tsome g (TokenError invalidGrant)) (\<lambda>grant.
     tbind (tget (\<lambda>s. subject_byId (tg_subjectId grant) (st_subjects s))) (\<lambda>sj.
     tbind (tsome sj (TokenError invalidGrant)) (\<lambda>subject.
     tbind (tsum (decide_refresh grant client subject (rq_scope request))) (\<lambda>scope.
     tbind (tget (refreshPolicy client)) (\<lambda>policy.
     tbind (tsum (refreshCeiling d client scope (tg_audience grant) policy)) (\<lambda>held.
     tbind (tsum (resolveAudience d (snd held) (rq_resource request))) (\<lambda>_.
     tret (scope, policy)))))))))))"

definition refresh_mint_input ::
  "deps \<Rightarrow> token_grant \<Rightarrow> client \<Rightarrow> token_lifetimes \<Rightarrow> string list \<Rightarrow> string list \<Rightarrow> store \<Rightarrow> mint_input"
  where
  "refresh_mint_input d grant client lifetimes scope audience s =
     \<lparr>mi_subjectId = tg_subjectId grant, mi_clientId = cl_clientId client, mi_scope = scope,
      mi_accessTtl = tl_accessTokenTtlSeconds lifetimes, mi_audience = audience,
      mi_claimContext = dp_claims d (tg_subjectId grant),
      mi_reachableRoleIds = reachableRoleIds scope s,
      mi_fullScopeAllowed = cl_fullScopeAllowed client,
      mi_accessTokenScope = accessTokenEligibleScope scope s,
      mi_sessionId = tg_sessionId grant, mi_grantId = tg_id grant,
      mi_requestedUserinfoClaims = tg_requestedUserinfoClaims grant,
      mi_act = narrowActClaim (tg_actChain grant), mi_endpointMinted = False,
      mi_expCeiling = tg_expCeiling grant\<rparr>"

text \<open>Everything after the rotation, against the state it settled.\<close>

definition issue_for_rotated ::
  "deps \<Rightarrow> refresh_request \<Rightarrow> client \<Rightarrow> token_lifetimes \<Rightarrow> string \<Rightarrow> token_grant \<Rightarrow> string
     \<Rightarrow> token_response db" where
  "issue_for_rotated d request client lifetimes policy grant next =
     tbind (tget (\<lambda>s. subject_byId (tg_subjectId grant) (st_subjects s))) (\<lambda>sj.
     tbind (tsome sj (TokenError invalidGrant)) (\<lambda>subject.
     tbind (tsum (decide_refresh grant client subject (rq_scope request))) (\<lambda>decided.
     tbind (tsum (refreshCeiling d client decided (tg_audience grant) policy)) (\<lambda>derived.
     tbind key_active (\<lambda>key.
     tbind (tsum (resolveAudience d (snd derived) (rq_resource request))) (\<lambda>resolved.
     tbind (tget (refresh_mint_input d grant client lifetimes (fst derived) resolved)) (\<lambda>input.
     tbind (tsum (mintAccessToken d input key (dp_now d))) (\<lambda>m.
     tret \<lparr>tr_access_token = mt_accessToken m, tr_id_token = None, tr_refresh_token = Some next,
           tr_token_type = Bearer, tr_expires_in = mt_exp m - mt_iat m,
           tr_scope = join_scope (fst derived), tr_issued_token_type = None\<rparr>))))))))"

definition issueRefreshTokens ::
  "deps \<Rightarrow> refresh_request \<Rightarrow> client \<Rightarrow> oidc_config \<Rightarrow> token_lifetimes \<Rightarrow> token_response req" where
  "issueRefreshTokens d request client config lifetimes =
     (let presentedHash = hash_token d (rq_refreshToken request)
      in tbind (on_work (evaluatePresentedRefreshToken d request client presentedHash))
        (\<lambda>(presentedScope, policy).
      tbind (independently (rotateRefreshToken d presentedHash (tl_refreshTokenTtlSeconds lifetimes)
        presentedScope)) (\<lambda>outcome.
      case outcome of
        Reused family sub \<Rightarrow>
          tfail (TokenError (withAudit invalidGrant
            (refusal_audit_of ''token.refresh'' ''replayed'' (cl_id client) sub (Some family))))
      | Rotated grant next \<Rightarrow>
          on_work (issue_for_rotated d request client lifetimes policy grant next)
      | _ \<Rightarrow> tfail (TokenError invalidGrant))))"

section \<open>Client credentials\<close>

definition WWW_AUTHENTICATE :: string where
  "WWW_AUTHENTICATE = ''Basic realm='' @ [CHR 0x22] @ ''token'' @ [CHR 0x22]"

definition cc_mint_input ::
  "deps \<Rightarrow> client \<Rightarrow> string \<Rightarrow> token_lifetimes \<Rightarrow> string list \<Rightarrow> string list \<Rightarrow> store \<Rightarrow> mint_input" where
  "cc_mint_input d client subjectId lifetimes scope audience s =
     \<lparr>mi_subjectId = subjectId, mi_clientId = cl_clientId client, mi_scope = scope,
      mi_accessTtl = tl_accessTokenTtlSeconds lifetimes, mi_audience = audience,
      mi_claimContext = dp_claims d subjectId,
      mi_reachableRoleIds = reachableRoleIds scope s,
      mi_fullScopeAllowed = cl_fullScopeAllowed client,
      mi_accessTokenScope = accessTokenEligibleScope scope s,
      mi_sessionId = None, mi_grantId = dp_newGrantId d, mi_requestedUserinfoClaims = None,
      mi_act = None, mi_endpointMinted = False, mi_expCeiling = None\<rparr>"

definition cc_grant :: "deps \<Rightarrow> client \<Rightarrow> string \<Rightarrow> string list \<Rightarrow> string list \<Rightarrow> new_grant" where
  "cc_grant d client subjectId scope audience =
     \<lparr>ng_id = dp_newGrantId d, ng_clientId = cl_id client, ng_subjectId = subjectId,
      ng_scope = join_scope scope, ng_audience = audience, ng_sessionId = None,
      ng_actorSubjectId = None, ng_exchangedFromGrantId = None, ng_actChain = None,
      ng_expCeiling = None, ng_requestedUserinfoClaims = None\<rparr>"

text \<open>\<open>try { create } catch (error) { if (isForeignKeyViolation(error)) ... }\<close>\<close>

definition create_grant_or_unauthorized :: "deps \<Rightarrow> new_grant \<Rightarrow> token_grant db" where
  "create_grant_or_unauthorized d input s =
     (case create_grant (dp_dbNow d) input s of
        (Inl (ForeignKeyViolation k), s') \<Rightarrow> (Inl (TokenError unauthorizedClient), s')
      | r \<Rightarrow> r)"

definition cc_scope_or_refusal :: "client \<Rightarrow> oidc_config \<Rightarrow> cc_request \<Rightarrow> exn + string list" where
  "cc_scope_or_refusal client config request =
     (case evaluateClientCredentialsGrant client (oc_clientCredentialsScopes config)
             (cc_scope request) of
        Inl NotConfidential \<Rightarrow>
          Inl (TokenError (withAudit (invalidClient WWW_AUTHENTICATE)
            (refusal_audit_of ''token.issue'' ''unauthorized_client'' (cl_id client) None None)))
      | Inl NoServiceSubject \<Rightarrow> Inl (TokenError unauthorizedClient)
      | Inl CcScopeWidened \<Rightarrow> Inl (TokenError invalidScope)
      | Inr scope \<Rightarrow> Inr scope)"

definition issueClientCredentialsTokens ::
  "deps \<Rightarrow> cc_request \<Rightarrow> client \<Rightarrow> oidc_config \<Rightarrow> token_lifetimes \<Rightarrow> token_response db" where
  "issueClientCredentialsTokens d request client config lifetimes =
     tbind (tsum (cc_scope_or_refusal client config request)) (\<lambda>scope.
     tbind (tsome (cl_serviceSubjectId client) (TokenError unauthorizedClient)) (\<lambda>subjectId.
     tbind key_active (\<lambda>key.
     tbind (tsum (resolveAudience d (oc_audiences config) (cc_resource request))) (\<lambda>resolved.
     tbind (tget (cc_mint_input d client subjectId lifetimes scope resolved)) (\<lambda>input.
     tbind (tsum (mintAccessToken d input key (dp_now d))) (\<lambda>m.
     tbind (create_grant_or_unauthorized d (cc_grant d client subjectId scope (mt_audience m))) (\<lambda>_.
     tbind (audit_record d (token_event ''token.issue'' None (Some (cl_id client))
       (Some (dp_newGrantId d))
       [(''grant_type'', JStr ''client_credentials''), (''scope'', JStr (join_scope scope))])) (\<lambda>_.
     tret \<lparr>tr_access_token = mt_accessToken m, tr_id_token = None, tr_refresh_token = None,
           tr_token_type = Bearer, tr_expires_in = mt_exp m - mt_iat m,
           tr_scope = join_scope scope, tr_issued_token_type = None\<rparr>))))))))"

section \<open>Token exchange\<close>

definition exchange_refused :: "client \<Rightarrow> string \<Rightarrow> string option \<Rightarrow> exn" where
  "exchange_refused client reason subjectId =
     TokenError (withAudit invalidRequest
       (refusal_audit_of ''token.exchange'' reason (cl_id client) subjectId None))"

definition accepted_type :: "client \<Rightarrow> string \<Rightarrow> exn + exchange_token_type" where
  "accepted_type client raw =
     (case parseTokenType raw of
        Accepted t \<Rightarrow> Inr t
      | _ \<Rightarrow> Inl (exchange_refused client ''unsupported_token_type'' None))"

definition issued_type :: "client \<Rightarrow> exchange_request \<Rightarrow> exn + exchange_token_type" where
  "issued_type client request =
     (case xr_requestedTokenType request of
        None \<Rightarrow> Inr AccessToken
      | Some raw \<Rightarrow> accepted_type client raw)"

text \<open>The actor token, where one is presented; \<open>None\<close> is an impersonation.\<close>

definition resolve_actor ::
  "deps \<Rightarrow> exchange_request \<Rightarrow> client \<Rightarrow> resolved_token \<Rightarrow> resolved_token option db" where
  "resolve_actor d request client subject =
     (case xr_actorTokenType request of
        None \<Rightarrow> tret None
      | Some rawType \<Rightarrow>
          tbind (tsum (accepted_type client rawType)) (\<lambda>actorType.
          case xr_actorToken request of
            None \<Rightarrow> tret None
          | Some token \<Rightarrow>
              tbind (tget (resolveExchangeToken d (cl_clientId client) actorType token)) (\<lambda>actor.
              tbind (tsome actor
                (exchange_refused client ''invalid_grant'' (Some (rv_subjectId subject)))) (\<lambda>a.
              tret (Some a)))))"

text \<open>The delegation the exchange records: the actor allowed to act, and its chain.\<close>

definition delegated_act ::
  "exchange_request \<Rightarrow> client \<Rightarrow> oidc_config \<Rightarrow> resolved_token \<Rightarrow> resolved_token option
     \<Rightarrow> exn + act_claim option" where
  "delegated_act request client config subject actor =
     (let sub = Some (rv_subjectId subject);
          actorSubject = (case actor of None \<Rightarrow> cl_clientId client | Some a \<Rightarrow> rv_subjectId a)
      in if (\<exists>a \<in> set_option actor. rv_clientDbId a \<noteq> cl_id client)
            \<and> \<not> oc_actorFromOtherClient config
         then Inl (exchange_refused client ''invalid_grant'' sub)
         else if \<not> mayActPermits (rv_mayAct subject) actorSubject
         then Inl (exchange_refused client ''subject_mismatch'' sub)
         else case actor of
             None \<Rightarrow> Inr None
           | Some a \<Rightarrow>
               (case buildActChain actorSubject (rv_act a) of
                  Narrowed act \<Rightarrow> Inr (Some act)
                | _ \<Rightarrow> Inl (exchange_refused client ''invalid_grant'' sub)))"

text \<open>The \<open>act\<close> the issued token carries: the delegation's, or the subject token's own, or
  the client's where the scope is an MCP scope.\<close>

definition carried_act ::
  "client \<Rightarrow> resolved_token \<Rightarrow> string list \<Rightarrow> act_claim option \<Rightarrow> exn + act_claim option" where
  "carried_act client subject scope delegated =
     (let act0 =
        (if delegated = None \<and> rv_act subject \<noteq> None then
           (case narrowActClaim (rv_act subject) of
              None \<Rightarrow> Inl (exchange_refused client ''invalid_grant'' (Some (rv_subjectId subject)))
            | Some carried \<Rightarrow> Inr (Some carried))
         else Inr delegated)
      in case act0 of
           Inl e \<Rightarrow> Inl e
         | Inr act \<Rightarrow>
             if holdsMcpScope (rv_scope subject) then
               (if \<not> holdsMcpScope scope then Inl (TokenError invalidScope)
                else Inr (js_or_else act (Some (Act (cl_clientId client) None))))
             else Inr act)"

definition exchange_audience ::
  "deps \<Rightarrow> exchange_request \<Rightarrow> oidc_config \<Rightarrow> exchange_token_type \<Rightarrow> exchange_token_type
     \<Rightarrow> exn + string list" where
  "exchange_audience d request config subjectType issuedType =
     (case resolveExchangeAudience (pf_URL (dp_platform d)) (xr_resource request)
             (xr_audience request) (oc_audiences config) issuedType of
        ResourceInvalidTarget \<Rightarrow> Inl (TokenError invalidTarget)
      | ResourceOk audience \<Rightarrow>
          if subjectType = IdToken \<and> ADMIN_API_AUDIENCE \<in> set audience
          then Inl (TokenError invalidTarget)
          else Inr audience)"

definition exchange_grant ::
  "deps \<Rightarrow> client \<Rightarrow> resolved_token \<Rightarrow> resolved_token option \<Rightarrow> act_claim option \<Rightarrow> string list
     \<Rightarrow> string list \<Rightarrow> new_grant" where
  "exchange_grant d client subject actor act scope audience =
     \<lparr>ng_id = dp_newGrantId d, ng_clientId = cl_id client, ng_subjectId = rv_subjectId subject,
      ng_scope = join_scope scope, ng_audience = audience, ng_sessionId = rv_sessionId subject,
      ng_actorSubjectId = map_option rv_subjectId actor,
      ng_exchangedFromGrantId = rv_grantId subject,
      ng_actChain = map_option act_json act, ng_expCeiling = rv_expiresAt subject,
      ng_requestedUserinfoClaims = rv_requestedUserinfoClaims subject\<rparr>"

definition recordExchange ::
  "deps \<Rightarrow> exchange_request \<Rightarrow> client \<Rightarrow> resolved_token \<Rightarrow> string list \<Rightarrow> string option \<Rightarrow> string
     \<Rightarrow> unit db" where
  "recordExchange d request client subject scope resourceId issuedTokenType =
     audit_record d (token_event ''token.exchange'' (Some (rv_subjectId subject))
       (Some (cl_id client)) resourceId
       [(''mode'', JStr (if xr_actorToken request = None then ''impersonation'' else ''delegation'')),
        (''scope'', JStr (join_scope scope)), (''requested_token_type'', JStr issuedTokenType)])"

text \<open>What the first half of the exchange settles.\<close>

record exchange_terms =
  xt_subject :: resolved_token
  xt_actor :: "resolved_token option"
  xt_act :: "act_claim option"
  xt_scope :: "string list"
  xt_audience :: "string list"

definition exchange_terms_of ::
  "deps \<Rightarrow> exchange_request \<Rightarrow> client \<Rightarrow> oidc_config \<Rightarrow> exchange_token_type \<Rightarrow> exchange_token_type
     \<Rightarrow> exchange_terms db" where
  "exchange_terms_of d request client config subjectType issuedType =
     tbind (tguard (\<not> (cl_type client = Public \<and> \<not> oc_allowedForPublic config))
       (TokenError unauthorizedClient)) (\<lambda>_.
     tbind (tguard (\<not> (xr_actorToken request = None \<and> \<not> oc_impersonationAllowed config))
       (TokenError unauthorizedClient)) (\<lambda>_.
     tbind (tget (resolveExchangeToken d (cl_clientId client) subjectType (xr_subjectToken request)))
       (\<lambda>resolved.
     tbind (tsome resolved (exchange_refused client ''invalid_grant'' None)) (\<lambda>subject.
     tbind (resolve_actor d request client subject) (\<lambda>actor.
     tbind (tsum (delegated_act request client config subject actor)) (\<lambda>delegated.
     tbind (tsome (attenuateScope (xr_scope request) (rv_scope subject)) (TokenError invalidScope))
       (\<lambda>scope.
     tbind (tsum (carried_act client subject scope delegated)) (\<lambda>act.
     tbind (tsum (exchange_audience d request config subjectType issuedType)) (\<lambda>audience.
     tret \<lparr>xt_subject = subject, xt_actor = actor, xt_act = act, xt_scope = scope,
           xt_audience = audience\<rparr>)))))))))"

definition exchanged_refresh_token ::
  "deps \<Rightarrow> exchange_request \<Rightarrow> client \<Rightarrow> token_lifetimes \<Rightarrow> exchange_terms \<Rightarrow> token_response db" where
  "exchanged_refresh_token d request client lifetimes t =
     (let subject = xt_subject t; scope = xt_scope t;
          refreshExpiresAt = capped (rv_expiresAt subject)
            (dp_now d + tl_refreshTokenTtlSeconds lifetimes * 1000)
      in tbind (tguard (refreshAllowedForScope scope) (TokenError invalidScope)) (\<lambda>_.
         tbind (create_grant (dp_dbNow d)
           (exchange_grant d client subject (xt_actor t) (xt_act t) scope (xt_audience t))) (\<lambda>_.
         tbind (recordExchange d request client subject scope (Some (dp_newGrantId d))
           REFRESH_TOKEN_TYPE) (\<lambda>_.
         tbind (create_refresh (dp_dbNow d) (hash_token d (dp_newRefresh d)) (dp_newGrantId d)
           refreshExpiresAt) (\<lambda>_.
         tret \<lparr>tr_access_token = dp_newRefresh d, tr_id_token = None, tr_refresh_token = None,
               tr_token_type = NotApplicable,
               tr_expires_in = (refreshExpiresAt - dp_now d) div 1000,
               tr_scope = join_scope scope,
               tr_issued_token_type = Some REFRESH_TOKEN_TYPE\<rparr>)))))"

definition exchanged_id_claims ::
  "deps \<Rightarrow> client \<Rightarrow> oidc_config \<Rightarrow> exchange_terms \<Rightarrow> int \<Rightarrow> int \<Rightarrow> store \<Rightarrow> obj" where
  "exchanged_id_claims d client config t iat exp s =
     (let subject = xt_subject t; scope = xt_scope t;
          mapped = mappedClaims (dp_assemble d)
            (idTokenScopeOf (scope_forClient (cl_id client) s) scope)
            (dp_claims d (rv_subjectId subject)) (reachableRoleIds scope s)
            (cl_fullScopeAllowed client);
          session = (case rv_sessionId subject of
              None \<Rightarrow> None
            | Some i \<Rightarrow> if oc_requireAuthTime config then session_byId i (st_sessions s) else None)
      in withRegisteredClaimsWinning mapped
           ([(''iss'', JStr (dp_issuer d)), (''sub'', JStr (rv_subjectId subject)),
             (''aud'', JStr (cl_clientId client)), (''iat'', JNum iat), (''exp'', JNum exp)]
            @ some_member ''auth_time''
                (map_option (\<lambda>r. JNum (epoch_seconds (ss_createdAt r))) session)
            @ some_member ''sid'' (map_option JStr (rv_sessionId subject))
            @ some_member ''act'' (map_option act_json (xt_act t))))"

definition exchanged_id_token ::
  "deps \<Rightarrow> exchange_request \<Rightarrow> client \<Rightarrow> oidc_config \<Rightarrow> token_lifetimes \<Rightarrow> exchange_terms
     \<Rightarrow> token_response db" where
  "exchanged_id_token d request client config lifetimes t =
     (let iat = epoch_seconds (dp_now d); ttlExp = iat + tl_idTokenTtlSeconds lifetimes;
          ceiling = (case rv_expiresAt (xt_subject t) of None \<Rightarrow> ttlExp | Some c \<Rightarrow> epoch_seconds c);
          exp = min ttlExp ceiling
      in tbind key_active (\<lambda>key.
         tbind (tget (exchanged_id_claims d client config t iat exp)) (\<lambda>claims.
         tbind (idTokenKey config key) (\<lambda>signer.
         tbind (recordExchange d request client (xt_subject t) (xt_scope t) None ID_TOKEN_TYPE) (\<lambda>_.
         tret \<lparr>tr_access_token = pf_sign (dp_platform d) signer None claims, tr_id_token = None,
               tr_refresh_token = None, tr_token_type = NotApplicable,
               tr_expires_in = exp - iat, tr_scope = join_scope (xt_scope t),
               tr_issued_token_type = Some ID_TOKEN_TYPE\<rparr>)))))"

definition exchange_mint_input ::
  "deps \<Rightarrow> client \<Rightarrow> token_lifetimes \<Rightarrow> exchange_terms \<Rightarrow> mint_input" where
  "exchange_mint_input d client lifetimes t =
     (let subject = xt_subject t
      in \<lparr>mi_subjectId = rv_subjectId subject, mi_clientId = cl_clientId client,
          mi_scope = xt_scope t, mi_accessTtl = tl_accessTokenTtlSeconds lifetimes,
          mi_audience = xt_audience t, mi_claimContext = dp_claims d (rv_subjectId subject),
          mi_reachableRoleIds = [], mi_fullScopeAllowed = cl_fullScopeAllowed client,
          mi_accessTokenScope = [], mi_sessionId = rv_sessionId subject,
          mi_grantId = dp_newGrantId d,
          mi_requestedUserinfoClaims = rv_requestedUserinfoClaims subject, mi_act = xt_act t,
          mi_endpointMinted = False, mi_expCeiling = rv_expiresAt subject\<rparr>)"

definition exchanged_access_token ::
  "deps \<Rightarrow> exchange_request \<Rightarrow> client \<Rightarrow> token_lifetimes \<Rightarrow> exchange_terms \<Rightarrow> token_response db" where
  "exchanged_access_token d request client lifetimes t =
     tbind (mintSubjectAccessToken d (exchange_mint_input d client lifetimes t) (dp_now d)) (\<lambda>m.
     tbind (create_grant (dp_dbNow d) (exchange_grant d client (xt_subject t) (xt_actor t) (xt_act t)
       (xt_scope t) (mt_audience m))) (\<lambda>_.
     tbind (recordExchange d request client (xt_subject t) (xt_scope t) (Some (dp_newGrantId d))
       ACCESS_TOKEN_TYPE) (\<lambda>_.
     tret \<lparr>tr_access_token = mt_accessToken m, tr_id_token = None, tr_refresh_token = None,
           tr_token_type = Bearer, tr_expires_in = mt_exp m - mt_iat m,
           tr_scope = join_scope (xt_scope t),
           tr_issued_token_type = Some ACCESS_TOKEN_TYPE\<rparr>)))"

definition issueExchangedTokens ::
  "deps \<Rightarrow> exchange_request \<Rightarrow> client \<Rightarrow> oidc_config \<Rightarrow> token_lifetimes \<Rightarrow> token_response db" where
  "issueExchangedTokens d request client config lifetimes =
     tbind (tsum (accepted_type client (xr_subjectTokenType request))) (\<lambda>subjectType.
     tbind (tsum (issued_type client request)) (\<lambda>issuedType.
     tbind (exchange_terms_of d request client config subjectType issuedType) (\<lambda>t.
     case issuedType of
       RefreshToken \<Rightarrow> exchanged_refresh_token d request client lifetimes t
     | IdToken \<Rightarrow> exchanged_id_token d request client config lifetimes t
     | AccessToken \<Rightarrow> exchanged_access_token d request client lifetimes t)))"

section \<open>Dispatch\<close>

definition GRANT_REFUSAL_ACTIONS :: "structured_request \<Rightarrow> string" where
  "GRANT_REFUSAL_ACTIONS request =
     (case request of
        CodeRequest _ \<Rightarrow> ''token.issue''
      | ClientCredentialsRequest _ \<Rightarrow> ''token.issue''
      | RefreshRequest _ \<Rightarrow> ''token.refresh''
      | ExchangeRequest _ \<Rightarrow> ''token.exchange'')"

definition REFUSAL_REASONS :: "token_error_code \<Rightarrow> string option" where
  "REFUSAL_REASONS code =
     (case code of
        InvalidGrant \<Rightarrow> Some ''invalid_grant''
      | InvalidScope \<Rightarrow> Some ''invalid_scope''
      | InvalidTarget \<Rightarrow> Some ''invalid_target''
      | UnauthorizedClient \<Rightarrow> Some ''unauthorized_client''
      | _ \<Rightarrow> None)"

definition annotatedAfterAuthentication ::
  "token_error \<Rightarrow> structured_request \<Rightarrow> client \<Rightarrow> token_error" where
  "annotatedAfterAuthentication err request client =
     (case REFUSAL_REASONS (te_error err) of
        None \<Rightarrow> err
      | Some reason \<Rightarrow>
          withAudit err (refusal_audit_of (GRANT_REFUSAL_ACTIONS request) reason (cl_id client)
            None None))"

definition issueForAuthenticatedClient ::
  "deps \<Rightarrow> structured_request \<Rightarrow> client \<Rightarrow> oidc_config \<Rightarrow> token_response req" where
  "issueForAuthenticatedClient d request client config =
     (if grantType request \<notin> set (oc_grantTypes config) then tfail (TokenError unauthorizedClient)
      else
        tbind (on_work (tget (\<lambda>s. effectiveLifetimes (oc_lifetimes config) (st_lifetimes s)))) (\<lambda>lifetimes.
        case request of
          CodeRequest r \<Rightarrow> issueAuthorizationCodeTokens d r client config lifetimes
        | RefreshRequest r \<Rightarrow> issueRefreshTokens d r client config lifetimes
        | ClientCredentialsRequest r \<Rightarrow>
            on_work (issueClientCredentialsTokens d r client config lifetimes)
        | ExchangeRequest r \<Rightarrow> on_work (issueExchangedTokens d r client config lifetimes)))"

text \<open>The \<open>catch\<close> of \<open>issueTokens\<close> around it.\<close>

definition issue_annotated ::
  "deps \<Rightarrow> structured_request \<Rightarrow> client \<Rightarrow> oidc_config \<Rightarrow> token_response req" where
  "issue_annotated d request client config cw =
     (case issueForAuthenticatedClient d request client config cw of
        (Inl (TokenError err), cw') \<Rightarrow>
          (Inl (TokenError (if te_audit err = None
             then annotatedAfterAuthentication err request client else err)), cw')
      | r \<Rightarrow> r)"

end
