(* ===== verification/Issuance_Facts.thy ===== *)
theory Issuance_Facts
  imports Issuance
begin

text \<open>
  What each grant of the token endpoint leaves in the store and puts in its answer: one lemma
  per grant, on the whole of its transaction.
\<close>

section \<open>Steps that only read\<close>

lemma reads: "keeps (\<lambda>x. x = s) m \<Longrightarrow> m s = (r, s') \<Longrightarrow> s' = s"
  by (drule keepsD) auto

lemma keeps_evaluatePresented: "keeps I (evaluatePresentedRefreshToken d request client h)"
  unfolding evaluatePresentedRefreshToken_def by (intro keeps_intros)

lemma keeps_issue_for_rotated: "keeps I (issue_for_rotated d request client lt policy grant next)"
  unfolding issue_for_rotated_def by (intro keeps_intros)

lemma keeps_resolve_actor: "keeps I (resolve_actor d request client subject)"
  unfolding resolve_actor_def by (intro keeps_intros)

lemma keeps_exchange_terms: "keeps I (exchange_terms_of d request client config st it)"
  unfolding exchange_terms_of_def by (intro keeps_intros keeps_resolve_actor)

section \<open>Code\<close>

text \<open>A transaction of the code grant that returns: the row redeemed, and the issue from it.\<close>

lemma code_request_Inr:
  assumes "in_request (issueAuthorizationCodeTokens d request client config lt) s = (Inr resp, s')"
  shows "\<exists>row. redeemable d request client s row
    \<and> issue_for_code d request client config lt (row\<lparr>ac_consumedAt := Some (dp_dbNow d)\<rparr>)
        (s\<lparr>st_codes := snd (consume_code (dp_dbNow d) (hash_token d (cr_code request)) (st_codes s))\<rparr>)
      = (Inr resp, s')"
proof -
  from assms obtain c code cw where
    r: "redeemAuthorizationCode d request client (s, s) = (Inr code, cw)"
    and i: "issue_for_code d request client config lt code (snd cw) = (Inr resp, s')"
    by (auto simp: issueAuthorizationCodeTokens_def tx_simps)
  from redeem_Inr [OF r] i show ?thesis by auto
qed

lemma code_request_Inl:
  assumes "in_request (issueAuthorizationCodeTokens d request client config lt) s = (Inl e, s')"
  shows "s' = s \<or> (\<exists>i rows. replay_of d request s = Some i
    \<and> s' = s\<lparr>st_grants := snd (revoke i (dp_now d) (st_grants s)), st_audit := rows\<rparr>)"
proof -
  from assms obtain w where run: "issueAuthorizationCodeTokens d request client config lt (s, s) = (Inl e, (s', w))"
    by (auto simp: in_request_Inl)
  show ?thesis
  proof -
    obtain r cw where Pair: "redeemAuthorizationCode d request client (s, s) = (r, cw)"
      using prod.exhaust by blast
    show ?thesis
    proof (cases r)
      case (Inl e')
      with Pair run have "redeemAuthorizationCode d request client (s, s) = (Inl e', (s', w))"
        by (auto simp: issueAuthorizationCodeTokens_def tbind_def)
      from redeem_Inl [OF this] show ?thesis by (cases "replay_of d request s") auto
    next
      case (Inr code)
      with Pair have "redeemAuthorizationCode d request client (s, s) = (Inr code, cw)" by simp
      from redeem_Inr [OF this] have "fst cw = s" by auto
      with Pair Inr run show ?thesis
        by (auto simp: issueAuthorizationCodeTokens_def tbind_def on_work_def split: prod.splits)
    qed
  qed
qed

section \<open>Refresh\<close>

lemma decide_refresh_Inr:
  "decide_refresh g client subject requested = Inr scope \<Longrightarrow>
     evaluateRefreshGrant g client subject requested = Inr scope"
  by (auto simp: decide_refresh_def split: sum.splits)

lemma refreshCeiling_Inr:
  assumes "refreshCeiling d client scope audience policy = Inr held"
  shows "set (fst held) \<subseteq> set scope
    \<and> set (snd held) \<subseteq> set audience \<union> {mcpAudienceOfIssuer (dp_issuer d)}
    \<and> (holdsMcpScope scope \<and> ADMIN_API_AUDIENCE \<in> set (snd held) \<longrightarrow> holdsMcpScope (fst held))"
proof -
  let ?r = "refreshUnderPolicy (pf_URL (dp_platform d)) (cl_registrationOrigin client) policy
            (mcpAudienceOfIssuer (dp_issuer d)) scope audience"
  from assms have held: "held = ?r" and mcp: "\<not> (holdsMcpScope scope \<and> \<not> holdsMcpScope (fst held)
      \<and> ADMIN_API_AUDIENCE \<in> set (snd held))"
    by (auto simp: refreshCeiling_def Let_def split: if_splits)
  have "set (fst ?r) \<subseteq> set scope" using refreshUnderPolicy_scope_subset by (cases ?r) auto
  moreover have "snd ?r = audiencesHeld (pf_URL (dp_platform d)) (cl_registrationOrigin client) policy
      audience (mcpAudienceOfIssuer (dp_issuer d))"
    by (simp add: refreshUnderPolicy_def Let_def)
  ultimately show ?thesis using held mcp audiencesHeld_subset by metis
qed

lemma refresh_request_store:
  assumes "in_request (issueRefreshTokens d request client config lt) s = (r, s')"
  shows "s' = s \<or> (\<exists>out scope. rotateRefreshToken d (hash_token d (rq_refreshToken request))
    (tl_refreshTokenTtlSeconds lt) scope s = (Inr out, s'))"
proof -
  let ?h = "hash_token d (rq_refreshToken request)"
  obtain p s1 where ev: "evaluatePresentedRefreshToken d request client ?h s = (p, s1)"
    by (cases "evaluatePresentedRefreshToken d request client ?h s")
  have s1: "s1 = s" using reads [OF keeps_evaluatePresented ev] .
  show ?thesis
  proof (cases p)
    case (Inl e)
    with assms ev s1 show ?thesis
      by (auto simp: issueRefreshTokens_def Let_def in_request_def tbind_def on_work_def)
  next
    case (Inr sp)
    obtain scope policy where sp: "sp = (scope, policy)" by (cases sp)
    obtain out c where rot: "rotateRefreshToken d ?h (tl_refreshTokenTtlSeconds lt) scope s = (out, c)"
      by (cases "rotateRefreshToken d ?h (tl_refreshTokenTtlSeconds lt) scope s")
    show ?thesis
    proof (cases out)
      case (Inl e)
      with assms ev s1 Inr sp rot show ?thesis
        by (auto simp: issueRefreshTokens_def Let_def in_request_def tbind_def on_work_def
            independently_def atomically_def)
    next
      case o: (Inr outcome)
      have "s' = c"
      proof (cases outcome)
        case (Rotated g n)
        obtain x c' where i: "issue_for_rotated d request client lt policy g n c = (x, c')"
          by (cases "issue_for_rotated d request client lt policy g n c")
        have "c' = c" using reads [OF keeps_issue_for_rotated i] .
        with assms ev s1 Inr sp rot o i Rotated show ?thesis
          by (auto simp: issueRefreshTokens_def Let_def in_request_def tbind_def on_work_def
              independently_def atomically_def split: sum.splits)
      qed (use assms ev s1 Inr sp rot o in
          \<open>auto simp: issueRefreshTokens_def Let_def in_request_def tbind_def on_work_def
              independently_def atomically_def tfail_def\<close>)
      with rot o show ?thesis by auto
    qed
  qed
qed

lemma refresh_request_Inr:
  assumes "in_request (issueRefreshTokens d request client config lt) s = (Inr resp, s')"
  shows "\<exists>g scope policy subject decided held resolved key m.
      rotateRefreshToken d (hash_token d (rq_refreshToken request)) (tl_refreshTokenTtlSeconds lt)
        scope s = (Inr (Rotated g (dp_newRefresh d)), s')
    \<and> subject_byId (tg_subjectId g) (st_subjects s') = Some subject
    \<and> evaluateRefreshGrant g client subject (rq_scope request) = Inr decided
    \<and> refreshCeiling d client decided (tg_audience g) policy = Inr held
    \<and> resolveAudience d (snd held) (rq_resource request) = Inr resolved
    \<and> mintAccessToken d (refresh_mint_input d g client lt (fst held) resolved s') key (dp_now d) = Inr m
    \<and> tr_access_token resp = mt_accessToken m \<and> tr_refresh_token resp = Some (dp_newRefresh d)
    \<and> tr_expires_in resp = mt_exp m - mt_iat m \<and> tr_scope resp = join_scope (fst held)"
proof -
  let ?h = "hash_token d (rq_refreshToken request)"
  from assms obtain c where run: "issueRefreshTokens d request client config lt (s, s) = (Inr resp, (c, s'))"
    by (auto simp: in_request_Inr)
  from run obtain scope policy cw1 outcome cw2 where
    ev: "on_work (evaluatePresentedRefreshToken d request client ?h) (s, s) = (Inr (scope, policy), cw1)"
    and rot: "independently (rotateRefreshToken d ?h (tl_refreshTokenTtlSeconds lt) scope) cw1
      = (Inr outcome, cw2)"
    and fin: "(case outcome of
        Reused family sub \<Rightarrow>
          tfail (TokenError (withAudit invalidGrant
            (refusal_audit_of ''token.refresh'' ''replayed'' (cl_id client) sub (Some family))))
      | Rotated grant next \<Rightarrow>
          on_work (issue_for_rotated d request client lt policy grant next)
      | _ \<Rightarrow> tfail (TokenError invalidGrant)) cw2 = (Inr resp, (c, s'))"
    by (auto simp: issueRefreshTokens_def Let_def tbind_Inr)
  have "snd cw1 = s" "fst cw1 = s"
    using ev reads [OF keeps_evaluatePresented, of d request client ?h s] by (auto simp: on_work_run)
  with rot obtain c2 where c2: "rotateRefreshToken d ?h (tl_refreshTokenTtlSeconds lt) scope s = (Inr outcome, c2)"
    "cw2 = (c2, c2)" by (auto simp: independently_run tx_simps)
  from fin obtain g n where o: "outcome = Rotated g n"
    by (cases outcome) (auto simp: tx_simps)
  with fin c2 have i: "issue_for_rotated d request client lt policy g n c2 = (Inr resp, s')"
    by (auto simp: on_work_run)
  have s': "s' = c2" using reads [OF keeps_issue_for_rotated i] .
  have n: "n = dp_newRefresh d" using rotate_Rotated [OF c2(1) [unfolded o]] by simp
  from i [unfolded s'] obtain subject decided held resolved key m where
    "subject_byId (tg_subjectId g) (st_subjects c2) = Some subject"
    "decide_refresh g client subject (rq_scope request) = Inr decided"
    "refreshCeiling d client decided (tg_audience g) policy = Inr held"
    "resolveAudience d (snd held) (rq_resource request) = Inr resolved"
    "mintAccessToken d (refresh_mint_input d g client lt (fst held) resolved c2) key (dp_now d) = Inr m"
    "resp = \<lparr>tr_access_token = mt_accessToken m, tr_id_token = None, tr_refresh_token = Some n,
           tr_token_type = Bearer, tr_expires_in = mt_exp m - mt_iat m,
           tr_scope = join_scope (fst held), tr_issued_token_type = None\<rparr>"
    by (auto simp: issue_for_rotated_def tx_simps dest!: key_active_Inr)
  with c2 o n s' show ?thesis
    by (intro exI [of _ g] exI [of _ scope] exI [of _ policy] exI [of _ subject] exI [of _ decided]
        exI [of _ held] exI [of _ resolved] exI [of _ key] exI [of _ m])
       (auto dest: decide_refresh_Inr)
qed

section \<open>Client credentials and exchange\<close>

text \<open>A grant that runs in the request's own transaction commits all of it or nothing.\<close>

lemma on_work_request: "in_request (on_work m) s = atomically m s"
  by (auto simp: in_request_def on_work_def atomically_def split: prod.splits sum.splits)

lemma create_grant_or_unauthorized_Inr:
  "create_grant_or_unauthorized d input s = (Inr g, s') \<Longrightarrow>
     create_grant (dp_dbNow d) input s = (Inr g, s')"
  by (auto simp: create_grant_or_unauthorized_def split: prod.splits sum.splits exn.splits)

lemma client_credentials_Inr:
  assumes "issueClientCredentialsTokens d request client config lt s = (Inr resp, s')"
  shows "\<exists>scope subjectId resolved key m g audit.
      evaluateClientCredentialsGrant client (oc_clientCredentialsScopes config) (cc_scope request)
        = Inr scope
    \<and> cl_serviceSubjectId client = Some subjectId
    \<and> resolveAudience d (oc_audiences config) (cc_resource request) = Inr resolved
    \<and> mintAccessToken d (cc_mint_input d client subjectId lt scope resolved s) key (dp_now d) = Inr m
    \<and> g = grant_row (dp_dbNow d) (st_grants s) (cc_grant d client subjectId scope (mt_audience m))
    \<and> \<not> has_grant s (dp_newGrantId d)
    \<and> s' = s\<lparr>st_grants := st_grants s @ [g], st_audit := audit\<rparr>
    \<and> resp = \<lparr>tr_access_token = mt_accessToken m, tr_id_token = None, tr_refresh_token = None,
           tr_token_type = Bearer, tr_expires_in = mt_exp m - mt_iat m,
           tr_scope = join_scope scope, tr_issued_token_type = None\<rparr>"
proof -
  from assms obtain scope subjectId resolved key m grant s2 u where
    sc: "cc_scope_or_refusal client config request = Inr scope"
    and sub: "cl_serviceSubjectId client = Some subjectId"
    and r: "resolveAudience d (oc_audiences config) (cc_resource request) = Inr resolved"
    and m: "mintAccessToken d (cc_mint_input d client subjectId lt scope resolved s) key (dp_now d) = Inr m"
    and cg: "create_grant_or_unauthorized d (cc_grant d client subjectId scope (mt_audience m)) s
      = (Inr grant, s2)"
    and au: "audit_record d (token_event ''token.issue'' None (Some (cl_id client))
       (Some (dp_newGrantId d))
       [(''grant_type'', JStr ''client_credentials''), (''scope'', JStr (join_scope scope))]) s2 = (Inr u, s')"
    and resp: "resp = \<lparr>tr_access_token = mt_accessToken m, tr_id_token = None, tr_refresh_token = None,
           tr_token_type = Bearer, tr_expires_in = mt_exp m - mt_iat m,
           tr_scope = join_scope scope, tr_issued_token_type = None\<rparr>"
    by (auto simp: issueClientCredentialsTokens_def tx_simps dest!: key_active_Inr)
  have "evaluateClientCredentialsGrant client (oc_clientCredentialsScopes config) (cc_scope request) = Inr scope"
    using sc by (auto simp: cc_scope_or_refusal_def split: sum.splits cc_refusal.splits)
  moreover note g = create_grant_Inr [OF create_grant_or_unauthorized_Inr [OF cg]]
  moreover have "ng_id (cc_grant d client subjectId scope (mt_audience m)) = dp_newGrantId d"
    by (simp add: cc_grant_def)
  moreover from audit_record_rest [OF au] obtain rows where "s' = s2\<lparr>st_audit := rows\<rparr>" by auto
  ultimately show ?thesis using sub r m resp by metis
qed

lemma client_credentials_request:
  assumes "in_request (on_work (issueClientCredentialsTokens d request client config lt)) s = (r, s')"
  shows "s' = s \<or> (\<exists>g audit. \<not> has_grant s (tg_id g) \<and> tg_revokedAt g = None
    \<and> s' = s\<lparr>st_grants := st_grants s @ [g], st_audit := audit\<rparr>)"
proof (cases r)
  case (Inl e)
  with assms show ?thesis by (auto simp: on_work_request atomically_Inl)
next
  case (Inr resp)
  with assms have "issueClientCredentialsTokens d request client config lt s = (Inr resp, s')"
    by (simp add: on_work_request atomically_Inr)
  from client_credentials_Inr [OF this] obtain g audit scope subjectId and m :: minted where
    g: "g = grant_row (dp_dbNow d) (st_grants s) (cc_grant d client subjectId scope (mt_audience m))"
    "\<not> has_grant s (dp_newGrantId d)"
    "s' = s\<lparr>st_grants := st_grants s @ [g], st_audit := audit\<rparr>"
    by metis
  have "tg_id g = dp_newGrantId d" "tg_revokedAt g = None"
    unfolding g(1) by (simp_all add: grant_row_def cc_grant_def)
  with g(2,3) show ?thesis by (intro disjI2 exI [of _ g] exI [of _ audit]) (simp only: simp_thms)
qed

text \<open>The terms an exchange settles before it issues anything.\<close>

lemma exchange_terms_Inr:
  assumes "exchange_terms_of d request client config st it s = (Inr t, s')"
  shows "s' = s
    \<and> resolveExchangeToken d (cl_clientId client) st (xr_subjectToken request) s = Some (xt_subject t)
    \<and> attenuateScope (xr_scope request) (rv_scope (xt_subject t)) = Some (xt_scope t)
    \<and> exchange_audience d request config st it = Inr (xt_audience t)
    \<and> (\<exists>delegated. delegated_act request client config (xt_subject t) (xt_actor t) = Inr delegated
         \<and> carried_act client (xt_subject t) (xt_scope t) delegated = Inr (xt_act t))
    \<and> (cl_type client = Public \<longrightarrow> oc_allowedForPublic config)
    \<and> (xr_actorToken request = None \<longrightarrow> oc_impersonationAllowed config)"
proof -
  have s': "s' = s" by (rule reads [OF keeps_exchange_terms assms])
  from assms obtain subject actor delegated scope act audience s1 where
    t: "resolveExchangeToken d (cl_clientId client) st (xr_subjectToken request) s = Some subject"
    "resolve_actor d request client subject s = (Inr actor, s1)"
    "delegated_act request client config subject actor = Inr delegated"
    "attenuateScope (xr_scope request) (rv_scope subject) = Some scope"
    "carried_act client subject scope delegated = Inr act"
    "exchange_audience d request config st it = Inr audience"
    "t = \<lparr>xt_subject = subject, xt_actor = actor, xt_act = act, xt_scope = scope, xt_audience = audience\<rparr>"
    "\<not> (cl_type client = Public \<and> \<not> oc_allowedForPublic config)"
    "\<not> (xr_actorToken request = None \<and> \<not> oc_impersonationAllowed config)"
    by (auto simp: exchange_terms_of_def tx_simps)
  from t(7) have x: "xt_subject t = subject" "xt_actor t = actor" "xt_act t = act" "xt_scope t = scope"
    "xt_audience t = audience" by simp_all
  show ?thesis unfolding x using t s' by blast
qed

text \<open>An MCP scope is never shed, and a token that carries one names an actor.\<close>

lemma carried_act_Inr:
  assumes "carried_act client subject scope delegated = Inr act"
  shows "(holdsMcpScope (rv_scope subject) \<longrightarrow> holdsMcpScope scope \<and> act \<noteq> None)
    \<and> (rv_act subject \<noteq> None \<longrightarrow> act \<noteq> None) \<and> (delegated \<noteq> None \<longrightarrow> act = delegated)"
proof -
  have or_else: "js_or_else a (Some x) \<noteq> None" "a \<noteq> None \<Longrightarrow> js_or_else a (Some x) = a" for a and x :: act_claim
    by (cases a; simp)+
  define act0 where "act0 = (if delegated = None \<and> rv_act subject \<noteq> None then
       (case narrowActClaim (rv_act subject) of
          None \<Rightarrow> Inl (exchange_refused client ''invalid_grant'' (Some (rv_subjectId subject)))
        | Some carried \<Rightarrow> Inr (Some carried))
     else Inr delegated)"
  obtain a where a: "act0 = Inr a" and act: "(if holdsMcpScope (rv_scope subject) then
       (if \<not> holdsMcpScope scope then Inl (TokenError invalidScope)
        else Inr (js_or_else a (Some (Act (cl_clientId client) None)))) else Inr a) = Inr act"
    using assms unfolding carried_act_def Let_def act0_def [symmetric] by (cases act0) simp_all
  have "(rv_act subject \<noteq> None \<longrightarrow> a \<noteq> None) \<and> (delegated \<noteq> None \<longrightarrow> a = delegated)"
    using a unfolding act0_def option.case_eq_if by (auto split: if_splits)
  then show ?thesis using act or_else by (auto split: if_splits)
qed

lemma exchange_audience_Inr:
  assumes "exchange_audience d request config st it = Inr audience"
  shows "set audience \<subseteq> set (oc_audiences config)
    \<and> (st = IdToken \<longrightarrow> ADMIN_API_AUDIENCE \<notin> set audience)"
  using assms
  by (auto simp: exchange_audience_def dest: exchange_audience_subset split: resource_outcome.splits if_splits)

lemma delegated_act_depth:
  assumes "delegated_act request client config subject actor = Inr (Some act)"
  shows "act_depth act \<le> MAX_DELEGATION_DEPTH"
  using assms
  by (auto simp: delegated_act_def Let_def buildActChain_def MAX_DELEGATION_DEPTH_def
      dest: narrowAct_bound split: option.splits narrow_outcome.splits if_splits)

text \<open>What an exchange stores: a new grant below the subject's, with a refresh token or none.\<close>

lemma exchanged_refresh_Inr:
  assumes "exchanged_refresh_token d request client lt t s = (Inr resp, s')"
  shows "\<exists>g audit. g = grant_row (dp_dbNow d) (st_grants s)
        (exchange_grant d client (xt_subject t) (xt_actor t) (xt_act t) (xt_scope t) (xt_audience t))
    \<and> \<not> has_grant s (dp_newGrantId d) \<and> refreshAllowedForScope (xt_scope t)
    \<and> hash_token d (dp_newRefresh d) \<notin> rt_tokenHash ` set (st_refresh s)
    \<and> s' = s\<lparr>st_grants := st_grants s @ [g], st_audit := audit,
         st_refresh := st_refresh s @ [fresh_refresh d (dp_newGrantId d)
           (capped (rv_expiresAt (xt_subject t)) (dp_now d + tl_refreshTokenTtlSeconds lt * 1000))]\<rparr>
    \<and> tr_access_token resp = dp_newRefresh d \<and> tr_scope resp = join_scope (xt_scope t)"
proof -
  from assms obtain grant s2 s3 u u' where
    w: "refreshAllowedForScope (xt_scope t)"
    and cg: "create_grant (dp_dbNow d) (exchange_grant d client (xt_subject t) (xt_actor t)
      (xt_act t) (xt_scope t) (xt_audience t)) s = (Inr grant, s2)"
    and au: "recordExchange d request client (xt_subject t) (xt_scope t) (Some (dp_newGrantId d))
      REFRESH_TOKEN_TYPE s2 = (Inr u, s3)"
    and cr: "create_refresh (dp_dbNow d) (hash_token d (dp_newRefresh d)) (dp_newGrantId d)
      (capped (rv_expiresAt (xt_subject t)) (dp_now d + tl_refreshTokenTtlSeconds lt * 1000)) s3
      = (Inr u', s')"
    and resp: "tr_access_token resp = dp_newRefresh d" "tr_scope resp = join_scope (xt_scope t)"
    by (auto simp: exchanged_refresh_token_def Let_def tx_simps)
  note g = create_grant_Inr [OF cg]
  have id: "ng_id (exchange_grant d client (xt_subject t) (xt_actor t) (xt_act t) (xt_scope t)
      (xt_audience t)) = dp_newGrantId d" by (simp add: exchange_grant_def)
  from audit_record_rest [OF au [unfolded recordExchange_def]] obtain rows where
    s3: "s3 = s2\<lparr>st_audit := rows\<rparr>" by auto
  have s2: "s2 = s\<lparr>st_grants := st_grants s @ [grant]\<rparr>" using g by simp
  note r = create_refresh_Inr [OF cr [unfolded s3 s2]]
  have "s' = s\<lparr>st_grants := st_grants s @ [grant], st_audit := rows,
         st_refresh := st_refresh s @ [fresh_refresh d (dp_newGrantId d)
           (capped (rv_expiresAt (xt_subject t)) (dp_now d + tl_refreshTokenTtlSeconds lt * 1000))]\<rparr>"
    using r by (simp add: fresh_refresh_def)
  with g id w r resp show ?thesis by (intro exI [of _ grant] exI [of _ rows]) auto
qed

lemma exchanged_access_Inr:
  assumes "exchanged_access_token d request client lt t s = (Inr resp, s')"
  shows "\<exists>g audit key m. mintAccessToken d (complete_input d (exchange_mint_input d client lt t) s)
        key (dp_now d) = Inr m
    \<and> g = grant_row (dp_dbNow d) (st_grants s)
        (exchange_grant d client (xt_subject t) (xt_actor t) (xt_act t) (xt_scope t) (mt_audience m))
    \<and> \<not> has_grant s (dp_newGrantId d)
    \<and> s' = s\<lparr>st_grants := st_grants s @ [g], st_audit := audit\<rparr>
    \<and> tr_access_token resp = mt_accessToken m \<and> tr_expires_in resp = mt_exp m - mt_iat m
    \<and> tr_scope resp = join_scope (xt_scope t)"
proof -
  from assms obtain m s1 grant s2 u where
    mi: "mintSubjectAccessToken d (exchange_mint_input d client lt t) (dp_now d) s = (Inr m, s1)"
    and cg: "create_grant (dp_dbNow d) (exchange_grant d client (xt_subject t) (xt_actor t)
      (xt_act t) (xt_scope t) (mt_audience m)) s1 = (Inr grant, s2)"
    and au: "recordExchange d request client (xt_subject t) (xt_scope t) (Some (dp_newGrantId d))
      ACCESS_TOKEN_TYPE s2 = (Inr u, s')"
    and resp: "tr_access_token resp = mt_accessToken m" "tr_expires_in resp = mt_exp m - mt_iat m"
      "tr_scope resp = join_scope (xt_scope t)"
    by (auto simp: exchanged_access_token_def tx_simps)
  from mintSubjectAccessToken_Inr [OF mi] obtain key where s1: "s1 = s"
    and k: "mintAccessToken d (complete_input d (exchange_mint_input d client lt t) s) key (dp_now d) = Inr m"
    by auto
  note g = create_grant_Inr [OF cg [unfolded s1]]
  have id: "ng_id (exchange_grant d client (xt_subject t) (xt_actor t) (xt_act t) (xt_scope t)
      (mt_audience m)) = dp_newGrantId d" by (simp add: exchange_grant_def)
  from audit_record_rest [OF au [unfolded recordExchange_def]] obtain rows where
    s3: "s' = s2\<lparr>st_audit := rows\<rparr>" by auto
  have s2: "s2 = s\<lparr>st_grants := st_grants s @ [grant]\<rparr>" using g by simp
  show ?thesis using g id k resp s3 s2
    by (intro exI [of _ grant] exI [of _ rows] exI [of _ key] exI [of _ m]) auto
qed

lemma exchanged_id_Inr:
  assumes "exchanged_id_token d request client config lt t s = (Inr resp, s')"
  shows "\<exists>audit. s' = s\<lparr>st_audit := audit\<rparr>"
proof -
  from assms obtain key claims signer s1 s2 u where
    "key_active s = (Inr key, s1)" "idTokenKey config key s1 = (Inr signer, s2)"
    "recordExchange d request client (xt_subject t) (xt_scope t) None ID_TOKEN_TYPE s2 = (Inr u, s')"
    by (auto simp: exchanged_id_token_def Let_def tx_simps)
  then show ?thesis
    using idTokenKey_state key_active_state unfolding recordExchange_def
    by (metis audit_record_rest)
qed

lemma exchange_Inr:
  assumes "issueExchangedTokens d request client config lt s = (Inr resp, s')"
  shows "\<exists>st it t. accepted_type client (xr_subjectTokenType request) = Inr st
    \<and> issued_type client request = Inr it
    \<and> exchange_terms_of d request client config st it s = (Inr t, s)
    \<and> (case it of
         RefreshToken \<Rightarrow> exchanged_refresh_token d request client lt t s = (Inr resp, s')
       | IdToken \<Rightarrow> exchanged_id_token d request client config lt t s = (Inr resp, s')
       | AccessToken \<Rightarrow> exchanged_access_token d request client lt t s = (Inr resp, s'))"
proof -
  from assms obtain st it t s1 where
    a: "accepted_type client (xr_subjectTokenType request) = Inr st"
    "issued_type client request = Inr it"
    and e: "exchange_terms_of d request client config st it s = (Inr t, s1)"
    and b: "(case it of
         RefreshToken \<Rightarrow> exchanged_refresh_token d request client lt t
       | IdToken \<Rightarrow> exchanged_id_token d request client config lt t
       | AccessToken \<Rightarrow> exchanged_access_token d request client lt t) s1 = (Inr resp, s')"
    by (auto simp: issueExchangedTokens_def tx_simps)
  have "s1 = s" by (rule reads [OF keeps_exchange_terms e])
  with a e b show ?thesis
    by (intro exI [of _ st] exI [of _ it] exI [of _ t]) (cases it; simp)
qed

end
