(* ===== verification/Families.thy ===== *)
theory Families
  imports Issuance_Facts
begin

text \<open>
  The invariant of a tenant's grants and refresh tokens: every token belongs to a grant, does
  not outlive the grant's ceiling, belongs to no grant that may write to the administration
  API, and a grant has at most one token not yet used. One lemma per change the token endpoint
  makes to the two tables.
\<close>

definition unused_of :: "string \<Rightarrow> refresh_token list \<Rightarrow> refresh_token list" where
  "unused_of i ts = filter (\<lambda>t. rt_grantId t = i \<and> rt_usedAt t = None) ts"

definition token_fits :: "token_grant \<Rightarrow> refresh_token \<Rightarrow> bool" where
  "token_fits g t \<longleftrightarrow> tg_id g = rt_grantId t
     \<and> (\<forall>c. tg_expCeiling g = Some c \<longrightarrow> rt_expiresAt t \<le> c)
     \<and> MCP_WRITE_SCOPE \<notin> set (tokens (tg_scope g))"

definition family_ok :: "token_grant list \<Rightarrow> refresh_token list \<Rightarrow> bool" where
  "family_ok gs ts \<longleftrightarrow> distinct (map tg_id gs) \<and> distinct (map rt_tokenHash ts)
     \<and> (\<forall>t \<in> set ts. \<exists>g \<in> set gs. token_fits g t)
     \<and> (\<forall>i. length (unused_of i ts) \<le> 1)"

lemma family_ok_Nil: "family_ok [] []"
  by (simp add: family_ok_def unused_of_def)

text \<open>A change of a grant that keeps what a token depends on.\<close>

definition same_terms :: "(token_grant \<Rightarrow> token_grant) \<Rightarrow> bool" where
  "same_terms f \<longleftrightarrow> (\<forall>g. tg_id (f g) = tg_id g \<and> tg_expCeiling (f g) = tg_expCeiling g
     \<and> tg_scope (f g) = tg_scope g)"

lemma family_ok_map:
  assumes "family_ok gs ts" "same_terms f"
  shows "family_ok (map f gs) ts"
proof -
  have "map tg_id (map f gs) = map tg_id gs" using assms(2) by (simp add: same_terms_def)
  moreover have "token_fits g t \<Longrightarrow> token_fits (f g) t" for g t
    using assms(2) by (simp add: token_fits_def same_terms_def)
  ultimately show ?thesis using assms(1) unfolding family_ok_def by (metis imageI list.set_map)
qed

lemma same_terms_stamp: "same_terms (stamp p t)"
  by (simp add: same_terms_def stamp_def)

lemma family_ok_revoke: "family_ok gs ts \<Longrightarrow> family_ok (snd (revoke i t gs)) ts"
  by (simp add: revoke_rows family_ok_map same_terms_stamp)

lemma family_ok_update_where:
  assumes "family_ok gs ts" "same_terms f"
  shows "family_ok (update_where p f gs) ts"
  unfolding update_where_def
  by (rule family_ok_map [OF assms(1)]) (use assms(2) in \<open>simp add: same_terms_def\<close>)

lemma family_ok_new_grant:
  "family_ok gs ts \<Longrightarrow> tg_id g \<notin> tg_id ` set gs \<Longrightarrow> family_ok (gs @ [g]) ts"
  by (auto simp: family_ok_def)

lemma family_ok_no_tokens: "family_ok gs ts \<Longrightarrow> i \<notin> tg_id ` set gs \<Longrightarrow> unused_of i ts = []"
  by (force simp: family_ok_def unused_of_def filter_empty_conv token_fits_def)

lemma family_ok_new_token:
  assumes f: "family_ok gs ts" and g: "g \<in> set gs" "token_fits g t"
    and h: "rt_tokenHash t \<notin> rt_tokenHash ` set ts" and none: "unused_of (rt_grantId t) ts = []"
  shows "family_ok gs (ts @ [t])"
proof -
  have "length (unused_of i (ts @ [t])) \<le> 1" for i
    using f none by (cases "i = rt_grantId t") (auto simp: unused_of_def family_ok_def)
  with f g h show ?thesis by (auto simp: family_ok_def)
qed

text \<open>The first token of a new grant.\<close>

lemma family_ok_first_token:
  assumes f: "family_ok gs ts" and g: "tg_id g \<notin> tg_id ` set gs" "token_fits g t"
    and h: "rt_tokenHash t \<notin> rt_tokenHash ` set ts"
  shows "family_ok (gs @ [g]) (ts @ [t])"
proof (rule family_ok_new_token)
  show "family_ok (gs @ [g]) ts" using f g(1) by (rule family_ok_new_grant)
  show "unused_of (rt_grantId t) ts = []"
    using family_ok_no_tokens [OF f g(1)] g(2) by (simp add: token_fits_def)
qed (use g h in auto)

lemma unused_of_update:
  assumes "\<And>t. rt_grantId (f t) = rt_grantId t" "\<And>t. rt_usedAt t \<noteq> None \<Longrightarrow> rt_usedAt (f t) \<noteq> None"
  shows "length (unused_of i (update_where p f ts)) \<le> length (unused_of i ts)"
proof -
  have used: "rt_usedAt (f t) = None \<Longrightarrow> rt_usedAt t = None" for t using assms(2) by blast
  show ?thesis
    using assms(1) by (induction ts) (auto simp: unused_of_def update_where_def dest: used)
qed

lemma family_ok_update_tokens:
  assumes f: "family_ok gs ts"
    and k: "\<And>t. rt_grantId (f t) = rt_grantId t" "\<And>t. rt_usedAt t \<noteq> None \<Longrightarrow> rt_usedAt (f t) \<noteq> None"
      "\<And>t. rt_tokenHash (f t) = rt_tokenHash t" "\<And>t. rt_expiresAt (f t) = rt_expiresAt t"
  shows "family_ok gs (update_where p f ts)"
proof -
  have "token_fits g t \<Longrightarrow> token_fits g (f t)" for g t
    using k by (simp add: token_fits_def)
  then have "\<forall>t \<in> set (update_where p f ts). \<exists>g \<in> set gs. token_fits g t"
    using f unfolding family_ok_def by (intro update_where_all) blast+
  moreover have "length (unused_of i (update_where p f ts)) \<le> 1" for i
    using le_trans [OF unused_of_update [OF k(1,2)]] f unfolding family_ok_def by blast
  ultimately show ?thesis using f k(3) by (simp add: family_ok_def)
qed

lemma family_ok_consume: "family_ok gs ts \<Longrightarrow> family_ok gs (snd (consume_refresh now h ts))"
  unfolding consume_refresh_rows by (rule family_ok_update_tokens) auto

lemma family_ok_attach: "family_ok gs ts \<Longrightarrow> family_ok gs (attachReplacement h r ts)"
  unfolding attachReplacement_def by (rule family_ok_update_tokens) auto

text \<open>The token consumed was the grant's only one, so its successor is too.\<close>

lemma unused_of_consumed:
  assumes f: "family_ok gs ts"
    and t: "t \<in> set ts" "rt_tokenHash t = h" "rt_usedAt t = None" "now < rt_expiresAt t"
  shows "unused_of (rt_grantId t) (snd (consume_refresh now h ts)) = []"
  unfolding unused_of_def filter_empty_conv
proof (intro ballI notI)
  fix x assume x: "x \<in> set (snd (consume_refresh now h ts))"
    "rt_grantId x = rt_grantId t \<and> rt_usedAt x = None"
  then obtain x0 where x0: "x0 \<in> set ts" "x = (if rt_tokenHash x0 = h \<and> rt_usedAt x0 = None
      \<and> rt_expiresAt x0 > now then x0\<lparr>rt_usedAt := Some now\<rparr> else x0)"
    unfolding consume_refresh_rows set_update_where by blast
  with x(2) have x0': "x = x0" "\<not> (rt_tokenHash x0 = h \<and> rt_usedAt x0 = None \<and> rt_expiresAt x0 > now)"
    by (auto split: if_splits)
  then have "x0 \<noteq> t" using t by auto
  moreover have "x0 \<in> set (unused_of (rt_grantId t) ts)" "t \<in> set (unused_of (rt_grantId t) ts)"
    using x x0 x0' t by (auto simp: unused_of_def)
  moreover have "length (unused_of (rt_grantId t) ts) \<le> 1" using f by (simp add: family_ok_def)
  ultimately show False
    by (metis (no_types, opaque_lifting) One_nat_def le_Suc_eq le_zero_eq length_0_conv length_Suc_conv
        empty_iff empty_set set_ConsD)
qed

lemma family_ok_rotate:
  assumes f: "family_ok gs ts" and g: "g \<in> set gs" "tg_id g = rt_grantId t"
    and t: "t \<in> set ts" "rt_tokenHash t = h" "rt_usedAt t = None" "now < rt_expiresAt t"
    and n: "rt_tokenHash n \<notin> rt_tokenHash ` set ts" "rt_grantId n = tg_id g"
      "\<forall>c. tg_expCeiling g = Some c \<longrightarrow> rt_expiresAt n \<le> c"
  shows "family_ok gs (snd (consume_refresh now h ts) @ [n])"
proof (rule family_ok_new_token [OF family_ok_consume [OF f] g(1)])
  from f t(1) obtain g' where g': "g' \<in> set gs" "token_fits g' t" by (auto simp: family_ok_def)
  then have "g' = g" using f g distinct_keyD unfolding family_ok_def token_fits_def by metis
  with g' n show "token_fits g n" by (simp add: token_fits_def)
  show "rt_tokenHash n \<notin> rt_tokenHash ` set (snd (consume_refresh now h ts))"
    using n(1) by (simp add: consume_refresh_rows flip: set_map)
  show "unused_of (rt_grantId n) (snd (consume_refresh now h ts)) = []"
    using unused_of_consumed [OF f t] g n by simp
qed

section \<open>The token endpoint\<close>

abbreviation families :: "store \<Rightarrow> bool" where
  "families s \<equiv> family_ok (st_grants s) (st_refresh s)"

text \<open>The three ways a rotation that is answered changes the tables.\<close>

lemma rotate_effect:
  assumes "rotateRefreshToken d h ttl scope s = (Inr out, s')"
  shows "st_codes s' = st_codes s \<and>
    ((st_grants s' = st_grants s \<and> st_refresh s' = snd (consume_refresh (dp_dbNow d) h (st_refresh s)))
     \<or> (\<exists>i. st_grants s' = snd (revoke i (dp_now d) (st_grants s)) \<and> st_refresh s' = st_refresh s)
     \<or> (\<exists>g. out = Rotated g (dp_newRefresh d)))"
proof -
  let ?c = "consume_refresh (dp_dbNow d) h (st_refresh s)"
  let ?s1 = "s\<lparr>st_refresh := snd ?c\<rparr>"
  show ?thesis
  proof (cases "fst ?c")
    case None
    then have same: "snd ?c = st_refresh s"
      using consume_refresh_None [of "dp_dbNow d" h "st_refresh s"] by (cases ?c) auto
    with None assms have run: "refuse_rotation d h s = (Inr out, s')"
      by (auto simp: rotateRefreshToken_def tx_simps)
    show ?thesis
    proof (cases "refresh_byHash h (st_refresh s)")
      case no: None
      with run same show ?thesis by (auto simp: refuse_rotation_def tx_simps)
    next
      case (Some t)
      show ?thesis
      proof (cases "rt_usedAt t = None")
        case True
        with Some run same show ?thesis by (auto simp: refuse_rotation_def tx_simps)
      next
        case used: False
        let ?s2 = "s\<lparr>st_grants := snd (revoke (rt_grantId t) (dp_now d) (st_grants s))\<rparr>"
        have "s' = ?s2 \<or> (\<exists>e u. logged (audit_record d e) ?s2 = (Inr u, s'))"
          using Some used run by (auto simp: refuse_rotation_def tx_simps split: if_splits)
        then have "\<exists>rows. s' = ?s2 \<or> s' = ?s2\<lparr>st_audit := rows\<rparr>"
          by (auto dest: logged_record)
        then show ?thesis by auto
      qed
    qed
  next
    case (Some c)
    with assms obtain g where g: "grant_byId (rt_grantId c) (st_grants s) = Some g"
      and b: "(if tg_revokedAt g \<noteq> None then tret FamilyRevoked
        else tbind (session_allows d g) (\<lambda>live.
          if \<not> live then tret FamilyRevoked else replace_token d h ttl scope g)) ?s1 = (Inr out, s')"
      by (auto simp: rotateRefreshToken_def tx_simps split: option.splits)
    show ?thesis
    proof (cases "out = FamilyRevoked")
      case True
      with b have "s' = ?s1"
        by (auto simp: tx_simps replace_token_def Let_def dest: session_allows_False split: if_splits)
      then show ?thesis by simp
    next
      case False
      with b have "\<exists>g n. out = Rotated g n"
        by (auto simp: tx_simps replace_token_def Let_def split: if_splits)
      with rotate_Rotated assms show ?thesis by metis
    qed
  qed
qed

lemma rotate_families:
  assumes "rotateRefreshToken d h ttl scope s = (Inr out, s')" "families s"
  shows "families s'"
  using rotate_effect [OF assms(1)]
proof (elim conjE disjE exE)
  fix g assume o: "out = Rotated g (dp_newRefresh d)"
  note r = rotate_Rotated [OF assms(1) [unfolded o]]
  then obtain t where t: "t \<in> set (st_refresh s)" "rt_tokenHash t = h" "rt_usedAt t = None"
    "dp_dbNow d < rt_expiresAt t" "rt_grantId t = tg_id g" by auto
  let ?n = "\<lparr>rt_tokenHash = hash_token d (dp_newRefresh d), rt_grantId = tg_id g, rt_issuedAt = dp_dbNow d,
            rt_expiresAt = capped (tg_expCeiling g) (dp_now d + ttl * 1000),
            rt_usedAt = None, rt_replacedBy = None\<rparr>"
  have "family_ok (st_grants s) (snd (consume_refresh (dp_dbNow d) h (st_refresh s)) @ [?n])"
    using r t by (intro family_ok_rotate [OF assms(2), of g t]) (auto simp: capped_def)
  then show ?thesis using r family_ok_attach by simp
qed (use assms(2) in \<open>auto intro: family_ok_consume family_ok_revoke\<close>)

end
