(* ===== verification/End_Session.thy ===== *)
theory End_Session
  imports Families
begin

text \<open>
  Ending sessions (\<open>protocol-oidc/src/usecase/end-session.ts\<close>): the sessions moved to their
  end, their grants revoked and a logout token queued for every client that registered an
  address for one (\<open>service/logout-token.ts\<close>, \<open>repository/logout-deliveries.ts\<close>), for
  one session or for all a subject has, batch after batch. \<open>newId\<close> gives the identifier of a
  logout token from the session and the client it is for.
\<close>

section \<open>Logout tokens\<close>

definition LOGOUT_TOKEN_TYP :: string where
  "LOGOUT_TOKEN_TYP = ''logout+jwt''"

definition LOGOUT_TOKEN_LIFETIME_SECONDS :: int where
  "LOGOUT_TOKEN_LIFETIME_SECONDS = 120"

definition BACKCHANNEL_LOGOUT_EVENT :: string where
  "BACKCHANNEL_LOGOUT_EVENT = ''http://schemas.openid.net/event/backchannel-logout''"

definition logoutTokenClaims :: "string \<Rightarrow> string \<Rightarrow> string \<Rightarrow> string \<Rightarrow> time \<Rightarrow> string \<Rightarrow> obj" where
  "logoutTokenClaims issuer audience subject sessionId now jti =
     (let iat = epoch_seconds now
      in [(''iss'', JStr issuer), (''aud'', JStr audience), (''iat'', JNum iat),
          (''exp'', JNum (iat + LOGOUT_TOKEN_LIFETIME_SECONDS)), (''jti'', JStr jti),
          (''sub'', JStr subject), (''sid'', JStr sessionId),
          (''events'', JObj [(BACKCHANNEL_LOGOUT_EVENT, JObj [])])])"

text \<open>\<open>reissuedLogoutTokenClaims\<close> on the payload of a stored token.\<close>

definition reissuedLogoutTokenClaims :: "obj \<Rightarrow> string \<Rightarrow> time \<Rightarrow> obj option" where
  "reissuedLogoutTokenClaims payload issuer now =
     (case (nonempty_claim ''aud'' payload, nonempty_claim ''jti'' payload,
            nonempty_claim ''sub'' payload, nonempty_claim ''sid'' payload,
            num_claim ''iat'' payload, num_claim ''exp'' payload) of
        (Some aud, Some jti, Some sub, Some sid, Some iat, Some exp) \<Rightarrow>
          (let attempt = epoch_seconds now
           in Some [(''iss'', JStr issuer), (''aud'', JStr aud), (''iat'', JNum attempt),
                (''exp'', JNum (attempt + max (exp - iat) 0)), (''jti'', JStr jti),
                (''sub'', JStr sub), (''sid'', JStr sid),
                (''events'', JObj [(BACKCHANNEL_LOGOUT_EVENT, JObj [])])])
      | _ \<Rightarrow> None)"

section \<open>Deliveries\<close>

text \<open>A row of \<open>clientsForSessions\<close>: the session, the client's id and \<open>client_id\<close>, and its
  back-channel address.\<close>

type_synonym logout_target = "string \<times> string \<times> string \<times> string option"

definition clientsForSessions :: "string list \<Rightarrow> store \<Rightarrow> logout_target list" where
  "clientsForSessions sessionIds s =
     (if length sessionIds = 0 then []
      else js_unique (List.map_filter
        (\<lambda>g. case tg_sessionId g of
           None \<Rightarrow> None
         | Some i \<Rightarrow>
             if i \<notin> set sessionIds then None
             else case (find (\<lambda>c. oc_clientId c = tg_clientId g) (st_configs s),
                        client_byId (tg_clientId g) (st_clients s)) of
                 (Some config, Some client) \<Rightarrow>
                   if cl_enabled client
                   then Some (i, tg_clientId g, cl_clientId client, oc_backchannelLogoutUri config)
                   else None
               | _ \<Rightarrow> None)
        (st_grants s)))"

text \<open>The insert with \<open>ON CONFLICT DO NOTHING\<close> on (session, client).\<close>

definition delivery_key :: "logout_delivery \<Rightarrow> string \<times> string" where
  "delivery_key x = (ld_sessionId x, ld_clientId x)"

fun enqueue :: "logout_delivery list \<Rightarrow> logout_delivery list \<Rightarrow> logout_delivery list" where
  "enqueue [] rows = rows"
| "enqueue (x # xs) rows =
     (if delivery_key x \<in> delivery_key ` set rows then enqueue xs rows
      else enqueue xs (rows @ [x]))"

definition delivery_for ::
  "deps \<Rightarrow> (string \<Rightarrow> string \<Rightarrow> string) \<Rightarrow> string \<Rightarrow> signing_key \<Rightarrow> logout_target \<Rightarrow> logout_delivery option"
  where
  "delivery_for d newId subjectId key target =
     (case target of (sessionId, clientId, oauthClientId, uri) \<Rightarrow>
        map_option (\<lambda>endpoint.
          \<lparr>ld_clientId = clientId, ld_sessionId = sessionId, ld_endpoint = endpoint,
           ld_logoutToken = pf_sign (dp_platform d) key (Some LOGOUT_TOKEN_TYP)
             (logoutTokenClaims (dp_issuer d) oauthClientId subjectId sessionId (dp_now d)
               (newId sessionId clientId)),
           ld_nextAttemptAt = dp_now d\<rparr>) uri)"

section \<open>Ending\<close>

definition session_ended_event :: "string \<Rightarrow> string \<Rightarrow> string \<Rightarrow> audit_event" where
  "session_ended_event subjectId via sessionId =
     \<lparr>ae_eventType = ''session'', ae_action = ''session.ended'', ae_outcome = Allowed,
      ae_actorSubjectId = Some subjectId, ae_actorClientId = None,
      ae_resourceType = Some ''session'', ae_resourceId = Some sessionId,
      ae_detail = [(''via'', JStr via)]\<rparr>"

definition queue_logouts ::
  "deps \<Rightarrow> (string \<Rightarrow> string \<Rightarrow> string) \<Rightarrow> string \<Rightarrow> logout_target list \<Rightarrow> unit db" where
  "queue_logouts d newId subjectId targets =
     (if targets = [] then tret ()
      else tbind key_active (\<lambda>key s.
        (Inr (), s\<lparr>st_deliveries := enqueue
           (List.map_filter (delivery_for d newId subjectId key) targets) (st_deliveries s)\<rparr>)))"

definition endSessions ::
  "deps \<Rightarrow> (string \<Rightarrow> string \<Rightarrow> string) \<Rightarrow> string list \<Rightarrow> string \<Rightarrow> string \<Rightarrow> unit db" where
  "endSessions d newId sessionIds subjectId via =
     tbind (sessions_tx (session_endAll sessionIds (dp_now d))) (\<lambda>ended.
     tbind (audit_recordAll d (map (session_ended_event subjectId via) ended)) (\<lambda>_.
     tbind (grants_tx (revokeForSessions sessionIds (dp_now d))) (\<lambda>_.
     tbind (tget (\<lambda>s. filter (\<lambda>(i, c, o1, uri). uri \<noteq> None) (clientsForSessions sessionIds s)))
       (\<lambda>targets.
     queue_logouts d newId subjectId targets))))"

definition endSession ::
  "deps \<Rightarrow> (string \<Rightarrow> string \<Rightarrow> string) \<Rightarrow> string \<Rightarrow> string \<Rightarrow> string \<Rightarrow> unit db" where
  "endSession d newId sessionId subjectId via = endSessions d newId [sessionId] subjectId via"

definition SESSIONS_PER_BATCH :: nat where
  "SESSIONS_PER_BATCH = 100"

lemma queue_logouts_Inr:
  "queue_logouts d newId sub targets s = (Inr u, s') \<Longrightarrow>
     \<exists>key. s' = s \<and> targets = [] \<or> s' = s\<lparr>st_deliveries := enqueue
       (List.map_filter (delivery_for d newId sub key) targets) (st_deliveries s)\<rparr>"
  by (auto simp: queue_logouts_def tx_simps dest!: key_active_Inr split: if_splits)

lemma endSessions_Inr:
  assumes "endSessions d newId ids sub via s = (Inr u, s')"
  shows "st_sessions s' = snd (session_endAll ids (dp_now d) (st_sessions s))
    \<and> st_grants s' = snd (revokeForSessions ids (dp_now d) (st_grants s))
    \<and> st_refresh s' = st_refresh s \<and> st_codes s' = st_codes s"
proof -
  let ?s1 = "s\<lparr>st_sessions := snd (session_endAll ids (dp_now d) (st_sessions s))\<rparr>"
  from assms obtain v s2 where
    a: "audit_recordAll d (map (session_ended_event sub via)
      (fst (session_endAll ids (dp_now d) (st_sessions s)))) ?s1 = (Inr v, s2)"
    and q: "\<exists>targets. queue_logouts d newId sub targets
      (s2\<lparr>st_grants := snd (revokeForSessions ids (dp_now d) (st_grants s2))\<rparr>) = (Inr u, s')"
    by (auto simp: endSessions_def tx_simps)
  from audit_recordAll_state [OF a] obtain rows where s2: "s2 = ?s1\<lparr>st_audit := st_audit ?s1 @ rows\<rparr>"
    by auto
  from q queue_logouts_Inr have "\<exists>x. s' = s2\<lparr>st_grants := snd (revokeForSessions ids (dp_now d) (st_grants s2))\<rparr>
    \<or> s' = s2\<lparr>st_grants := snd (revokeForSessions ids (dp_now d) (st_grants s2)), st_deliveries := x\<rparr>"
    by fastforce
  then show ?thesis by (auto simp: s2)
qed

text \<open>The sessions \<open>liveIdsFor\<close> would still list.\<close>

definition pending :: "string \<Rightarrow> time \<Rightarrow> session list \<Rightarrow> session list" where
  "pending subjectId now rows = filter (\<lambda>r. ss_subjectId r = subjectId \<and> ss_expiresAt r > now) rows"

lemma liveIdsFor_pending:
  "set (session_liveIdsFor sub now limit rows) \<subseteq> ss_id ` set (pending sub now rows)"
  by (auto simp: session_liveIdsFor_def pending_def dest!: in_set_takeD)

lemma liveIdsFor_Nil:
  "0 < limit \<Longrightarrow> session_liveIdsFor sub now limit rows = [] \<longleftrightarrow> pending sub now rows = []"
proof -
  have "sort xs = [] \<longleftrightarrow> xs = []" for xs :: "string list"
    by (metis length_0_conv length_sort)
  then show "0 < limit \<Longrightarrow> ?thesis" by (simp add: session_liveIdsFor_def pending_def)
qed

lemma pending_endAll:
  "pending sub now (snd (session_endAll ids now rows)) =
     filter (\<lambda>r. ss_id r \<notin> set ids) (pending sub now rows)"
  by (induction rows) (auto simp: session_endAll_def Let_def pending_def update_where_def)

lemma pending_endAll_less:
  assumes "ids \<noteq> []" "set ids \<subseteq> ss_id ` set (pending sub now rows)"
  shows "length (pending sub now (snd (session_endAll ids now rows))) < length (pending sub now rows)"
proof -
  from assms obtain r where "r \<in> set (pending sub now rows)" "ss_id r \<in> set ids"
    by (cases ids) auto
  then show ?thesis unfolding pending_endAll by (intro length_filter_less) auto
qed

text \<open>The loop of \<open>endAllAccess\<close>.\<close>

function end_batches :: "deps \<Rightarrow> (string \<Rightarrow> string \<Rightarrow> string) \<Rightarrow> string \<Rightarrow> unit db" where
  "end_batches d newId subjectId s =
     (let batch = session_liveIdsFor subjectId (dp_now d) SESSIONS_PER_BATCH (st_sessions s)
      in if length batch = 0 then (Inr (), s)
         else case endSessions d newId batch subjectId ''logout'' s of
             (Inl e, s') \<Rightarrow> (Inl e, s')
           | (Inr _, s') \<Rightarrow> end_batches d newId subjectId s')"
  by pat_completeness auto

termination
proof (relation "measure (\<lambda>(d, newId, sub, s). length (pending sub (dp_now d) (st_sessions s)))",
    goal_cases)
  case (2 d newId sub s batch z y u)
  then have "endSessions d newId batch sub ''logout'' s = (Inr u, y)" by simp
  with 2 endSessions_Inr [of d newId batch sub "''logout''" s u y] show ?case
    using pending_endAll_less [OF _ liveIdsFor_pending] by simp
qed simp

declare end_batches.simps [simp del]

definition endAllAccess :: "deps \<Rightarrow> (string \<Rightarrow> string \<Rightarrow> string) \<Rightarrow> string \<Rightarrow> unit db" where
  "endAllAccess d newId subjectId =
     tbind (end_batches d newId subjectId) (\<lambda>_.
     tbind (grants_tx (revokeForSubject subjectId (dp_now d))) (\<lambda>_.
     tret ()))"

lemma end_batches_pending:
  "end_batches d newId sub s = (Inr u, s') \<Longrightarrow> pending sub (dp_now d) (st_sessions s') = []"
proof (induction d newId sub s rule: end_batches.induct)
  case (1 d newId sub s)
  let ?batch = "session_liveIdsFor sub (dp_now d) SESSIONS_PER_BATCH (st_sessions s)"
  show ?case
  proof (cases "?batch = []")
    case True
    with "1.prems" have "s' = s" by (simp add: end_batches.simps [of d newId sub s])
    with True show ?thesis
      using liveIdsFor_Nil [of SESSIONS_PER_BATCH] by (simp add: SESSIONS_PER_BATCH_def)
  next
    case False
    obtain r s1 where e: "endSessions d newId ?batch sub ''logout'' s = (r, s1)"
      by (cases "endSessions d newId ?batch sub ''logout'' s")
    with False "1.prems" obtain v where "r = Inr v" "end_batches d newId sub s1 = (Inr u, s')"
      by (cases r) (auto simp: end_batches.simps [of d newId sub s])
    with "1.IH" [OF refl] False e show ?thesis by simp
  qed
qed

lemma endSessions_grants:
  assumes "endSessions d newId ids sub via s = (Inr u, s')"
  shows "\<exists>p. st_grants s' = map (stamp p (dp_now d)) (st_grants s)"
  using endSessions_Inr [OF assms] by (auto simp: revokeForSessions_rows)

lemma endAllAccess_Inr:
  assumes "endAllAccess d newId sub s = (Inr u, s')"
  shows "pending sub (dp_now d) (st_sessions s') = []
    \<and> (\<forall>g \<in> set (st_grants s'). tg_subjectId g = sub \<longrightarrow> tg_revokedAt g \<noteq> None)"
proof -
  from assms obtain s1 v where b: "end_batches d newId sub s = (Inr v, s1)"
    and s': "s' = s1\<lparr>st_grants := snd (revokeForSubject sub (dp_now d) (st_grants s1))\<rparr>"
    by (auto simp: endAllAccess_def tx_simps)
  from end_batches_pending [OF b] by_subject.revoked_all [of _ sub "dp_now d" "st_grants s1"]
  show ?thesis by (auto simp: s')
qed

lemma distinct_enqueue:
  "distinct (map delivery_key rows) \<Longrightarrow> distinct (map delivery_key (enqueue xs rows))"
  by (induction xs rows rule: enqueue.induct) auto

end
