(* ===== verification/Client_Auth.thy ===== *)
theory Client_Auth
  imports Issuance_Facts
begin

text \<open>
  Who calls the token endpoint. Client authentication by secret
  (\<open>protocol-oidc/src/usecase/client-authentication.ts\<close>), by a signed assertion or by the
  subject of a certificate (\<open>usecase/private-key-jwt-authentication.ts\<close> with
  \<open>service/client-assertion.ts\<close> and \<open>service/tls-client-auth.ts\<close>), the settlement of an
  assertion after the work is done, and the three endpoints that authenticate a client:
  \<open>/token\<close>, \<open>/revoke\<close> and \<open>/introspect\<close>, with the recording of their refusals.
\<close>

section \<open>What the endpoints are given\<close>

text \<open>
  \<open>ea_base64\<close> is \<open>Buffer.from(s, 'base64').toString('utf8')\<close>, \<open>ea_decodeURI\<close> is
  \<open>decodeURIComponent\<close> (\<open>None\<close> where it throws), \<open>ea_segment\<close> the base64url and JSON
  reading of one segment of a token, \<open>ea_fetchKeys\<close> the fetch of a client's key set
  (\<open>None\<close> where it fails), \<open>ea_verifyKeySet\<close> is \<open>jwtVerify\<close> against a key set for an
  issuer, a list of audiences and a clock tolerance. \<open>ea_limiter\<close> and \<open>ea_budget\<close> are the
  answers of the two rate limiters, \<open>ea_lockFree\<close> the answer of the advisory lock, and
  \<open>ea_spendRefused\<close> says that the database refuses to store a spent assertion.
\<close>

datatype budget_answer = BudgetRow | BudgetLastRow | BudgetLog

record auth_deps =
  ea_deps :: deps
  ea_tenantId :: string
  ea_verifyPassword :: "string \<Rightarrow> string \<Rightarrow> bool"
  ea_limiter :: "string \<Rightarrow> bool \<times> int"
  ea_budget :: "string \<Rightarrow> budget_answer"
  ea_cimdEnabled :: bool
  ea_trustProxy :: bool
  ea_tlsClientCertHeader :: string
  ea_base64 :: "string \<Rightarrow> string"
  ea_decodeURI :: "string \<Rightarrow> string option"
  ea_segment :: "string \<Rightarrow> json option"
  ea_fetchKeys :: "string \<Rightarrow> bool \<Rightarrow> json option"
  ea_verifyKeySet :: "json \<Rightarrow> string \<Rightarrow> string list \<Rightarrow> int \<Rightarrow> string \<Rightarrow> bool"
  ea_lockFree :: bool
  ea_spendRefused :: bool

record client_request =
  rc_body :: body
  rc_authorization :: "string option"
  rc_headers :: "string \<Rightarrow> param option"
  rc_rawHeaders :: "string list"

definition invalid_client :: exn where
  "invalid_client = TokenError (invalidClient WWW_AUTHENTICATE)"

section \<open>The secret of a client\<close>

definition verifyClientSecret ::
  "client \<Rightarrow> string option \<Rightarrow> (string \<Rightarrow> string \<Rightarrow> bool) \<Rightarrow> time \<Rightarrow> bool" where
  "verifyClientSecret client presented compare now =
     (if \<not> cl_enabled client then False
      else if cl_type client = Public then presented = None
      else case (presented, cl_secretHash client) of
          (Some secret, Some hash) \<Rightarrow>
            if compare hash secret then True
            else (case (cl_previousSecretHash client, cl_previousSecretExpiresAt client) of
                (Some previous, Some until) \<Rightarrow>
                  if until \<le> now then False else compare previous secret
              | _ \<Rightarrow> False)
        | _ \<Rightarrow> False)"

text \<open>\<open>/^Basic(?:\s+(.*))?$/i\<close>: the group, empty where it is absent.\<close>

definition basic_match :: "string \<Rightarrow> string option" where
  "basic_match header =
     (let rest = drop 5 header; payload = dropWhile is_js_space rest
      in if toLowerCase (take 5 header) \<noteq> ''basic'' then None
         else if rest = [] then Some []
         else if \<not> is_js_space (hd rest) \<or> CHR 0x0A \<in> set payload \<or> CHR 0x0D \<in> set payload then None
         else Some payload)"

definition decodeBasicCredentials :: "auth_deps \<Rightarrow> string \<Rightarrow> (string \<times> string) option" where
  "decodeBasicCredentials d payload =
     (let decoded = ea_base64 d payload
      in if CHR '':'' \<notin> set decoded then None
         else case (ea_decodeURI d (takeWhile (\<lambda>c. c \<noteq> CHR '':'') decoded),
                    ea_decodeURI d (tl (dropWhile (\<lambda>c. c \<noteq> CHR '':'') decoded))) of
             (Some clientId, Some secret) \<Rightarrow> Some (clientId, secret)
           | _ \<Rightarrow> None)"

definition parseBasicAuth :: "auth_deps \<Rightarrow> string option \<Rightarrow> exn + (string \<times> string) option" where
  "parseBasicAuth d header =
     (case header of
        None \<Rightarrow> Inr None
      | Some h \<Rightarrow>
          (case basic_match h of
             None \<Rightarrow> Inr None
           | Some payload \<Rightarrow>
               (case decodeBasicCredentials d payload of
                  None \<Rightarrow> Inl invalid_client
                | Some credentials \<Rightarrow> Inr (Some credentials))))"

definition isPasswordAuthMethod :: "string \<Rightarrow> bool" where
  "isPasswordAuthMethod method \<longleftrightarrow> method = ''client_secret_basic'' \<or> method = ''client_secret_post''"

definition clientSecretLimiterKey :: "string \<Rightarrow> string \<Rightarrow> string" where
  "clientSecretLimiterKey tenantId oauthClientId = tenantId @ '':'' @ oauthClientId"

definition config_byClientId :: "string \<Rightarrow> oidc_config list \<Rightarrow> oidc_config option" where
  "config_byClientId clientId rows = find (\<lambda>c. oc_clientId c = clientId) rows"

definition bad_credential :: "string \<Rightarrow> string \<Rightarrow> client \<Rightarrow> exn" where
  "bad_credential method reason client =
     TokenError (withAudit (invalidClient WWW_AUTHENTICATE)
       \<lparr>ra_action = ''client.authenticate'', ra_reason = reason, ra_clientDbId = cl_id client,
        ra_subjectId = None, ra_grantId = None, ra_method = Some method\<rparr>)"

text \<open>The secret presented, where the client's method is the one it was presented by.\<close>

definition presented_secret ::
  "client \<Rightarrow> oidc_config \<Rightarrow> (string \<times> string) option \<Rightarrow> string option \<Rightarrow> string
     \<Rightarrow> exn + string option" where
  "presented_secret client config basic bodyClientSecret attemptedMethod =
     (case basic of
        Some credentials \<Rightarrow>
          if oc_authMethod config \<noteq> ClientSecretBasic
          then Inl (bad_credential attemptedMethod ''bad_credential'' client)
          else Inr (Some (snd credentials))
      | None \<Rightarrow>
          (case bodyClientSecret of
             Some secret \<Rightarrow>
               if oc_authMethod config \<noteq> ClientSecretPost
               then Inl (bad_credential attemptedMethod ''bad_credential'' client)
               else Inr (Some secret)
           | None \<Rightarrow> Inr None))"

definition verifyClientCredentials ::
  "auth_deps \<Rightarrow> string \<Rightarrow> (string \<times> string) option \<Rightarrow> string option \<Rightarrow> string \<Rightarrow> store
     \<Rightarrow> exn + client \<times> oidc_config" where
  "verifyClientCredentials d oauthClientId basic bodyClientSecret attemptedMethod s =
     (case client_byClientId oauthClientId (st_clients s) of
        None \<Rightarrow> Inl invalid_client
      | Some client \<Rightarrow>
          if cl_registrationOrigin client = ''cimd'' \<and> \<not> ea_cimdEnabled d then Inl invalid_client
          else case config_byClientId (cl_id client) (st_configs s) of
              None \<Rightarrow> Inl invalid_client
            | Some config \<Rightarrow>
                (case presented_secret client config basic bodyClientSecret attemptedMethod of
                   Inl e \<Rightarrow> Inl e
                 | Inr presented \<Rightarrow>
                     if verifyClientSecret client presented (ea_verifyPassword d) (dp_now (ea_deps d))
                     then Inr (client, config)
                     else Inl (bad_credential attemptedMethod ''bad_credential'' client)))"

text \<open>How the credential arrived.\<close>

definition attempted_method :: "(string \<times> string) option \<Rightarrow> string option \<Rightarrow> string option" where
  "attempted_method basic bodyClientSecret =
     (if basic \<noteq> None then Some ''client_secret_basic''
      else if bodyClientSecret \<noteq> None then Some ''client_secret_post''
      else None)"

text \<open>The \<open>catch\<close>: a failed password presentation spends the client's budget.\<close>

definition limited :: "auth_deps \<Rightarrow> string \<Rightarrow> string option \<Rightarrow> token_error \<Rightarrow> exn" where
  "limited d oauthClientId attemptedMethod err =
     (if \<exists>m \<in> set_option attemptedMethod. isPasswordAuthMethod m then
        (let (allowed, retryAfterSeconds) =
               ea_limiter d (clientSecretLimiterKey (ea_tenantId d) oauthClientId)
         in if allowed then TokenError err
            else TokenRateLimited retryAfterSeconds
              (map_option (\<lambda>au. au\<lparr>ra_reason := ''rate_limited''\<rparr>) (te_audit err)))
      else TokenError err)"

definition authenticateClient ::
  "auth_deps \<Rightarrow> (string \<times> string) option \<Rightarrow> string option \<Rightarrow> string option \<Rightarrow> store
     \<Rightarrow> exn + client \<times> oidc_config" where
  "authenticateClient d basic bodyClientId bodyClientSecret s =
     (if basic \<noteq> None \<and> bodyClientSecret \<noteq> None then Inl invalid_client
      else case js_or_else (map_option fst basic) bodyClientId of
          None \<Rightarrow> Inl invalid_client
        | Some oauthClientId \<Rightarrow>
            (let attemptedMethod = attempted_method basic bodyClientSecret
             in case verifyClientCredentials d oauthClientId basic bodyClientSecret
                       (coalesce attemptedMethod ''none'') s of
                  Inl (TokenError err) \<Rightarrow> Inl (limited d oauthClientId attemptedMethod err)
                | r \<Rightarrow> r))"

section \<open>Assertions\<close>

definition CLIENT_ASSERTION_TYPE :: string where
  "CLIENT_ASSERTION_TYPE = ''urn:ietf:params:oauth:client-assertion-type:jwt-bearer''"

definition MAX_ASSERTION_LIFETIME_SECONDS :: int where
  "MAX_ASSERTION_LIFETIME_SECONDS = 300"

definition ASSERTION_LEEWAY_SECONDS :: int where
  "ASSERTION_LEEWAY_SECONDS = 30"

record assertion =
  as_claimedClientId :: string
  as_jti :: string
  as_expiresAt :: time
  as_assertion :: string

datatype assertion_outcome = AssertionOk assertion | AssertionUnsupported | AssertionInvalid

definition decodeAssertionPayload :: "auth_deps \<Rightarrow> string \<Rightarrow> json option" where
  "decodeAssertionPayload d token =
     (case js_split CHR ''.'' token of
        [header, payload, signature] \<Rightarrow>
          if header = [] \<or> payload = [] \<or> signature = [] then None else ea_segment d payload
      | _ \<Rightarrow> None)"

text \<open>The claims a payload must have, as the schema reads them: \<open>iss, sub, aud, exp, jti\<close>.\<close>

definition min_string :: "string \<Rightarrow> obj \<Rightarrow> string option" where
  "min_string k claims = (case obj_get k claims of Some (JStr (c # cs)) \<Rightarrow> Some (c # cs) | _ \<Rightarrow> None)"

definition clientAssertionClaims :: "json option \<Rightarrow> (string \<times> string \<times> string \<times> int \<times> string) option" where
  "clientAssertionClaims payload =
     (case payload of
        Some (JObj claims) \<Rightarrow>
          (case (min_string ''iss'' claims, min_string ''sub'' claims, min_string ''aud'' claims,
                 obj_get ''exp'' claims, min_string ''jti'' claims) of
             (Some iss, Some sub, Some aud, Some (JNum exp), Some jti) \<Rightarrow> Some (iss, sub, aud, exp, jti)
           | _ \<Rightarrow> None)
      | _ \<Rightarrow> None)"

definition parseClientAssertion :: "auth_deps \<Rightarrow> body \<Rightarrow> time \<Rightarrow> string list \<Rightarrow> assertion_outcome" where
  "parseClientAssertion d body now audiences =
     (if body ''client_assertion_type'' \<noteq> Some (One CLIENT_ASSERTION_TYPE) then AssertionUnsupported
      else case body ''client_assertion'' of
          Some (One token) \<Rightarrow>
            (case clientAssertionClaims (decodeAssertionPayload d token) of
               None \<Rightarrow> AssertionInvalid
             | Some (iss, sub, aud, exp, jti) \<Rightarrow>
                 if iss \<noteq> sub then AssertionInvalid
                 else if aud \<notin> set audiences then AssertionInvalid
                 else if (exp + ASSERTION_LEEWAY_SECONDS) * 1000 \<le> now then AssertionInvalid
                 else if exp * 1000 - now > MAX_ASSERTION_LIFETIME_SECONDS * 1000 then AssertionInvalid
                 else AssertionOk \<lparr>as_claimedClientId = sub, as_jti = jti,
                   as_expiresAt = (exp + ASSERTION_LEEWAY_SECONDS) * 1000, as_assertion = token\<rparr>)
        | _ \<Rightarrow> AssertionInvalid)"

definition tokenEndpointOf :: "string \<Rightarrow> string" where
  "tokenEndpointOf issuer = issuer @ ''/protocol/openid-connect/token''"

definition isJwkSet :: "json \<Rightarrow> bool" where
  "isJwkSet v =
     (case v of
        JObj members \<Rightarrow>
          (case obj_get ''keys'' members of
             Some (JArr keys) \<Rightarrow> list_all (\<lambda>k. case k of JObj _ \<Rightarrow> True | _ \<Rightarrow> False) keys
           | _ \<Rightarrow> False)
      | _ \<Rightarrow> False)"

definition verifyJwtAgainstJwkSet ::
  "auth_deps \<Rightarrow> string \<Rightarrow> json \<Rightarrow> string \<Rightarrow> string list \<Rightarrow> bool" where
  "verifyJwtAgainstJwkSet d token jwks issuer audiences \<longleftrightarrow>
     isJwkSet jwks \<and> ea_verifyKeySet d jwks issuer audiences ASSERTION_LEEWAY_SECONDS token"

text \<open>The key set of a client: its own, or the one its address serves.\<close>

definition client_keys :: "auth_deps \<Rightarrow> client \<Rightarrow> oidc_config \<Rightarrow> exn + json" where
  "client_keys d client config =
     (case oc_jwks config of
        Some jwks \<Rightarrow> Inr jwks
      | None \<Rightarrow>
          (case oc_jwksUri config of
             Some uri \<Rightarrow>
               (case ea_fetchKeys d uri (cl_registrationOrigin client = ''cimd'') of
                  None \<Rightarrow> Inl invalid_client
                | Some jwks \<Rightarrow> Inr jwks)
           | None \<Rightarrow> Inl (bad_credential ''private_key_jwt'' ''bad_credential'' client)))"

text \<open>What remains to be done for the assertion once the work is over.\<close>

datatype settlement = NothingToSettle | SpendJti "string \<times> string" time

record authenticated =
  au_client :: client
  au_config :: oidc_config
  au_settle :: settlement

definition authenticatePrivateKeyJwt ::
  "auth_deps \<Rightarrow> assertion_outcome \<Rightarrow> string list \<Rightarrow> store \<Rightarrow> exn + authenticated" where
  "authenticatePrivateKeyJwt d outcome tokenEndpoints s =
     (case outcome of
        AssertionOk a \<Rightarrow>
          (case client_byClientId (as_claimedClientId a) (st_clients s) of
             None \<Rightarrow> Inl invalid_client
           | Some client \<Rightarrow>
               if \<not> cl_enabled client
               then Inl (bad_credential ''private_key_jwt'' ''bad_credential'' client)
               else case config_byClientId (cl_id client) (st_configs s) of
                   None \<Rightarrow> Inl (bad_credential ''private_key_jwt'' ''bad_credential'' client)
                 | Some config \<Rightarrow>
                     if oc_authMethod config \<noteq> PrivateKeyJwt
                     then Inl (bad_credential ''private_key_jwt'' ''bad_credential'' client)
                     else case client_keys d client config of
                         Inl e \<Rightarrow> Inl e
                       | Inr jwks \<Rightarrow>
                           if \<not> verifyJwtAgainstJwkSet d (as_assertion a) jwks
                                (as_claimedClientId a) tokenEndpoints
                           then Inl (bad_credential ''private_key_jwt'' ''bad_credential'' client)
                           else if \<not> ea_lockFree d
                           then Inl (bad_credential ''private_key_jwt'' ''replayed'' client)
                           else if spentWithin (as_claimedClientId a, as_jti a) (st_jtis s)
                           then Inl (bad_credential ''private_key_jwt'' ''replayed'' client)
                           else Inr \<lparr>au_client = client, au_config = config,
                             au_settle = SpendJti (as_claimedClientId a, as_jti a) (as_expiresAt a)\<rparr>)
      | _ \<Rightarrow> Inl invalid_client)"

section \<open>Certificates\<close>

datatype tls_subject = TlsAbsent | TlsDuplicated | TlsPresent string

fun countHeaderOccurrences :: "string list \<Rightarrow> string \<Rightarrow> nat" where
  "countHeaderOccurrences (k # v # rest) name =
     (if toLowerCase k = name then 1 else 0) + countHeaderOccurrences rest name"
| "countHeaderOccurrences [k] name = (if toLowerCase k = name then 1 else 0)"
| "countHeaderOccurrences [] name = 0"

definition tlsClientSubject ::
  "(string \<Rightarrow> param option) \<Rightarrow> string list \<Rightarrow> bool \<Rightarrow> string \<Rightarrow> tls_subject" where
  "tlsClientSubject headers rawHeaders trustProxy headerName =
     (if \<not> trustProxy then TlsAbsent
      else let name = toLowerCase headerName
           in case headers name of
                Some (One value) \<Rightarrow>
                  if length value = 0 then TlsAbsent
                  else if countHeaderOccurrences rawHeaders name > 1 then TlsDuplicated
                  else TlsPresent value
              | _ \<Rightarrow> TlsAbsent)"

definition tlsClientAuthSubjectMatches :: "string \<Rightarrow> string \<Rightarrow> bool" where
  "tlsClientAuthSubjectMatches presented registered \<longleftrightarrow> js_trim presented = js_trim registered"

definition authenticateTlsClientAuth ::
  "auth_deps \<Rightarrow> string \<Rightarrow> string option \<Rightarrow> store \<Rightarrow> exn + client \<times> oidc_config" where
  "authenticateTlsClientAuth d certificateSubject claimedClientId s =
     (case claimedClientId of
        None \<Rightarrow> Inl invalid_client
      | Some clientId \<Rightarrow>
          (case client_byClientId clientId (st_clients s) of
             None \<Rightarrow> Inl invalid_client
           | Some client \<Rightarrow>
               (let refused = Inl (bad_credential ''tls_client_auth'' ''bad_credential'' client)
                in if \<not> cl_enabled client then refused
                   else if cl_type client \<noteq> Confidential then refused
                   else case config_byClientId (cl_id client) (st_configs s) of
                       None \<Rightarrow> refused
                     | Some config \<Rightarrow>
                         if oc_authMethod config \<noteq> TlsClientAuth then refused
                         else case oc_tlsClientAuthSubjectDn config of
                             None \<Rightarrow> refused
                           | Some registered \<Rightarrow>
                               if \<not> tlsClientAuthSubjectMatches certificateSubject registered
                               then refused
                               else Inr (client, config))))"

section \<open>The client of an endpoint\<close>

definition claimed_matches :: "assertion_outcome \<Rightarrow> string option \<Rightarrow> bool" where
  "claimed_matches outcome clientId =
     (case (outcome, clientId) of
        (AssertionOk a, Some i) \<Rightarrow> i = as_claimedClientId a
      | _ \<Rightarrow> True)"

definition authenticateEndpointClient ::
  "auth_deps \<Rightarrow> client_request \<Rightarrow> store \<Rightarrow> exn + authenticated" where
  "authenticateEndpointClient d request s =
     (let body = rc_body request;
          tokenEndpoints = map tokenEndpointOf (dp_acceptedIssuers (ea_deps d));
          outcome = parseClientAssertion d body (dp_now (ea_deps d)) tokenEndpoints
      in case parseBasicAuth d (rc_authorization request) of
           Inl e \<Rightarrow> Inl e
         | Inr basic \<Rightarrow>
             (let bodyClientSecret = readOptionalField body ''client_secret'';
                  certResult = tlsClientSubject (rc_headers request) (rc_rawHeaders request)
                    (ea_trustProxy d) (ea_tlsClientCertHeader d);
                  certificateSubject = (case certResult of TlsPresent v \<Rightarrow> Some v | _ \<Rightarrow> None);
                  clientId = readOptionalField body ''client_id''
              in if certResult = TlsDuplicated then Inl invalid_client
                 else if certificateSubject \<noteq> None
                   \<and> (outcome \<noteq> AssertionUnsupported \<or> basic \<noteq> None \<or> bodyClientSecret \<noteq> None)
                 then Inl invalid_client
                 else if outcome \<noteq> AssertionUnsupported \<and> (basic \<noteq> None \<or> bodyClientSecret \<noteq> None)
                 then Inl invalid_client
                 else if outcome \<noteq> AssertionUnsupported then
                   (if \<not> claimed_matches outcome clientId then Inl invalid_client
                    else authenticatePrivateKeyJwt d outcome tokenEndpoints s)
                 else map_sum id
                   (\<lambda>(client, config). \<lparr>au_client = client, au_config = config, au_settle = NothingToSettle\<rparr>)
                   (case certificateSubject of
                      Some subject \<Rightarrow> authenticateTlsClientAuth d subject clientId s
                    | None \<Rightarrow> authenticateClient d basic clientId bodyClientSecret s)))"

section \<open>Settlement\<close>

text \<open>
  \<open>settle(work)\<close>. The work runs under a savepoint of the request's transaction, which has
  written nothing before it, so a failed one leaves what is committed; the \<open>jti\<close> is spent
  either way, and after a failure the refusal is handed up as a value (\<open>SpentRefusal\<close>), so that
  the transaction commits the spend.
\<close>

definition settle :: "auth_deps \<Rightarrow> settlement \<Rightarrow> 'a req \<Rightarrow> (exn + 'a) req" where
  "settle d settlement work cw =
     (case settlement of
        NothingToSettle \<Rightarrow>
          (case work cw of (Inl e, cw') \<Rightarrow> (Inl e, cw') | (Inr x, cw') \<Rightarrow> (Inr (Inr x), cw'))
      | SpendJti k expiresAt \<Rightarrow>
          (let spend = (\<lambda>s. s\<lparr>st_jtis := snd (claimWithin expiresAt k (st_jtis s))\<rparr>)
           in case work cw of
                (Inl e, cw') \<Rightarrow>
                  (Inr (Inl e), (fst cw', if ea_spendRefused d then fst cw' else spend (fst cw')))
              | (Inr x, cw') \<Rightarrow>
                  if ea_spendRefused d then (Inl (Thrown ''client_assertion_jti insert''), cw')
                  else (Inr (Inr x), (fst cw', spend (snd cw')))))"

text \<open>\<open>unsettle(await withTenant(..., () => keepingSpend(run)))\<close>\<close>

definition settled :: "(exn + 'a) req \<Rightarrow> 'a db" where
  "settled run s =
     (case in_request run s of
        (Inl e, s') \<Rightarrow> (Inl e, s')
      | (Inr outcome, s') \<Rightarrow> (outcome, s'))"

section \<open>Refusals\<close>

definition refusal_event :: "refusal_audit \<Rightarrow> string \<Rightarrow> audit_event" where
  "refusal_event au reason =
     \<lparr>ae_eventType = (if ra_action au = ''client.authenticate'' then ''authentication'' else ''token''),
      ae_action = ra_action au, ae_outcome = Refused, ae_actorSubjectId = ra_subjectId au,
      ae_actorClientId = Some (ra_clientDbId au),
      ae_resourceType = (if ra_grantId au = None then None else Some ''grant''),
      ae_resourceId = ra_grantId au,
      ae_detail = (case (ra_action au = ''client.authenticate'', ra_method au) of
          (True, Some method) \<Rightarrow> [(''method'', JStr method), (''reason'', JStr reason)]
        | _ \<Rightarrow> [(''reason'', JStr reason)])\<rparr>"

definition recordRefusal :: "auth_deps \<Rightarrow> refusal_audit option \<Rightarrow> store \<Rightarrow> store" where
  "recordRefusal d audit s =
     (case audit of
        None \<Rightarrow> s
      | Some au \<Rightarrow>
          (let answer = ea_budget d (ea_tenantId d @ '':'' @ ra_clientDbId au)
           in if answer = BudgetLog then s
              else snd (atomically (audit_record (ea_deps d) (refusal_event au
                     (if answer = BudgetLastRow then ''rate_limited'' else ra_reason au))) s)))"

text \<open>The \<open>catch\<close> of a route: the refusal is recorded after the transaction is over.\<close>

definition with_refusals :: "auth_deps \<Rightarrow> 'a db \<Rightarrow> 'a db" where
  "with_refusals d run s =
     (case run s of
        (Inl (TokenError err), s') \<Rightarrow> (Inl (TokenError err), recordRefusal d (te_audit err) s')
      | (Inl (TokenRateLimited after audit), s') \<Rightarrow>
          (Inl (TokenRateLimited after audit), recordRefusal d audit s')
      | r \<Rightarrow> r)"

text \<open>What a route answers: a body, an error with its status, or no body at all.\<close>

datatype 'a reply = Answered 'a | ErrorBody "token_error_code \<times> int \<times> string option" | TooManyRequests int
  | ServerError

definition reply_of :: "exn + 'a \<Rightarrow> 'a reply" where
  "reply_of r =
     (case r of
        Inr x \<Rightarrow> Answered x
      | Inl (TokenError err) \<Rightarrow> ErrorBody (response_of err)
      | Inl (TokenRateLimited after _) \<Rightarrow> TooManyRequests after
      | _ \<Rightarrow> ServerError)"

section \<open>Endpoints\<close>

text \<open>\<open>const { client, config, settle } = await authenticateEndpointClient(...); settle(work)\<close>\<close>

definition after_authentication ::
  "auth_deps \<Rightarrow> client_request \<Rightarrow> (authenticated \<Rightarrow> 'a req) \<Rightarrow> (exn + 'a) req" where
  "after_authentication d request work cw =
     (case authenticateEndpointClient d request (snd cw) of
        Inl e \<Rightarrow> (Inl e, cw)
      | Inr a \<Rightarrow> settle d (au_settle a) (work a) cw)"

definition issueTokens :: "auth_deps \<Rightarrow> client_request \<Rightarrow> (exn + token_response) req" where
  "issueTokens d request cw =
     (case parseStructure (rc_body request) of
        Inl err \<Rightarrow> (Inl (TokenError err), cw)
      | Inr structured \<Rightarrow>
          after_authentication d request
            (\<lambda>a. issue_annotated (ea_deps d) structured (au_client a) (au_config a)) cw)"

definition tokenRoute :: "auth_deps \<Rightarrow> client_request \<Rightarrow> token_response db" where
  "tokenRoute d request = with_refusals d (settled (issueTokens d request))"

definition respondToRevocationRequest :: "auth_deps \<Rightarrow> client_request \<Rightarrow> (exn + unit) req" where
  "respondToRevocationRequest d request =
     after_authentication d request (\<lambda>a. on_work (revokeFor (ea_deps d)
       (coalesce (readOptionalField (rc_body request) ''token'') []) (au_client a)))"

definition revokeRoute :: "auth_deps \<Rightarrow> client_request \<Rightarrow> unit db" where
  "revokeRoute d request = with_refusals d (settled (respondToRevocationRequest d request))"

definition respondToIntrospectionRequest ::
  "auth_deps \<Rightarrow> client_request \<Rightarrow> (exn + introspection_response) req" where
  "respondToIntrospectionRequest d request =
     after_authentication d request (\<lambda>a. on_work (tget (introspect (ea_deps d)
       (coalesce (readOptionalField (rc_body request) ''token'') [])
       (cl_clientId (au_client a), oc_audiences (au_config a)))))"

definition introspectRoute :: "auth_deps \<Rightarrow> client_request \<Rightarrow> introspection_response db" where
  "introspectRoute d request = with_refusals d (settled (respondToIntrospectionRequest d request))"

section \<open>Who was authenticated\<close>

text \<open>The secret a client holds at an instant: its own, or the one rotated out of its window.\<close>

definition current_secret :: "auth_deps \<Rightarrow> client \<Rightarrow> string \<Rightarrow> bool" where
  "current_secret d client secret \<longleftrightarrow>
     (\<exists>hash. cl_secretHash client = Some hash \<and> ea_verifyPassword d hash secret)
     \<or> (\<exists>hash until. cl_previousSecretHash client = Some hash \<and> cl_previousSecretExpiresAt client = Some until
          \<and> dp_now (ea_deps d) < until \<and> ea_verifyPassword d hash secret)"

text \<open>The four ways a client proves itself, and the public client that only names itself.\<close>

definition proved :: "auth_deps \<Rightarrow> client_request \<Rightarrow> store \<Rightarrow> authenticated \<Rightarrow> bool" where
  "proved d request s a \<longleftrightarrow>
     (let client = au_client a; config = au_config a; body = rc_body request;
          endpoints = map tokenEndpointOf (dp_acceptedIssuers (ea_deps d))
      in (cl_type client = Public \<and> au_settle a = NothingToSettle
            \<and> readOptionalField body ''client_id'' = Some (cl_clientId client))
         \<or> (cl_type client = Confidential \<and> au_settle a = NothingToSettle
            \<and> oc_authMethod config = ClientSecretBasic
            \<and> (\<exists>secret. parseBasicAuth d (rc_authorization request) = Inr (Some (cl_clientId client, secret))
                 \<and> current_secret d client secret))
         \<or> (cl_type client = Confidential \<and> au_settle a = NothingToSettle
            \<and> oc_authMethod config = ClientSecretPost
            \<and> readOptionalField body ''client_id'' = Some (cl_clientId client)
            \<and> (\<exists>secret. readOptionalField body ''client_secret'' = Some secret
                 \<and> current_secret d client secret))
         \<or> (cl_type client = Confidential \<and> au_settle a = NothingToSettle
            \<and> oc_authMethod config = TlsClientAuth \<and> ea_trustProxy d
            \<and> readOptionalField body ''client_id'' = Some (cl_clientId client)
            \<and> (\<exists>subject registered. oc_tlsClientAuthSubjectDn config = Some registered
                 \<and> rc_headers request (toLowerCase (ea_tlsClientCertHeader d)) = Some (One subject)
                 \<and> tlsClientAuthSubjectMatches subject registered))
         \<or> (oc_authMethod config = PrivateKeyJwt
            \<and> (\<exists>x jwks. parseClientAssertion d body (dp_now (ea_deps d)) endpoints = AssertionOk x
                 \<and> as_claimedClientId x = cl_clientId client \<and> client_keys d client config = Inr jwks
                 \<and> verifyJwtAgainstJwkSet d (as_assertion x) jwks (cl_clientId client) endpoints
                 \<and> \<not> spentWithin (cl_clientId client, as_jti x) (st_jtis s)
                 \<and> au_settle a = SpendJti (cl_clientId client, as_jti x) (as_expiresAt x))))"

lemma verifyClientSecret_True:
  assumes "verifyClientSecret client presented (ea_verifyPassword d) (dp_now (ea_deps d))"
  shows "cl_enabled client \<and> (cl_type client = Public \<and> presented = None
    \<or> cl_type client = Confidential \<and> (\<exists>secret. presented = Some secret \<and> current_secret d client secret))"
  using assms unfolding verifyClientSecret_def current_secret_def
  by (cases "cl_type client") (auto split: if_splits option.splits)

lemma client_byClientId_Some:
  "client_byClientId i rows = Some c \<Longrightarrow> c \<in> set rows \<and> cl_clientId c = i"
  by (auto simp: client_byClientId_def dest: find_SomeD)

lemma verifyClientCredentials_Inr:
  assumes "verifyClientCredentials d i basic bodySecret m s = Inr (client, config)"
  shows "client \<in> set (st_clients s) \<and> cl_clientId client = i \<and> cl_enabled client
    \<and> config_byClientId (cl_id client) (st_configs s) = Some config
    \<and> (cl_registrationOrigin client = ''cimd'' \<longrightarrow> ea_cimdEnabled d)
    \<and> (cl_type client = Public \<and> basic = None \<and> bodySecret = None
       \<or> cl_type client = Confidential \<and> oc_authMethod config = ClientSecretBasic
         \<and> (\<exists>c secret. basic = Some (c, secret) \<and> current_secret d client secret)
       \<or> cl_type client = Confidential \<and> oc_authMethod config = ClientSecretPost \<and> basic = None
         \<and> (\<exists>secret. bodySecret = Some secret \<and> current_secret d client secret))"
proof -
  from assms obtain presented where
    c: "client_byClientId i (st_clients s) = Some client"
       "config_byClientId (cl_id client) (st_configs s) = Some config"
       "cl_registrationOrigin client = ''cimd'' \<longrightarrow> ea_cimdEnabled d" and
    p: "presented_secret client config basic bodySecret m = Inr presented"
       "verifyClientSecret client presented (ea_verifyPassword d) (dp_now (ea_deps d))"
    by (auto simp: verifyClientCredentials_def split: option.splits if_splits sum.splits)
  from p(1) have "basic = None \<and> bodySecret = None \<and> presented = None
      \<or> (\<exists>c secret. basic = Some (c, secret) \<and> presented = Some secret \<and> oc_authMethod config = ClientSecretBasic)
      \<or> basic = None \<and> bodySecret = presented \<and> presented \<noteq> None \<and> oc_authMethod config = ClientSecretPost"
    by (auto simp: presented_secret_def split: option.splits if_splits)
  with verifyClientSecret_True [OF p(2)] client_byClientId_Some [OF c(1)] c(2,3) show ?thesis by auto
qed

lemma map_sum_eq_Inr: "map_sum f g x = Inr y \<longleftrightarrow> (\<exists>z. x = Inr z \<and> y = g z)"
  by (cases x) auto

lemma map_sum_eq_Inl: "map_sum f g x = Inl y \<longleftrightarrow> (\<exists>z. x = Inl z \<and> y = f z)"
  by (cases x) auto

lemma authenticateClient_Inr:
  assumes "authenticateClient d basic bodyId bodySecret s = Inr (client, config)"
  shows "verifyClientCredentials d (cl_clientId client) basic bodySecret
      (coalesce (attempted_method basic bodySecret) ''none'') s = Inr (client, config)
    \<and> js_or_else (map_option fst basic) bodyId = Some (cl_clientId client)
    \<and> (basic = None \<or> bodySecret = None)"
proof -
  have one: "basic = None \<or> bodySecret = None" using assms by (cases basic; cases bodySecret) (auto simp: authenticateClient_def)
  with assms obtain i where "js_or_else (map_option fst basic) bodyId = Some i"
    "verifyClientCredentials d i basic bodySecret
      (coalesce (attempted_method basic bodySecret) ''none'') s = Inr (client, config)"
    by (auto simp: authenticateClient_def Let_def split: if_splits option.splits sum.splits exn.splits)
  note this one
  then show ?thesis using verifyClientCredentials_Inr by metis
qed

lemma authenticatePrivateKeyJwt_Inr:
  assumes "authenticatePrivateKeyJwt d outcome endpoints s = Inr a"
  shows "\<exists>x jwks. outcome = AssertionOk x \<and> au_client a \<in> set (st_clients s) \<and> cl_enabled (au_client a)
    \<and> as_claimedClientId x = cl_clientId (au_client a)
    \<and> config_byClientId (cl_id (au_client a)) (st_configs s) = Some (au_config a)
    \<and> oc_authMethod (au_config a) = PrivateKeyJwt
    \<and> client_keys d (au_client a) (au_config a) = Inr jwks
    \<and> verifyJwtAgainstJwkSet d (as_assertion x) jwks (cl_clientId (au_client a)) endpoints
    \<and> \<not> spentWithin (cl_clientId (au_client a), as_jti x) (st_jtis s)
    \<and> au_settle a = SpendJti (cl_clientId (au_client a), as_jti x) (as_expiresAt x)"
  using assms
  by (auto simp: authenticatePrivateKeyJwt_def dest: client_byClientId_Some
      split: assertion_outcome.splits option.splits if_splits sum.splits)

lemma authenticateTlsClientAuth_Inr:
  assumes "authenticateTlsClientAuth d subject i s = Inr (client, config)"
  shows "client \<in> set (st_clients s) \<and> cl_enabled client \<and> cl_type client = Confidential
    \<and> i = Some (cl_clientId client)
    \<and> config_byClientId (cl_id client) (st_configs s) = Some config
    \<and> oc_authMethod config = TlsClientAuth
    \<and> (\<exists>registered. oc_tlsClientAuthSubjectDn config = Some registered
         \<and> tlsClientAuthSubjectMatches subject registered)"
  using assms
  by (auto simp: authenticateTlsClientAuth_def Let_def dest: client_byClientId_Some
      split: option.splits if_splits)

lemma tlsClientSubject_Present:
  "tlsClientSubject headers raw trust name = TlsPresent v \<Longrightarrow>
     trust \<and> headers (toLowerCase name) = Some (One v)"
  by (auto simp: tlsClientSubject_def Let_def split: if_splits option.splits param.splits)

lemma authenticateEndpointClient_Inr:
  assumes "authenticateEndpointClient d request s = Inr a"
  shows "au_client a \<in> set (st_clients s) \<and> cl_enabled (au_client a)
    \<and> config_byClientId (cl_id (au_client a)) (st_configs s) = Some (au_config a)
    \<and> proved d request s a"
proof -
  let ?endpoints = "map tokenEndpointOf (dp_acceptedIssuers (ea_deps d))"
  let ?outcome = "parseClientAssertion d (rc_body request) (dp_now (ea_deps d)) ?endpoints"
  let ?secret = "readOptionalField (rc_body request) ''client_secret''"
  let ?id = "readOptionalField (rc_body request) ''client_id''"
  let ?cert = "tlsClientSubject (rc_headers request) (rc_rawHeaders request) (ea_trustProxy d)
    (ea_tlsClientCertHeader d)"
  obtain basic where basic: "parseBasicAuth d (rc_authorization request) = Inr basic"
    using assms by (auto simp: authenticateEndpointClient_def Let_def split: sum.splits)
  note run = assms [unfolded authenticateEndpointClient_def Let_def basic sum.case]
  show ?thesis
  proof (cases "?outcome = AssertionUnsupported")
    case False
    with run have "authenticatePrivateKeyJwt d ?outcome ?endpoints s = Inr a"
      by (simp split: if_splits)
    from authenticatePrivateKeyJwt_Inr [OF this] show ?thesis
      by (fastforce simp: proved_def Let_def)
  next
    case unsupported: True
    show ?thesis
    proof (cases ?cert)
      case (TlsPresent v)
      with run unsupported obtain client config where
        "authenticateTlsClientAuth d v ?id s = Inr (client, config)"
        "a = \<lparr>au_client = client, au_config = config, au_settle = NothingToSettle\<rparr>"
        by (auto simp: map_sum_eq_Inr split: if_splits)
      with authenticateTlsClientAuth_Inr tlsClientSubject_Present [OF TlsPresent] show ?thesis
        by (fastforce simp: proved_def Let_def)
    next
      case TlsAbsent
      with run unsupported obtain client config where
        a: "authenticateClient d basic ?id ?secret s = Inr (client, config)"
        "a = \<lparr>au_client = client, au_config = config, au_settle = NothingToSettle\<rparr>"
        by (auto simp: map_sum_eq_Inr split: if_splits)
      from authenticateClient_Inr [OF a(1)] have
        v: "verifyClientCredentials d (cl_clientId client) basic ?secret
          (coalesce (attempted_method basic ?secret) ''none'') s = Inr (client, config)"
        "js_or_else (map_option fst basic) ?id = Some (cl_clientId client)" by auto
      from verifyClientCredentials_Inr [OF v(1)] v(2) basic a(2) show ?thesis
        by (auto simp: proved_def Let_def)
    qed (use run in simp)
  qed
qed

text \<open>
  A refused client: one answer, but for the client whose failures spent their budget. A row of
  the trail, if one is asked for, names a registered client.
\<close>

definition names_client :: "store \<Rightarrow> refusal_audit option \<Rightarrow> bool" where
  "names_client s audit \<longleftrightarrow> (\<forall>au. audit = Some au \<longrightarrow> has_client s (ra_clientDbId au))"

definition refusal_of_client :: "store \<Rightarrow> exn \<Rightarrow> bool" where
  "refusal_of_client s e \<longleftrightarrow>
     (\<exists>te. e = TokenError te \<and> response_of te = response_of (invalidClient WWW_AUTHENTICATE)
        \<and> names_client s (te_audit te))
     \<or> (\<exists>n au. e = TokenRateLimited n au \<and> names_client s au)"

lemma refusal_invalid_client [simp]: "refusal_of_client s invalid_client"
  by (simp add: refusal_of_client_def invalid_client_def names_client_def token_error_defs)

lemma refusal_bad_credential:
  "client \<in> set (st_clients s) \<Longrightarrow> refusal_of_client s (bad_credential m r client)"
  by (auto simp: refusal_of_client_def bad_credential_def names_client_def withAudit_def has_client_def
      response_of_def)

lemma verifyClientCredentials_Inl:
  assumes "verifyClientCredentials d i basic bodySecret m s = Inl e"
  shows "\<exists>te. e = TokenError te \<and> refusal_of_client s (TokenError te)"
proof -
  from assms have "e = invalid_client \<or> (\<exists>r client. client \<in> set (st_clients s) \<and> e = bad_credential m r client)"
    by (auto simp: verifyClientCredentials_def presented_secret_def dest!: client_byClientId_Some
        split: option.splits if_splits sum.splits)
  moreover have "\<exists>te. invalid_client = TokenError te" "\<exists>te. bad_credential m r client = TokenError te"
    for r client by (simp_all add: invalid_client_def bad_credential_def)
  ultimately show ?thesis by (metis refusal_invalid_client refusal_bad_credential)
qed

lemma limited_refusal:
  "refusal_of_client s (TokenError te) \<Longrightarrow> refusal_of_client s (limited d i m te)"
  by (auto simp: limited_def refusal_of_client_def names_client_def split: prod.splits)

lemma authenticateClient_Inl:
  assumes "authenticateClient d basic bodyId bodySecret s = Inl e"
  shows "refusal_of_client s e"
proof (cases "basic \<noteq> None \<and> bodySecret \<noteq> None \<or> js_or_else (map_option fst basic) bodyId = None")
  case True
  with assms have "e = invalid_client" by (auto simp: authenticateClient_def split: if_splits)
  then show ?thesis by simp
next
  case False
  then obtain i where i: "js_or_else (map_option fst basic) bodyId = Some i"
    "\<not> (basic \<noteq> None \<and> bodySecret \<noteq> None)" by auto
  let ?v = "verifyClientCredentials d i basic bodySecret (coalesce (attempted_method basic bodySecret) ''none'') s"
  from assms i obtain e' where v: "?v = Inl e'"
    by (cases ?v) (auto simp: authenticateClient_def)
  from verifyClientCredentials_Inl [OF v] obtain te where
    te: "e' = TokenError te" "refusal_of_client s (TokenError te)" by blast
  with assms i v have "e = limited d i (attempted_method basic bodySecret) te"
    by (auto simp: authenticateClient_def Let_def split: if_splits)
  then show ?thesis using limited_refusal te(2) by blast
qed

lemma authenticatePrivateKeyJwt_Inl:
  "authenticatePrivateKeyJwt d outcome endpoints s = Inl e \<Longrightarrow> refusal_of_client s e"
  by (auto simp: authenticatePrivateKeyJwt_def client_keys_def
      intro!: refusal_bad_credential dest: client_byClientId_Some
      split: sum.splits option.splits if_splits assertion_outcome.splits)

lemma authenticateTlsClientAuth_Inl:
  "authenticateTlsClientAuth d subject i s = Inl e \<Longrightarrow> refusal_of_client s e"
  by (auto simp: authenticateTlsClientAuth_def Let_def
      intro!: refusal_bad_credential dest: client_byClientId_Some
      split: option.splits if_splits)

lemma authenticateEndpointClient_Inl:
  "authenticateEndpointClient d request s = Inl e \<Longrightarrow> refusal_of_client s e"
  by (auto simp: authenticateEndpointClient_def map_sum_eq_Inl parseBasicAuth_def Let_def
      dest: authenticateClient_Inl authenticatePrivateKeyJwt_Inl authenticateTlsClientAuth_Inl
      split: sum.splits option.splits if_splits)

end
