(* ===== verification/Endpoints.thy ===== *)
theory Endpoints
  imports Client_Auth
begin

text \<open>
  The three endpoints of a client as whole requests: what their settlement leaves of the spent
  assertions, and what else they leave. The interface \<open>token_frame\<close> is that of a part of the
  tables the grants do not write; the spent assertions are its instance.
\<close>

section \<open>Frames\<close>

text \<open>
  A predicate on the tables that the grants of the token endpoint do not write. Every request
  keeps it, on the committed store and on the request's own.
\<close>

locale token_frame =
  fixes I :: "store \<Rightarrow> bool"
  assumes codes: "I s \<Longrightarrow> I (s\<lparr>st_codes := c\<rparr>)"
    and grants: "I s \<Longrightarrow> I (s\<lparr>st_grants := g\<rparr>)"
    and refresh: "I s \<Longrightarrow> I (s\<lparr>st_refresh := r\<rparr>)"
    and sessions: "I s \<Longrightarrow> I (s\<lparr>st_sessions := x\<rparr>)"
    and audit: "I s \<Longrightarrow> I (s\<lparr>st_audit := a\<rparr>)"
begin

lemma create_grant: "keeps I (create_grant now input)"
proof (rule keepsI)
  fix s r s' assume "I s" "create_grant now input s = (r, s')"
  then show "I s'" by (cases r) (auto dest: create_grant_Inr create_grant_Inl intro: grants)
qed

lemma create_refresh: "keeps I (create_refresh now h i e)"
  by (auto simp: keeps_def create_refresh_def intro: refresh split: option.splits if_splits)

lemma keeps_prod: "(\<And>a b. keeps J (f a b)) \<Longrightarrow> keeps J (case p of (a, b) \<Rightarrow> f a b)"
  by (cases p) simp

lemma keeps_outcome:
  "(\<And>g n. keeps J (f g n)) \<Longrightarrow> (\<And>g n. keeps J (h g n)) \<Longrightarrow> keeps J m1 \<Longrightarrow> keeps J m2 \<Longrightarrow>
     keeps J (case out of Rotated g n \<Rightarrow> f g n | Reused a b \<Rightarrow> h a b | FamilyRevoked \<Rightarrow> m1 | UnknownToken \<Rightarrow> m2)"
  by (cases out) auto

lemmas rules = keeps_intros create_refresh create_grant keeps_prod keeps_outcome
  keeps_codes_tx keeps_refresh_tx keeps_grants_tx keeps_sessions_tx codes grants refresh sessions audit

abbreviation both :: "store \<times> store \<Rightarrow> bool" where
  "both cw \<equiv> I (fst cw) \<and> I (snd cw)"

lemma code_request: "keeps both (issueAuthorizationCodeTokens d q client config lt)"
  unfolding issueAuthorizationCodeTokens_def redeemAuthorizationCode_def issue_for_code_def
    code_id_token_def code_refresh_token_def revoke_replayed_def recordCodeReplayRevocation_def
  by (intro rules)

lemma rotate: "keeps I (rotateRefreshToken d h ttl scope)"
  unfolding rotateRefreshToken_def refuse_rotation_def session_allows_def replace_token_def
  by (intro rules)

lemma refresh_request: "keeps both (issueRefreshTokens d q client config lt)"
  unfolding issueRefreshTokens_def
  by (intro rules rotate keeps_evaluatePresented keeps_issue_for_rotated)

lemma create_or_unauthorized: "keeps I (create_grant_or_unauthorized d input)"
proof (rule keepsI)
  fix s r s' assume s: "I s" and run: "create_grant_or_unauthorized d input s = (r, s')"
  obtain r1 s1 where c: "create_grant (dp_dbNow d) input s = (r1, s1)" by fastforce
  with run have "s' = s1"
    by (auto simp: create_grant_or_unauthorized_def split: sum.splits exn.splits)
  then show "I s'" using keepsD [OF create_grant s c] by simp
qed

lemma cc_request: "keeps I (issueClientCredentialsTokens d q client config lt)"
  unfolding issueClientCredentialsTokens_def by (intro rules create_or_unauthorized)

lemma keeps_type:
  "keeps J f \<Longrightarrow> keeps J g \<Longrightarrow> keeps J h \<Longrightarrow>
     keeps J (case t of RefreshToken \<Rightarrow> f | IdToken \<Rightarrow> g | AccessToken \<Rightarrow> h)"
  by (cases t) auto

lemma exchange: "keeps I (issueExchangedTokens d q client config lt)"
  unfolding issueExchangedTokens_def exchanged_refresh_token_def exchanged_id_token_def
    exchanged_access_token_def recordExchange_def
  by (intro rules keeps_type keeps_exchange_terms)

lemma keeps_request:
  "(\<And>q. keeps J (f q)) \<Longrightarrow> (\<And>q. keeps J (g q)) \<Longrightarrow> (\<And>q. keeps J (h q)) \<Longrightarrow> (\<And>q. keeps J (k q)) \<Longrightarrow>
     keeps J (case request of CodeRequest q \<Rightarrow> f q | RefreshRequest q \<Rightarrow> g q
       | ClientCredentialsRequest q \<Rightarrow> h q | ExchangeRequest q \<Rightarrow> k q)"
  by (cases request) auto

lemma authenticated_request: "keeps both (issueForAuthenticatedClient d request client config)"
  unfolding issueForAuthenticatedClient_def
  by (intro rules keeps_request code_request refresh_request cc_request exchange)

lemma annotated_request: "keeps both (issue_annotated d request client config)"
proof (rule keepsI)
  fix cw r cw' assume b: "both cw" and run: "issue_annotated d request client config cw = (r, cw')"
  obtain r1 cw1 where i: "issueForAuthenticatedClient d request client config cw = (r1, cw1)" using prod.exhaust by blast
  with run have "cw' = cw1" by (auto simp: issue_annotated_def split: sum.splits exn.splits)
  then show "both cw'" using keepsD [OF authenticated_request b i] by simp
qed

lemma revocation: "keeps I (revokeFor d token client)"
  unfolding revokeFor_def by (intro rules)

end

interpretation jtis_frame: token_frame "\<lambda>s. st_jtis s = J" for J
  by unfold_locales simp_all

section \<open>Settled requests\<close>

definition spend :: "string \<times> string \<Rightarrow> time \<Rightarrow> store \<Rightarrow> store" where
  "spend k e s = s\<lparr>st_jtis := snd (claimWithin e k (st_jtis s))\<rparr>"

lemma spend_jtis:
  "set (st_jtis (spend k e s)) = set (st_jtis s)
     \<union> (if spentWithin k (st_jtis s) then {}
        else {\<lparr>aj_oauthClientId = fst k, aj_jti = snd k, aj_expiresAt = e\<rparr>})"
  by (simp add: spend_def claimWithin_eq Let_def)

text \<open>A request that settles nothing, or spends its assertion whether or not its work is done.\<close>

lemma settled_settle:
  assumes "settled (settle d st work) s = (r, s')"
  shows "case st of
      NothingToSettle \<Rightarrow> in_request work s = (r, s')
    | SpendJti k e \<Rightarrow>
        if ea_spendRefused d
        then isl r \<and> (\<exists>r1 w. work (s, s) = (r1, (s', w)))
        else \<exists>s1. in_request work s = (r, s1) \<and> s' = spend k e s1"
proof -
  obtain r1 c w where w: "work (s, s) = (r1, (c, w))" by (metis prod.exhaust)
  show ?thesis
    using assms w
    by (cases r1)
       (auto simp: settled_def settle_def in_request_def spend_def Let_def split: settlement.splits if_splits)
qed

lemma after_authentication_run:
  "settled (after_authentication d request work) s =
     (case authenticateEndpointClient d request s of
        Inl e \<Rightarrow> (Inl e, s)
      | Inr a \<Rightarrow> settled (settle d (au_settle a) (work a)) s)"
  by (simp add: settled_def after_authentication_def in_request_def split: sum.splits)

lemma recorded_event:
  "snd (atomically (audit_record d e) s) = s \<or> snd (atomically (audit_record d e) s) = s\<lparr>st_audit := st_audit s @ [e]\<rparr>"
proof -
  obtain r s1 where "audit_record d e s = (r, s1)" by (metis prod.exhaust)
  with audit_record_Inr(1) [of d e s _ s1] show ?thesis by (cases r) (auto simp: atomically_def)
qed

lemma recordRefusal_audit:
  "recordRefusal d au s = s
   \<or> (\<exists>e a. recordRefusal d au s = s\<lparr>st_audit := st_audit s @ [e]\<rparr> \<and> au = Some a
        \<and> ae_actorClientId e = Some (ra_clientDbId a) \<and> ae_outcome e = Refused)"
proof (cases au)
  case None
  then show ?thesis by (simp add: recordRefusal_def)
next
  case (Some a)
  define reason where "reason = (if ea_budget d (ea_tenantId d @ '':'' @ ra_clientDbId a) = BudgetLastRow
    then ''rate_limited'' else ra_reason a)"
  define e where "e = refusal_event a reason"
  have e: "ae_actorClientId e = Some (ra_clientDbId a)" "ae_outcome e = Refused"
    by (simp_all add: e_def refusal_event_def)
  have "recordRefusal d au s = s \<or> recordRefusal d au s = snd (atomically (audit_record (ea_deps d) e) s)"
    by (simp add: Some recordRefusal_def Let_def reason_def e_def)
  with recorded_event [of "ea_deps d" e s] e Some show ?thesis by force
qed

lemma with_refusals_run:
  assumes "with_refusals d run s = (r, s')"
  shows "\<exists>s1. run s = (r, s1) \<and> (s' = s1 \<or> (\<exists>te. r = Inl (TokenError te) \<and> s' = recordRefusal d (te_audit te) s1)
    \<or> (\<exists>n au. r = Inl (TokenRateLimited n au) \<and> s' = recordRefusal d au s1))"
proof -
  obtain r1 s1 where run: "run s = (r1, s1)" by (metis prod.exhaust)
  show ?thesis
    using assms by (auto simp: with_refusals_def run split: sum.splits exn.splits)
qed

text \<open>A client refused at an endpoint: the reply, and what it leaves.\<close>

lemma refused_client_route:
  assumes run: "with_refusals d run s = (r, s')" and refused: "run s = (Inl e, s)" "refusal_of_client s e"
  shows "(reply_of r = ErrorBody (InvalidClient, 401, Some WWW_AUTHENTICATE) \<or> (\<exists>n. reply_of r = TooManyRequests n))
    \<and> (s' = s \<or> (\<exists>row i. s' = s\<lparr>st_audit := st_audit s @ [row]\<rparr> \<and> ae_outcome row = Refused
         \<and> ae_actorClientId row = Some i \<and> has_client s i))"
proof -
  from with_refusals_run [OF run] refused(1) have r: "r = Inl e" and
    s': "s' = s \<or> (\<exists>te. e = TokenError te \<and> s' = recordRefusal d (te_audit te) s)
      \<or> (\<exists>n au. e = TokenRateLimited n au \<and> s' = recordRefusal d au s)" by auto
  have "names_client s au \<Longrightarrow> s' = recordRefusal d au s \<Longrightarrow>
      s' = s \<or> (\<exists>row i. s' = s\<lparr>st_audit := st_audit s @ [row]\<rparr> \<and> ae_outcome row = Refused
         \<and> ae_actorClientId row = Some i \<and> has_client s i)" for au
    using recordRefusal_audit [of d au s] unfolding names_client_def by metis
  with s' refused(2) have "s' = s \<or> (\<exists>row i. s' = s\<lparr>st_audit := st_audit s @ [row]\<rparr> \<and> ae_outcome row = Refused
         \<and> ae_actorClientId row = Some i \<and> has_client s i)"
    unfolding refusal_of_client_def by blast
  moreover have "reply_of r = ErrorBody (InvalidClient, 401, Some WWW_AUTHENTICATE) \<or> (\<exists>n. reply_of r = TooManyRequests n)"
    using refused(2) by (auto simp: r refusal_of_client_def reply_of_def response_of_def token_error_defs)
  ultimately show ?thesis by blast
qed

lemma recordRefusal_jtis: "st_jtis (recordRefusal d au s) = st_jtis s"
  using recordRefusal_audit [of d au s] by auto

lemma with_refusals_jtis: "with_refusals d run s = (r, s') \<Longrightarrow> \<exists>s1. run s = (r, s1) \<and> st_jtis s' = st_jtis s1"
  by (drule with_refusals_run) (auto simp: recordRefusal_jtis)

text \<open>What a request leaves of the spent assertions: all there were, and its own.\<close>

lemma after_authentication_jtis:
  assumes work: "\<And>a J. keeps (\<lambda>cw. st_jtis (fst cw) = J \<and> st_jtis (snd cw) = J) (work a)"
    and run: "settled (after_authentication d request work) s = (r, s')"
  shows "set (st_jtis s) \<subseteq> set (st_jtis s')
    \<and> (\<forall>a k e. authenticateEndpointClient d request s = Inr a \<and> au_settle a = SpendJti k e
         \<and> \<not> ea_spendRefused d \<longrightarrow>
       \<lparr>aj_oauthClientId = fst k, aj_jti = snd k, aj_expiresAt = e\<rparr> \<in> set (st_jtis s'))"
proof (cases "authenticateEndpointClient d request s")
  case (Inl e)
  with run show ?thesis by (simp add: after_authentication_run)
next
  case (Inr a)
  with run have st: "settled (settle d (au_settle a) (work a)) s = (r, s')"
    by (simp add: after_authentication_run)
  have both: "st_jtis c = st_jtis s \<and> st_jtis w = st_jtis s" if "work a (s, s) = (r1, (c, w))" for r1 c w
    using keepsD [OF work _ that, of "st_jtis s"] by simp
  have req: "st_jtis s1 = st_jtis s" if "in_request (work a) s = (r1, s1)" for r1 s1
    using that both by (cases r1) (auto simp: in_request_Inr in_request_Inl)
  show ?thesis
  proof (cases "au_settle a")
    case NothingToSettle
    with settled_settle [OF st] Inr req show ?thesis by auto
  next
    case (SpendJti k e)
    have unspent: "\<not> spentWithin k (st_jtis s)"
      using authenticateEndpointClient_Inr [OF Inr] SpendJti by (auto simp: proved_def Let_def)
    from settled_settle [OF st] SpendJti both req have
      "if ea_spendRefused d then st_jtis s' = st_jtis s
       else \<exists>s1. st_jtis s1 = st_jtis s \<and> s' = spend k e s1"
      by (fastforce split: if_splits)
    then show ?thesis
      using unspent Inr SpendJti by (auto simp: spend_jtis split: if_splits)
  qed
qed

text \<open>
  What a request has committed of its own when its work is done: nothing, or (a rotation) all
  of it. So a request whose assertion cannot be spent leaves one or the other.
\<close>

lemma request_commits:
  assumes "issueForAuthenticatedClient d request client config (s, s) = (Inr resp, (c, w))"
  shows "c = s \<or> c = w"
proof (cases request)
  case (CodeRequest q)
  with assms show ?thesis
    by (auto simp: issueForAuthenticatedClient_def issueAuthorizationCodeTokens_def tx_simps tfail_def
        dest!: redeem_Inr split: if_splits)
next
  case (RefreshRequest q)
  with assms obtain lt where run: "issueRefreshTokens d q client config lt (s, s) = (Inr resp, (c, w))"
    by (auto simp: issueForAuthenticatedClient_def tx_simps tfail_def split: if_splits)
  then obtain policy outcome c1 where
    out: "(case outcome of
        Reused family sub \<Rightarrow>
          tfail (TokenError (withAudit invalidGrant
            (refusal_audit_of ''token.refresh'' ''replayed'' (cl_id client) sub (Some family))))
      | Rotated grant next \<Rightarrow> on_work (issue_for_rotated d q client lt policy grant next)
      | _ \<Rightarrow> tfail (TokenError invalidGrant)) (c1, c1) = (Inr resp, (c, w))"
    by (auto simp: issueRefreshTokens_def Let_def tx_simps independently_run split: prod.splits)
  then obtain g n where "on_work (issue_for_rotated d q client lt policy g n) (c1, c1) = (Inr resp, (c, w))"
    by (cases outcome) (auto simp: tfail_def)
  then have "issue_for_rotated d q client lt policy g n c1 = (Inr resp, w)" "c = c1"
    by (auto simp: on_work_run)
  then show ?thesis using reads [OF keeps_issue_for_rotated] by blast
qed (use assms in \<open>auto simp: issueForAuthenticatedClient_def tx_simps tfail_def split: if_splits\<close>)

lemma issue_annotated_run:
  "issue_annotated d request client config cw = (r, cw') \<Longrightarrow>
     \<exists>r1. issueForAuthenticatedClient d request client config cw = (r1, cw')
       \<and> (\<forall>x. r = Inr x \<longrightarrow> r1 = r) \<and> (isl r \<longleftrightarrow> isl r1)"
  by (auto simp: issue_annotated_def split: prod.splits sum.splits exn.splits)

text \<open>What the three routes leave, but for the trail and the spent assertions.\<close>

definition only_trail :: "store \<Rightarrow> store \<Rightarrow> bool" where
  "only_trail s s' \<longleftrightarrow> (\<exists>audit jtis. s' = s\<lparr>st_audit := audit, st_jtis := jtis\<rparr>)"

lemma only_trail_refl [simp]: "only_trail s s"
  unfolding only_trail_def by (intro exI [of _ "st_audit s"] exI [of _ "st_jtis s"]) simp

lemma only_trail_spend: "only_trail s0 s \<Longrightarrow> only_trail s0 (spend k e s)"
  unfolding only_trail_def spend_def by force

lemma only_trail_audit: "only_trail s0 s \<Longrightarrow> only_trail s0 (s\<lparr>st_audit := rows\<rparr>)"
proof -
  assume "only_trail s0 s"
  then obtain audit jtis where "s = s0\<lparr>st_audit := audit, st_jtis := jtis\<rparr>" unfolding only_trail_def by blast
  then show ?thesis unfolding only_trail_def by (intro exI [of _ rows] exI [of _ jtis]) simp
qed

lemma only_trail_refusal: "only_trail s0 s \<Longrightarrow> only_trail s0 (recordRefusal d au s)"
  using recordRefusal_audit [of d au s] only_trail_audit by metis

lemma after_authentication_effect:
  assumes st: "settled (after_authentication d request work) s = (r, s')"
    and commits: "\<And>a x c w. work a (s, s) = (Inr x, (c, w)) \<Longrightarrow> c = s \<or> c = w"
  shows "s' = s \<or> (\<exists>a r1 s1. in_request (work a) s = (r1, s1) \<and> only_trail s1 s')"
proof (cases "authenticateEndpointClient d request s")
  case (Inl e)
  with st show ?thesis by (simp add: after_authentication_run)
next
  case (Inr a)
  have half: "s' = s \<or> (\<exists>r1. in_request (work a) s = (r1, s'))"
    if "work a (s, s) = (r0, (s', w))" for r0 w
    using that commits [of a] by (cases r0) (auto simp: in_request_def)
  from Inr st have "settled (settle d (au_settle a) (work a)) s = (r, s')"
    by (simp add: after_authentication_run)
  from settled_settle [OF this] show ?thesis
    using half by (auto split: settlement.splits if_splits) (meson only_trail_refl only_trail_spend)+
qed

lemma routes_effect:
  assumes run: "with_refusals d (settled (after_authentication d request work)) s = (r, s')"
    and commits: "\<And>a x c w. work a (s, s) = (Inr x, (c, w)) \<Longrightarrow> c = s \<or> c = w"
  shows "only_trail s s' \<or> (\<exists>a r1 s1. in_request (work a) s = (r1, s1) \<and> only_trail s1 s')"
proof -
  obtain s2 where s2: "settled (after_authentication d request work) s = (r, s2)"
    "s' = s2 \<or> (\<exists>au. s' = recordRefusal d au s2)"
    using with_refusals_run [OF run] by auto
  have "s2 = s \<or> (\<exists>a r1 s1. in_request (work a) s = (r1, s1) \<and> only_trail s1 s2)"
    by (rule after_authentication_effect [OF s2(1)]) (rule commits)
  with s2(2) show ?thesis using only_trail_refusal only_trail_refl by metis
qed

lemma tokenRoute_effect:
  assumes run: "tokenRoute d request s = (r, s')"
  shows "only_trail s s' \<or> (\<exists>structured client config r1 s1.
    in_request (issueForAuthenticatedClient (ea_deps d) structured client config) s = (r1, s1) \<and> only_trail s1 s')"
proof (cases "parseStructure (rc_body request)")
  case (Inl e)
  with run show ?thesis
    by (auto simp: tokenRoute_def with_refusals_def settled_def issueTokens_def in_request_def intro: only_trail_refusal)
next
  case (Inr structured)
  let ?work = "\<lambda>a::authenticated. issue_annotated (ea_deps d) structured (au_client a) (au_config a)"
  have "issueTokens d request = after_authentication d request ?work"
    by (rule ext) (simp add: issueTokens_def Inr)
  with run have r: "with_refusals d (settled (after_authentication d request ?work)) s = (r, s')"
    by (simp add: tokenRoute_def)
  have commits: "c = s \<or> c = w" if w: "?work a (s, s) = (Inr x, (c, w))" for a x c w
    using issue_annotated_run [OF w] request_commits by blast
  have "only_trail s s' \<or> (\<exists>a r1 s1. in_request (?work a) s = (r1, s1) \<and> only_trail s1 s')"
    by (rule routes_effect [OF r]) (rule commits)
  moreover have "\<exists>r1. in_request (issueForAuthenticatedClient (ea_deps d) structured (au_client a) (au_config a)) s
      = (r1, s1)" if "in_request (?work a) s = (r0, s1)" for a r0 s1
    using that by (cases r0) (auto simp: in_request_def split: prod.splits sum.splits dest!: issue_annotated_run)
  ultimately show ?thesis by metis
qed

lemma revokeRoute_effect:
  assumes "revokeRoute d request s = (r, s')"
  shows "only_trail s s' \<or> (\<exists>token client r1 s1.
    atomically (revokeFor (ea_deps d) token client) s = (r1, s1) \<and> only_trail s1 s')"
  using routes_effect [OF assms [unfolded revokeRoute_def respondToRevocationRequest_def]]
  by (auto simp: on_work_run on_work_request)

lemma introspectRoute_effect: "introspectRoute d request s = (r, s') \<Longrightarrow> only_trail s s'"
  using routes_effect [of d request "\<lambda>a. on_work (tget (f a))" s r s' for f]
  by (auto simp: introspectRoute_def respondToIntrospectionRequest_def on_work_run on_work_request tget_run
      atomically_def tget_def)

section \<open>Assertions over time\<close>

text \<open>The retention of spent assertions (\<open>apps/server/src/cli/reap.ts\<close>).\<close>

definition reap_jtis :: "time \<Rightarrow> assertion_jti list \<Rightarrow> assertion_jti list" where
  "reap_jtis now rows = filter (\<lambda>row. \<not> aj_expiresAt row < now) rows"

text \<open>
  What happens to the spent assertions up to an instant \<open>t\<close>: any request at the three
  endpoints, any retention pass by then, and any write that leaves them alone.
\<close>

inductive endpoint_step :: "time \<Rightarrow> store \<Rightarrow> store \<Rightarrow> bool" for t where
  token: "tokenRoute d request s = (r, s') \<Longrightarrow> endpoint_step t s s'"
| revocation: "revokeRoute d request s = (u, s') \<Longrightarrow> endpoint_step t s s'"
| introspection: "introspectRoute d request s = (i, s') \<Longrightarrow> endpoint_step t s s'"
| retention: "now \<le> t \<Longrightarrow> s' = s\<lparr>st_jtis := reap_jtis now (st_jtis s)\<rparr> \<Longrightarrow> endpoint_step t s s'"
| other: "st_jtis s' = st_jtis s \<Longrightarrow> endpoint_step t s s'"

inductive_cases endpoint_stepE: "endpoint_step t s s'"

lemma tokenRoute_run:
  assumes "tokenRoute d request s = (r, s')"
  obtains e where "parseStructure (rc_body request) = Inl e" "st_jtis s' = st_jtis s"
      "r = Inl (TokenError e)"
  | structured s1 where "parseStructure (rc_body request) = Inr structured" "st_jtis s' = st_jtis s1"
      "settled (after_authentication d request
         (\<lambda>a. issue_annotated (ea_deps d) structured (au_client a) (au_config a))) s = (r, s1)"
proof -
  from assms obtain s1 where s1: "settled (issueTokens d request) s = (r, s1)" "st_jtis s' = st_jtis s1"
    unfolding tokenRoute_def by (blast dest: with_refusals_jtis)
  show ?thesis
  proof (cases "parseStructure (rc_body request)")
    case (Inl e)
    with s1 have "s1 = s" "r = Inl (TokenError e)"
      by (auto simp: settled_def issueTokens_def in_request_def)
    with Inl s1(2) show ?thesis by (intro that(1)) auto
  next
    case (Inr structured)
    with s1(1) have "settled (after_authentication d request
        (\<lambda>a. issue_annotated (ea_deps d) structured (au_client a) (au_config a))) s = (r, s1)"
      by (simp add: settled_def issueTokens_def in_request_def)
    with Inr s1(2) show ?thesis by (rule that(2))
  qed
qed

lemma revokeFor_jtis: "keeps (\<lambda>cw. st_jtis (fst cw) = J \<and> st_jtis (snd cw) = J) (on_work (revokeFor d token client))"
  by (rule keeps_on_work) (rule jtis_frame.revocation)

lemma tget_jtis: "keeps (\<lambda>cw. st_jtis (fst cw) = J \<and> st_jtis (snd cw) = J) (on_work (tget f))"
  by (rule keeps_on_work) (rule keeps_tget)

lemma endpoint_step_jtis:
  assumes "endpoint_step t s s'" and "row \<in> set (st_jtis s)" and "t \<le> aj_expiresAt row"
  shows "row \<in> set (st_jtis s')"
  using assms(1)
proof cases
  case (token d request r)
  then show ?thesis
  proof (cases rule: tokenRoute_run)
    case 1
    then show ?thesis using assms(2) by simp
  next
    case (2 structured s1)
    from after_authentication_jtis [OF jtis_frame.annotated_request 2(3)] 2(2) assms(2)
    show ?thesis by auto
  qed
next
  case (revocation d request u)
  then show ?thesis
    using after_authentication_jtis [OF revokeFor_jtis] assms(2)
    by (fastforce simp: revokeRoute_def respondToRevocationRequest_def dest!: with_refusals_jtis)
next
  case (introspection d request i)
  then show ?thesis
    using after_authentication_jtis [OF tget_jtis] assms(2)
    by (fastforce simp: introspectRoute_def respondToIntrospectionRequest_def dest!: with_refusals_jtis)
next
  case (retention now)
  then show ?thesis using assms(2,3) by (simp add: reap_jtis_def)
qed (use assms(2) in simp)

lemma endpoint_steps_jtis:
  "(endpoint_step t)\<^sup>*\<^sup>* s s' \<Longrightarrow> row \<in> set (st_jtis s) \<Longrightarrow> t \<le> aj_expiresAt row \<Longrightarrow> row \<in> set (st_jtis s')"
  by (induction rule: rtranclp_induct) (auto intro: endpoint_step_jtis)

text \<open>The claims of an assertion that parses: its own, and within its time.\<close>

lemma parseClientAssertion_Ok:
  assumes "parseClientAssertion d body now endpoints = AssertionOk x"
  shows "body ''client_assertion'' = Some (One (as_assertion x))
    \<and> (\<exists>iss aud exp. clientAssertionClaims (decodeAssertionPayload d (as_assertion x))
           = Some (iss, as_claimedClientId x, aud, exp, as_jti x)
         \<and> as_expiresAt x = (exp + 30) * 1000 \<and> aud \<in> set endpoints)
    \<and> now < as_expiresAt x \<and> as_expiresAt x \<le> now + 330000"
  using assms
  by (auto simp: parseClientAssertion_def ASSERTION_LEEWAY_SECONDS_def MAX_ASSERTION_LIFETIME_SECONDS_def
      split: if_splits option.splits param.splits)

end
