(* ===== verification/Lifecycle.thy ===== *)
theory Lifecycle
  imports End_Session Endpoints
begin

text \<open>
  The life of a tenant's credentials as a state machine: the writes to codes, grants, refresh
  tokens and sessions, each one a step, and what every reachable store satisfies. A request at
  the token endpoint is one step, with its independent commits; concurrent requests are
  ordered by the row each has to update, so an interleaving is a sequence of steps.
\<close>

section \<open>What no step undoes\<close>

definition advance_list :: "('a \<Rightarrow> 'a \<Rightarrow> bool) \<Rightarrow> 'a list \<Rightarrow> 'a list \<Rightarrow> bool" where
  "advance_list R xs ys \<longleftrightarrow> (\<forall>x \<in> set xs. \<exists>y \<in> set ys. R x y)"

lemma advance_list_refl: "(\<And>x. R x x) \<Longrightarrow> advance_list R xs xs"
  by (auto simp: advance_list_def)

lemma advance_list_trans:
  "(\<And>x y z. R x y \<Longrightarrow> R y z \<Longrightarrow> R x z) \<Longrightarrow> advance_list R xs ys \<Longrightarrow> advance_list R ys zs \<Longrightarrow>
     advance_list R xs zs"
  unfolding advance_list_def by blast

lemma advance_list_map: "(\<And>x. R x (f x)) \<Longrightarrow> advance_list R xs (map f xs)"
  by (auto simp: advance_list_def)

lemma advance_list_update:
  "(\<And>x. R x x) \<Longrightarrow> (\<And>x. p x \<Longrightarrow> R x (f x)) \<Longrightarrow> advance_list R xs (update_where p f xs)"
  unfolding update_where_def by (rule advance_list_map) auto

lemma advance_list_append: "advance_list R xs ys \<Longrightarrow> advance_list R xs (ys @ zs)"
  by (auto simp: advance_list_def)

text \<open>A mark once set keeps its value.\<close>

definition marked :: "'a option \<Rightarrow> 'a option \<Rightarrow> bool" where
  "marked a b \<longleftrightarrow> (\<forall>t. a = Some t \<longrightarrow> b = Some t)"

lemma marked_simps [simp]: "marked a a" "marked None b"
  by (auto simp: marked_def)

lemma marked_trans: "marked a b \<Longrightarrow> marked b c \<Longrightarrow> marked a c"
  by (auto simp: marked_def)

definition code_advances :: "auth_code \<Rightarrow> auth_code \<Rightarrow> bool" where
  "code_advances c c' \<longleftrightarrow> ac_codeHash c' = ac_codeHash c \<and> ac_clientId c' = ac_clientId c
     \<and> ac_subjectId c' = ac_subjectId c \<and> ac_scope c' = ac_scope c
     \<and> marked (ac_consumedAt c) (ac_consumedAt c') \<and> marked (ac_grantId c) (ac_grantId c')"

definition grant_advances :: "token_grant \<Rightarrow> token_grant \<Rightarrow> bool" where
  "grant_advances g g' \<longleftrightarrow> tg_id g' = tg_id g \<and> tg_clientId g' = tg_clientId g
     \<and> tg_subjectId g' = tg_subjectId g \<and> tg_scope g' = tg_scope g
     \<and> tg_audience g' = tg_audience g \<and> tg_expCeiling g' = tg_expCeiling g
     \<and> tg_actChain g' = tg_actChain g \<and> marked (tg_revokedAt g) (tg_revokedAt g')"

definition token_advances :: "refresh_token \<Rightarrow> refresh_token \<Rightarrow> bool" where
  "token_advances t t' \<longleftrightarrow> rt_tokenHash t' = rt_tokenHash t \<and> rt_grantId t' = rt_grantId t
     \<and> rt_expiresAt t' = rt_expiresAt t \<and> marked (rt_usedAt t) (rt_usedAt t')"

lemmas advance_defs = code_advances_def grant_advances_def token_advances_def

lemma advances_refl [simp]: "code_advances c c" "grant_advances g g" "token_advances t t"
  by (simp_all add: advance_defs)

lemma code_advances_trans: "code_advances a b \<Longrightarrow> code_advances b c \<Longrightarrow> code_advances a c"
  by (auto simp: code_advances_def intro: marked_trans)

lemma grant_advances_trans: "grant_advances a b \<Longrightarrow> grant_advances b c \<Longrightarrow> grant_advances a c"
  by (auto simp: grant_advances_def intro: marked_trans)

lemma token_advances_trans: "token_advances a b \<Longrightarrow> token_advances b c \<Longrightarrow> token_advances a c"
  by (auto simp: token_advances_def intro: marked_trans)

definition advances :: "store \<Rightarrow> store \<Rightarrow> bool" where
  "advances s s' \<longleftrightarrow> advance_list code_advances (st_codes s) (st_codes s')
     \<and> advance_list grant_advances (st_grants s) (st_grants s')
     \<and> advance_list token_advances (st_refresh s) (st_refresh s')"

lemma advances_same: "advances s s"
  by (simp add: advances_def advance_list_refl)

lemma advances_trans: "advances a b \<Longrightarrow> advances b c \<Longrightarrow> advances a c"
  unfolding advances_def
  by (auto intro: advance_list_trans code_advances_trans grant_advances_trans token_advances_trans)

lemma grants_stamp: "advance_list grant_advances gs (map (stamp p t) gs)"
  by (rule advance_list_map) (auto simp: grant_advances_def stamp_def marked_def)

lemma grants_append: "advance_list grant_advances gs (gs @ hs)"
  by (intro advance_list_append advance_list_refl) simp

lemma tokens_append: "advance_list token_advances ts (ts @ us)"
  by (intro advance_list_append advance_list_refl) simp

lemma tokens_consume: "advance_list token_advances ts (snd (consume_refresh now h ts))"
  unfolding consume_refresh_rows by (rule advance_list_update) (auto simp: token_advances_def)

lemma tokens_attach: "advance_list token_advances ts (attachReplacement h r ts)"
  unfolding attachReplacement_def by (rule advance_list_update) (auto simp: token_advances_def)

text \<open>Codes are told apart by their hash, and one not redeemed names no grant.\<close>

definition codes_ok :: "auth_code list \<Rightarrow> bool" where
  "codes_ok cs \<longleftrightarrow> distinct (map ac_codeHash cs)
     \<and> (\<forall>c \<in> set cs. ac_consumedAt c = None \<longrightarrow> ac_grantId c = None)"

lemma the_only_code:
  assumes "codes_ok cs" "row \<in> set cs" "c \<in> set cs" "ac_codeHash c = ac_codeHash row"
  shows "c = row"
  using distinct_keyD [of ac_codeHash cs c row] assms by (simp add: codes_ok_def)

text \<open>The two writes of a redemption on its row.\<close>

lemma redeemed_rows:
  assumes ok: "codes_ok cs" and row: "row \<in> set cs" "ac_codeHash row = h" "ac_consumedAt row = None"
    "now < ac_expiresAt row"
  shows "attachGrant h i (snd (consume_code now h cs)) =
    map (\<lambda>c. if ac_codeHash c = h then c\<lparr>ac_consumedAt := Some now, ac_grantId := Some i\<rparr> else c) cs"
proof -
  have "ac_consumedAt c = None \<and> now < ac_expiresAt c" if "c \<in> set cs" "ac_codeHash c = h" for c
    using the_only_code [OF ok row(1) that(1)] row that by simp
  then show ?thesis
    by (simp add: attachGrant_def consume_code_rows update_where_def)
qed

lemma redeemed_advances:
  assumes ok: "codes_ok cs" and row: "row \<in> set cs" "ac_codeHash row = h" "ac_consumedAt row = None"
    "now < ac_expiresAt row"
  shows "advance_list code_advances cs (attachGrant h i (snd (consume_code now h cs)))
    \<and> codes_ok (attachGrant h i (snd (consume_code now h cs)))"
proof -
  let ?f = "\<lambda>c. if ac_codeHash c = h then c\<lparr>ac_consumedAt := Some now, ac_grantId := Some i\<rparr> else c"
  have "ac_consumedAt c = None \<and> ac_grantId c = None" if "c \<in> set cs" "ac_codeHash c = h" for c
    using the_only_code [OF ok row(1) that(1)] ok row that by (simp add: codes_ok_def)
  then have adv: "\<forall>c \<in> set cs. code_advances c (?f c)"
    by (simp add: code_advances_def)
  have "map ac_codeHash (map ?f cs) = map ac_codeHash cs" by simp
  then have "distinct (map ac_codeHash (map ?f cs))"
    using ok unfolding codes_ok_def by (simp only:)
  moreover have "\<forall>c \<in> set (map ?f cs). ac_consumedAt c = None \<longrightarrow> ac_grantId c = None"
    using ok unfolding codes_ok_def by auto
  ultimately have "codes_ok (map ?f cs)" unfolding codes_ok_def by blast
  moreover have "advance_list code_advances cs (map ?f cs)"
    unfolding advance_list_def using adv by (metis (no_types, lifting) image_eqI set_map)
  ultimately show ?thesis unfolding redeemed_rows [OF assms] by blast
qed

lemmas grants_same = advance_list_refl [of grant_advances, OF advances_refl(2)]
lemmas tokens_same = advance_list_refl [of token_advances, OF advances_refl(3)]
lemmas codes_same = advance_list_refl [of code_advances, OF advances_refl(1)]

section \<open>A token request\<close>

lemma authenticated_request_cases:
  assumes "in_request (issueForAuthenticatedClient d request client config) s = (r, s')"
  obtains "s' = s"
  | q lt where "request = CodeRequest q"
      "in_request (issueAuthorizationCodeTokens d q client config lt) s = (r, s')"
  | q lt where "request = RefreshRequest q"
      "in_request (issueRefreshTokens d q client config lt) s = (r, s')"
  | q lt where "request = ClientCredentialsRequest q"
      "in_request (on_work (issueClientCredentialsTokens d q client config lt)) s = (r, s')"
  | q lt where "request = ExchangeRequest q"
      "in_request (on_work (issueExchangedTokens d q client config lt)) s = (r, s')"
proof (cases "grantType request \<in> set (oc_grantTypes config)")
  case False
  with assms have "s' = s" by (auto simp: issueForAuthenticatedClient_def in_request_def tfail_def)
  then show ?thesis by (rule that(1))
next
  case True
  let ?lt = "effectiveLifetimes (oc_lifetimes config) (st_lifetimes s)"
  have lift: "in_request (tbind (on_work (tget f)) m) s = in_request (m (f s)) s" for f :: "store \<Rightarrow> 'z" and m
    by (simp add: in_request_def tbind_def on_work_def tget_def)
  show ?thesis
    using assms True that(2-5) [of _ ?lt] by (cases request) (simp_all add: issueForAuthenticatedClient_def lift)
qed

lemma exchange_request_store:
  assumes "in_request (on_work (issueExchangedTokens d q client config lt)) s = (r, s')"
  shows "s' = s
    \<or> (\<exists>audit. s' = s\<lparr>st_audit := audit\<rparr>)
    \<or> (\<exists>g audit. tg_id g = dp_newGrantId d \<and> \<not> has_grant s (tg_id g)
         \<and> s' = s\<lparr>st_grants := st_grants s @ [g], st_audit := audit\<rparr>)
    \<or> (\<exists>g audit t. \<not> has_grant s (tg_id g) \<and> token_fits g t
         \<and> rt_tokenHash t \<notin> rt_tokenHash ` set (st_refresh s)
         \<and> s' = s\<lparr>st_grants := st_grants s @ [g], st_audit := audit, st_refresh := st_refresh s @ [t]\<rparr>)"
proof (cases r)
  case (Inl e)
  with assms show ?thesis by (auto simp: on_work_request atomically_Inl)
next
  case (Inr resp)
  with assms have run: "issueExchangedTokens d q client config lt s = (Inr resp, s')"
    by (simp add: on_work_request atomically_Inr)
  from exchange_Inr [OF run] obtain st it t where
    t: "exchange_terms_of d q client config st it s = (Inr t, s)"
    and b: "(case it of
         RefreshToken \<Rightarrow> exchanged_refresh_token d q client lt t s = (Inr resp, s')
       | IdToken \<Rightarrow> exchanged_id_token d q client config lt t s = (Inr resp, s')
       | AccessToken \<Rightarrow> exchanged_access_token d q client lt t s = (Inr resp, s'))" by blast
  show ?thesis
  proof (cases it)
    case IdToken
    with b have "exchanged_id_token d q client config lt t s = (Inr resp, s')" by simp
    from exchanged_id_Inr [OF this] show ?thesis by blast
  next
    case AccessToken
    with b have "exchanged_access_token d q client lt t s = (Inr resp, s')" by simp
    from exchanged_access_Inr [OF this] obtain g audit and m :: minted where
      g: "g = grant_row (dp_dbNow d) (st_grants s)
        (exchange_grant d client (xt_subject t) (xt_actor t) (xt_act t) (xt_scope t) (mt_audience m))"
      "\<not> has_grant s (dp_newGrantId d)"
      "s' = s\<lparr>st_grants := st_grants s @ [g], st_audit := audit\<rparr>" by metis
    have "tg_id g = dp_newGrantId d" unfolding g(1) by (simp add: grant_row_def exchange_grant_def)
    with g(2,3) show ?thesis by metis
  next
    case RefreshToken
    with b have "exchanged_refresh_token d q client lt t s = (Inr resp, s')" by simp
    from exchanged_refresh_Inr [OF this] obtain g audit where
      g: "g = grant_row (dp_dbNow d) (st_grants s)
        (exchange_grant d client (xt_subject t) (xt_actor t) (xt_act t) (xt_scope t) (xt_audience t))"
      "\<not> has_grant s (dp_newGrantId d)" "refreshAllowedForScope (xt_scope t)"
      "hash_token d (dp_newRefresh d) \<notin> rt_tokenHash ` set (st_refresh s)"
      "s' = s\<lparr>st_grants := st_grants s @ [g], st_audit := audit,
         st_refresh := st_refresh s @ [fresh_refresh d (dp_newGrantId d)
           (capped (rv_expiresAt (xt_subject t)) (dp_now d + tl_refreshTokenTtlSeconds lt * 1000))]\<rparr>"
      by metis
    let ?t = "fresh_refresh d (dp_newGrantId d)
           (capped (rv_expiresAt (xt_subject t)) (dp_now d + tl_refreshTokenTtlSeconds lt * 1000))"
    have "set (xt_scope t) \<subseteq> set (rv_scope (xt_subject t))"
      using exchange_terms_Inr [OF t] attenuateScope_subset by blast
    moreover have "\<forall>x \<in> set (rv_scope (xt_subject t)). scope_token x"
      using resolve_scope_tokens exchange_terms_Inr [OF t] by blast
    ultimately have "tokens (join_scope (xt_scope t)) = xt_scope t"
      by (intro tokens_join_scope) blast
    then have "token_fits g ?t"
      using g(3) unfolding g(1)
      by (auto simp: token_fits_def grant_row_def exchange_grant_def fresh_refresh_def capped_def
          refreshAllowedForScope_def)
    moreover have "tg_id g = dp_newGrantId d" unfolding g(1) by (simp add: grant_row_def exchange_grant_def)
    moreover have "rt_tokenHash ?t = hash_token d (dp_newRefresh d)" by (simp add: fresh_refresh_def)
    ultimately show ?thesis using g(2,4,5) by metis
  qed
qed

section \<open>Steps\<close>

text \<open>A change that, of a store in order, leaves one in order and undoes nothing.\<close>

definition ok :: "store \<Rightarrow> bool" where
  "ok s \<longleftrightarrow> families s \<and> codes_ok (st_codes s)"

definition sound :: "store \<Rightarrow> store \<Rightarrow> bool" where
  "sound s s' \<longleftrightarrow> (ok s \<longrightarrow> advances s s' \<and> ok s')"

lemma sound_trans: "sound a b \<Longrightarrow> sound b c \<Longrightarrow> sound a c"
  by (auto simp: sound_def intro: advances_trans)

lemma sound_same:
  "st_codes s' = st_codes s \<Longrightarrow> st_grants s' = st_grants s \<Longrightarrow> st_refresh s' = st_refresh s \<Longrightarrow> sound s s'"
  by (simp add: sound_def ok_def advances_def grants_same tokens_same codes_same)

lemma sound_stamp:
  "st_codes s' = st_codes s \<Longrightarrow> st_grants s' = map (stamp p t) (st_grants s) \<Longrightarrow>
     st_refresh s' = st_refresh s \<Longrightarrow> sound s s'"
  by (simp add: sound_def ok_def advances_def grants_stamp tokens_same codes_same family_ok_map
      same_terms_stamp)

lemma sound_revoke:
  "st_codes s' = st_codes s \<Longrightarrow> st_grants s' = snd (revoke i t (st_grants s)) \<Longrightarrow>
     st_refresh s' = st_refresh s \<Longrightarrow> sound s s'"
  by (rule sound_stamp [where p = "\<lambda>g. tg_id g = i" and t = t]) (simp_all add: revoke_rows)

lemma sound_new_grant:
  "st_codes s' = st_codes s \<Longrightarrow> st_grants s' = st_grants s @ [g] \<Longrightarrow> \<not> has_grant s (tg_id g) \<Longrightarrow>
     st_refresh s' = st_refresh s \<Longrightarrow> sound s s'"
  by (auto simp: sound_def ok_def advances_def grants_append tokens_same codes_same has_grant_def
      intro: family_ok_new_grant)

lemma sound_first_token:
  assumes "st_codes s' = st_codes s" "st_grants s' = st_grants s @ [g]" "\<not> has_grant s (tg_id g)"
    "st_refresh s' = st_refresh s @ [t]" "token_fits g t" "rt_tokenHash t \<notin> rt_tokenHash ` set (st_refresh s)"
  shows "sound s s'"
  using assms family_ok_first_token [of "st_grants s" "st_refresh s" g t]
  by (simp add: sound_def ok_def advances_def grants_append tokens_append codes_same has_grant_def)

lemma sound_codes:
  "(codes_ok (st_codes s) \<Longrightarrow>
      advance_list code_advances (st_codes s) (st_codes s') \<and> codes_ok (st_codes s')) \<Longrightarrow>
     st_grants s' = st_grants s \<Longrightarrow> st_refresh s' = st_refresh s \<Longrightarrow> sound s s'"
  by (simp add: sound_def ok_def advances_def grants_same tokens_same)

lemma code_scope_tokens: "tokens (join_scope (code_scope code client s)) = code_scope code client s"
proof (rule tokens_join_scope)
  show "\<forall>t \<in> set (code_scope code client s). scope_token t"
    by (auto simp: code_scope_def set_resolveScope dest: tokens_scope_token)
qed

lemma sound_code_request:
  assumes "in_request (issueAuthorizationCodeTokens d q client config lt) s = (r, s')"
  shows "sound s s'"
proof (cases r)
  case (Inl e)
  with assms have "in_request (issueAuthorizationCodeTokens d q client config lt) s = (Inl e, s')" by simp
  from code_request_Inl [OF this] show ?thesis
    by (auto intro: sound_same sound_revoke)
next
  case (Inr resp)
  let ?h = "hash_token d (cr_code q)"
  let ?s1 = "s\<lparr>st_codes := snd (consume_code (dp_dbNow d) ?h (st_codes s))\<rparr>"
  from code_request_Inr assms Inr obtain row where red: "redeemable d q client s row" and
    i: "issue_for_code d q client config lt (row\<lparr>ac_consumedAt := Some (dp_dbNow d)\<rparr>) ?s1 = (Inr resp, s')"
    by blast
  let ?code = "row\<lparr>ac_consumedAt := Some (dp_dbNow d)\<rparr>"
  let ?scope = "code_scope ?code client ?s1"
  let ?t = "fresh_refresh d (dp_newGrantId d) (dp_now d + tl_refreshTokenTtlSeconds lt * 1000)"
  from issue_for_code_Inr [OF i] obtain g refresh audit and m :: minted where
    g: "g = grant_row (dp_dbNow d) (st_grants ?s1) (code_grant d ?code client ?scope (mt_audience m))"
    and new: "\<not> has_grant ?s1 (dp_newGrantId d)"
    and s': "s' = ?s1\<lparr>st_grants := st_grants ?s1 @ [g],
          st_codes := attachGrant (ac_codeHash ?code) (dp_newGrantId d) (st_codes ?s1),
          st_audit := audit, st_refresh := refresh\<rparr>"
    and r: "refresh = st_refresh ?s1 \<or> refresh = st_refresh ?s1 @ [?t] \<and> refreshAllowedForScope ?scope
      \<and> hash_token d (dp_newRefresh d) \<notin> rt_tokenHash ` set (st_refresh ?s1)"
    by metis
  have id: "tg_id g = dp_newGrantId d" unfolding g by (simp add: grant_row_def code_grant_def)
  have fits: "refreshAllowedForScope ?scope \<Longrightarrow> token_fits g ?t"
    unfolding g by (auto simp: token_fits_def grant_row_def code_grant_def fresh_refresh_def
        refreshAllowedForScope_def code_scope_tokens)
  let ?s2 = "?s1\<lparr>st_codes := attachGrant (ac_codeHash ?code) (dp_newGrantId d) (st_codes ?s1)\<rparr>"
  have one: "sound s ?s2"
    using red by (intro sound_codes) (auto simp: redeemable_def dest: redeemed_advances)
  have "sound ?s2 s'"
    using r
  proof
    assume "refresh = st_refresh ?s1"
    then show ?thesis using new id s' by (intro sound_new_grant [of _ _ g]) (simp_all add: has_grant_def)
  next
    assume a: "refresh = st_refresh ?s1 @ [?t] \<and> refreshAllowedForScope ?scope
      \<and> hash_token d (dp_newRefresh d) \<notin> rt_tokenHash ` set (st_refresh ?s1)"
    then show ?thesis using new id s' fits
      by (intro sound_first_token [of _ _ g ?t]) (simp_all add: has_grant_def fresh_refresh_def)
  qed
  with one show ?thesis by (rule sound_trans)
qed

lemma sound_refresh_request:
  assumes "in_request (issueRefreshTokens d q client config lt) s = (r, s')"
  shows "sound s s'"
  using refresh_request_store [OF assms]
proof (elim disjE exE)
  fix out scope
  let ?h = "hash_token d (rq_refreshToken q)"
  assume r: "rotateRefreshToken d ?h (tl_refreshTokenTtlSeconds lt) scope s = (Inr out, s')"
  have "advances s s'"
    using rotate_effect [OF r]
  proof (elim conjE disjE exE)
    fix g assume o: "out = Rotated g (dp_newRefresh d)"
    note e = rotate_Rotated [OF r [unfolded o]]
    have "advance_list token_advances (st_refresh s) (st_refresh s')"
      using e advance_list_trans [OF token_advances_trans advance_list_append [OF tokens_consume] tokens_attach]
      by simp
    with e show ?thesis by (simp add: advances_def grants_same codes_same)
  qed (auto simp: advances_def grants_same tokens_same codes_same tokens_consume grants_stamp revoke_rows)
  moreover have "st_codes s' = st_codes s" using rotate_effect [OF r] by blast
  ultimately show ?thesis using rotate_families [OF r] by (simp add: sound_def ok_def)
qed (simp add: sound_same)

lemma sound_token_request:
  assumes "in_request (issueForAuthenticatedClient d request client config) s = (r, s')"
  shows "sound s s'"
proof (cases rule: authenticated_request_cases [OF assms])
  case (4 q lt)
  from client_credentials_request [OF 4(2)] show ?thesis
    by (auto intro: sound_same sound_new_grant)
next
  case (5 q lt)
  from exchange_request_store [OF 5(2)] show ?thesis
    by (elim disjE exE conjE) (auto intro: sound_same sound_new_grant sound_first_token)
qed (auto intro: sound_same sound_code_request sound_refresh_request)

lemma sound_revokeFor:
  assumes "atomically (revokeFor d token client) s = (r, s')"
  shows "sound s s'"
proof (cases r)
  case (Inl e)
  with assms show ?thesis by (auto simp: atomically_Inl intro: sound_same)
next
  case (Inr u)
  with assms have "revokeFor d token client s = (Inr u, s')" by (simp add: atomically_Inr)
  from revokeFor_run [OF this] show ?thesis by (auto intro: sound_same sound_revoke)
qed

lemma sound_endSessions:
  assumes "endSessions d newId ids sub via s = (Inr u, s')"
  shows "sound s s'"
  using endSessions_Inr [OF assms] endSessions_grants [OF assms] by (auto intro: sound_stamp)

lemma sound_end_batches: "end_batches d newId sub s = (Inr u, s') \<Longrightarrow> sound s s'"
proof (induction d newId sub s rule: end_batches.induct)
  case (1 d newId sub s)
  let ?batch = "session_liveIdsFor sub (dp_now d) SESSIONS_PER_BATCH (st_sessions s)"
  show ?case
  proof (cases "?batch = []")
    case True
    with "1.prems" show ?thesis by (simp add: end_batches.simps [of d newId sub s] sound_same)
  next
    case False
    obtain r s1 where e: "endSessions d newId ?batch sub ''logout'' s = (r, s1)"
      by (cases "endSessions d newId ?batch sub ''logout'' s")
    with False "1.prems" obtain v where v: "r = Inr v" "end_batches d newId sub s1 = (Inr u, s')"
      by (cases r) (auto simp: end_batches.simps [of d newId sub s])
    with "1.IH" [OF refl] False e have rest: "sound s1 s'" by simp
    from e v(1) have "endSessions d newId ?batch sub ''logout'' s = (Inr v, s1)" by simp
    from sound_endSessions [OF this] rest show ?thesis by (rule sound_trans)
  qed
qed

lemma sound_endAllAccess:
  assumes "endAllAccess d newId sub s = (Inr u, s')"
  shows "sound s s'"
proof -
  from assms obtain s1 v where b: "end_batches d newId sub s = (Inr v, s1)"
    and s': "s' = s1\<lparr>st_grants := snd (revokeForSubject sub (dp_now d) (st_grants s1))\<rparr>"
    by (auto simp: endAllAccess_def tx_simps)
  have "sound s1 s'"
    by (rule sound_stamp [where p = "\<lambda>g. tg_subjectId g = sub" and t = "dp_now d"])
       (simp_all add: s' revokeForSubject_rows)
  with sound_end_batches [OF b] show ?thesis by (rule sound_trans)
qed

text \<open>A transaction that commits soundly, or rolls back.\<close>

lemma sound_atomically:
  "atomically m s = (r, s') \<Longrightarrow> (\<And>u s1. m s = (Inr u, s1) \<Longrightarrow> sound s s1) \<Longrightarrow> sound s s'"
  by (cases r) (auto simp: atomically_Inl atomically_Inr intro: sound_same)

lemma admitSession_tables:
  assumes "admitSession d digest entry input s = (Inr u, s')"
  shows "st_codes s' = st_codes s \<and> st_grants s' = st_grants s \<and> st_refresh s' = st_refresh s"
  using assms
  by (auto simp: admitSession_def Let_def establishSession_def tx_simps
      dest!: audit_recordAll_state session_create_Inr)

lemma update_budget:
  assumes "\<And>g. tg_revokedAt (f g) = tg_revokedAt g" "same_terms f" "\<And>g. grant_advances g (f g)"
  shows "sound s (s\<lparr>st_grants := update_where p f (st_grants s)\<rparr>)"
  using assms family_ok_update_where [of "st_grants s" "st_refresh s" f p]
  by (auto simp: sound_def ok_def advances_def codes_same tokens_same intro: advance_list_update)

lemma sound_reserve: "sound s (s\<lparr>st_grants := snd (reserveAgentWrite i kind limits (st_grants s))\<rparr>)"
  by (auto simp: reserveAgentWrite_def Let_def same_terms_def grant_advances_def
      intro!: sound_same update_budget split: option.splits)

lemma sound_release: "sound s (s\<lparr>st_grants := releaseAgentWrite i kind (st_grants s)\<rparr>)"
  by (auto simp: releaseAgentWrite_def same_terms_def grant_advances_def
      intro!: sound_same update_budget split: option.splits)

text \<open>
  The writes. An administrator's edit of the other tables removes no client and no subject, so
  no foreign key removes a grant. The retention pass, which deletes rows long spent, is not a
  step.
\<close>

inductive step :: "store \<Rightarrow> store \<Rightarrow> bool" where
  token_request: "in_request (issueForAuthenticatedClient d request client config) s = (r, s') \<Longrightarrow> step s s'"
| revocation_request: "atomically (revokeFor d token client) s = (r, s') \<Longrightarrow> step s s'"
| token_route: "tokenRoute e q s = (r, s') \<Longrightarrow> step s s'"
| revoke_route: "revokeRoute e q s = (u, s') \<Longrightarrow> step s s'"
| introspect_route: "introspectRoute e q s = (i, s') \<Longrightarrow> step s s'"
| code_minted: "create_code code s = (r, s') \<Longrightarrow> step s s'"
| session_admitted: "atomically (admitSession d digest entry input) s = (r, s') \<Longrightarrow> step s s'"
| session_ended: "atomically (endSessions d newId ids sub via) s = (r, s') \<Longrightarrow> step s s'"
| access_ended: "atomically (endAllAccess d newId sub) s = (r, s') \<Longrightarrow> step s s'"
| consent_revoked:
    "s' = s\<lparr>st_grants := snd (revokeForSubjectClient sub client now (st_grants s))\<rparr> \<Longrightarrow> step s s'"
| actor_removed: "s' = s\<lparr>st_grants := snd (revokeForActor sub now (st_grants s))\<rparr> \<Longrightarrow> step s s'"
| write_reserved:
    "s' = s\<lparr>st_grants := snd (reserveAgentWrite i kind limits (st_grants s))\<rparr> \<Longrightarrow> step s s'"
| write_released: "s' = s\<lparr>st_grants := releaseAgentWrite i kind (st_grants s)\<rparr> \<Longrightarrow> step s s'"
| administered:
    "cl_id ` set (st_clients s) \<subseteq> cl_id ` set clients \<Longrightarrow> sj_id ` set (st_subjects s) \<subseteq> sj_id ` set subjects \<Longrightarrow>
     s' = s\<lparr>st_clients := clients, st_configs := configs, st_subjects := subjects, st_scopes := scopes,
       st_assignments := assignments, st_scopeRoles := scopeRoles, st_keys := keys,
       st_auditTypes := auditTypes, st_policy := policy, st_lifetimes := lifetimes\<rparr> \<Longrightarrow> step s s'"

text \<open>The routes, over the requests they run.\<close>

lemma sound_only_trail: "sound s s1 \<Longrightarrow> only_trail s1 s' \<Longrightarrow> sound s s'"
  by (rule sound_trans) (auto simp: only_trail_def intro: sound_same)

lemma sound_tokenRoute: "tokenRoute e q s = (r, s') \<Longrightarrow> sound s s'"
  using tokenRoute_effect sound_token_request sound_only_trail sound_same by metis

lemma sound_revokeRoute: "revokeRoute e q s = (r, s') \<Longrightarrow> sound s s'"
  using revokeRoute_effect sound_revokeFor sound_only_trail sound_same by metis

lemma sound_introspectRoute: "introspectRoute e q s = (r, s') \<Longrightarrow> sound s s'"
  using introspectRoute_effect sound_only_trail sound_same by metis

lemma step_sound: "step s s' \<Longrightarrow> sound s s'"
proof (induction rule: step.induct)
  case (code_minted code s r s')
  then have "s' = s \<or> (\<exists>row. s' = s\<lparr>st_codes := st_codes s @ [row]\<rparr>
      \<and> ac_codeHash row \<notin> ac_codeHash ` set (st_codes s) \<and> ac_grantId row = None)"
    by (auto simp: create_code_def insert_row_Some split: option.splits if_splits)
  then show ?case
    by (auto intro!: sound_same sound_codes advance_list_append codes_same simp: codes_ok_def)
next
  case (session_admitted d digest entry input s r s')
  then show ?case by (rule sound_atomically) (auto dest: admitSession_tables intro: sound_same)
next
  case (session_ended d newId ids sub via s r s')
  then show ?case by (rule sound_atomically) (rule sound_endSessions)
next
  case (access_ended d newId sub s r s')
  then show ?case by (rule sound_atomically) (rule sound_endAllAccess)
next
  case (consent_revoked s' sub client now s)
  then show ?case
    by (intro sound_stamp [where p = "\<lambda>g. tg_subjectId g = sub \<and> tg_clientId g = client" and t = now])
       (simp_all add: revokeForSubjectClient_rows)
next
  case (actor_removed s' sub now s)
  then show ?case
    by (intro sound_stamp [where p = "\<lambda>g. tg_actorSubjectId g = Some sub" and t = now])
       (simp_all add: revokeForActor_rows)
qed (auto intro: sound_token_request sound_revokeFor sound_tokenRoute sound_revokeRoute
    sound_introspectRoute sound_reserve sound_release sound_same)

lemma steps_sound: "step\<^sup>*\<^sup>* s s' \<Longrightarrow> sound s s'"
  by (induction rule: rtranclp_induct) (auto intro: sound_same sound_trans step_sound)

text \<open>The stores a tenant reaches from one with no credential yet.\<close>

definition no_credentials :: "store \<Rightarrow> bool" where
  "no_credentials s \<longleftrightarrow> st_codes s = [] \<and> st_grants s = [] \<and> st_refresh s = []"

lemma reachable_ok: "no_credentials s0 \<Longrightarrow> step\<^sup>*\<^sup>* s0 s \<Longrightarrow> ok s"
  using steps_sound [of s0 s]
  by (auto simp: sound_def ok_def no_credentials_def family_ok_Nil codes_ok_def)

lemma steps_ok: "step\<^sup>*\<^sup>* s s' \<Longrightarrow> ok s \<Longrightarrow> ok s' \<and> advances s s'"
  using steps_sound by (auto simp: sound_def)

lemma steps_grant:
  "step\<^sup>*\<^sup>* s s' \<Longrightarrow> ok s \<Longrightarrow> g \<in> set (st_grants s) \<Longrightarrow> \<exists>g' \<in> set (st_grants s'). grant_advances g g'"
  by (drule steps_ok) (auto simp: advances_def advance_list_def)

lemma steps_token:
  "step\<^sup>*\<^sup>* s s' \<Longrightarrow> ok s \<Longrightarrow> t \<in> set (st_refresh s) \<Longrightarrow> \<exists>t' \<in> set (st_refresh s'). token_advances t t'"
  by (drule steps_ok) (auto simp: advances_def advance_list_def)

lemma steps_code:
  "step\<^sup>*\<^sup>* s s' \<Longrightarrow> ok s \<Longrightarrow> c \<in> set (st_codes s) \<Longrightarrow> \<exists>c' \<in> set (st_codes s'). code_advances c c'"
  by (drule steps_ok) (auto simp: advances_def advance_list_def)

end
