(* ===== verification/Totp.thy ===== *)
theory Totp
  imports Prelude "HOL-Library.Word"
begin

text \<open>
  The one-time passwords of \<^verbatim>\<open>packages/crypto/src/service/totp.ts\<close>: the base32 coding of a secret,
  the dynamic truncation of RFC 4226 and the verification window of RFC 6238. JavaScript's
  bitwise operators work on 32 bits, so the accumulators of the two codecs are \<open>32 word\<close> and
  lose what is shifted out of them, as the code's do; bytes are \<open>8 word\<close>. The HMAC is a
  parameter, a function of the key and the counter's eight bytes.
\<close>

unbundle bit_operations_syntax

type_synonym byte = "8 word"

section \<open>Base32\<close>

definition BASE32_ALPHABET :: string where
  "BASE32_ALPHABET = ''ABCDEFGHIJKLMNOPQRSTUVWXYZ234567''"

definition base32_alphabetChar :: "32 word \<Rightarrow> char" where
  "base32_alphabetChar index = BASE32_ALPHABET ! unat index"

text \<open>\<open>while (bits >= 5) { ... }\<close> of \<open>base32Encode\<close>: what it appends, and the bits left.\<close>

fun emit_base32 :: "nat \<Rightarrow> 32 word \<Rightarrow> string \<times> nat" where
  "emit_base32 bits v =
     (if bits \<ge> 5
      then let (rest, left) = emit_base32 (bits - 5) v
           in (base32_alphabetChar (drop_bit (bits - 5) v AND 0x1f) # rest, left)
      else ([], bits))"

declare emit_base32.simps [simp del]

fun encode_base32_from :: "nat \<Rightarrow> 32 word \<Rightarrow> byte list \<Rightarrow> string" where
  "encode_base32_from bits v [] =
     (if bits > 0 then [base32_alphabetChar (push_bit (5 - bits) v AND 0x1f)] else [])"
| "encode_base32_from bits v (b # bs) =
     (let v' = push_bit 8 v OR ucast b;
          (out, left) = emit_base32 (bits + 8) v'
      in out @ encode_base32_from left v' bs)"

definition base32Encode :: "byte list \<Rightarrow> string" where
  "base32Encode bytes = encode_base32_from 0 0 bytes"

fun base32_indexOf :: "string \<Rightarrow> nat \<Rightarrow> char \<Rightarrow> nat option" where
  "base32_indexOf [] n c = None"
| "base32_indexOf (a # as) n c = (if a = c then Some n else base32_indexOf as (Suc n) c)"

text \<open>\<open>base32Decode\<close>; \<open>None\<close> is the \<open>RangeError\<close> of a character outside the alphabet.\<close>

fun decode_base32_from :: "nat \<Rightarrow> 32 word \<Rightarrow> string \<Rightarrow> byte list option" where
  "decode_base32_from bits v [] = Some []"
| "decode_base32_from bits v (c # cs) =
     (case base32_indexOf BASE32_ALPHABET 0 c of
        None \<Rightarrow> None
      | Some index \<Rightarrow>
          let v' = push_bit 5 v OR word_of_nat index
          in if bits + 5 \<ge> 8
             then map_option ((#) (ucast (drop_bit (bits + 5 - 8) v' AND 0xff)))
                    (decode_base32_from (bits + 5 - 8) v' cs)
             else decode_base32_from (bits + 5) v' cs)"

definition base32Decode :: "string \<Rightarrow> byte list option" where
  "base32Decode encoded = decode_base32_from 0 0 encoded"

section \<open>The password of a time step\<close>

type_synonym hmac = "byte list \<Rightarrow> byte list \<Rightarrow> byte list"

text \<open>\<open>writeBigUInt64BE(BigInt.asUintN(64, BigInt(counter)))\<close>\<close>

definition counter_bytes :: "int \<Rightarrow> byte list" where
  "counter_bytes counter =
     map (\<lambda>i. ucast (drop_bit (8 * (7 - i)) (word_of_int counter :: 64 word))) [0..<8]"

text \<open>\<open>byteAt\<close>: the \<open>RangeError\<close> of an index out of range is \<open>None\<close>.\<close>

definition byteAt :: "byte list \<Rightarrow> nat \<Rightarrow> byte option" where
  "byteAt buf index = (if index < length buf then Some (buf ! index) else None)"

fun digits_of :: "nat \<Rightarrow> nat \<Rightarrow> string" where
  "digits_of 0 n = []"
| "digits_of (Suc k) n = digits_of k (n div 10) @ [char_of (48 + n mod 10)]"

definition truncated :: "byte \<Rightarrow> byte \<Rightarrow> byte \<Rightarrow> byte \<Rightarrow> 32 word" where
  "truncated b0 b1 b2 b3 =
     push_bit 24 (ucast (b0 AND 0x7f)) OR push_bit 16 (ucast b1) OR push_bit 8 (ucast b2) OR ucast b3"

text \<open>\<open>hotp\<close> at six digits, \<open>String(truncated % 10 ** digits).padStart(digits, '0')\<close>.\<close>

definition hotp :: "hmac \<Rightarrow> byte list \<Rightarrow> int \<Rightarrow> string option" where
  "hotp mac key counter =
     (let digest = mac key (counter_bytes counter)
      in case byteAt digest (length digest - 1) of
           None \<Rightarrow> None
         | Some lastByte \<Rightarrow>
             let offset = unat (lastByte AND 0x0f)
             in case (byteAt digest offset, byteAt digest (offset + 1),
                      byteAt digest (offset + 2), byteAt digest (offset + 3)) of
                  (Some b0, Some b1, Some b2, Some b3) \<Rightarrow>
                    Some (digits_of 6 (unat (truncated b0 b1 b2 b3) mod 10 ^ 6))
                | _ \<Rightarrow> None)"

definition totpCounter :: "time \<Rightarrow> int" where
  "totpCounter now = now div 30000"

definition totpCode :: "hmac \<Rightarrow> string \<Rightarrow> int \<Rightarrow> string option" where
  "totpCode mac secret counter =
     (case base32Decode secret of None \<Rightarrow> None | Some key \<Rightarrow> hotp mac key counter)"

section \<open>Verification\<close>

definition is_ascii_digit :: "char \<Rightarrow> bool" where
  "is_ascii_digit c \<longleftrightarrow> c \<in> set ''0123456789''"

definition VERIFY_CODE_SHAPE :: "string \<Rightarrow> bool" where
  "VERIFY_CODE_SHAPE code \<longleftrightarrow> length code = 6 \<and> list_all is_ascii_digit code"

text \<open>
  The loop over the offsets -1, 0 and 1. The outer option is the exception of a stored secret
  that cannot be decoded, the inner one \<open>ok\<close> with the step.
\<close>

fun verify_offsets ::
  "hmac \<Rightarrow> string \<Rightarrow> string \<Rightarrow> int \<Rightarrow> int option \<Rightarrow> int list \<Rightarrow> int option option" where
  "verify_offsets mac secret code currentStep lastStep [] = Some None"
| "verify_offsets mac secret code currentStep lastStep (offset # offsets) =
     (let step = currentStep + offset
      in if (case lastStep of None \<Rightarrow> False | Some l \<Rightarrow> step \<le> l)
         then verify_offsets mac secret code currentStep lastStep offsets
         else case totpCode mac secret step of
                None \<Rightarrow> None
              | Some candidate \<Rightarrow>
                  if code = candidate then Some (Some step)
                  else verify_offsets mac secret code currentStep lastStep offsets)"

definition verifyTotp :: "hmac \<Rightarrow> string \<Rightarrow> string \<Rightarrow> time \<Rightarrow> int option \<Rightarrow> int option option" where
  "verifyTotp mac secret code now lastStep =
     (if \<not> VERIFY_CODE_SHAPE code then Some None
      else verify_offsets mac secret code (totpCounter now) lastStep [-1, 0, 1])"

section \<open>What a verified code is\<close>

lemma verify_offsets_Some:
  "verify_offsets mac secret code cur lastStep os = Some (Some step) \<Longrightarrow>
     step - cur \<in> set os \<and> totpCode mac secret step = Some code
     \<and> (\<forall>l. lastStep = Some l \<longrightarrow> l < step)"
  by (induction os) (auto simp: Let_def split: option.splits if_splits)

lemma verifyTotp_Some:
  assumes "verifyTotp mac secret code now lastStep = Some (Some step)"
  shows "\<bar>step - totpCounter now\<bar> \<le> 1" "totpCode mac secret step = Some code"
    "\<And>l. lastStep = Some l \<Longrightarrow> l < step"
proof -
  from assms have "verify_offsets mac secret code (totpCounter now) lastStep [-1, 0, 1] = Some (Some step)"
    by (auto simp: verifyTotp_def simp del: verify_offsets.simps split: if_splits)
  from verify_offsets_Some [OF this]
  show "\<bar>step - totpCounter now\<bar> \<le> 1" "totpCode mac secret step = Some code"
    "\<And>l. lastStep = Some l \<Longrightarrow> l < step" by auto
qed

lemma length_digits_of [simp]: "length (digits_of k n) = k"
  by (induction k arbitrary: n) auto

lemma digits_of_digits: "c \<in> set (digits_of k n) \<Longrightarrow> is_ascii_digit c"
proof (induction k arbitrary: n)
  case (Suc k)
  have "is_ascii_digit (char_of (48 + m))" if "m < 10" for m :: nat
  proof -
    from that have "m \<in> set [0..<10]" by simp
    moreover have "\<forall>m \<in> set [0..<10]. is_ascii_digit (char_of (48 + m))" by code_simp
    ultimately show ?thesis by blast
  qed
  with Suc show ?case by auto
qed simp

text \<open>Every code the server computes has the shape it asks of a submission.\<close>

lemma digits_of_shape: "VERIFY_CODE_SHAPE (digits_of 6 n)"
  unfolding VERIFY_CODE_SHAPE_def list_all_iff using digits_of_digits length_digits_of by blast

lemma hotp_shape: "hotp mac key counter = Some code \<Longrightarrow> VERIFY_CODE_SHAPE code"
  unfolding hotp_def Let_def
  by (simp only: split: option.splits prod.splits) (use digits_of_shape in auto)

lemma totpCode_shape: "totpCode mac secret counter = Some code \<Longrightarrow> VERIFY_CODE_SHAPE code"
  by (auto simp: totpCode_def hotp_shape split: option.splits)

text \<open>The code of the step the clock is in is accepted unless that step was spent already.\<close>

lemma verifyTotp_current:
  assumes code: "totpCode mac secret (totpCounter now) = Some code"
    and prev: "totpCode mac secret (totpCounter now - 1) = Some other"
    and fresh: "case lastStep of None \<Rightarrow> True | Some l \<Rightarrow> l < totpCounter now"
  shows "\<exists>step. verifyTotp mac secret code now lastStep = Some (Some step)"
  using assms totpCode_shape [OF code]
  by (auto simp: verifyTotp_def Let_def split: option.splits)

section \<open>The base32 round trip\<close>

text \<open>The last \<open>n\<close> bits of an accumulator, most significant first.\<close>

definition low_bits :: "nat \<Rightarrow> 'a::len word \<Rightarrow> bool list" where
  "low_bits n v = map (\<lambda>i. bit v (n - 1 - i)) [0..<n]"

lemma length_low_bits [simp]: "length (low_bits n v) = n"
  by (simp add: low_bits_def)

lemma nth_low_bits: "i < n \<Longrightarrow> low_bits n v ! i = bit v (n - 1 - i)"
  by (simp add: low_bits_def)

lemma low_bits_0 [simp]: "low_bits 0 v = []"
  by (simp add: low_bits_def)

lemma low_bits_split: "low_bits (m + k) v = low_bits m (drop_bit k v) @ low_bits k v"
  by (rule nth_equalityI)
    (auto simp: nth_append nth_low_bits bit_simps intro!: arg_cong [where f = "bit v"])

lemma low_bits_eqI: "(\<And>i. i < n \<Longrightarrow> bit v i = bit w i) \<Longrightarrow> low_bits n v = low_bits n w"
  by (rule nth_equalityI) (auto simp: nth_low_bits)

lemma low_bits_inj:
  assumes "low_bits n v = low_bits n w" "i < n"
  shows "bit v i = bit w i"
  using arg_cong [OF assms(1), of "\<lambda>xs. xs ! (n - 1 - i)"] assms(2) by (simp add: nth_low_bits)

definition sextet :: "32 word \<Rightarrow> bool" where
  "sextet w \<longleftrightarrow> w AND 0x1f = w"

definition bits_of :: "byte list \<Rightarrow> bool list" where
  "bits_of bs = concat (map (low_bits 8) bs)"

definition group_bits :: "32 word list \<Rightarrow> bool list" where
  "group_bits ws = concat (map (low_bits 5) ws)"

lemma bits_of_simps [simp]:
  "bits_of [] = []" "bits_of (b # bs) = low_bits 8 b @ bits_of bs" "length (bits_of bs) = 8 * length bs"
  by (simp_all add: bits_of_def length_concat sum_list_replicate comp_def map_replicate_const)

lemma group_bits_simps [simp]:
  "group_bits [] = []" "group_bits (w # ws) = low_bits 5 w @ group_bits ws"
  "group_bits (ws @ ws') = group_bits ws @ group_bits ws'"
  by (simp_all add: group_bits_def)

lemma bits_of_inj: "bits_of bs = bits_of bs' \<Longrightarrow> length bs = length bs' \<Longrightarrow> bs = bs'"
proof (induction bs bs' rule: list_induct2')
  case (4 b bs b' bs')
  then have "low_bits 8 b = low_bits 8 b'" by simp
  then have "b = b'" by (intro bit_word_eqI) (auto dest: low_bits_inj)
  with 4 show ?case by simp
qed auto

lemma mask_values: "(0x1f :: 32 word) = mask 5" "(0xff :: 32 word) = mask 8"
  by (simp_all add: mask_eq_exp_minus_1)

lemma low_bits_masked [simp]:
  "low_bits 5 (v AND 0x1f :: 32 word) = low_bits 5 v"
  "low_bits 8 (ucast (v AND 0xff :: 32 word) :: byte) = low_bits 8 v"
  by (rule nth_equalityI; auto simp: nth_low_bits mask_values bit_simps)+

lemma sextet_masked [simp]: "sextet (v AND 0x1f)"
  by (simp add: sextet_def and.assoc)

lemma sextet_less: "sextet w \<Longrightarrow> unat w < 32"
proof -
  assume "sextet w"
  then have "w = take_bit 5 w" by (simp add: sextet_def mask_values take_bit_eq_mask)
  then have "unat w = take_bit 5 (unat w)" by (metis unsigned_take_bit_eq)
  then show ?thesis using take_bit_nat_less_exp [of 5 "unat w"] by simp
qed

lemma alphabet_index: "n < 32 \<Longrightarrow> base32_indexOf BASE32_ALPHABET 0 (BASE32_ALPHABET ! n) = Some n"
proof -
  have "\<forall>n \<in> set [0..<32]. base32_indexOf BASE32_ALPHABET 0 (BASE32_ALPHABET ! n) = Some n"
    by code_simp
  then show "n < 32 \<Longrightarrow> ?thesis" by simp
qed

lemma emit_base32_bits:
  "emit_base32 bits v = (out, left) \<Longrightarrow>
     left < 5 \<and> (\<exists>ws. out = map base32_alphabetChar ws \<and> list_all sextet ws
       \<and> group_bits ws @ low_bits left v = low_bits bits v)"
proof (induction bits v arbitrary: out left rule: emit_base32.induct)
  case (1 bits v)
  show ?case
  proof (cases "bits \<ge> 5")
    case True
    then obtain rest where r: "emit_base32 (bits - 5) v = (rest, left)"
      "out = base32_alphabetChar (drop_bit (bits - 5) v AND 0x1f) # rest"
      using "1.prems" by (auto simp: emit_base32.simps [of bits] split: prod.splits)
    with "1.IH" [OF True r(1)] obtain ws where ws: "left < 5" "rest = map base32_alphabetChar ws"
      "list_all sextet ws" "group_bits ws @ low_bits left v = low_bits (bits - 5) v" by blast
    moreover have "low_bits bits v = low_bits 5 (drop_bit (bits - 5) v) @ low_bits (bits - 5) v"
      using low_bits_split [of 5 "bits - 5" v] True by simp
    ultimately show ?thesis
      using r(2) by (auto intro!: exI [of _ "(drop_bit (bits - 5) v AND 0x1f) # ws"])
  next
    case False
    with "1.prems" show ?thesis by (auto simp: emit_base32.simps [of bits] intro: exI [of _ "[]"])
  qed
qed

lemma low_bits_shift_in:
  fixes v :: "32 word" and w :: "'b::len word"
  assumes "m + k \<le> 32" and w: "\<And>i. k \<le> i \<Longrightarrow> \<not> bit w i"
  shows "low_bits (m + k) (push_bit k v OR ucast w) = low_bits m v @ low_bits k w"
proof -
  have "low_bits m (drop_bit k (push_bit k v OR ucast w)) = low_bits m v"
    using assms by (intro low_bits_eqI) (auto simp: bit_simps)
  moreover have "low_bits k (push_bit k v OR ucast w :: 32 word) = low_bits k w"
    using assms(1) by (auto intro!: nth_equalityI simp: nth_low_bits bit_simps)
  ultimately show ?thesis by (simp add: low_bits_split)
qed

lemma encode_bits:
  "bits < 5 \<Longrightarrow> \<exists>ws k. encode_base32_from bits v bs = map base32_alphabetChar ws \<and> list_all sextet ws
     \<and> k < 5 \<and> group_bits ws = low_bits bits v @ bits_of bs @ replicate k False"
proof (induction bits v bs rule: encode_base32_from.induct)
  case (1 bits v)
  show ?case
  proof (cases "bits = 0")
    case False
    let ?w = "push_bit (5 - bits) v AND 0x1f"
    have "low_bits (bits + (5 - bits)) (push_bit (5 - bits) v) =
        low_bits bits v @ replicate (5 - bits) False"
      unfolding low_bits_split using 1
      by (intro arg_cong2 [where f = append] low_bits_eqI nth_equalityI)
        (auto simp: bit_simps nth_low_bits)
    then have "group_bits [?w] = low_bits bits v @ bits_of [] @ replicate (5 - bits) False"
      using 1 by simp
    then show ?thesis using False 1
      by (intro exI [of _ "[?w]"] exI [of _ "5 - bits"]) simp
  qed (auto intro!: exI [of _ "[]"] exI [of _ 0])
next
  case (2 bits v b bs)
  let ?v = "push_bit 8 v OR ucast b"
  obtain out left where e: "emit_base32 (bits + 8) ?v = (out, left)" by fastforce
  from emit_base32_bits [OF e] obtain ws where ws: "left < 5" "out = map base32_alphabetChar ws"
    "list_all sextet ws" "group_bits ws @ low_bits left ?v = low_bits (bits + 8) ?v" by blast
  moreover have "low_bits (bits + 8) ?v = low_bits bits v @ low_bits 8 b"
    using "2.prems" by (intro low_bits_shift_in) (auto dest: bit_imp_le_length)
  moreover from "2.IH" [OF refl e [symmetric] refl ws(1)] obtain ws' k where
    "encode_base32_from left ?v bs = map base32_alphabetChar ws'" "list_all sextet ws'" "k < 5"
    "group_bits ws' = low_bits left ?v @ bits_of bs @ replicate k False" by blast
  ultimately show ?case
    using e by (intro exI [of _ "ws @ ws'"] exI [of _ k]) auto
qed

lemma decode_bits:
  "list_all sextet ws \<Longrightarrow> bits < 8 \<Longrightarrow>
     \<exists>bs r. decode_base32_from bits v (map base32_alphabetChar ws) = Some bs \<and> length r < 8
       \<and> bits_of bs @ r = low_bits bits v @ group_bits ws"
proof (induction ws arbitrary: bits v)
  case (Cons w ws)
  let ?v = "push_bit 5 v OR w"
  have i: "base32_indexOf BASE32_ALPHABET 0 (base32_alphabetChar w) = Some (unat w)"
    using Cons.prems by (simp add: base32_alphabetChar_def alphabet_index sextet_less)
  have "\<not> bit w n" if "5 \<le> n" for n
    using Cons.prems(1) that bit_and_iff [of w "0x1f" n] by (simp add: sextet_def mask_values bit_simps)
  then have lv: "low_bits (bits + 5) ?v = low_bits bits v @ low_bits 5 w"
    using low_bits_shift_in [of bits 5 w v] Cons.prems(2) by simp
  show ?case
  proof (cases "bits + 5 \<ge> 8")
    case True
    let ?b = "ucast (drop_bit (bits + 5 - 8) ?v AND 0xff) :: byte"
    have "list_all sextet ws" "bits + 5 - 8 < 8" using Cons.prems by auto
    from Cons.IH [OF this, of ?v] obtain bs r where
      IH: "decode_base32_from (bits + 5 - 8) ?v (map base32_alphabetChar ws) = Some bs" "length r < 8"
        "bits_of bs @ r = low_bits (bits + 5 - 8) ?v @ group_bits ws" by blast
    have "low_bits (bits + 5) ?v = low_bits 8 ?b @ low_bits (bits + 5 - 8) ?v"
      using low_bits_split [of 8 "bits + 5 - 8" ?v] True by (simp add: add.commute)
    then have "bits_of (?b # bs) @ r = low_bits bits v @ group_bits (w # ws)"
      using IH(3) lv by simp
    moreover have "decode_base32_from bits v (map base32_alphabetChar (w # ws)) = Some (?b # bs)"
      using True IH(1) i by (simp add: Let_def)
    ultimately show ?thesis using IH(2) by blast
  next
    case False
    then have "list_all sextet ws" "bits + 5 < 8" using Cons.prems by auto
    from Cons.IH [OF this, of ?v] obtain bs r where
      "decode_base32_from (bits + 5) ?v (map base32_alphabetChar ws) = Some bs" "length r < 8"
        "bits_of bs @ r = low_bits (bits + 5) ?v @ group_bits ws" by blast
    then show ?thesis using False i lv by (intro exI [of _ bs] exI [of _ r]) (simp add: Let_def)
  qed
qed (auto intro: exI [of _ "[]"])

lemma base32_decode_encode: "base32Decode (base32Encode bs) = Some bs"
proof -
  obtain ws k where e: "base32Encode bs = map base32_alphabetChar ws" "list_all sextet ws" "k < 5"
    "group_bits ws = bits_of bs @ replicate k False"
    using encode_bits [of 0 0 bs] by (auto simp: base32Encode_def)
  from decode_bits [OF e(2), of 0 0] obtain bs' r where
    d: "base32Decode (base32Encode bs) = Some bs'" "length r < 8" "bits_of bs' @ r = group_bits ws"
    by (auto simp: base32Decode_def e(1))
  then have eq: "bits_of bs' @ r = bits_of bs @ replicate k False" using e(4) by simp
  then have "length (bits_of bs' @ r) = length (bits_of bs @ replicate k False)" by simp
  then have "length bs' = length bs" using d(2) e(3) by simp
  moreover from this eq have "bits_of bs' = bits_of bs" by (simp add: append_eq_append_conv)
  ultimately show ?thesis using d(1) bits_of_inj by blast
qed

end
