(* ===== verification/Site.thy ===== *)
theory Site
  imports Lifecycle Totp
begin

text \<open>
  What a sign-in works on beside the credentials of the token endpoint: the accounts of
  \<^verbatim>\<open>packages/domain-identity\<close> (users, their credentials, the count of failed attempts), and of
  \<^verbatim>\<open>packages/authn-flows\<close> the parked authorization requests (\<open>authentication_sessions\<close>), the
  tenant's flow (\<open>authentication_executions\<close>) and the actions a subject owes. A record \<open>site\<close>
  holds them beside the \<open>store\<close>; a transaction on the store runs on the site by \<open>on_store\<close>.

  A credential's \<open>secret_data\<close> is kept as the value \<open>parseCredentialSecret\<close> reads it as, so its
  \<open>type\<close> column is the constructor; a row whose column and shape disagree cannot be expressed.
\<close>

section \<open>Rows\<close>

record user =
  us_subjectId :: string
  us_username :: string
  us_email :: "string option"
  us_emailVerified :: bool
  us_preferredUsername :: "string option"

datatype credential_secret =
    PasswordSecret (secret_hash: string)
  | TotpSecret (totp_secret: string) (totp_digits: int) (totp_lastStep: int)
  | WebauthnSecret (wa_publicKey: string) (wa_counter: int) (wa_transports: "string list")
  | RecoveryCodeSecret (secret_hash: string) (rc_usedAt: "time option")
  | PasswordHistorySecret (secret_hash: string)

datatype credential_type = PasswordType | TotpType | WebauthnType | RecoveryCodeType | PasswordHistoryType

record credential =
  cd_id :: string
  cd_subjectId :: string
  cd_secret :: credential_secret
  cd_hashNfc :: "bool option"
  cd_lookupKey :: "string option"
  cd_rpId :: "string option"
  cd_lastUsedAt :: "time option"
  cd_createdAt :: time

fun type_of :: "credential_secret \<Rightarrow> credential_type" where
  "type_of (PasswordSecret h) = PasswordType"
| "type_of (TotpSecret k d l) = TotpType"
| "type_of (WebauthnSecret k c t) = WebauthnType"
| "type_of (RecoveryCodeSecret h u) = RecoveryCodeType"
| "type_of (PasswordHistorySecret h) = PasswordHistoryType"

definition cd_type :: "credential \<Rightarrow> credential_type" where
  "cd_type c = type_of (cd_secret c)"

record login_failure =
  lg_subjectId :: string
  lg_failureCount :: int
  lg_firstFailureAt :: "time option"
  lg_lastFailureAt :: "time option"
  lg_lockedUntil :: "time option"

datatype required_action = UpdatePassword | ConfigureTotp | ConfigurePasskey | GenerateRecoveryCodes

record owed_action =
  ow_subjectId :: string
  ow_action :: required_action

text \<open>\<open>PendingRequest\<close>; its challenge method is the one literal \<open>S256\<close>. \<open>reuseAuthTime\<close> is a
  \<open>Date\<close> written as an ISO string and read back as one.\<close>

record pending_request =
  pr_clientId :: string
  pr_redirectUri :: string
  pr_scope :: string
  pr_state :: "string option"
  pr_nonce :: "string option"
  pr_codeChallenge :: string
  pr_idTokenHintSubject :: "string option"
  pr_claimsSubject :: "string option"
  pr_prompt :: "prompt_value list option"
  pr_maxAge :: "int option"
  pr_uiLocales :: "string list option"
  pr_reuseSessionId :: "string option"
  pr_reuseAuthTime :: "time option"
  pr_rememberMe :: "bool option"
  pr_resource :: "string list option"
  pr_claims :: "claims_request option"

record attempt =
  at_id :: string
  at_pendingRequest :: pending_request
  at_expiresAt :: time
  at_consumedAt :: "time option"
  at_satisfied :: "string list"
  at_subjectId :: "string option"
  at_authenticatedAt :: "time option"
  at_webauthnChallenge :: "string option"
  at_browserSecretHash :: "string option"

record execution =
  ex_index :: int
  ex_authenticator :: string
  ex_requirement :: requirement

record lockout_policy =
  lo_maxFailures :: int
  lo_lockoutSeconds :: int
  lo_maxLockoutSeconds :: int
  lo_failureResetSeconds :: int

record consent_row =
  cn_subjectId :: string
  cn_clientId :: string
  cn_scopeId :: string

datatype registration_policy = RegistrationDisabled | RegistrationOpen | RegistrationToken | RegistrationMcp

text \<open>The columns of the tenant's own row that a sign-in reads.\<close>

record tenant =
  tn_enabled :: bool
  tn_otpRequired :: bool
  tn_loginWithEmail :: bool
  tn_passwordMaxAgeDays :: int
  tn_lockout :: lockout_policy
  tn_loginTtlSeconds :: int
  tn_authorizationCodeTtlSeconds :: int
  tn_lifespans :: lifespans
  tn_verifyEmail :: bool
  tn_rememberMeAllowed :: bool
  tn_registrationAllowed :: bool
  tn_resetPasswordAllowed :: bool
  tn_maxSessionsPerBrowser :: int
  tn_clientRegistrationPolicy :: registration_policy
  tn_cimdEnabled :: bool

text \<open>
  \<open>si_assignmentOf\<close> and \<open>si_displayOrder\<close> are the columns of the rows of \<open>st_assignments\<close> and of
  \<open>st_scopes\<close> that only a consent page reads.
\<close>

record site =
  si_store :: store
  si_users :: "user list"
  si_credentials :: "credential list"
  si_failures :: "login_failure list"
  si_actions :: "owed_action list"
  si_attempts :: "attempt list"
  si_executions :: "execution list"
  si_consents :: "consent_row list"
  si_assignmentOf :: "string \<times> string \<Rightarrow> assignment"
  si_displayOrder :: "string \<Rightarrow> int"
  si_tenant :: "tenant option"

type_synonym 'a site_tx = "(site, exn, 'a) tx"

section \<open>The platform of a sign-in\<close>

text \<open>
  \<open>@node-rs/argon2\<close> (\<open>ip_verify\<close> is \<open>verifyPassword\<close>, false where the library throws; \<open>ip_hash\<close>
  is \<open>hashPassword\<close>), Unicode's NFC, the HMAC of \<open>node:crypto\<close>, and
  \<open>@simplewebauthn/server\<close>: \<open>ip_assert\<close> is \<open>verifyAuthenticationResponse\<close> with user verification
  required, giving the new counter where it verifies and nothing where it throws or does not.
\<close>

record relying_party =
  rp_id :: string
  rp_origin :: string

record assertion_response =
  as_id :: string
  as_rawId :: string
  as_clientDataJSON :: string
  as_authenticatorData :: string
  as_signature :: string
  as_userHandle :: "string option"

record identity_platform =
  ip_verify :: "string \<Rightarrow> string \<Rightarrow> bool"
  ip_hash :: "string \<Rightarrow> string"
  ip_nfc :: "string \<Rightarrow> string"
  ip_hmac :: hmac
  ip_sha256 :: "string \<Rightarrow> string"
  ip_assert :: "relying_party \<Rightarrow> string \<Rightarrow> assertion_response \<Rightarrow> credential_secret \<Rightarrow> int option"

text \<open>
  The dependencies of a request of a sign-in: those of any request, the platform, the relying
  party of the tenant's canonical address and of the base URL, the random values the request
  draws, and \<open>sg_contend\<close>, what other transactions commit to the failure counts between the read
  and the write of one try of \<open>recordFailure\<close>.
\<close>

record sign_deps =
  sg_deps :: deps
  sg_identity :: identity_platform
  sg_relyingParty :: "relying_party option"
  sg_baseRpId :: "string option"
  sg_newId :: string
  sg_newSecret :: string
  sg_newCode :: string
  sg_newCredentialIds :: "string list"
  sg_entry :: session_entry
  sg_contend :: "nat \<Rightarrow> login_failure list \<Rightarrow> login_failure list"

abbreviation sg_now :: "sign_deps \<Rightarrow> time" where
  "sg_now d \<equiv> dp_now (sg_deps d)"

abbreviation sg_dbNow :: "sign_deps \<Rightarrow> time" where
  "sg_dbNow d \<equiv> dp_dbNow (sg_deps d)"

section \<open>Transactions on one table\<close>

definition on_store :: "'a db \<Rightarrow> 'a site_tx" where
  "on_store m s = (case m (si_store s) of (r, st) \<Rightarrow> (r, s\<lparr>si_store := st\<rparr>))"

definition credentials_tx :: "(credential list \<Rightarrow> 'a \<times> credential list) \<Rightarrow> 'a site_tx" where
  "credentials_tx f s = (case f (si_credentials s) of (x, rows) \<Rightarrow> (Inr x, s\<lparr>si_credentials := rows\<rparr>))"

definition attempts_tx :: "(attempt list \<Rightarrow> 'a \<times> attempt list) \<Rightarrow> 'a site_tx" where
  "attempts_tx f s = (case f (si_attempts s) of (x, rows) \<Rightarrow> (Inr x, s\<lparr>si_attempts := rows\<rparr>))"

definition actions_tx :: "(owed_action list \<Rightarrow> 'a \<times> owed_action list) \<Rightarrow> 'a site_tx" where
  "actions_tx f s = (case f (si_actions s) of (x, rows) \<Rightarrow> (Inr x, s\<lparr>si_actions := rows\<rparr>))"

definition failures_tx :: "(login_failure list \<Rightarrow> 'a \<times> login_failure list) \<Rightarrow> 'a site_tx" where
  "failures_tx f s = (case f (si_failures s) of (x, rows) \<Rightarrow> (Inr x, s\<lparr>si_failures := rows\<rparr>))"

lemma on_store_run [tx_simps]:
  "on_store m s = (r, s') \<longleftrightarrow> (\<exists>st. m (si_store s) = (r, st) \<and> s' = s\<lparr>si_store := st\<rparr>)"
  by (auto simp: on_store_def split: prod.splits)

lemma table_tx_runs [tx_simps]:
  "credentials_tx fc s = (r, s') \<longleftrightarrow>
     r = Inr (fst (fc (si_credentials s))) \<and> s' = s\<lparr>si_credentials := snd (fc (si_credentials s))\<rparr>"
  "attempts_tx fa s = (ra, s') \<longleftrightarrow>
     ra = Inr (fst (fa (si_attempts s))) \<and> s' = s\<lparr>si_attempts := snd (fa (si_attempts s))\<rparr>"
  "actions_tx fo s = (ro, s') \<longleftrightarrow>
     ro = Inr (fst (fo (si_actions s))) \<and> s' = s\<lparr>si_actions := snd (fo (si_actions s))\<rparr>"
  "failures_tx fl s = (rl, s') \<longleftrightarrow>
     rl = Inr (fst (fl (si_failures s))) \<and> s' = s\<lparr>si_failures := snd (fl (si_failures s))\<rparr>"
  by (auto simp: credentials_tx_def attempts_tx_def actions_tx_def failures_tx_def split: prod.splits)

end
