(* ===== verification/Identity.thy ===== *)
theory Identity
  imports Site
begin

text \<open>
  \<^verbatim>\<open>packages/domain-identity\<close>: the lockout arithmetic (\<^verbatim>\<open>service/lockout.ts\<close>), the count of failed
  attempts (\<^verbatim>\<open>repository/login-failures.ts\<close>), the credentials (\<^verbatim>\<open>repository/credentials.ts\<close>,
  \<^verbatim>\<open>service/password.ts\<close>, \<^verbatim>\<open>service/password-age.ts\<close>), the lookups of a user
  (\<^verbatim>\<open>repository/users.ts\<close>) and, of authn-flows, the actions a subject owes
  (\<^verbatim>\<open>repository/required-actions.ts\<close>).
\<close>

section \<open>Lockout\<close>

definition runIsBroken :: "login_failure \<Rightarrow> lockout_policy \<Rightarrow> time \<Rightarrow> bool" where
  "runIsBroken state policy now =
     (case lg_lastFailureAt state of
        None \<Rightarrow> True
      | Some t \<Rightarrow> now - t \<ge> lo_failureResetSeconds policy * 1000)"

text \<open>
  \<open>nextLockout\<close>: the count and the end of the lockout. The power of two is exact in the code
  too (a power of two times a small integer), up to \<open>Infinity\<close>, which the minimum removes.
\<close>

definition nextLockout :: "login_failure \<Rightarrow> lockout_policy \<Rightarrow> time \<Rightarrow> int \<times> time option" where
  "nextLockout state policy now =
     (let failureCount = (if runIsBroken state policy now then 1 else lg_failureCount state + 1)
      in if failureCount < lo_maxFailures policy then (failureCount, None)
         else let doubled = lo_lockoutSeconds policy * 2 ^ nat (failureCount - lo_maxFailures policy);
                  seconds = min doubled (lo_maxLockoutSeconds policy)
              in (failureCount, Some (now + seconds * 1000)))"

definition isLockedOut :: "login_failure \<Rightarrow> time \<Rightarrow> bool" where
  "isLockedOut state now =
     (case lg_lockedUntil state of None \<Rightarrow> False | Some t \<Rightarrow> t > now)"

section \<open>Failed attempts\<close>

definition NEVER_FAILED :: "string \<Rightarrow> login_failure" where
  "NEVER_FAILED i = \<lparr>lg_subjectId = i, lg_failureCount = 0, lg_firstFailureAt = None,
     lg_lastFailureAt = None, lg_lockedUntil = None\<rparr>"

definition failure_forSubject :: "string \<Rightarrow> login_failure list \<Rightarrow> login_failure" where
  "failure_forSubject i rows = coalesce (find (\<lambda>r. lg_subjectId r = i) rows) (NEVER_FAILED i)"

text \<open>
  The one statement of \<open>recordFailure\<close> for a subject that exists: an insert, or on conflict an
  update where the stored count is still the one observed. The boolean is \<open>written_rows > 0\<close>.
\<close>

definition write_failure :: "int \<Rightarrow> login_failure \<Rightarrow> login_failure list \<Rightarrow> bool \<times> login_failure list" where
  "write_failure observedCount row rows =
     (case find (\<lambda>r. lg_subjectId r = lg_subjectId row) rows of
        None \<Rightarrow> (True, rows @ [row])
      | Some stored \<Rightarrow>
          if lg_failureCount stored = observedCount
          then (True, update_where (\<lambda>r. lg_subjectId r = lg_subjectId row) (\<lambda>r. row) rows)
          else (False, rows))"

datatype record_failure = Recorded login_failure | NoSubject | Contended

definition CAS_ATTEMPTS :: nat where
  "CAS_ATTEMPTS = 5"

definition failed_once :: "login_failure \<Rightarrow> lockout_policy \<Rightarrow> time \<Rightarrow> login_failure" where
  "failed_once observed policy now =
     (let next_count = fst (nextLockout observed policy now)
      in \<lparr>lg_subjectId = lg_subjectId observed, lg_failureCount = next_count,
          lg_firstFailureAt =
            Some (if next_count = 1 then now else coalesce (lg_firstFailureAt observed) now),
          lg_lastFailureAt = Some now, lg_lockedUntil = snd (nextLockout observed policy now)\<rparr>)"

text \<open>
  The loop of \<open>recordFailure\<close>: \<open>n\<close> tries are left, and between the read and the write of a try
  other transactions may commit, which is \<open>contend\<close>.
\<close>

fun try_recordFailure ::
  "(nat \<Rightarrow> login_failure list \<Rightarrow> login_failure list) \<Rightarrow> bool \<Rightarrow> string \<Rightarrow> lockout_policy \<Rightarrow> time \<Rightarrow> nat
     \<Rightarrow> login_failure list \<Rightarrow> record_failure \<times> login_failure list" where
  "try_recordFailure contend subjectExists i policy now 0 rows = (Contended, rows)"
| "try_recordFailure contend subjectExists i policy now (Suc n) rows =
     (let observed = failure_forSubject i rows;
          row = failed_once observed policy now;
          committed = contend n rows
      in if \<not> subjectExists then (NoSubject, committed)
         else case write_failure (lg_failureCount observed) row committed of
                (written, rows') \<Rightarrow>
                  if written then (Recorded row, rows')
                  else try_recordFailure contend subjectExists i policy now n rows')"

definition recordFailure :: "sign_deps \<Rightarrow> string \<Rightarrow> lockout_policy \<Rightarrow> record_failure site_tx" where
  "recordFailure d i policy s =
     failures_tx (try_recordFailure (sg_contend d) (has_subject (si_store s) i) i policy (sg_now d)
       CAS_ATTEMPTS) s"

definition clear_failures :: "string \<Rightarrow> login_failure list \<Rightarrow> login_failure list" where
  "clear_failures i rows = filter (\<lambda>r. lg_subjectId r \<noteq> i) rows"

section \<open>Credentials\<close>

definition credentials_of :: "string \<Rightarrow> credential_type \<Rightarrow> credential list \<Rightarrow> credential list" where
  "credentials_of i ty rows = filter (\<lambda>r. cd_subjectId r = i \<and> cd_type r = ty) rows"

text \<open>\<open>passwordCredentialFor\<close>: the hash, and whether it was made from the NFC form.\<close>

definition passwordCredentialFor :: "string \<Rightarrow> credential list \<Rightarrow> (string \<times> bool) option" where
  "passwordCredentialFor i rows =
     map_option (\<lambda>r. (secret_hash (cd_secret r), cd_hashNfc r = Some True))
       (first_row (credentials_of i PasswordType rows))"

definition upgradePassword ::
  "string \<Rightarrow> string \<Rightarrow> string option \<Rightarrow> credential list \<Rightarrow> bool \<times> credential list" where
  "upgradePassword i from_hash to_hash rows =
     (let p = (\<lambda>r. cd_subjectId r = i \<and> cd_secret r = PasswordSecret from_hash);
          f = (\<lambda>r. r\<lparr>cd_hashNfc := Some True,
                     cd_secret := (case to_hash of None \<Rightarrow> cd_secret r | Some h \<Rightarrow> PasswordSecret h)\<rparr>)
      in (length (returning p f rows) > 0, update_where p f rows))"

definition credential_byLookupKey :: "string \<Rightarrow> credential list \<Rightarrow> credential option" where
  "credential_byLookupKey key rows = find (\<lambda>r. cd_lookupKey r = Some key) rows"

text \<open>\<open>recordTotpUse\<close>: the predicate on the stored step is the decision.\<close>

definition recordTotpUse ::
  "string \<Rightarrow> int \<Rightarrow> time \<Rightarrow> credential list \<Rightarrow> bool \<times> credential list" where
  "recordTotpUse i newStep at rows =
     (let p = (\<lambda>r. cd_id r = i \<and> (case cd_secret r of TotpSecret k dg l \<Rightarrow> l < newStep | _ \<Rightarrow> False));
          f = (\<lambda>r. r\<lparr>cd_secret := (case cd_secret r of TotpSecret k dg l \<Rightarrow> TotpSecret k dg newStep | x \<Rightarrow> x),
                     cd_lastUsedAt := Some at\<rparr>)
      in (length (returning p f rows) > 0, update_where p f rows))"

definition advanceWebauthnCounter ::
  "string \<Rightarrow> int \<Rightarrow> time \<Rightarrow> credential list \<Rightarrow> bool \<times> credential list" where
  "advanceWebauthnCounter i counter at rows =
     (let p = (\<lambda>r. cd_id r = i \<and> (case cd_secret r of
                 WebauthnSecret k c ts \<Rightarrow> c < counter \<or> (counter = 0 \<and> c = 0) | _ \<Rightarrow> False));
          f = (\<lambda>r. r\<lparr>cd_secret := (case cd_secret r of
                       WebauthnSecret k c ts \<Rightarrow> WebauthnSecret k counter ts | x \<Rightarrow> x),
                     cd_lastUsedAt := Some at\<rparr>)
      in (length (returning p f rows) > 0, update_where p f rows))"

definition spendRecoveryCode :: "string \<Rightarrow> time \<Rightarrow> credential list \<Rightarrow> bool \<times> credential list" where
  "spendRecoveryCode i at rows =
     (let p = (\<lambda>r. cd_id r = i \<and> (case cd_secret r of RecoveryCodeSecret h u \<Rightarrow> u = None | _ \<Rightarrow> False));
          f = (\<lambda>r. r\<lparr>cd_secret := (case cd_secret r of
                       RecoveryCodeSecret h u \<Rightarrow> RecoveryCodeSecret h (Some at) | x \<Rightarrow> x),
                     cd_lastUsedAt := Some at\<rparr>)
      in (length (returning p f rows) > 0, update_where p f rows))"

definition is_unspent :: "credential \<Rightarrow> bool" where
  "is_unspent r = (case cd_secret r of RecoveryCodeSecret h u \<Rightarrow> u = None | _ \<Rightarrow> False)"

definition countUnspentRecoveryCodes :: "string \<Rightarrow> credential list \<Rightarrow> nat" where
  "countUnspentRecoveryCodes i rows = length (filter (\<lambda>r. cd_subjectId r = i \<and> is_unspent r) rows)"

record recovery_standing =
  sd_unspent :: nat
  sd_held :: nat
  sd_hasTotp :: bool

definition recoveryStanding :: "string \<Rightarrow> credential list \<Rightarrow> recovery_standing" where
  "recoveryStanding i rows =
     \<lparr>sd_unspent = countUnspentRecoveryCodes i rows,
      sd_held = length (credentials_of i RecoveryCodeType rows),
      sd_hasTotp = length (credentials_of i TotpType rows) > 0\<rparr>"

section \<open>Passwords\<close>

datatype password_match = Normalised | AsTyped

definition matchUserPassword :: "identity_platform \<Rightarrow> string \<Rightarrow> string \<Rightarrow> bool \<Rightarrow> password_match option" where
  "matchUserPassword ip stored plain tryAsTyped =
     (let normalised = ip_nfc ip plain
      in if ip_verify ip stored normalised then Some Normalised
         else if tryAsTyped \<and> normalised \<noteq> plain \<and> ip_verify ip stored plain then Some AsTyped
         else None)"

definition hashUserPassword :: "identity_platform \<Rightarrow> string \<Rightarrow> string" where
  "hashUserPassword ip plain = ip_hash ip (ip_nfc ip plain)"

definition passwordExpired :: "credential \<Rightarrow> int \<Rightarrow> time \<Rightarrow> bool" where
  "passwordExpired c maxAgeDays now =
     (if maxAgeDays \<le> 0 then False else now - cd_createdAt c \<ge> maxAgeDays * 86400000)"

section \<open>Users\<close>

text \<open>A user's row joined with its subject's: the subject and the user.\<close>

definition with_subject :: "site \<Rightarrow> user \<Rightarrow> (subject \<times> user) option" where
  "with_subject s u =
     map_option (\<lambda>sj. (sj, u)) (find (\<lambda>sj. sj_id sj = us_subjectId u) (st_subjects (si_store s)))"

definition user_byUsername :: "string \<Rightarrow> site \<Rightarrow> (subject \<times> user) option" where
  "user_byUsername name s =
     first_row (List.map_filter (with_subject s) (filter (\<lambda>u. us_username u = name) (si_users s)))"

text \<open>\<open>byVerifiedEmail\<close>: \<open>email_search\<close> is the address in lower case; two holders are none.\<close>

definition user_byVerifiedEmail :: "string \<Rightarrow> site \<Rightarrow> (subject \<times> user) option" where
  "user_byVerifiedEmail email s =
     (case take 2 (List.map_filter (with_subject s)
        (filter (\<lambda>u. map_option toLowerCase (us_email u) = Some (toLowerCase email)
            \<and> us_emailVerified u) (si_users s))) of
        [row] \<Rightarrow> Some row
      | _ \<Rightarrow> None)"

definition user_bySubjectId :: "string \<Rightarrow> site \<Rightarrow> user option" where
  "user_bySubjectId i s = find (\<lambda>u. us_subjectId u = i) (si_users s)"

section \<open>Owed actions\<close>

definition pendingFor :: "string \<Rightarrow> owed_action list \<Rightarrow> required_action list" where
  "pendingFor i rows = map ow_action (filter (\<lambda>r. ow_subjectId r = i) rows)"

text \<open>\<open>onConflictDoNothing\<close> on the primary key.\<close>

definition action_add :: "string \<Rightarrow> required_action \<Rightarrow> owed_action list \<Rightarrow> owed_action list" where
  "action_add i a rows =
     (let row = \<lparr>ow_subjectId = i, ow_action = a\<rparr> in if row \<in> set rows then rows else rows @ [row])"

definition action_complete :: "string \<Rightarrow> required_action \<Rightarrow> owed_action list \<Rightarrow> owed_action list" where
  "action_complete i a rows = filter (\<lambda>r. \<not> (ow_subjectId r = i \<and> ow_action r = a)) rows"

text \<open>\<open>add\<close> is an insert with a foreign key to the subject.\<close>

definition owe :: "string \<Rightarrow> required_action \<Rightarrow> unit site_tx" where
  "owe i a s =
     (if has_subject (si_store s) i
      then (Inr (), s\<lparr>si_actions := action_add i a (si_actions s)\<rparr>)
      else (Inl (ForeignKeyViolation ''user_required_actions_subject_fk''), s))"

section \<open>What one failure does\<close>

lemma nextLockout_count:
  "fst (nextLockout state policy now) =
     (if runIsBroken state policy now then 1 else lg_failureCount state + 1)"
  by (simp add: nextLockout_def Let_def)

lemma failed_once_simps [simp]:
  "lg_subjectId (failed_once o1 policy now) = lg_subjectId o1"
  "lg_failureCount (failed_once o1 policy now) = fst (nextLockout o1 policy now)"
  "lg_lastFailureAt (failed_once o1 policy now) = Some now"
  "lg_lockedUntil (failed_once o1 policy now) = snd (nextLockout o1 policy now)"
  by (simp_all add: failed_once_def Let_def)

lemma failure_forSubject_id [simp]: "lg_subjectId (failure_forSubject i rows) = i"
proof (cases "find (\<lambda>r. lg_subjectId r = i) rows")
  case None
  then show ?thesis by (simp add: failure_forSubject_def NEVER_FAILED_def)
next
  case (Some r)
  from find_SomeD [OF this] this show ?thesis by (simp add: failure_forSubject_def)
qed

text \<open>The lockout of an attempt ends no earlier than the policy says and no later.\<close>

lemma nextLockout_locks:
  assumes "nextLockout state policy now = (n, Some t)" "0 < lo_lockoutSeconds policy"
    "lo_lockoutSeconds policy \<le> lo_maxLockoutSeconds policy"
  shows "lo_maxFailures policy \<le> n" "now + lo_lockoutSeconds policy * 1000 \<le> t"
    "t \<le> now + lo_maxLockoutSeconds policy * 1000"
proof -
  have "lo_lockoutSeconds policy \<le> lo_lockoutSeconds policy * 2 ^ k" for k :: nat
    using assms(2) by simp
  with assms show "lo_maxFailures policy \<le> n" "now + lo_lockoutSeconds policy * 1000 \<le> t"
    "t \<le> now + lo_maxLockoutSeconds policy * 1000"
    by (auto simp: nextLockout_def Let_def min_def split: if_splits)
qed

text \<open>
  A try that is recorded counted one on what it had read, and the count it replaced is the count
  it read, whatever was committed in between; where it is not, the row of the subject is as the
  other transactions left it.
\<close>

lemma write_failure_True:
  "write_failure n row rows = (True, rows') \<Longrightarrow>
     (\<exists>stored. find (\<lambda>r. lg_subjectId r = lg_subjectId row) rows = Some stored \<and> lg_failureCount stored = n)
     \<or> find (\<lambda>r. lg_subjectId r = lg_subjectId row) rows = None"
  by (auto simp: write_failure_def split: option.splits if_splits)

lemma find_replace:
  "find (\<lambda>r. key r = key row) rows \<noteq> None \<Longrightarrow>
     find (\<lambda>r. key r = key row) (update_where (\<lambda>r. key r = key row) (\<lambda>r. row) rows) = Some row"
  by (induction rows) (auto simp: update_where_def)

lemma find_replace_other:
  "i \<noteq> key row \<Longrightarrow>
     find (\<lambda>r. key r = i) (update_where (\<lambda>r. key r = key row) (\<lambda>r. row) rows) = find (\<lambda>r. key r = i) rows"
  by (induction rows) (auto simp: update_where_def)

lemma write_failure_find:
  "write_failure n row rows = (True, rows') \<Longrightarrow>
     find (\<lambda>r. lg_subjectId r = lg_subjectId row) rows' = Some row"
  using find_replace [of lg_subjectId row rows]
  by (auto simp: write_failure_def find_append split: option.splits if_splits)

lemma write_failure_other:
  "write_failure n row rows = (b, rows') \<Longrightarrow> i \<noteq> lg_subjectId row \<Longrightarrow>
     failure_forSubject i rows' = failure_forSubject i rows"
  using find_replace_other [of i lg_subjectId row rows]
  by (auto simp: write_failure_def failure_forSubject_def find_append split: option.splits if_splits)

text \<open>
  A recorded failure is one more than the count another try committed, or one where the run was
  broken: no two recorded failures of a run have the same count.
\<close>

lemma try_recordFailure_Recorded:
  "try_recordFailure contend ex i policy now n rows = (Recorded row, rows') \<Longrightarrow>
     \<exists>before. failure_forSubject i rows' = row \<and> lg_subjectId row = i \<and> lg_lastFailureAt row = Some now
       \<and> lg_subjectId before = i \<and> row = failed_once before policy now
       \<and> (\<exists>k < n. \<exists>read. lg_failureCount (failure_forSubject i (contend k read)) = lg_failureCount before
            \<or> find (\<lambda>r. lg_subjectId r = i) (contend k read) = None)"
proof (induction contend ex i policy now n rows arbitrary: row rows' rule: try_recordFailure.induct)
  case (2 contend ex i policy now n rows)
  let ?o = "failure_forSubject i rows" and ?c = "contend n rows"
  let ?row = "failed_once ?o policy now"
  obtain written rows1 where w: "write_failure (lg_failureCount ?o) ?row ?c = (written, rows1)" by fastforce
  show ?case
  proof (cases written)
    case True
    with w "2.prems" have eq: "row = ?row" "rows' = rows1" by (auto simp: Let_def split: if_splits)
    from w True have w': "write_failure (lg_failureCount ?o) ?row ?c = (True, rows1)" by simp
    have "find (\<lambda>r. lg_subjectId r = i) rows' = Some row"
      using write_failure_find [OF w'] by (simp add: eq)
    then have "failure_forSubject i rows' = row"
      by (simp add: failure_forSubject_def)
    moreover have "lg_failureCount (failure_forSubject i ?c) = lg_failureCount ?o
        \<or> find (\<lambda>r. lg_subjectId r = i) ?c = None"
      using write_failure_True [OF w'] by (auto simp: failure_forSubject_def [of i "contend n rows"])
    ultimately show ?thesis using eq by (intro exI [of _ ?o]) auto
  next
    case False
    with w "2.prems" have ex: ex and t: "try_recordFailure contend ex i policy now n rows1 = (Recorded row, rows')"
      by (auto simp: Let_def split: if_splits)
    have "\<exists>before. failure_forSubject i rows' = row \<and> lg_subjectId row = i \<and> lg_lastFailureAt row = Some now
       \<and> lg_subjectId before = i \<and> row = failed_once before policy now
       \<and> (\<exists>k < n. \<exists>read. lg_failureCount (failure_forSubject i (contend k read)) = lg_failureCount before
            \<or> find (\<lambda>r. lg_subjectId r = i) (contend k read) = None)"
      by (rule "2.IH" [OF refl refl refl _ w [symmetric] False t]) (use ex in simp)
    then show ?thesis using less_SucI by blast
  qed
qed simp

section \<open>What is spent stays spent\<close>

text \<open>A write that decides by its own predicate, as the consumption the locale speaks of.\<close>

definition decided :: "bool \<times> 't \<Rightarrow> unit option \<times> 't" where
  "decided p = (if fst p then Some () else None, snd p)"

definition totp_dead :: "string \<times> int \<Rightarrow> credential list \<Rightarrow> bool" where
  "totp_dead k rows \<longleftrightarrow> (\<forall>r \<in> set rows. cd_id r = fst k \<longrightarrow>
     (case cd_secret r of TotpSecret key dg l \<Rightarrow> snd k \<le> l | _ \<Rightarrow> True))"

definition recovery_dead :: "string \<Rightarrow> credential list \<Rightarrow> bool" where
  "recovery_dead i rows \<longleftrightarrow> (\<forall>r \<in> set rows. cd_id r = i \<longrightarrow> \<not> is_unspent r)"

lemma filter_Nil_iff: "filter p rs = [] \<longleftrightarrow> (\<forall>r \<in> set rs. \<not> p r)"
  by (auto simp: filter_empty_conv)

lemma update_where_ball:
  "(\<forall>r \<in> set (update_where p f rows). P r) \<longleftrightarrow> (\<forall>r \<in> set rows. P (if p r then f r else r))"
  by (auto simp: update_where_def)

interpretation totp_uses: single_use "\<lambda>now k rows. decided (recordTotpUse (fst k) (snd k) now rows)"
    totp_dead "\<lambda>rows. True"
proof (unfold_locales, goal_cases)
  case (1 t now k r t')
  then have "t' = snd (recordTotpUse (fst k) (snd k) now t)" by (simp add: decided_def split: if_splits)
  then show ?case
    by (auto simp: totp_dead_def recordTotpUse_def Let_def update_where_ball split: credential_secret.splits)
next
  case (2 k t now)
  then show ?case
    by (auto simp: totp_dead_def recordTotpUse_def Let_def decided_def returning_def filter_Nil_iff
        split: credential_secret.splits)
next
  case (3 k t now k')
  then show ?case
    by (auto simp: totp_dead_def recordTotpUse_def Let_def decided_def update_where_ball
        split: credential_secret.splits)
qed simp

interpretation recovery_uses: single_use "\<lambda>now i rows. decided (spendRecoveryCode i now rows)"
    recovery_dead "\<lambda>rows. True"
proof (unfold_locales, goal_cases)
  case (1 t now k r t')
  then have "t' = snd (spendRecoveryCode k now t)" by (simp add: decided_def split: if_splits)
  then show ?case
    by (auto simp: recovery_dead_def is_unspent_def spendRecoveryCode_def Let_def update_where_ball
        split: credential_secret.splits)
next
  case (2 k t now)
  then show ?case
    by (auto simp: recovery_dead_def is_unspent_def spendRecoveryCode_def Let_def decided_def returning_def
        filter_Nil_iff split: credential_secret.splits)
next
  case (3 k t now k')
  then show ?case
    by (auto simp: recovery_dead_def is_unspent_def spendRecoveryCode_def Let_def decided_def update_where_ball
        split: credential_secret.splits)
qed simp

section \<open>A run of failures\<close>

lemma write_failure_current:
  "lg_subjectId row = i \<Longrightarrow>
     fst (write_failure (lg_failureCount (failure_forSubject i rows)) row rows)"
  by (cases "find (\<lambda>r. lg_subjectId r = i) rows") (simp_all add: write_failure_def failure_forSubject_def)

text \<open>With nobody else writing, a failed attempt is recorded at the first try.\<close>

lemma failure_after:
  "failure_forSubject i (snd (try_recordFailure (\<lambda>n r. r) True i policy now (Suc n) rows)) =
     failed_once (failure_forSubject i rows) policy now"
proof -
  let ?o = "failure_forSubject i rows" and ?row = "failed_once (failure_forSubject i rows) policy now"
  have w: "write_failure (lg_failureCount ?o) ?row rows
      = (True, snd (write_failure (lg_failureCount ?o) ?row rows))"
    using write_failure_current [of ?row i rows] by (simp add: prod_eq_iff)
  then have "snd (try_recordFailure (\<lambda>n r. r) True i policy now (Suc n) rows)
      = snd (write_failure (lg_failureCount ?o) ?row rows)"
    using write_failure_current [of ?row i rows] by (simp add: Let_def case_prod_beta)
  moreover from write_failure_find [OF w]
  have "failure_forSubject i (snd (write_failure (lg_failureCount ?o) ?row rows)) = ?row"
    by (simp add: failure_forSubject_def [of i "snd _"])
  ultimately show ?thesis by simp
qed

end
