(* ===== verification/Attempts.thy ===== *)
theory Attempts
  imports Identity
begin

text \<open>
  The parked sign-in of \<^verbatim>\<open>packages/authn-flows\<close>: its row and the statements on it
  (\<^verbatim>\<open>repository/authentication-sessions.ts\<close>), the cookie that ties a browser to it
  (\<^verbatim>\<open>service/sign-in-handle.ts\<close>), and of \<^verbatim>\<open>usecase/executor.ts\<close> the functions that park, read,
  reset and consume it. An id is compared as a \<open>uuid\<close>, so in lower case.
\<close>

section \<open>The repository\<close>

abbreviation named :: "string \<Rightarrow> attempt \<Rightarrow> bool" where
  "named i r \<equiv> at_id r = toLowerCase i"

definition attempt_byId :: "string \<Rightarrow> attempt list \<Rightarrow> attempt option" where
  "attempt_byId i rows = (if \<not> isUuid i then None else find (named i) rows)"

definition attempt_create :: "attempt \<Rightarrow> unit site_tx" where
  "attempt_create row s =
     (case insert_row at_id row (si_attempts s) of
        None \<Rightarrow> (Inl (UniqueViolation ''authentication_sessions_pkey''), s)
      | Some rows \<Rightarrow> (Inr (), s\<lparr>si_attempts := rows\<rparr>))"

definition attempt_consume :: "string \<Rightarrow> time \<Rightarrow> attempt list \<Rightarrow> bool \<times> attempt list" where
  "attempt_consume i at rows =
     (let p = (\<lambda>r. named i r \<and> at_consumedAt r = None);
          f = (\<lambda>r. r\<lparr>at_consumedAt := Some at\<rparr>)
      in (length (returning p f rows) > 0, update_where p f rows))"

definition recordSatisfied :: "string \<Rightarrow> string \<Rightarrow> attempt list \<Rightarrow> attempt list" where
  "recordSatisfied i authenticator rows =
     update_where (\<lambda>r. named i r \<and> authenticator \<notin> set (at_satisfied r))
       (\<lambda>r. r\<lparr>at_satisfied := at_satisfied r @ [authenticator]\<rparr>) rows"

definition recordAuthenticated :: "string \<Rightarrow> time option \<Rightarrow> attempt list \<Rightarrow> attempt list" where
  "recordAuthenticated i at rows =
     update_where (named i) (\<lambda>r. r\<lparr>at_authenticatedAt := at\<rparr>) rows"

text \<open>The subject is a foreign key of the row.\<close>

definition bindSubject :: "string \<Rightarrow> string \<Rightarrow> unit site_tx" where
  "bindSubject i subjectId s =
     (if list_ex (named i) (si_attempts s) \<and> \<not> has_subject (si_store s) subjectId
      then (Inl (ForeignKeyViolation ''authentication_sessions_subject_fk''), s)
      else (Inr (), s\<lparr>si_attempts :=
              update_where (named i) (\<lambda>r. r\<lparr>at_subjectId := Some subjectId\<rparr>) (si_attempts s)\<rparr>))"

definition setWebauthnChallenge :: "string \<Rightarrow> string \<Rightarrow> attempt list \<Rightarrow> attempt list" where
  "setWebauthnChallenge i challenge rows =
     update_where (named i) (\<lambda>r. r\<lparr>at_webauthnChallenge := Some challenge\<rparr>) rows"

text \<open>\<open>claimWebauthnChallenge\<close>: \<open>RETURNING\<close> the value before the update that clears it.\<close>

definition claimWebauthnChallenge :: "string \<Rightarrow> attempt list \<Rightarrow> string option \<times> attempt list" where
  "claimWebauthnChallenge i rows =
     (let p = (\<lambda>r. named i r \<and> at_webauthnChallenge r \<noteq> None)
      in (case find p rows of None \<Rightarrow> None | Some r \<Rightarrow> at_webauthnChallenge r,
          update_where p (\<lambda>r. r\<lparr>at_webauthnChallenge := None\<rparr>) rows))"

definition attempt_recordRememberMe :: "string \<Rightarrow> bool \<Rightarrow> attempt list \<Rightarrow> attempt list" where
  "attempt_recordRememberMe i rememberMe rows =
     update_where (named i)
       (\<lambda>r. r\<lparr>at_pendingRequest := (at_pendingRequest r)\<lparr>pr_rememberMe := Some rememberMe\<rparr>\<rparr>) rows"

definition resetProgress :: "string \<Rightarrow> attempt list \<Rightarrow> attempt list" where
  "resetProgress i rows =
     update_where (named i)
       (\<lambda>r. r\<lparr>at_satisfied := [], at_subjectId := None, at_authenticatedAt := None,
             at_webauthnChallenge := None\<rparr>) rows"

section \<open>The sign-in handle\<close>

definition signInHandleName :: "bool \<Rightarrow> string" where
  "signInHandleName tls = (if tls then ''__Secure-odudu-sign-in'' else ''odudu-sign-in'')"

text \<open>\<open>handleCookie\<close>; \<open>path\<close> is \<open>addressPath(address, '/')\<close> and \<open>maxAge\<close> a number's digits.\<close>

definition handleCookie :: "string \<Rightarrow> bool \<Rightarrow> string \<Rightarrow> string \<Rightarrow> string" where
  "handleCookie path tls v maxAge =
     join_with ''; '' ([signInHandleName tls @ ''='' @ v, ''HttpOnly'', ''SameSite=Lax'', ''Path='' @ path]
       @ (if tls then [''Secure''] else []) @ [''Max-Age='' @ maxAge])"

definition signInHandleCookie :: "string \<Rightarrow> bool \<Rightarrow> string \<Rightarrow> string \<Rightarrow> string \<Rightarrow> string" where
  "signInHandleCookie path tls sessionId secret maxAge =
     handleCookie path tls (sessionId @ CHR ''.'' # secret) maxAge"

definition clearedSignInHandleCookie :: "string \<Rightarrow> bool \<Rightarrow> string" where
  "clearedSignInHandleCookie path tls = handleCookie path tls [] ''0''"

text \<open>\<open>/^[A-Za-z0-9_-]{1,128}$/u\<close>\<close>

definition HANDLE_SECRET :: "string \<Rightarrow> bool" where
  "HANDLE_SECRET s \<longleftrightarrow> 1 \<le> length s \<and> length s \<le> 128 \<and> list_all entry_char s"

definition handle_of_pair :: "string \<Rightarrow> string \<Rightarrow> (string \<times> string) option" where
  "handle_of_pair name p =
     (if CHR ''='' \<notin> set p \<or> js_trim (pair_name p) \<noteq> name then None
      else case js_split CHR ''.'' (js_trim (pair_value p)) of
             [sessionId, secret] \<Rightarrow>
               if isUuid sessionId \<and> HANDLE_SECRET secret then Some (sessionId, secret) else None
           | _ \<Rightarrow> None)"

definition readSignInHandle :: "string option \<Rightarrow> bool \<Rightarrow> (string \<times> string) option" where
  "readSignInHandle header tls =
     (case header of
        None \<Rightarrow> None
      | Some h \<Rightarrow>
          first_row (List.map_filter (handle_of_pair (signInHandleName tls)) (js_split CHR '';'' h)))"

definition hashSignInSecret :: "identity_platform \<Rightarrow> string \<Rightarrow> string" where
  "hashSignInSecret ip secret = hex_encode (ip_sha256 ip secret)"

section \<open>Parking a request\<close>

text \<open>\<open>sessionIsLive\<close> of the executor: unexpired and not consumed.\<close>

definition attemptIsLive :: "attempt \<Rightarrow> time \<Rightarrow> bool" where
  "attemptIsLive r now \<longleftrightarrow> at_expiresAt r > now \<and> at_consumedAt r = None"

definition tenant_row :: "tenant site_tx" where
  "tenant_row = tbind (tget si_tenant) (\<lambda>t. tsome t (Thrown ''tenant_not_found''))"

text \<open>
  \<open>startAuthentication\<close>: the id, and the secret with its maximum age for the browser. The
  composition root holds the client against eviction first (\<open>holdForSignIn\<close>), so a request of a
  client that is gone by then throws.
\<close>

definition startAuthentication ::
  "sign_deps \<Rightarrow> pending_request \<Rightarrow> (string \<times> string \<times> int) site_tx" where
  "startAuthentication d request =
     tbind (tget (\<lambda>s. list_ex (\<lambda>c. cl_clientId c = pr_clientId request) (st_clients (si_store s)))) (\<lambda>held.
     tbind (tguard held (Thrown ''the client was removed while its authorization request began'')) (\<lambda>_.
     tbind tenant_row (\<lambda>t.
     tbind (attempt_create
       \<lparr>at_id = sg_newId d, at_pendingRequest = request,
        at_expiresAt = sg_now d + tn_loginTtlSeconds t * 1000, at_consumedAt = None, at_satisfied = [],
        at_subjectId = None, at_authenticatedAt = None, at_webauthnChallenge = None,
        at_browserSecretHash = Some (hashSignInSecret (sg_identity d) (sg_newSecret d))\<rparr>) (\<lambda>_.
     tret (sg_newId d, sg_newSecret d, tn_loginTtlSeconds t)))))"

definition loadPendingRequest :: "string \<Rightarrow> attempt list \<Rightarrow> pending_request option" where
  "loadPendingRequest i rows = map_option at_pendingRequest (attempt_byId i rows)"

definition pendingSession :: "string \<Rightarrow> time \<Rightarrow> attempt list \<Rightarrow> pending_request option" where
  "pendingSession i now rows =
     (case attempt_byId i rows of
        None \<Rightarrow> None
      | Some r \<Rightarrow> if attemptIsLive r now then Some (at_pendingRequest r) else None)"

definition heldSignIn ::
  "identity_platform \<Rightarrow> string option \<Rightarrow> bool \<Rightarrow> time \<Rightarrow> attempt list \<Rightarrow> (string \<times> pending_request) option" where
  "heldSignIn ip header tls now rows =
     (case readSignInHandle header tls of
        None \<Rightarrow> None
      | Some (sessionId, secret) \<Rightarrow>
          (case attempt_byId sessionId rows of
             None \<Rightarrow> None
           | Some r \<Rightarrow>
               (case at_browserSecretHash r of
                  None \<Rightarrow> None
                | Some stored \<Rightarrow>
                    if attemptIsLive r now
                       \<and> hex_decode (hashSignInSecret ip secret) = hex_decode stored
                    then Some (at_id r, at_pendingRequest r) else None)))"

section \<open>Facts\<close>

lemmas attempt_writes = attempt_consume_def recordSatisfied_def recordAuthenticated_def
  setWebauthnChallenge_def claimWebauthnChallenge_def attempt_recordRememberMe_def resetProgress_def

lemma attempt_write_ids [simp]:
  "map at_id (snd (attempt_consume i at rows)) = map at_id rows"
  "map at_id (recordSatisfied i a rows) = map at_id rows"
  "map at_id (recordAuthenticated i at' rows) = map at_id rows"
  "map at_id (setWebauthnChallenge i c rows) = map at_id rows"
  "map at_id (snd (claimWebauthnChallenge i rows)) = map at_id rows"
  "map at_id (attempt_recordRememberMe i b rows) = map at_id rows"
  "map at_id (resetProgress i rows) = map at_id rows"
  by (simp_all add: attempt_writes Let_def)

lemma attempt_byId_SomeD:
  "attempt_byId i rows = Some r \<Longrightarrow> isUuid i \<and> r \<in> set rows \<and> named i r"
  by (auto simp: attempt_byId_def dest: find_SomeD split: if_splits)

text \<open>The cookie a browser sends back is read as the handle it was written with.\<close>

lemma handle_name: "cookie_name (signInHandleName tls)"
proof (cases tls)
  case True
  have "cookie_name (signInHandleName True)" by code_simp
  with True show ?thesis by simp
next
  case False
  have "cookie_name (signInHandleName False)" by code_simp
  with False show ?thesis by simp
qed

lemma readSignInHandle_cookie:
  assumes "isUuid i" "HANDLE_SECRET secret"
  shows "readSignInHandle (Some (signInHandleName tls @ CHR ''='' # i @ CHR ''.'' # secret)) tls =
    Some (i, secret)"
proof -
  let ?v = "i @ CHR ''.'' # secret" and ?n = "signInHandleName tls"
  have n: "CHR ''='' \<notin> set ?n" "CHR '';'' \<notin> set ?n" "\<forall>c \<in> set ?n. \<not> is_js_space c"
    using handle_name [of tls] by (simp_all add: cookie_name_def)
  have c: "entry_char c \<or> c = CHR ''.''" if "c \<in> set ?v" for c
  proof -
    from that consider "c \<in> set i" | "c = CHR ''.''" | "c \<in> set secret" by auto
    then show ?thesis
      using isUuid_chars [OF assms(1), of c] assms(2)
      by cases (simp_all add: HANDLE_SECRET_def list_all_iff)
  qed
  have dot: "CHR ''.'' \<notin> set i" "CHR ''.'' \<notin> set secret"
    using isUuid_chars [OF assms(1), of "CHR ''.''"] assms(2)
    by (auto simp: HANDLE_SECRET_def list_all_iff)
  have trim: "js_trim ?v = ?v"
  proof (rule js_trim_none, rule ballI)
    fix x assume "x \<in> set ?v"
    from c [OF this] show "\<not> is_js_space x"
      by (elim disjE) (simp add: entry_char_no_space, simp add: is_js_space_def)
  qed
  have "CHR '';'' \<notin> set (?n @ CHR ''='' # ?v)" using n(2) c [of "CHR '';''"] by auto
  then have "js_split CHR '';'' (?n @ CHR ''='' # ?v) = [?n @ CHR ''='' # ?v]"
    by (rule js_split_word)
  moreover have "handle_of_pair ?n (?n @ CHR ''='' # ?v) = Some (i, secret)"
    using n dot assms trim
    by (simp add: handle_of_pair_def pair_name_def pair_value_def takeWhile_append dropWhile_append
        js_trim_none js_split_app js_split_word)
  ultimately show ?thesis by (simp add: readSignInHandle_def List.map_filter_simps first_row_def)
qed

text \<open>A consumed attempt is never consumed again.\<close>

definition attempt_spent :: "string \<Rightarrow> attempt list \<Rightarrow> bool" where
  "attempt_spent i rows \<longleftrightarrow> (\<forall>r \<in> set rows. named i r \<longrightarrow> at_consumedAt r \<noteq> None)"

interpretation attempt_uses: single_use "\<lambda>now i rows. decided (attempt_consume i now rows)"
    attempt_spent "\<lambda>rows. True"
proof (unfold_locales, goal_cases)
  case (1 t now k r t')
  then have "t' = snd (attempt_consume k now t)" by (simp add: decided_def split: if_splits)
  then show ?case by (auto simp: attempt_spent_def attempt_consume_def Let_def set_update_where)
next
  case (2 k t now)
  then show ?case
    by (auto simp: attempt_spent_def attempt_consume_def Let_def decided_def returning_def filter_Nil_iff)
next
  case (3 k t now k')
  then show ?case by (auto simp: attempt_spent_def attempt_consume_def Let_def decided_def set_update_where)
qed simp

text \<open>The handle of the browser that parked a request finds it again.\<close>

lemma startAuthentication_parks:
  assumes "startAuthentication d q s = (Inr (i, secret, ttl), s')"
  shows "i = sg_newId d \<and> secret = sg_newSecret d
    \<and> (\<exists>t row. si_tenant s = Some t \<and> ttl = tn_loginTtlSeconds t
      \<and> i \<notin> at_id ` set (si_attempts s) \<and> si_attempts s' = si_attempts s @ [row]
      \<and> at_id row = i \<and> at_pendingRequest row = q \<and> at_expiresAt row = sg_now d + ttl * 1000
      \<and> at_consumedAt row = None
      \<and> at_browserSecretHash row = Some (hashSignInSecret (sg_identity d) secret))"
  using assms unfolding startAuthentication_def tenant_row_def attempt_create_def
  by (auto simp: tx_simps insert_row_Some split: option.splits)

lemma parked_found:
  assumes start: "startAuthentication d q s = (Inr (i, secret, ttl), s')"
    and ids: "isUuid i" "toLowerCase i = i" "HANDLE_SECRET secret"
    and now: "now < sg_now d + ttl * 1000"
  shows "heldSignIn (sg_identity d) (Some (signInHandleName tls @ CHR ''='' # i @ CHR ''.'' # secret)) tls now
      (si_attempts s') = Some (i, q)"
proof -
  from startAuthentication_parks [OF start] obtain row where row: "i \<notin> at_id ` set (si_attempts s)"
    "si_attempts s' = si_attempts s @ [row]" "at_id row = i" "at_pendingRequest row = q"
    "at_expiresAt row = sg_now d + ttl * 1000" "at_consumedAt row = None"
    "at_browserSecretHash row = Some (hashSignInSecret (sg_identity d) secret)" by blast
  have "find (named i) (si_attempts s) = None"
    using row(1) ids(2) by (auto simp: find_None_iff image_iff)
  then have "attempt_byId i (si_attempts s') = Some row"
    using row(2,3) ids by (simp add: attempt_byId_def find_append)
  with row now show ?thesis
    by (simp add: heldSignIn_def readSignInHandle_cookie [OF ids(1,3)] attemptIsLive_def)
qed

end
