(* ===== verification/Authenticators.thy ===== *)
theory Authenticators
  imports Attempts
begin

text \<open>
  The four authenticators of \<^verbatim>\<open>packages/authn-flows\<close>: the decision of each
  (\<^verbatim>\<open>service/authenticators/*.ts\<close>, \<^verbatim>\<open>service/webauthn.ts\<close>) and the step of
  \<^verbatim>\<open>usecase/executor.ts\<close> that gives it what it needs, counts its failures and spends what it
  accepted. A factor may defer a write until the attempt is known to be its subject's: that is
  the \<open>commit\<close> of a success, a transaction whose \<open>False\<close> refuses the login.
\<close>

section \<open>Names and results\<close>

definition PASSWORD :: string where "PASSWORD = ''password''"
definition PASSKEY :: string where "PASSKEY = ''passkey''"
definition OTP :: string where "OTP = ''otp''"
definition RECOVERY_CODE :: string where "RECOVERY_CODE = ''recovery-code''"

lemmas authenticator_names = PASSWORD_def PASSKEY_def OTP_def RECOVERY_CODE_def

record failure_audit =
  fa_reason :: string
  fa_subjectId :: "string option"
  fa_lockoutTripped :: bool

datatype auth_result =
    AuthSuccess string "bool site_tx option"
  | AuthChallenge string
  | AuthFailure string "failure_audit option"

record advance_input =
  in_username :: "string option"
  in_password :: "string option"
  in_code :: "string option"
  in_recoveryCode :: "string option"
  in_assertion :: "json option"

definition NO_INPUT :: advance_input where
  "NO_INPUT = \<lparr>in_username = None, in_password = None, in_code = None, in_recoveryCode = None,
     in_assertion = None\<rparr>"

record step_context =
  sc_subjectId :: "string option"
  sc_authSessionId :: "string option"
  sc_lockout :: lockout_policy
  sc_loginWithEmail :: bool

definition failures_for :: "string \<Rightarrow> login_failure site_tx" where
  "failures_for i = tget (\<lambda>s. failure_forSubject i (si_failures s))"

section \<open>Password\<close>

definition DUMMY_SUBJECT_ID :: string where
  "DUMMY_SUBJECT_ID = ''00000000-0000-0000-0000-000000000000''"

definition DUMMY_HASH :: "identity_platform \<Rightarrow> string" where
  "DUMMY_HASH ip = hashUserPassword ip ''odudu-dummy-verification-target''"

text \<open>\<open>PasswordVerification\<close>, with the account its \<open>upgrade\<close> writes to.\<close>

record password_verification =
  pv_subjectId :: "string option"
  pv_storedHash :: "string option"
  pv_normalised :: bool
  pv_keyedOn :: string

definition passwordStep :: "identity_platform \<Rightarrow> advance_input \<Rightarrow> password_verification \<Rightarrow> auth_result" where
  "passwordStep ip input v =
     (case (in_username input, in_password input) of
        (Some username, Some password) \<Rightarrow>
          (let matched = matchUserPassword ip (coalesce (pv_storedHash v) (DUMMY_HASH ip)) password
                           (\<not> pv_normalised v)
           in case (pv_subjectId v, pv_storedHash v, matched) of
                (Some subjectId, Some stored, Some m) \<Rightarrow>
                  if pv_normalised v then AuthSuccess subjectId None
                  else AuthSuccess subjectId (Some
                    (tbind (credentials_tx (upgradePassword (pv_keyedOn v) stored
                       (if m = AsTyped then Some (hashUserPassword ip password) else None))) (\<lambda>_.
                     tret True)))
              | _ \<Rightarrow> AuthFailure ''invalid_credentials'' None)
      | _ \<Rightarrow> AuthChallenge PASSWORD)"

text \<open>\<open>passwordAttemptFor\<close>: the verification and the failures on record for who it is keyed on.\<close>

definition passwordAttemptFor :: "string \<Rightarrow> bool \<Rightarrow> site \<Rightarrow> password_verification \<times> login_failure" where
  "passwordAttemptFor login loginWithEmail s =
     (let byUsername = user_byUsername login s;
          byEmail = (if loginWithEmail then user_byVerifiedEmail login s else None);
          found = (if CHR ''@'' \<in> set login then js_or_else byEmail byUsername
                   else js_or_else byUsername byEmail);
          subjectId = map_option (\<lambda>(sj, u). sj_id sj) found;
          keyedOn = coalesce subjectId DUMMY_SUBJECT_ID;
          credential = passwordCredentialFor keyedOn (si_credentials s)
      in (\<lparr>pv_subjectId = subjectId, pv_storedHash = map_option fst credential,
           pv_normalised = coalesce (map_option snd credential) True, pv_keyedOn = keyedOn\<rparr>,
          failure_forSubject keyedOn (si_failures s)))"

definition refused_password :: "sign_deps \<Rightarrow> step_context \<Rightarrow> password_verification \<Rightarrow> login_failure \<Rightarrow> auth_result site_tx" where
  "refused_password d context v onRecord =
     tbind (recordFailure d (pv_keyedOn v) (sc_lockout context)) (\<lambda>recorded.
     (let lockedBefore = isLockedOut onRecord (sg_now d)
      in tret (AuthFailure ''invalid_credentials'' (Some
        \<lparr>fa_reason =
           (if pv_subjectId v = None then ''unknown_subject''
            else if lockedBefore then ''locked_out'' else ''bad_credential''),
         fa_subjectId = pv_subjectId v,
         fa_lockoutTripped = (\<not> lockedBefore
           \<and> (case recorded of Recorded row \<Rightarrow> lg_lockedUntil row \<noteq> None | _ \<Rightarrow> False))\<rparr>))))"

definition runPasswordStep :: "sign_deps \<Rightarrow> advance_input \<Rightarrow> step_context \<Rightarrow> auth_result site_tx" where
  "runPasswordStep d input context =
     (if in_username input = None \<or> in_password input = None then tret (AuthChallenge PASSWORD)
      else tbind (tget (passwordAttemptFor (the (in_username input)) (sc_loginWithEmail context)))
        (\<lambda>(v, onRecord).
        (let outcome = passwordStep (sg_identity d) input v
         in case outcome of
              AuthSuccess subjectId commit \<Rightarrow>
                if \<not> isLockedOut onRecord (sg_now d) then tret outcome
                else refused_password d context v onRecord
            | _ \<Rightarrow> refused_password d context v onRecord)))"

section \<open>Second factors\<close>

definition storedTotpFor :: "string \<Rightarrow> credential list \<Rightarrow> credential option" where
  "storedTotpFor i rows = first_row (credentials_of i TotpType rows)"

definition locked_out_failure :: "string \<Rightarrow> auth_result" where
  "locked_out_failure i =
     AuthFailure ''invalid_credentials''
       (Some \<lparr>fa_reason = ''locked_out'', fa_subjectId = Some i, fa_lockoutTripped = False\<rparr>)"

definition refusedWhileLocked ::
  "sign_deps \<Rightarrow> step_context \<Rightarrow> bool \<Rightarrow> auth_result option site_tx" where
  "refusedWhileLocked d context submitted =
     (case (submitted, sc_subjectId context) of
        (True, Some subjectId) \<Rightarrow>
          tbind (failures_for subjectId) (\<lambda>onRecord.
          if \<not> isLockedOut onRecord (sg_now d) then tret None
          else tbind (recordFailure d subjectId (sc_lockout context)) (\<lambda>_.
               tret (Some (locked_out_failure subjectId))))
      | _ \<Rightarrow> tret None)"

definition countSecondFactorFailure ::
  "sign_deps \<Rightarrow> step_context \<Rightarrow> string \<Rightarrow> string \<Rightarrow> auth_result site_tx" where
  "countSecondFactorFailure d context reason answer =
     (case sc_subjectId context of
        None \<Rightarrow> tret (AuthFailure answer
          (Some \<lparr>fa_reason = reason, fa_subjectId = None, fa_lockoutTripped = False\<rparr>))
      | Some subjectId \<Rightarrow>
          tbind (recordFailure d subjectId (sc_lockout context)) (\<lambda>recorded.
          tret (AuthFailure answer (Some
            \<lparr>fa_reason = reason, fa_subjectId = Some subjectId,
             fa_lockoutTripped = (case recorded of Recorded row \<Rightarrow> lg_lockedUntil row \<noteq> None | _ \<Rightarrow> False)\<rparr>))))"

section \<open>One-time password\<close>

datatype totp_outcome = TotpSuccess string int | TotpChallenge | TotpFailure string bool

text \<open>\<open>totpStep\<close>; the exception is that of a stored secret that is no base32.\<close>

definition totpStep ::
  "hmac \<Rightarrow> time \<Rightarrow> string option \<Rightarrow> string option \<Rightarrow> (string \<times> int) option \<Rightarrow> exn + totp_outcome" where
  "totpStep mac now code subjectId secret =
     (case code of
        None \<Rightarrow> Inr TotpChallenge
      | Some c \<Rightarrow>
          (case (subjectId, secret) of
             (Some i, Some (key, lastStep)) \<Rightarrow>
               (case verifyTotp mac key c now (Some lastStep) of
                  None \<Rightarrow> Inl (Thrown ''RangeError'')
                | Some (Some newStep) \<Rightarrow> Inr (TotpSuccess i newStep)
                | Some None \<Rightarrow>
                    (case verifyTotp mac key c now None of
                       None \<Rightarrow> Inl (Thrown ''RangeError'')
                     | Some unbounded \<Rightarrow>
                         Inr (TotpFailure ''invalid_credentials'' (unbounded = Some lastStep))))
           | _ \<Rightarrow> Inr (TotpFailure ''invalid_credentials'' False)))"

definition tsum_of :: "exn + 'a \<Rightarrow> 'a site_tx" where
  "tsum_of r = (case r of Inl e \<Rightarrow> tfail e | Inr x \<Rightarrow> tret x)"

definition runOtpStep :: "sign_deps \<Rightarrow> advance_input \<Rightarrow> step_context \<Rightarrow> auth_result site_tx" where
  "runOtpStep d input context =
     tbind (refusedWhileLocked d context (in_code input \<noteq> None)) (\<lambda>locked.
     case locked of
       Some r \<Rightarrow> tret r
     | None \<Rightarrow>
         tbind (tget (\<lambda>s. case sc_subjectId context of None \<Rightarrow> None
                          | Some i \<Rightarrow> storedTotpFor i (si_credentials s))) (\<lambda>stored.
         tbind (tsum_of (totpStep (ip_hmac (sg_identity d)) (sg_now d) (in_code input)
            (sc_subjectId context)
            (map_option (\<lambda>c. (totp_secret (cd_secret c), totp_lastStep (cd_secret c))) stored))) (\<lambda>outcome.
         case outcome of
           TotpFailure reason replayed \<Rightarrow>
             countSecondFactorFailure d context (if replayed then ''replayed'' else ''bad_credential'') reason
         | TotpChallenge \<Rightarrow> tret (AuthChallenge OTP)
         | TotpSuccess subjectId newStep \<Rightarrow>
             (case stored of
                None \<Rightarrow> tret (AuthSuccess subjectId None)
              | Some c \<Rightarrow>
                  tbind (credentials_tx (recordTotpUse (cd_id c) newStep (sg_now d))) (\<lambda>spent.
                  if spent then tret (AuthSuccess subjectId None)
                  else countSecondFactorFailure d context ''replayed'' ''invalid_credentials'')))))"

definition otpApplicable :: "bool \<Rightarrow> bool \<Rightarrow> string set \<Rightarrow> bool" where
  "otpApplicable hasTotp otpRequired satisfied =
     (if PASSKEY \<in> satisfied then False else hasTotp \<or> otpRequired)"

section \<open>Recovery codes\<close>

definition RECOVERY_CODE_ALPHABET :: string where
  "RECOVERY_CODE_ALPHABET = ''0123456789ABCDEFGHJKMNPQRSTVWXYZ''"

text \<open>
  \<open>toUpperCase\<close> of one character of a byte: the other letters above 127 become characters
  outside the alphabet, as they are themselves.
\<close>

definition js_upper :: "char \<Rightarrow> string" where
  "js_upper c =
     (let n = of_char c :: nat
      in if 97 \<le> n \<and> n \<le> 122 then [char_of (n - 32)] else if n = 223 then ''SS'' else [c])"

definition confusable :: "char \<Rightarrow> char" where
  "confusable c = (if c = CHR ''O'' then CHR ''0'' else if c \<in> {CHR ''I'', CHR ''L''} then CHR ''1'' else c)"

definition normaliseRecoveryCode :: "string \<Rightarrow> string" where
  "normaliseRecoveryCode submitted =
     filter (\<lambda>c. c \<in> set RECOVERY_CODE_ALPHABET) (map confusable (concat (map js_upper submitted)))"

definition recoveryCodeOffered :: "advance_input \<Rightarrow> bool" where
  "recoveryCodeOffered input =
     (case in_recoveryCode input of None \<Rightarrow> False | Some c \<Rightarrow> length (normaliseRecoveryCode c) > 0)"

datatype recovery_outcome = RecoverySuccess string string | RecoveryChallenge | RecoveryFailure string

text \<open>The loop over the stored codes, one verification each, up to the first that matches.\<close>

fun match_recovery :: "identity_platform \<Rightarrow> string \<Rightarrow> string \<Rightarrow> credential list \<Rightarrow> recovery_outcome" where
  "match_recovery ip subjectId submitted [] = RecoveryFailure ''invalid_credentials''"
| "match_recovery ip subjectId submitted (stored # rest) =
     (if \<not> ip_verify ip (secret_hash (cd_secret stored)) submitted
      then match_recovery ip subjectId submitted rest
      else if rc_usedAt (cd_secret stored) \<noteq> None then RecoveryFailure ''already_used''
      else RecoverySuccess subjectId (cd_id stored))"

definition recoveryStep ::
  "identity_platform \<Rightarrow> advance_input \<Rightarrow> string option \<Rightarrow> credential list \<Rightarrow> recovery_outcome" where
  "recoveryStep ip input subjectId codes =
     (if \<not> recoveryCodeOffered input then RecoveryChallenge
      else case subjectId of
             None \<Rightarrow> RecoveryFailure ''invalid_credentials''
           | Some i \<Rightarrow>
               match_recovery ip i (normaliseRecoveryCode (coalesce (in_recoveryCode input) [])) codes)"

definition recoveryApplicable :: "bool \<Rightarrow> bool \<Rightarrow> bool \<Rightarrow> string set \<Rightarrow> bool" where
  "recoveryApplicable hasRecoveryCodes offered secondFactorInPlay satisfied =
     (if PASSKEY \<in> satisfied then False else offered \<and> hasRecoveryCodes \<and> secondFactorInPlay)"

definition oweRecoveryCodesIfNoneUnspent :: "string \<Rightarrow> unit site_tx" where
  "oweRecoveryCodesIfNoneUnspent i =
     tbind (tget (\<lambda>s. countUnspentRecoveryCodes i (si_credentials s))) (\<lambda>usable.
     if usable > 0 then tret () else owe i GenerateRecoveryCodes)"

definition commit_recovery :: "sign_deps \<Rightarrow> step_context \<Rightarrow> string \<Rightarrow> string \<Rightarrow> bool site_tx" where
  "commit_recovery d context subjectId credentialId =
     tbind (credentials_tx (spendRecoveryCode credentialId (sg_now d))) (\<lambda>spent.
     if \<not> spent
     then tbind (countSecondFactorFailure d context ''replayed'' ''invalid_credentials'') (\<lambda>_. tret False)
     else tbind (oweRecoveryCodesIfNoneUnspent subjectId) (\<lambda>_. tret True))"

definition runRecoveryStep :: "sign_deps \<Rightarrow> advance_input \<Rightarrow> step_context \<Rightarrow> auth_result site_tx" where
  "runRecoveryStep d input context =
     tbind (refusedWhileLocked d context (recoveryCodeOffered input)) (\<lambda>locked.
     case locked of
       Some r \<Rightarrow> tret r
     | None \<Rightarrow>
         tbind (tget (\<lambda>s. case sc_subjectId context of None \<Rightarrow> []
                          | Some i \<Rightarrow> credentials_of i RecoveryCodeType (si_credentials s))) (\<lambda>codes.
         case recoveryStep (sg_identity d) input (sc_subjectId context) codes of
           RecoveryFailure reason \<Rightarrow>
             countSecondFactorFailure d context
               (if reason = ''already_used'' then ''already_used'' else ''bad_credential'') reason
         | RecoveryChallenge \<Rightarrow> tret (AuthChallenge RECOVERY_CODE)
         | RecoverySuccess subjectId credentialId \<Rightarrow>
             tret (AuthSuccess subjectId (Some (commit_recovery d context subjectId credentialId)))))"

section \<open>Passkeys\<close>

text \<open>\<open>z.string().min(1)\<close> of a member.\<close>

definition some_text :: "string \<Rightarrow> obj \<Rightarrow> string option" where
  "some_text k o1 = (case obj_get k o1 of Some (JStr (c # cs)) \<Rightarrow> Some (c # cs) | _ \<Rightarrow> None)"

definition parseAuthenticationResponse :: "json \<Rightarrow> assertion_response option" where
  "parseAuthenticationResponse v =
     (case v of
        JObj o1 \<Rightarrow>
          (case (some_text ''id'' o1, some_text ''rawId'' o1, obj_get ''type'' o1, obj_get ''response'' o1) of
             (Some i, Some raw, Some (JStr ty), Some (JObj r)) \<Rightarrow>
               if ty \<noteq> ''public-key'' then None
               else (case (some_text ''clientDataJSON'' r, some_text ''authenticatorData'' r,
                           some_text ''signature'' r, obj_get ''userHandle'' r) of
                       (Some cdj, Some adat, Some sig, None) \<Rightarrow>
                         Some \<lparr>as_id = i, as_rawId = raw, as_clientDataJSON = cdj,
                           as_authenticatorData = adat, as_signature = sig, as_userHandle = None\<rparr>
                     | (Some cdj, Some adat, Some sig, Some (JStr h)) \<Rightarrow>
                         Some \<lparr>as_id = i, as_rawId = raw, as_clientDataJSON = cdj,
                           as_authenticatorData = adat, as_signature = sig, as_userHandle = Some h\<rparr>
                     | _ \<Rightarrow> None)
           | _ \<Rightarrow> None)
      | _ \<Rightarrow> None)"

definition assertedCredentialId :: "json \<Rightarrow> string option" where
  "assertedCredentialId v = map_option as_id (parseAuthenticationResponse v)"

definition counterAdvanced :: "int \<Rightarrow> int \<Rightarrow> bool" where
  "counterAdvanced stored asserted = (if asserted = 0 \<and> stored = 0 then True else asserted > stored)"

definition assertionOffered :: "advance_input \<Rightarrow> bool" where
  "assertionOffered input =
     (case in_assertion input of
        None \<Rightarrow> False | Some JNull \<Rightarrow> False | Some (JStr s) \<Rightarrow> length s \<noteq> 0 | Some _ \<Rightarrow> True)"

definition credentialRelyingPartyId :: "string option \<Rightarrow> string option \<Rightarrow> string option" where
  "credentialRelyingPartyId stored baseRpId = js_or_else stored baseRpId"

definition passkeyCredentialFor :: "json \<Rightarrow> credential list \<Rightarrow> credential option" where
  "passkeyCredentialFor assertion rows =
     (case assertedCredentialId assertion of
        None \<Rightarrow> None
      | Some key \<Rightarrow>
          (case credential_byLookupKey key rows of
             None \<Rightarrow> None
           | Some r \<Rightarrow> if cd_type r = WebauthnType then Some r else None))"

datatype passkey_outcome = PasskeySuccess string string int | PasskeyChallenge | PasskeyFailure string

definition passkeyStep ::
  "sign_deps \<Rightarrow> advance_input \<Rightarrow> credential option \<Rightarrow> string option \<Rightarrow> passkey_outcome" where
  "passkeyStep d input credential expectedChallenge =
     (if \<not> assertionOffered input then PasskeyChallenge
      else case (parseAuthenticationResponse (the (in_assertion input)), credential, expectedChallenge,
                 sg_relyingParty d) of
             (Some response, Some c, Some challenge, Some rp) \<Rightarrow>
               if credentialRelyingPartyId (cd_rpId c) (sg_baseRpId d) \<noteq> Some (rp_id rp)
               then PasskeyFailure ''invalid_credentials''
               else (case ip_assert (sg_identity d) rp challenge response (cd_secret c) of
                       None \<Rightarrow> PasskeyFailure ''invalid_credentials''
                     | Some counter \<Rightarrow>
                         if \<not> counterAdvanced (wa_counter (cd_secret c)) counter
                         then PasskeyFailure ''invalid_credentials''
                         else PasskeySuccess (cd_subjectId c) (cd_id c) counter)
           | _ \<Rightarrow> PasskeyFailure ''invalid_credentials'')"

definition runPasskeyStep :: "sign_deps \<Rightarrow> advance_input \<Rightarrow> step_context \<Rightarrow> auth_result site_tx" where
  "runPasskeyStep d input context =
     (if \<not> assertionOffered input then tret (AuthChallenge PASSKEY)
      else
        tbind (tget (\<lambda>s. passkeyCredentialFor (the (in_assertion input)) (si_credentials s))) (\<lambda>credential.
        tbind (case sc_authSessionId context of
                 None \<Rightarrow> tret None
               | Some i \<Rightarrow> attempts_tx (claimWebauthnChallenge i)) (\<lambda>expectedChallenge.
        case passkeyStep d input credential expectedChallenge of
          PasskeyFailure reason \<Rightarrow>
            tret (AuthFailure reason (Some
              \<lparr>fa_reason = ''bad_credential'',
               fa_subjectId = (case credential of None \<Rightarrow> sc_subjectId context
                               | Some c \<Rightarrow> Some (cd_subjectId c)),
               fa_lockoutTripped = False\<rparr>))
        | PasskeyChallenge \<Rightarrow> tret (AuthChallenge PASSKEY)
        | PasskeySuccess subjectId credentialId counter \<Rightarrow>
            tret (AuthSuccess subjectId
              (Some (credentials_tx (advanceWebauthnCounter credentialId counter (sg_now d))))))))"

section \<open>The registry\<close>

type_synonym authenticator = "sign_deps \<Rightarrow> advance_input \<Rightarrow> step_context \<Rightarrow> auth_result site_tx"

definition AUTHENTICATORS :: "(string \<times> authenticator) list" where
  "AUTHENTICATORS =
     [(PASSWORD, runPasswordStep), (PASSKEY, runPasskeyStep), (OTP, runOtpStep),
      (RECOVERY_CODE, runRecoveryStep)]"

definition isRegisteredAuthenticator :: "string \<Rightarrow> bool" where
  "isRegisteredAuthenticator name \<longleftrightarrow> map_of AUTHENTICATORS name \<noteq> None"

end
