(* ===== verification/Sign_In.thy ===== *)
theory Sign_In
  imports Authenticators
begin

text \<open>
  The executor of a login (\<^verbatim>\<open>packages/authn-flows/src/usecase/executor.ts\<close>, \<^verbatim>\<open>login-audit.ts\<close>,
  \<^verbatim>\<open>recovery-codes.ts\<close>, \<^verbatim>\<open>update-password.ts\<close>, \<^verbatim>\<open>required-actions.ts\<close>): which steps of the
  tenant's flow apply to the subject of an attempt, one submission run against the next of them
  (\<open>advance\<close>), and who an attempt is authenticated as.
\<close>

section \<open>Which steps apply\<close>

record flow_facts =
  ff_hasTotp :: bool
  ff_hasRecoveryCodes :: bool
  ff_otpRequired :: bool
  ff_passwordMaxAgeDays :: int
  ff_lockout :: lockout_policy
  ff_loginWithEmail :: bool
  ff_satisfied :: "string set"
  ff_assertionOffered :: bool
  ff_recoveryCodeOffered :: bool

record facts_request =
  fr_subjectId :: "string option"
  fr_satisfied :: "string set"
  fr_assertionOffered :: bool
  fr_recoveryCodeOffered :: bool

definition flowFacts :: "facts_request \<Rightarrow> flow_facts site_tx" where
  "flowFacts request =
     tbind tenant_row (\<lambda>t. tget (\<lambda>s.
       \<lparr>ff_hasTotp = (case fr_subjectId request of None \<Rightarrow> False
            | Some i \<Rightarrow> storedTotpFor i (si_credentials s) \<noteq> None),
        ff_hasRecoveryCodes = (fr_recoveryCodeOffered request
          \<and> (case fr_subjectId request of None \<Rightarrow> False
             | Some i \<Rightarrow> length (credentials_of i RecoveryCodeType (si_credentials s)) > 0)),
        ff_otpRequired = tn_otpRequired t, ff_passwordMaxAgeDays = tn_passwordMaxAgeDays t,
        ff_lockout = tn_lockout t, ff_loginWithEmail = tn_loginWithEmail t,
        ff_satisfied = fr_satisfied request, ff_assertionOffered = fr_assertionOffered request,
        ff_recoveryCodeOffered = fr_recoveryCodeOffered request\<rparr>))"

definition otpApplies :: "flow_facts \<Rightarrow> bool" where
  "otpApplies facts = otpApplicable (ff_hasTotp facts) (ff_otpRequired facts) (ff_satisfied facts)"

definition isApplicable :: "string \<Rightarrow> flow_facts \<Rightarrow> bool \<Rightarrow> bool" where
  "isApplicable authenticator facts recoveryCarriesTheSecondFactor =
     (if authenticator = PASSWORD then True
      else if authenticator = PASSKEY then ff_assertionOffered facts
      else if authenticator = RECOVERY_CODE
      then recoveryApplicable (ff_hasRecoveryCodes facts) (ff_recoveryCodeOffered facts)
             (ff_hasTotp facts \<and> otpApplies facts) (ff_satisfied facts)
      else if authenticator \<noteq> OTP then False
      else if recoveryCarriesTheSecondFactor then False
      else if RECOVERY_CODE \<in> ff_satisfied facts then False
      else otpApplies facts \<and> ff_hasTotp facts)"

definition enrolmentOwed :: "flow_facts \<Rightarrow> bool" where
  "enrolmentOwed facts = (otpApplies facts \<and> \<not> ff_hasTotp facts)"

definition steps_for :: "execution list \<Rightarrow> flow_facts \<Rightarrow> flow_step list" where
  "steps_for executions facts =
     (let carries = list_ex (\<lambda>e. ex_authenticator e = RECOVERY_CODE \<and> ex_requirement e \<noteq> Disabled) executions
                    \<and> isApplicable RECOVERY_CODE facts False
      in map (\<lambda>e. \<lparr>sp_authenticator = ex_authenticator e, sp_requirement = ex_requirement e,
                   sp_applicable = isApplicable (ex_authenticator e) facts carries\<rparr>) executions)"

text \<open>\<open>forTenant\<close> lists the executions by their index.\<close>

definition loadSteps :: "facts_request \<Rightarrow> (flow_step list \<times> flow_facts) site_tx" where
  "loadSteps request =
     tbind (tget (\<lambda>s. sort_key ex_index (si_executions s))) (\<lambda>executions.
     tbind (flowFacts request) (\<lambda>facts.
     tret (steps_for executions facts, facts)))"

section \<open>Dispatch\<close>

datatype dispatch = Ran string auth_result | is_complete: DispatchComplete | DispatchFail

definition dispatchNext ::
  "sign_deps \<Rightarrow> step_context \<Rightarrow> flow_step list \<Rightarrow> string set \<Rightarrow> advance_input \<Rightarrow> dispatch site_tx" where
  "dispatchNext d context steps satisfied input =
     (case nextStep steps satisfied of
        Fail \<Rightarrow> tret DispatchFail
      | Complete \<Rightarrow> tret DispatchComplete
      | Run authenticator \<Rightarrow>
          (case map_of AUTHENTICATORS authenticator of
             None \<Rightarrow> tfail (Thrown ''authenticator is not registered'')
           | Some run \<Rightarrow> tbind (run d input context) (\<lambda>result. tret (Ran authenticator result))))"

definition NO_APPLICABLE_EXECUTION :: string where
  "NO_APPLICABLE_EXECUTION = ''no_applicable_execution''"

definition SUBJECT_MISMATCH :: string where
  "SUBJECT_MISMATCH = ''subject_mismatch''"

definition context_for :: "flow_facts \<Rightarrow> string option \<Rightarrow> string option \<Rightarrow> step_context" where
  "context_for facts subjectId authSessionId =
     \<lparr>sc_subjectId = subjectId, sc_authSessionId = authSessionId, sc_lockout = ff_lockout facts,
      sc_loginWithEmail = ff_loginWithEmail facts\<rparr>"

definition challenge_of :: "dispatch \<Rightarrow> auth_result" where
  "challenge_of dispatched =
     (case dispatched of Ran a result \<Rightarrow> result | _ \<Rightarrow> AuthFailure NO_APPLICABLE_EXECUTION None)"

definition initialChallenge :: "sign_deps \<Rightarrow> auth_result site_tx" where
  "initialChallenge d =
     tbind (loadSteps \<lparr>fr_subjectId = None, fr_satisfied = {}, fr_assertionOffered = False,
       fr_recoveryCodeOffered = False\<rparr>) (\<lambda>(steps, facts).
     tbind (dispatchNext d (context_for facts None None) steps {} NO_INPUT) (\<lambda>dispatched.
     tret (challenge_of dispatched)))"

record flow_context =
  fc_record :: attempt
  fc_steps :: "flow_step list"
  fc_satisfied :: "string set"
  fc_context :: step_context

definition loadFlowContext :: "sign_deps \<Rightarrow> string \<Rightarrow> advance_input \<Rightarrow> flow_context option site_tx" where
  "loadFlowContext d authSessionId input =
     tbind (tget (\<lambda>s. attempt_byId authSessionId (si_attempts s))) (\<lambda>found.
     case found of
       None \<Rightarrow> tret None
     | Some r \<Rightarrow>
         if at_expiresAt r \<le> sg_now d then tret None
         else tbind (loadSteps \<lparr>fr_subjectId = at_subjectId r, fr_satisfied = set (at_satisfied r),
                fr_assertionOffered = assertionOffered input,
                fr_recoveryCodeOffered = recoveryCodeOffered input\<rparr>) (\<lambda>(steps, facts).
              tret (Some \<lparr>fc_record = r, fc_steps = steps, fc_satisfied = set (at_satisfied r),
                fc_context = context_for facts (at_subjectId r) (Some authSessionId)\<rparr>)))"

definition pendingChallenge :: "sign_deps \<Rightarrow> string \<Rightarrow> auth_result site_tx" where
  "pendingChallenge d authSessionId =
     tbind (loadFlowContext d authSessionId NO_INPUT) (\<lambda>loaded.
     case loaded of
       None \<Rightarrow> tret (AuthFailure ''authentication_session_expired'' None)
     | Some fc \<Rightarrow>
         tbind (dispatchNext d (fc_context fc) (fc_steps fc) (fc_satisfied fc) NO_INPUT) (\<lambda>dispatched.
         tret (challenge_of dispatched)))"

section \<open>The audit of a login\<close>

definition LOGIN_ACTIONS :: "(string \<times> string) list" where
  "LOGIN_ACTIONS =
     [(PASSWORD, ''login.password''), (OTP, ''login.otp''), (RECOVERY_CODE, ''login.recovery_code''),
      (PASSKEY, ''login.passkey'')]"

definition loginActionFor :: "string \<Rightarrow> string site_tx" where
  "loginActionFor authenticator =
     tsome (map_of LOGIN_ACTIONS authenticator) (Thrown ''authenticator has no audit action'')"

record login_audit =
  la_clientId :: "string option"
  la_resourceId :: string

text \<open>\<open>authenticationSessionDigest\<close>\<close>

definition authenticationSessionDigest :: "identity_platform \<Rightarrow> string \<Rightarrow> string" where
  "authenticationSessionDigest ip authSessionId = hex_encode (ip_sha256 ip authSessionId)"

definition loginAuditFor :: "sign_deps \<Rightarrow> string \<Rightarrow> string \<Rightarrow> login_audit site_tx" where
  "loginAuditFor d authSessionId oauthClientId =
     tget (\<lambda>s. \<lparr>la_clientId = map_option cl_id
                  (find (\<lambda>c. cl_clientId c = oauthClientId) (st_clients (si_store s))),
                la_resourceId = authenticationSessionDigest (sg_identity d) authSessionId\<rparr>)"

definition login_event ::
  "login_audit \<Rightarrow> string \<Rightarrow> audit_outcome \<Rightarrow> string option \<Rightarrow> obj \<Rightarrow> audit_event" where
  "login_event la action outcome subjectId detail =
     \<lparr>ae_eventType = ''authentication'', ae_action = action, ae_outcome = outcome,
      ae_actorSubjectId = subjectId, ae_actorClientId = la_clientId la,
      ae_resourceType = Some ''authentication_session'', ae_resourceId = Some (la_resourceId la),
      ae_detail = detail\<rparr>"

definition audit_allowed :: "sign_deps \<Rightarrow> login_audit \<Rightarrow> string \<Rightarrow> string \<Rightarrow> unit site_tx" where
  "audit_allowed d la authenticator subjectId =
     tbind (loginActionFor authenticator) (\<lambda>action.
     on_store (audit_record (sg_deps d)
       (login_event la action Allowed (Some subjectId) [(''factor'', JStr authenticator)])))"

definition audit_refused ::
  "sign_deps \<Rightarrow> login_audit \<Rightarrow> string \<Rightarrow> string option \<Rightarrow> string \<Rightarrow> bool \<Rightarrow> unit site_tx" where
  "audit_refused d la authenticator subjectId reason lockoutTripped =
     tbind (loginActionFor authenticator) (\<lambda>action.
     on_store (logged (audit_recordAll (sg_deps d)
       (login_event la action Refused subjectId
          [(''factor'', JStr authenticator), (''reason'', JStr reason)]
        # (if lockoutTripped
           then [login_event la ''lockout.tripped'' Refused subjectId [(''reason'', JStr ''locked_out'')]]
           else [])))))"

definition factorOffered :: "sign_deps \<Rightarrow> login_audit \<Rightarrow> string \<Rightarrow> string \<Rightarrow> unit site_tx" where
  "factorOffered d la form subjectId =
     on_store (audit_record (sg_deps d)
       (login_event la ''factor.offered'' Allowed (Some subjectId) [(''factor'', JStr form)]))"

section \<open>What a login makes a subject owe\<close>

definition recordOtpEnrolmentIfOwed :: "string \<Rightarrow> flow_facts \<Rightarrow> unit site_tx" where
  "recordOtpEnrolmentIfOwed subjectId facts =
     (if \<not> enrolmentOwed facts then tret () else owe subjectId ConfigureTotp)"

definition recordPasswordExpiryIfOwed :: "sign_deps \<Rightarrow> string \<Rightarrow> int \<Rightarrow> unit site_tx" where
  "recordPasswordExpiryIfOwed d subjectId maxAgeDays =
     (if maxAgeDays = 0 then tret ()
      else tbind (tget (\<lambda>s. first_row (credentials_of subjectId PasswordType (si_credentials s)))) (\<lambda>found.
        case found of
          None \<Rightarrow> tret ()
        | Some c \<Rightarrow> if \<not> passwordExpired c maxAgeDays (sg_now d) then tret ()
                    else owe subjectId UpdatePassword))"

definition oweRecoveryCodesIfFactorWithoutCodes :: "string \<Rightarrow> unit site_tx" where
  "oweRecoveryCodesIfFactorWithoutCodes subjectId =
     tbind (tget (\<lambda>s. recoveryStanding subjectId (si_credentials s))) (\<lambda>standing.
     if \<not> sd_hasTotp standing \<or> sd_unspent standing > 0 then tret ()
     else owe subjectId GenerateRecoveryCodes)"

definition pendingActionsFor :: "string \<Rightarrow> required_action list site_tx" where
  "pendingActionsFor subjectId =
     tbind (tget (\<lambda>s. pendingFor subjectId (si_actions s))) (\<lambda>owed.
     if GenerateRecoveryCodes \<notin> set owed then tret owed
     else tbind (tget (\<lambda>s. recoveryStanding subjectId (si_credentials s))) (\<lambda>standing.
       if sd_hasTotp standing then tret owed
       else tbind (actions_tx (\<lambda>rows. ((), action_complete subjectId GenerateRecoveryCodes rows))) (\<lambda>_.
            tret (filter (\<lambda>a. a \<noteq> GenerateRecoveryCodes) owed))))"

definition REQUIRED_ACTION_ORDER :: "required_action list" where
  "REQUIRED_ACTION_ORDER = [UpdatePassword, ConfigureTotp, ConfigurePasskey, GenerateRecoveryCodes]"

definition nextRequiredAction :: "required_action list \<Rightarrow> required_action option" where
  "nextRequiredAction owed = find (\<lambda>a. a \<in> set owed) REQUIRED_ACTION_ORDER"

section \<open>One submission\<close>

datatype advance_outcome =
    AdvanceSuccess string "string list"
  | AdvanceChallenge string
  | AdvanceFailure string

definition carriesCredential :: "advance_input \<Rightarrow> bool" where
  "carriesCredential input \<longleftrightarrow> in_username input \<noteq> None \<or> in_password input \<noteq> None \<or> in_code input \<noteq> None
     \<or> in_recoveryCode input \<noteq> None \<or> in_assertion input \<noteq> None"

text \<open>\<open>settle\<close>: what the second dispatch deferred, run under the two rules of the first.\<close>

definition settle_result :: "auth_result \<Rightarrow> string \<Rightarrow> auth_result site_tx" where
  "settle_result result boundTo =
     (case result of
        AuthSuccess i commit \<Rightarrow>
          if i \<noteq> boundTo
          then tret (AuthFailure SUBJECT_MISMATCH (Some
            \<lparr>fa_reason = ''subject_mismatch'', fa_subjectId = Some boundTo, fa_lockoutTripped = False\<rparr>))
          else (case commit of
                  None \<Rightarrow> tret (AuthSuccess i None)
                | Some m \<Rightarrow> tbind m (\<lambda>landed.
                    if landed then tret (AuthSuccess i None)
                    else tret (AuthFailure ''invalid_credentials'' (Some
                      \<lparr>fa_reason = ''replayed'', fa_subjectId = Some i, fa_lockoutTripped = False\<rparr>))))
      | _ \<Rightarrow> tret result)"

definition recordSettled :: "sign_deps \<Rightarrow> login_audit \<Rightarrow> string \<Rightarrow> auth_result \<Rightarrow> string \<Rightarrow> unit site_tx" where
  "recordSettled d la authenticator after_settle subjectId =
     (case after_settle of
        AuthChallenge form \<Rightarrow> factorOffered d la form subjectId
      | AuthSuccess i c \<Rightarrow> audit_allowed d la authenticator i
      | AuthFailure reason refused \<Rightarrow>
          (case refused of
             None \<Rightarrow> audit_refused d la authenticator (Some subjectId) ''bad_credential'' False
           | Some fa \<Rightarrow> audit_refused d la authenticator (fa_subjectId fa) (fa_reason fa) False))"

text \<open>The flow re-read for the subject, once its factor counts: the outcome of the submission.\<close>

definition outcome_after ::
  "sign_deps \<Rightarrow> string \<Rightarrow> login_audit \<Rightarrow> attempt \<Rightarrow> string \<Rightarrow> string \<Rightarrow> dispatch \<Rightarrow> advance_outcome site_tx" where
  "outcome_after d authSessionId la r authenticator subjectId after =
     (case after of
        Ran next_authenticator result \<Rightarrow>
          tbind (settle_result result subjectId) (\<lambda>after_settle.
          tbind (recordSettled d la next_authenticator after_settle subjectId) (\<lambda>_.
          case after_settle of
            AuthSuccess i c \<Rightarrow>
              tbind (attempts_tx (\<lambda>rows. ((), recordSatisfied authSessionId next_authenticator rows))) (\<lambda>_.
              tret (AdvanceSuccess i
                (js_unique (at_satisfied r @ [authenticator, next_authenticator]))))
          | AuthFailure reason fa \<Rightarrow> tret (AdvanceFailure reason)
          | AuthChallenge form \<Rightarrow> tret (AdvanceChallenge form)))
      | DispatchFail \<Rightarrow> tret (AdvanceFailure NO_APPLICABLE_EXECUTION)
      | DispatchComplete \<Rightarrow>
          tret (AdvanceSuccess subjectId (js_unique (at_satisfied r @ [authenticator]))))"

definition close_run :: "advance_outcome \<Rightarrow> string \<Rightarrow> unit site_tx" where
  "close_run outcome subjectId =
     (case outcome of
        AdvanceSuccess i authenticators \<Rightarrow>
          tbind (if PASSWORD \<in> set authenticators
                 then failures_tx (\<lambda>rows. ((), clear_failures subjectId rows)) else tret ()) (\<lambda>_.
          oweRecoveryCodesIfFactorWithoutCodes subjectId)
      | _ \<Rightarrow> tret ())"

text \<open>From the success of a factor whose write has landed to the end of \<open>advance\<close>.\<close>

definition factor_passed ::
  "sign_deps \<Rightarrow> string \<Rightarrow> login_audit \<Rightarrow> attempt \<Rightarrow> advance_input \<Rightarrow> string \<Rightarrow> string \<Rightarrow> advance_outcome site_tx" where
  "factor_passed d authSessionId la r input authenticator subjectId =
     (let updatedSatisfied = insert authenticator (set (at_satisfied r))
      in tbind (audit_allowed d la authenticator subjectId) (\<lambda>_.
         tbind (bindSubject authSessionId subjectId) (\<lambda>_.
         tbind (loadSteps \<lparr>fr_subjectId = Some subjectId, fr_satisfied = updatedSatisfied,
           fr_assertionOffered = assertionOffered input,
           fr_recoveryCodeOffered = recoveryCodeOffered input\<rparr>) (\<lambda>(stepsForSubject, facts).
         tbind (recordOtpEnrolmentIfOwed subjectId facts) (\<lambda>_.
         tbind (recordPasswordExpiryIfOwed d subjectId (ff_passwordMaxAgeDays facts)) (\<lambda>_.
         tbind (attempts_tx (\<lambda>rows. ((), recordSatisfied authSessionId authenticator rows))) (\<lambda>_.
         tbind (dispatchNext d (context_for facts (Some subjectId) (Some authSessionId)) stepsForSubject
           updatedSatisfied NO_INPUT) (\<lambda>after.
         tbind (outcome_after d authSessionId la r authenticator subjectId after) (\<lambda>outcome.
         tbind (close_run outcome subjectId) (\<lambda>_.
         tbind (attempts_tx (\<lambda>rows. ((), recordAuthenticated authSessionId
           (case outcome of AdvanceSuccess i as \<Rightarrow> Some (sg_now d) | _ \<Rightarrow> None) rows))) (\<lambda>_.
         tret outcome)))))))))))"

text \<open>What \<open>advance\<close> does with the result of the factor that ran.\<close>

definition judge_factor ::
  "sign_deps \<Rightarrow> string \<Rightarrow> login_audit \<Rightarrow> attempt \<Rightarrow> advance_input \<Rightarrow> string \<Rightarrow> auth_result \<Rightarrow> advance_outcome site_tx" where
  "judge_factor d authSessionId la r input authenticator result =
     (case result of
        AuthChallenge form \<Rightarrow>
          tbind (attempts_tx (\<lambda>rows. ((), recordAuthenticated authSessionId None rows))) (\<lambda>_.
          tret (AdvanceChallenge form))
      | AuthFailure reason audited \<Rightarrow>
          (let refused = coalesce audited \<lparr>fa_reason = ''bad_credential'',
                 fa_subjectId = at_subjectId r, fa_lockoutTripped = False\<rparr>
           in tbind (audit_refused d la authenticator (fa_subjectId refused) (fa_reason refused)
                (fa_lockoutTripped refused)) (\<lambda>_.
              tret (AdvanceFailure reason)))
      | AuthSuccess subjectId commit \<Rightarrow>
          if (case at_subjectId r of None \<Rightarrow> False | Some bound \<Rightarrow> bound \<noteq> subjectId)
          then tbind (audit_refused d la authenticator (at_subjectId r) ''subject_mismatch'' False) (\<lambda>_.
               tret (AdvanceFailure SUBJECT_MISMATCH))
          else tbind (case commit of None \<Rightarrow> tret True | Some m \<Rightarrow> m) (\<lambda>landed.
               if \<not> landed
               then tbind (audit_refused d la authenticator (Some subjectId) ''replayed'' False) (\<lambda>_.
                    tret (AdvanceFailure ''invalid_credentials''))
               else factor_passed d authSessionId la r input authenticator subjectId))"

definition advance :: "sign_deps \<Rightarrow> string \<Rightarrow> advance_input \<Rightarrow> advance_outcome site_tx" where
  "advance d authSessionId input =
     tbind (loadFlowContext d authSessionId input) (\<lambda>loaded.
     case loaded of
       None \<Rightarrow> tret (AdvanceFailure ''authentication_session_expired'')
     | Some fc \<Rightarrow>
         (let r = fc_record fc
          in tbind (loginAuditFor d authSessionId (pr_clientId (at_pendingRequest r))) (\<lambda>la.
             tbind (dispatchNext d (fc_context fc) (fc_steps fc) (fc_satisfied fc) input) (\<lambda>first.
             if is_complete first \<and> at_subjectId r \<noteq> None \<and> \<not> carriesCredential input
             then tbind (attempts_tx (\<lambda>rows. ((), recordAuthenticated authSessionId (Some (sg_now d)) rows))) (\<lambda>_.
                  tret (AdvanceSuccess (the (at_subjectId r)) (at_satisfied r)))
             else tbind (if is_complete first \<and> at_subjectId r \<noteq> None
                         then dispatchNext d (fc_context fc) (fc_steps fc) {} input
                         else tret first) (\<lambda>dispatched.
                  case dispatched of
                    Ran authenticator result \<Rightarrow> judge_factor d authSessionId la r input authenticator result
                  | _ \<Rightarrow> tret (AdvanceFailure NO_APPLICABLE_EXECUTION))))))"

section \<open>Who an attempt is\<close>

definition authenticatorsSatisfyFlow :: "string \<Rightarrow> string list \<Rightarrow> bool site_tx" where
  "authenticatorsSatisfyFlow subjectId authenticators =
     tbind (loadSteps \<lparr>fr_subjectId = Some subjectId, fr_satisfied = set authenticators,
       fr_assertionOffered = False, fr_recoveryCodeOffered = False\<rparr>) (\<lambda>(steps, facts).
     tret (nextStep steps (set authenticators) = Complete))"

definition authenticatedSession :: "sign_deps \<Rightarrow> string \<Rightarrow> (string \<times> string list) option site_tx" where
  "authenticatedSession d authSessionId =
     tbind (tget (\<lambda>s. attempt_byId authSessionId (si_attempts s))) (\<lambda>found.
     case found of
       None \<Rightarrow> tret None
     | Some r \<Rightarrow>
         if \<not> attemptIsLive r (sg_now d) then tret None
         else if at_authenticatedAt r = None then tret None
         else (case at_subjectId r of
                 None \<Rightarrow> tret None
               | Some subjectId \<Rightarrow>
                   tbind (authenticatorsSatisfyFlow subjectId (at_satisfied r)) (\<lambda>met.
                   tret (if met then Some (subjectId, at_satisfied r) else None))))"

definition markSessionAuthenticated :: "sign_deps \<Rightarrow> string \<Rightarrow> string \<Rightarrow> string list \<Rightarrow> unit site_tx" where
  "markSessionAuthenticated d authSessionId subjectId authenticators =
     tbind (bindSubject authSessionId subjectId) (\<lambda>_.
     tbind (attempts_tx (\<lambda>rows. ((), fold (recordSatisfied authSessionId) authenticators rows))) (\<lambda>_.
     attempts_tx (\<lambda>rows. ((), recordAuthenticated authSessionId (Some (sg_now d)) rows))))"

definition resetAuthenticationProgress :: "string \<Rightarrow> unit site_tx" where
  "resetAuthenticationProgress authSessionId = attempts_tx (\<lambda>rows. ((), resetProgress authSessionId rows))"

definition recordRememberMe :: "string \<Rightarrow> bool \<Rightarrow> unit site_tx" where
  "recordRememberMe authSessionId rememberMe =
     attempts_tx (\<lambda>rows. ((), attempt_recordRememberMe authSessionId rememberMe rows))"

definition consumeAuthenticationSession :: "sign_deps \<Rightarrow> string \<Rightarrow> bool site_tx" where
  "consumeAuthenticationSession d authSessionId = attempts_tx (attempt_consume authSessionId (sg_now d))"

end
