(* ===== verification/Authorize.thy ===== *)
theory Authorize
  imports Site
begin

text \<open>
  The rules of the authorization endpoint that read only the request and the client's
  registration: of \<^verbatim>\<open>packages/protocol-oidc/src/service\<close> the reading of the query
  (\<^verbatim>\<open>query-normalization.ts\<close>), the match of a redirect URI (\<^verbatim>\<open>redirect-uri.ts\<close>), the \<open>prompt\<close>,
  \<open>claims\<close> and \<open>ui_locales\<close> parameters (\<^verbatim>\<open>prompt.ts\<close>, \<^verbatim>\<open>claims-request.ts\<close>, \<^verbatim>\<open>ui-locales.ts\<close>), the
  order of the checks (\<^verbatim>\<open>authorize-validation.ts\<close>), the error codes (\<^verbatim>\<open>oauth-errors.ts\<close>), and the
  form of a client id that is a URL (\<^verbatim>\<open>client-id-metadata.ts\<close>).

  What the HTTP layer's body parser hands over is a JSON value; \<open>JSON.parse\<close> and \<open>net.isIP\<close> are
  parameters. Parameters are kept as pairs, the last assignment of a name first.
\<close>

section \<open>Errors\<close>

datatype authorization_error =
    ErrAccessDenied | ErrAccountSelectionRequired | ErrConsentRequired | ErrInvalidClient
  | ErrInvalidRequest | ErrInvalidScope | ErrInvalidTarget | ErrLoginRequired
  | ErrRequestNotSupported | ErrRequestUriNotSupported | ErrUnsupportedResponseType

fun error_code :: "authorization_error \<Rightarrow> string" where
  "error_code ErrAccessDenied = ''access_denied''"
| "error_code ErrAccountSelectionRequired = ''account_selection_required''"
| "error_code ErrConsentRequired = ''consent_required''"
| "error_code ErrInvalidClient = ''invalid_client''"
| "error_code ErrInvalidRequest = ''invalid_request''"
| "error_code ErrInvalidScope = ''invalid_scope''"
| "error_code ErrInvalidTarget = ''invalid_target''"
| "error_code ErrLoginRequired = ''login_required''"
| "error_code ErrRequestNotSupported = ''request_not_supported''"
| "error_code ErrRequestUriNotSupported = ''request_uri_not_supported''"
| "error_code ErrUnsupportedResponseType = ''unsupported_response_type''"

fun error_description :: "authorization_error \<Rightarrow> string" where
  "error_description ErrAccessDenied = ''The user did not allow the request.''"
| "error_description ErrAccountSelectionRequired = ''The user must choose an account first.''"
| "error_description ErrConsentRequired = ''The user has not agreed to this request yet.''"
| "error_description ErrInvalidClient = ''Client authentication failed.''"
| "error_description ErrInvalidRequest = ''The request is missing a parameter or has a wrong one.''"
| "error_description ErrInvalidScope = ''A requested scope is not available to this client.''"
| "error_description ErrInvalidTarget = ''A requested resource is not available to this client.''"
| "error_description ErrLoginRequired = ''The user is not signed in.''"
| "error_description ErrRequestNotSupported = ''The request parameter is not supported.''"
| "error_description ErrRequestUriNotSupported = ''The request_uri parameter is not supported.''"
| "error_description ErrUnsupportedResponseType = ''Only response_type=code is supported.''"

section \<open>The query\<close>

type_synonym params = "(string \<times> string) list"

abbreviation param_of :: "string \<Rightarrow> params \<Rightarrow> string option" where
  "param_of k ps \<equiv> map_of ps k"

datatype query_normalization =
    QueryRender authorization_error string
  | QueryOk params "string option"

definition RENDER_ON_REPEAT :: "string list" where
  "RENDER_ON_REPEAT = [''client_id'', ''redirect_uri'', ''response_mode'', ''response_type'']"

datatype parameter_value = Absent | Single string | Ambiguous "string option"

fun first_text :: "json list \<Rightarrow> string option" where
  "first_text [] = None"
| "first_text (JStr v # vs) = Some v"
| "first_text (_ # vs) = first_text vs"

fun sent_values :: "json \<Rightarrow> json list" where
  "sent_values (JArr vs) = vs"
| "sent_values v = [v]"

definition parameterValue :: "json \<Rightarrow> parameter_value" where
  "parameterValue raw =
     (let present = filter (\<lambda>entry. entry \<noteq> JStr []) (sent_values raw);
          v = first_text present
      in if length present > 1 then Ambiguous v
         else (case v of None \<Rightarrow> Absent | Some text \<Rightarrow> Single text))"

fun normalize_entries :: "obj \<Rightarrow> params \<Rightarrow> string option \<Rightarrow> query_normalization" where
  "normalize_entries [] ps repeatedKey = QueryOk ps repeatedKey"
| "normalize_entries ((k, rawValue) # entries) ps repeatedKey =
     (if k = ''resource'' then normalize_entries entries ps repeatedKey
      else (case parameterValue rawValue of
              Absent \<Rightarrow> normalize_entries entries ps repeatedKey
            | Single v \<Rightarrow> normalize_entries entries ((k, v) # ps) repeatedKey
            | Ambiguous v \<Rightarrow>
                if k \<in> set RENDER_ON_REPEAT
                then QueryRender ErrInvalidRequest (''Repeated '' @ k @ '' parameter'')
                else normalize_entries entries (case v of None \<Rightarrow> ps | Some text \<Rightarrow> (k, text) # ps)
                       (js_or_else repeatedKey (Some k))))"

fun normalizeAuthorizeQuery :: "json \<Rightarrow> query_normalization" where
  "normalizeAuthorizeQuery (JObj entries) = normalize_entries entries [] None"
| "normalizeAuthorizeQuery _ = QueryOk [] None"

text \<open>\<open>resourceParam\<close> of \<^verbatim>\<open>usecase/authorization-request.ts\<close>.\<close>

fun texts_of :: "json list \<Rightarrow> string list" where
  "texts_of [] = []"
| "texts_of (JStr v # vs) = (if v = [] then texts_of vs else v # texts_of vs)"
| "texts_of (_ # vs) = texts_of vs"

fun resourceParam :: "json \<Rightarrow> param option" where
  "resourceParam (JObj entries) =
     (case texts_of (case obj_get ''resource'' entries of None \<Rightarrow> [] | Some raw \<Rightarrow> sent_values raw) of
        [] \<Rightarrow> None
      | [v] \<Rightarrow> Some (One v)
      | vs \<Rightarrow> Some (Many vs))"
| "resourceParam _ = None"

section \<open>Redirect URIs\<close>

definition LOOPBACK_LITERALS :: "string list" where
  "LOOPBACK_LITERALS = [''127.0.0.1'', ''[::1]'']"

definition CIMD_LOOPBACK_HOSTS :: "string list" where
  "CIMD_LOOPBACK_HOSTS = [''localhost'', ''127.0.0.1'', ''[::1]'']"

text \<open>\<open>/[^\u0021-\u007e]|\\/\<close>\<close>

definition outside_uri :: "char \<Rightarrow> bool" where
  "outside_uri c \<longleftrightarrow> (of_char c :: nat) < 33 \<or> (of_char c :: nat) > 126 \<or> (of_char c :: nat) = 92"

definition matchesLoopbackPort :: "url_parser \<Rightarrow> string \<Rightarrow> string \<Rightarrow> string list \<Rightarrow> bool" where
  "matchesLoopbackPort URL presented registered hosts =
     (if list_ex outside_uri presented then False
      else (case (URL registered, URL presented) of
              (Some base, Some candidate) \<Rightarrow>
                if url_protocol base \<noteq> ''http:'' \<or> url_port base \<noteq> [] then False
                else if url_hostname base \<notin> set hosts then False
                else url_protocol candidate = ''http:''
                  \<and> url_hostname candidate = url_hostname base
                  \<and> url_username candidate = [] \<and> url_password candidate = []
                  \<and> url_hash candidate = [] \<and> CHR ''#'' \<notin> set presented
                  \<and> url_port candidate \<noteq> ''0''
                  \<and> url_pathname candidate = url_pathname base
                  \<and> url_search candidate = url_search base
            | _ \<Rightarrow> False))"

definition isCimdRedirectUri :: "url_parser \<Rightarrow> string \<Rightarrow> string list \<Rightarrow> bool" where
  "isCimdRedirectUri URL presented registered \<longleftrightarrow>
     presented \<in> set registered
     \<or> list_ex (\<lambda>uri. matchesLoopbackPort URL presented uri CIMD_LOOPBACK_HOSTS) registered"

definition isRegisteredRedirectUri ::
  "url_parser \<Rightarrow> string \<Rightarrow> string list \<Rightarrow> client_type \<Rightarrow> string \<Rightarrow> bool" where
  "isRegisteredRedirectUri URL presented registered clientType registrationOrigin =
     (if presented \<in> set registered then True
      else if registrationOrigin = ''cimd'' then isCimdRedirectUri URL presented registered
      else clientType = Public
        \<and> list_ex (\<lambda>uri. matchesLoopbackPort URL presented uri LOOPBACK_LITERALS) registered)"

section \<open>Client ids that are URLs\<close>

definition CLIENT_ID_MAX :: nat where
  "CLIENT_ID_MAX = 2048"

text \<open>\<open>href\<close> is the parser's own writing of the URL; \<open>isIP\<close> is \<open>net.isIP\<close> not 0.\<close>

definition isCimdClientId ::
  "url_parser \<Rightarrow> (string \<Rightarrow> string) \<Rightarrow> (string \<Rightarrow> bool) \<Rightarrow> string \<Rightarrow> bool" where
  "isCimdClientId URL href isIP raw =
     (if length raw > CLIENT_ID_MAX \<or> list_ex outside_uri raw \<or> CHR ''#'' \<in> set raw then False
      else (case URL raw of
              None \<Rightarrow> False
            | Some url \<Rightarrow>
                if href raw \<noteq> raw \<or> suffix ''?'' raw then False
                else if url_protocol url \<noteq> ''https:'' \<or> url_username url \<noteq> [] \<or> url_password url \<noteq> []
                then False
                else if url_pathname url = ''/'' \<or> suffix ''.'' (url_hostname url) then False
                else if prefix ''['' (url_hostname url) \<or> isIP (url_hostname url) then False
                else \<not> list_ex (\<lambda>s. s = ''.'' \<or> s = ''..'') (js_split CHR ''/'' (url_pathname url))))"

section \<open>Prompt, maximum age, locales\<close>

fun prompt_token :: "string \<Rightarrow> prompt_value option" where
  "prompt_token t =
     (if t = ''none'' then Some PromptNone
      else if t = ''login'' then Some PromptLogin
      else if t = ''consent'' then Some PromptConsent
      else if t = ''select_account'' then Some PromptSelectAccount
      else if t = ''create'' then Some PromptCreate
      else None)"

text \<open>The loop over the tokens; a set is the list of its members as they were added.\<close>

fun prompt_loop :: "string list \<Rightarrow> prompt_value list \<Rightarrow> prompt_value list option" where
  "prompt_loop [] acc = Some acc"
| "prompt_loop (t # ts) acc =
     (if length t = 0 then prompt_loop ts acc
      else (case prompt_token t of
              None \<Rightarrow> None
            | Some v \<Rightarrow> prompt_loop ts (if v \<in> set acc then acc else acc @ [v])))"

definition parsePrompt :: "string option \<Rightarrow> prompt_value list option" where
  "parsePrompt raw =
     (case raw of
        None \<Rightarrow> Some []
      | Some text \<Rightarrow>
          (case prompt_loop (js_split CHR '' '' text) [] of
             None \<Rightarrow> None
           | Some vs \<Rightarrow>
               if PromptNone \<in> set vs \<and> length vs > 1 then None
               else if PromptCreate \<in> set vs \<and> length vs > 1 then None
               else Some vs))"

text \<open>\<open>/^(?:0|[1-9][0-9]*)$/\<close>, and the number such digits write.\<close>

definition MAX_AGE_PATTERN :: "string \<Rightarrow> bool" where
  "MAX_AGE_PATTERN s \<longleftrightarrow> s = ''0'' \<or> (s \<noteq> [] \<and> hd s \<noteq> CHR ''0'' \<and> list_all is_digit s)"

definition digits_value :: "string \<Rightarrow> int" where
  "digits_value s = foldl (\<lambda>n c. 10 * n + (int (of_char c) - 48)) 0 s"

datatype max_age_parse = MaxAgeOk "int option" | MaxAgeInvalid

definition parseMaxAge :: "string option \<Rightarrow> max_age_parse" where
  "parseMaxAge raw =
     (case raw of
        None \<Rightarrow> MaxAgeOk None
      | Some s \<Rightarrow> if \<not> MAX_AGE_PATTERN s then MaxAgeInvalid else MaxAgeOk (Some (digits_value s)))"

definition MAX_UI_LOCALES :: nat where
  "MAX_UI_LOCALES = 16"

text \<open>\<open>/^[A-Za-z0-9-]{1,35}$/u\<close>\<close>

definition locale_TAG :: "string \<Rightarrow> bool" where
  "locale_TAG s \<longleftrightarrow> 1 \<le> length s \<and> length s \<le> 35
     \<and> list_all (\<lambda>c. is_upper c \<or> is_lower c \<or> is_digit c \<or> c = CHR ''-'') s"

fun locales_loop :: "string list \<Rightarrow> string list \<Rightarrow> string list" where
  "locales_loop [] tags = tags"
| "locales_loop (candidate # cs) tags =
     (if length tags = MAX_UI_LOCALES then tags
      else locales_loop cs
             (if locale_TAG candidate \<and> candidate \<notin> set tags then tags @ [candidate] else tags))"

definition parseUiLocales :: "string option \<Rightarrow> string list" where
  "parseUiLocales raw = (case raw of None \<Rightarrow> [] | Some s \<Rightarrow> locales_loop (tokens s) [])"

section \<open>The claims parameter\<close>

definition MAX_CLAIMS_PARAMETER_BYTES :: nat where
  "MAX_CLAIMS_PARAMETER_BYTES = 8192"

text \<open>\<open>Buffer.byteLength(raw, 'utf8')\<close> of code units within one byte.\<close>

definition utf8_length :: "string \<Rightarrow> nat" where
  "utf8_length s = sum_list (map (\<lambda>c. if (of_char c :: nat) < 128 then 1 else 2) s)"

definition EMPTY_CLAIMS_REQUEST :: claims_request where
  "EMPTY_CLAIMS_REQUEST = \<lparr>cq_idToken = [], cq_userinfo = []\<rparr>"

text \<open>The schema of one entry with \<open>toEntry\<close>: nothing where the schema refuses.\<close>

fun all_texts :: "json list \<Rightarrow> string list option" where
  "all_texts [] = Some []"
| "all_texts (JStr v # vs) = map_option ((#) v) (all_texts vs)"
| "all_texts (_ # vs) = None"

definition entry_essential :: "obj \<Rightarrow> bool option" where
  "entry_essential ms =
     (case obj_get ''essential'' ms of None \<Rightarrow> Some False | Some (JBool b) \<Rightarrow> Some b | _ \<Rightarrow> None)"

definition entry_value :: "obj \<Rightarrow> string option option" where
  "entry_value ms =
     (case obj_get ''value'' ms of None \<Rightarrow> Some None | Some (JStr v) \<Rightarrow> Some (Some v) | _ \<Rightarrow> None)"

definition entry_values :: "obj \<Rightarrow> string list option option" where
  "entry_values ms =
     (case obj_get ''values'' ms of
        None \<Rightarrow> Some None
      | Some (JArr vs) \<Rightarrow> map_option Some (all_texts vs)
      | _ \<Rightarrow> None)"

fun toEntry :: "json \<Rightarrow> claim_entry option" where
  "toEntry JNull = Some \<lparr>ce_essential = False, ce_value = None, ce_values = None\<rparr>"
| "toEntry (JObj ms) =
     (case (entry_essential ms, entry_value ms, entry_values ms) of
        (Some e, Some v, Some vs) \<Rightarrow> Some \<lparr>ce_essential = e, ce_value = v, ce_values = vs\<rparr>
      | _ \<Rightarrow> None)"
| "toEntry _ = None"

fun toMember_entries :: "obj \<Rightarrow> (string \<times> claim_entry) list option" where
  "toMember_entries [] = Some []"
| "toMember_entries ((name, entry) # es) =
     (case (toEntry entry, toMember_entries es) of
        (Some e, Some rest) \<Rightarrow> Some ((name, e) # rest)
      | _ \<Rightarrow> None)"

definition toMember :: "json option \<Rightarrow> (string \<times> claim_entry) list option" where
  "toMember member =
     (case member of
        None \<Rightarrow> Some []
      | Some (JObj es) \<Rightarrow> toMember_entries es
      | _ \<Rightarrow> None)"

datatype claims_outcome = ClaimsOk claims_request | ClaimsInvalid string

definition parseClaimsRequest :: "(string \<Rightarrow> json option) \<Rightarrow> string option \<Rightarrow> claims_outcome" where
  "parseClaimsRequest JSON_parse raw =
     (case raw of
        None \<Rightarrow> ClaimsOk EMPTY_CLAIMS_REQUEST
      | Some text \<Rightarrow>
          if utf8_length text > MAX_CLAIMS_PARAMETER_BYTES then ClaimsInvalid ''too_large''
          else (case JSON_parse text of
                  None \<Rightarrow> ClaimsInvalid ''invalid_json''
                | Some (JObj ms) \<Rightarrow>
                    (case (toMember (obj_get ''id_token'' ms), toMember (obj_get ''userinfo'' ms)) of
                       (Some i, Some u) \<Rightarrow> ClaimsOk \<lparr>cq_idToken = i, cq_userinfo = u\<rparr>
                     | _ \<Rightarrow> ClaimsInvalid ''invalid_shape'')
                | Some _ \<Rightarrow> ClaimsInvalid ''invalid_shape''))"

section \<open>The order of the checks\<close>

datatype authorize_outcome =
    AuthorizeOk pending_request "prompt_value list" "string option" "int option"
  | AuthorizeRender authorization_error string
  | AuthorizeRedirect string authorization_error "string option" "string option"

definition requestedScopeTokens :: "string option \<Rightarrow> string list" where
  "requestedScopeTokens scope = tokens (coalesce scope ''openid'')"

definition scopesAreGrantable :: "string option \<Rightarrow> string list \<Rightarrow> string list \<Rightarrow> bool" where
  "scopesAreGrantable scope knownToTenant assignedToClient =
     (let ts = requestedScopeTokens scope
      in if length ts = 0 then False
         else list_all (\<lambda>t. t \<in> set knownToTenant \<and> t \<in> set assignedToClient) ts)"

definition toPendingRequest ::
  "client \<Rightarrow> params \<Rightarrow> string \<Rightarrow> string option \<Rightarrow> string \<Rightarrow> pending_request" where
  "toPendingRequest client ps redirectUri state codeChallenge =
     \<lparr>pr_clientId = cl_clientId client, pr_redirectUri = redirectUri,
      pr_scope = coalesce (param_of ''scope'' ps) ''openid'', pr_state = state,
      pr_nonce = param_of ''nonce'' ps, pr_codeChallenge = codeChallenge,
      pr_idTokenHintSubject = None, pr_claimsSubject = None, pr_prompt = None, pr_maxAge = None,
      pr_uiLocales = None, pr_reuseSessionId = None, pr_reuseAuthTime = None,
      pr_rememberMe = None, pr_resource = None, pr_claims = None\<rparr>"

text \<open>Below the boundary: what an error at a trusted redirect URI looks like.\<close>

definition below_boundary ::
  "client \<Rightarrow> params \<Rightarrow> string list \<Rightarrow> string list \<Rightarrow> string option \<Rightarrow> string \<Rightarrow> authorize_outcome" where
  "below_boundary client ps knownScopes clientScopes repeatedKey redirectUri =
     (let state = param_of ''state'' ps;
          reject = (\<lambda>e desc. AuthorizeRedirect redirectUri e state desc);
          bad = (\<lambda>desc. reject ErrInvalidRequest (Some desc))
      in if repeatedKey \<noteq> None then bad ''A parameter was sent more than once''
         else if param_of ''request'' ps \<noteq> None then reject ErrRequestNotSupported None
         else if param_of ''request_uri'' ps \<noteq> None then reject ErrRequestUriNotSupported None
         else if param_of ''response_type'' ps \<noteq> Some ''code'' then reject ErrUnsupportedResponseType None
         else (case param_of ''code_challenge'' ps of
             None \<Rightarrow> bad ''code_challenge is required''
           | Some codeChallenge \<Rightarrow>
               if \<not> isWellFormedPkceString codeChallenge then bad ''code_challenge is not valid''
               else if param_of ''code_challenge_method'' ps \<noteq> Some ''S256''
               then bad ''code_challenge_method must be S256''
               else if \<not> scopesAreGrantable (param_of ''scope'' ps) knownScopes clientScopes
               then reject ErrInvalidScope None
               else (case parsePrompt (param_of ''prompt'' ps) of
                   None \<Rightarrow> bad ''prompt is not valid''
                 | Some prompts \<Rightarrow>
                     (case parseMaxAge (param_of ''max_age'' ps) of
                        MaxAgeInvalid \<Rightarrow> bad ''max_age is not valid''
                      | MaxAgeOk maxAge \<Rightarrow>
                          AuthorizeOk (toPendingRequest client ps redirectUri state codeChallenge)
                            prompts (param_of ''id_token_hint'' ps) maxAge))))"

definition validateAuthorizationRequest ::
  "url_parser \<Rightarrow> params \<Rightarrow> client option \<Rightarrow> oidc_config option \<Rightarrow> string list \<Rightarrow> string list
     \<Rightarrow> string option \<Rightarrow> authorize_outcome" where
  "validateAuthorizationRequest URL ps client config knownScopes clientScopes repeatedKey =
     (if (case param_of ''response_mode'' ps of None \<Rightarrow> False | Some m \<Rightarrow> m \<noteq> ''query'')
      then AuthorizeRender ErrInvalidRequest
             ''Unsupported response_mode; this server answers in query only''
      else (case (client, config) of
          (Some c, Some cfg) \<Rightarrow>
            if \<not> cl_enabled c then AuthorizeRender ErrInvalidClient ''Unknown or disabled client''
            else (case param_of ''redirect_uri'' ps of
                None \<Rightarrow> AuthorizeRender ErrInvalidRequest ''Unregistered redirect URI''
              | Some redirectUri \<Rightarrow>
                  if \<not> isRegisteredRedirectUri URL redirectUri (oc_redirectUris cfg) (cl_type c)
                         (cl_registrationOrigin c)
                  then AuthorizeRender ErrInvalidRequest ''Unregistered redirect URI''
                  else below_boundary c ps knownScopes clientScopes repeatedKey redirectUri)
        | _ \<Rightarrow> AuthorizeRender ErrInvalidClient ''Unknown or disabled client''))"

end
