(* ===== verification/Doors.thy ===== *)
theory Doors
  imports Sign_In Authorize "HOL-Library.AList"
begin

text \<open>
  The use cases of \<^verbatim>\<open>packages/protocol-oidc\<close> by which a browser comes to an authorization code:
  the login form and what every finished login shares (\<^verbatim>\<open>usecase/login-submission.ts\<close>) and the
  consent page (\<^verbatim>\<open>usecase/consent-submission.ts\<close>), with the wiring of their dependencies in
  \<^verbatim>\<open>index.ts\<close>, where each dependency opens a transaction of its own (\<open>atomically\<close>; a single read
  needs none), and the consents of \<^verbatim>\<open>domain-tenant\<close>.

  \<open>dr_withParams\<close> is \<open>new URL(uri)\<close> with search parameters set, written out, and nothing where the
  constructor throws; \<open>dr_refreshCimd\<close> is the fetch of a client's metadata document and the write
  of what it says. What a page shows besides scopes (names, links, translations) is left out.
\<close>

record door_deps =
  dr_sign :: sign_deps
  dr_tenantName :: string
  dr_tls :: bool
  dr_JSON :: "string \<Rightarrow> json option"
  dr_isIP :: "string \<Rightarrow> bool"
  dr_href :: "string \<Rightarrow> string"
  dr_withParams :: "string \<Rightarrow> (string \<times> string) list \<Rightarrow> string option"
  dr_refreshCimd :: "(string \<Rightarrow> mcp_policy_grant \<Rightarrow> bool site_tx) option"

abbreviation dr_now :: "door_deps \<Rightarrow> time" where
  "dr_now d \<equiv> sg_now (dr_sign d)"

abbreviation dr_deps :: "door_deps \<Rightarrow> deps" where
  "dr_deps d \<equiv> sg_deps (dr_sign d)"

abbreviation dr_URL :: "door_deps \<Rightarrow> url_parser" where
  "dr_URL d \<equiv> pf_URL (dp_platform (dr_deps d))"

abbreviation dr_digest :: "door_deps \<Rightarrow> string \<Rightarrow> string" where
  "dr_digest d \<equiv> ip_sha256 (sg_identity (dr_sign d))"

section \<open>What the doors read\<close>

definition enabled_tenant :: "site \<Rightarrow> tenant option" where
  "enabled_tenant s = (case si_tenant s of None \<Rightarrow> None | Some t \<Rightarrow> if tn_enabled t then Some t else None)"

definition resolveSessions ::
  "door_deps \<Rightarrow> tenant \<Rightarrow> string option \<Rightarrow> site \<Rightarrow> (session \<times> session_entry) list" where
  "resolveSessions d t header s =
     (let entries = readSessionEntries header (dr_tenantName d) (dr_tls d)
      in session_liveByEntries (dr_digest d) (fst entries @ snd entries) (tn_lifespans t) (dr_now d)
           (st_sessions (si_store s)))"

definition subjectEnabled :: "string \<Rightarrow> site \<Rightarrow> bool" where
  "subjectEnabled i s = subjectIsEnabled (subject_byId i (st_subjects (si_store s)))"

definition resolveClientId :: "string \<Rightarrow> site \<Rightarrow> string option" where
  "resolveClientId oauthClientId s =
     map_option cl_id (client_byClientId oauthClientId (st_clients (si_store s)))"

record email_status =
  em_verified :: bool
  em_hasEmail :: bool

definition checkEmailVerification :: "string \<Rightarrow> site \<Rightarrow> email_status" where
  "checkEmailVerification subjectId s =
     (case user_bySubjectId subjectId s of
        None \<Rightarrow> \<lparr>em_verified = False, em_hasEmail = False\<rparr>
      | Some u \<Rightarrow> \<lparr>em_verified = us_emailVerified u, em_hasEmail = us_email u \<noteq> None\<rparr>)"

text \<open>\<open>hasEmail\<close> where the login is refused.\<close>

definition refusedForUnverifiedEmail :: "tenant \<Rightarrow> string \<Rightarrow> site \<Rightarrow> bool option" where
  "refusedForUnverifiedEmail t subjectId s =
     (if \<not> tn_verifyEmail t then None
      else let status = checkEmailVerification subjectId s
           in if em_verified status then None else Some (em_hasEmail status))"

definition pendingActions :: "string \<Rightarrow> required_action list site_tx" where
  "pendingActions subjectId = atomically (pendingActionsFor subjectId)"

section \<open>Consent\<close>

record consent_context =
  cc_consentRequired :: bool
  cc_approvalRequired :: bool
  cc_defaultScopes :: "string list"
  cc_optionalScopes :: "string list"
  cc_scopeIdByName :: "(string \<times> string) list"

text \<open>\<open>forClientByAssignment\<close>: the scopes of a client with how each is assigned.\<close>

definition forClientByAssignment :: "string \<Rightarrow> site \<Rightarrow> (client_scope \<times> assignment) list" where
  "forClientByAssignment clientId s =
     List.map_filter (\<lambda>(c, i). if c = clientId
         then map_option (\<lambda>cs. (cs, si_assignmentOf s (c, i)))
                (find (\<lambda>cs. cs_id cs = i) (st_scopes (si_store s)))
         else None)
       (st_assignments (si_store s))"

definition display_cmp :: "site \<Rightarrow> client_scope \<times> assignment \<Rightarrow> client_scope \<times> assignment \<Rightarrow> int" where
  "display_cmp s a b =
     (let da = si_displayOrder s (cs_id (fst a)); db = si_displayOrder s (cs_id (fst b))
      in if da - db \<noteq> 0 then da - db
         else if cs_name (fst a) < cs_name (fst b) then -1
         else if cs_name (fst a) > cs_name (fst b) then 1 else 0)"

text \<open>\<open>new Map(pairs)\<close>.\<close>

definition map_of_pairs :: "(string \<times> string) list \<Rightarrow> (string \<times> string) list" where
  "map_of_pairs ps = foldl (\<lambda>m (k, v). AList.update k v m) [] ps"

definition consentContext :: "string \<Rightarrow> site \<Rightarrow> consent_context" where
  "consentContext clientId s =
     (let st = si_store s;
          client = client_byId clientId (st_clients st);
          config = config_byClientId clientId (st_configs st);
          assignments = forClientByAssignment clientId s;
          ordered = sort_cmp (display_cmp s) assignments;
          named_as = (\<lambda>a. map (cs_name \<circ> fst) (filter (\<lambda>row. snd row = a) ordered))
      in \<lparr>cc_consentRequired = (case config of None \<Rightarrow> False | Some c \<Rightarrow> oc_consentRequired c),
          cc_approvalRequired =
            (case client of None \<Rightarrow> False | Some c \<Rightarrow> needsApproval (cl_registrationOrigin c)),
          cc_defaultScopes = named_as Default, cc_optionalScopes = named_as Optional,
          cc_scopeIdByName = map_of_pairs (map (\<lambda>(cs, a). (cs_name cs, cs_id cs)) assignments)\<rparr>)"

definition grantedScopeIds :: "string \<Rightarrow> string \<Rightarrow> site \<Rightarrow> string list" where
  "grantedScopeIds subjectId clientId s =
     map cn_scopeId (filter (\<lambda>r. cn_subjectId r = subjectId \<and> cn_clientId r = clientId) (si_consents s))"

text \<open>
  \<open>consentRepository.record\<close>: the recorded scopes of the subject and client become these. Its
  rows have foreign keys to the subject, the client and the scopes. The time of a client's first
  approval, which only the removal of unused clients reads, is not a column of the model.
\<close>

definition recordConsent :: "string \<Rightarrow> string \<Rightarrow> string list \<Rightarrow> unit site_tx" where
  "recordConsent subjectId clientId scopeIds s =
     (let st = si_store s;
          mine = (\<lambda>r. cn_subjectId r = subjectId \<and> cn_clientId r = clientId);
          kept = filter (\<lambda>r. mine r \<longrightarrow> cn_scopeId r \<in> set scopeIds) (si_consents s);
          fresh = filter (\<lambda>r. r \<notin> set kept)
                    (map (\<lambda>i. \<lparr>cn_subjectId = subjectId, cn_clientId = clientId, cn_scopeId = i\<rparr>)
                       (js_unique scopeIds))
      in if \<not> has_subject st subjectId \<or> \<not> has_client st clientId
         then (Inl (ForeignKeyViolation ''consents''), s)
         else if \<not> list_all (\<lambda>r. cn_scopeId r \<in> cs_id ` set (st_scopes st)) fresh
         then (Inl (ForeignKeyViolation ''consent_scopes''), s)
         else (Inr (), s\<lparr>si_consents := kept @ fresh\<rparr>))"

record consent_page =
  pg_defaultScopes :: "string list"
  pg_optionalScopes :: "string list"
  pg_alreadyGranted :: "string list"

datatype consent_gate = GateNotRequired | GateAsk consent_page | GateRefuse

definition consent_input_of ::
  "consent_context \<Rightarrow> string list \<Rightarrow> string \<Rightarrow> prompt_value list option \<Rightarrow> consent_input" where
  "consent_input_of context grantedIds requestedScope prompt =
     \<lparr>ci_requestedScopes = tokens requestedScope,
      ci_defaultScopes = cc_defaultScopes context, ci_optionalScopes = cc_optionalScopes context,
      ci_grantedScopes =
        map fst (filter (\<lambda>(name, i). i \<in> set grantedIds) (cc_scopeIdByName context)),
      ci_prompt = coalesce prompt [], ci_consentRequired = cc_consentRequired context,
      ci_approvalRequired = cc_approvalRequired context, ci_approved = length grantedIds > 0\<rparr>"

definition decideConsentGate ::
  "string \<Rightarrow> string \<Rightarrow> string \<Rightarrow> prompt_value list option \<Rightarrow> site \<Rightarrow> consent_gate" where
  "decideConsentGate clientId subjectId requestedScope prompt s =
     (case decideConsent (consent_input_of (consentContext clientId s)
             (grantedScopeIds subjectId clientId s) requestedScope prompt) of
        ConsentNotRequired \<Rightarrow> GateNotRequired
      | ConsentRefuse \<Rightarrow> GateRefuse
      | ConsentAsk ds os gs \<Rightarrow>
          GateAsk \<lparr>pg_defaultScopes = ds, pg_optionalScopes = os, pg_alreadyGranted = gs\<rparr>)"

section \<open>The code\<close>

record code_input =
  ki_clientId :: string
  ki_subjectId :: string
  ki_redirectUri :: string
  ki_scope :: string
  ki_nonce :: "string option"
  ki_codeChallenge :: string
  ki_authTime :: time
  ki_sessionId :: "string option"
  ki_resource :: "string list"
  ki_claims :: claims_request

text \<open>\<open>issueAuthorizationCode\<close>: the row of the code, and the one copy of the code.\<close>

definition code_row :: "door_deps \<Rightarrow> tenant \<Rightarrow> code_input \<Rightarrow> auth_code" where
  "code_row d t i =
     \<lparr>ac_codeHash = hash_token (dr_deps d) (sg_newCode (dr_sign d)), ac_clientId = ki_clientId i,
      ac_subjectId = ki_subjectId i, ac_redirectUri = ki_redirectUri i, ac_scope = ki_scope i,
      ac_nonce = ki_nonce i, ac_codeChallenge = ki_codeChallenge i, ac_authTime = ki_authTime i,
      ac_expiresAt = dr_now d + tn_authorizationCodeTtlSeconds t * 1000, ac_consumedAt = None,
      ac_grantId = None, ac_sessionId = ki_sessionId i, ac_resource = ki_resource i,
      ac_claims = ki_claims i\<rparr>"

definition issueAuthorizationCode :: "door_deps \<Rightarrow> code_input \<Rightarrow> string site_tx" where
  "issueAuthorizationCode d i =
     tbind tenant_row (\<lambda>t.
     tbind (on_store (create_code (code_row d t i))) (\<lambda>_.
     tret (sg_newCode (dr_sign d))))"

text \<open>The code of a request parked, for a client and subject known by now.\<close>

definition code_of_pending ::
  "pending_request \<Rightarrow> string \<Rightarrow> string \<Rightarrow> time \<Rightarrow> string \<Rightarrow> code_input" where
  "code_of_pending q clientId subjectId authTime sessionId =
     \<lparr>ki_clientId = clientId, ki_subjectId = subjectId, ki_redirectUri = pr_redirectUri q,
      ki_scope = pr_scope q, ki_nonce = pr_nonce q, ki_codeChallenge = pr_codeChallenge q,
      ki_authTime = authTime, ki_sessionId = Some sessionId, ki_resource = coalesce (pr_resource q) [],
      ki_claims = coalesce (pr_claims q) EMPTY_CLAIMS_REQUEST\<rparr>"

section \<open>The end of a login\<close>

datatype complete_outcome =
    AlreadyConsumed
  | SubjectDisabled
  | Issued string string "session_entry option"

record complete_login_input =
  cm_authSessionId :: string
  cm_pending :: pending_request
  cm_clientId :: string
  cm_subjectId :: string
  cm_authenticators :: "string list"
  cm_remembered :: bool
  cm_reuse :: "(string \<times> time) option"
  cm_browserSessions :: "session_entry list"
  cm_lifespans :: lifespans
  cm_maxSessionsPerBrowser :: int

definition session_event :: "string \<Rightarrow> string \<Rightarrow> string \<Rightarrow> audit_event" where
  "session_event subjectId clientId sessionId =
     \<lparr>ae_eventType = ''session'', ae_action = ''session.created'', ae_outcome = Allowed,
      ae_actorSubjectId = Some subjectId, ae_actorClientId = Some clientId,
      ae_resourceType = Some ''session'', ae_resourceId = Some sessionId, ae_detail = []\<rparr>"

text \<open>The session of the code: the one reused, or a new one, whose login is now.\<close>

definition session_of_login ::
  "door_deps \<Rightarrow> complete_login_input \<Rightarrow> (string \<times> time \<times> session_entry option) site_tx" where
  "session_of_login d i =
     (case cm_reuse i of
        Some (sessionId, authTime) \<Rightarrow>
          tbind (on_store (sessions_tx (\<lambda>rows. ((), session_touch sessionId (dr_now d) rows)))) (\<lambda>_.
          tret (sessionId, authTime, None))
      | None \<Rightarrow>
          tbind (on_store (admitSession (dr_deps d) (dr_digest d) (sg_entry (dr_sign d))
            \<lparr>ad_subjectId = cm_subjectId i, ad_authenticators = cm_authenticators i,
             ad_remembered = cm_remembered i, ad_browserSessions = cm_browserSessions i,
             ad_maxSessionsPerBrowser = cm_maxSessionsPerBrowser i, ad_lifespans = cm_lifespans i\<rparr>)) (\<lambda>entry.
          tbind (on_store (audit_record (dr_deps d)
            (session_event (cm_subjectId i) (cm_clientId i) (en_id entry)))) (\<lambda>_.
          tret (en_id entry, dr_now d, Some entry))))"

definition completeLogin :: "door_deps \<Rightarrow> complete_login_input \<Rightarrow> complete_outcome site_tx" where
  "completeLogin d i = atomically
     (tbind (tget (subjectEnabled (cm_subjectId i))) (\<lambda>enabled.
      if \<not> enabled then tret SubjectDisabled
      else tbind (consumeAuthenticationSession (dr_sign d) (cm_authSessionId i)) (\<lambda>consumed.
        if \<not> consumed then tret AlreadyConsumed
        else tbind (session_of_login d i) (\<lambda>(sessionId, authTime, entry).
          tbind (issueAuthorizationCode d
            (code_of_pending (cm_pending i) (cm_clientId i) (cm_subjectId i) authTime sessionId)) (\<lambda>code.
          tret (Issued sessionId code entry))))))"

datatype login_refusal = Rejected | AlreadyUsed

record login_redirect =
  lr_location :: string
  lr_sessionId :: string
  lr_ephemeral :: "session_entry list"
  lr_persistent :: "session_entry list"
  lr_persistentMaxAge :: int

datatype login_outcome =
    Unauthenticated
  | Reject string "login_refusal option" "string option"
  | Unverified string bool
  | Owes string string required_action
  | ErrorRedirect string
  | AskConsent string consent_page
  | Redirect login_redirect

text \<open>\<open>errorRedirect\<close>: the parameters of an error at the parked request's redirect URI.\<close>

definition error_params :: "door_deps \<Rightarrow> string option \<Rightarrow> authorization_error \<Rightarrow> (string \<times> string) list" where
  "error_params d state e =
     [(''error'', error_code e), (''error_description'', error_description e)]
       @ (case state of None \<Rightarrow> [] | Some v \<Rightarrow> [(''state'', v)])
       @ [(''iss'', dp_issuer (dr_deps d))]"

definition located :: "door_deps \<Rightarrow> string \<Rightarrow> (string \<times> string) list \<Rightarrow> string site_tx" where
  "located d uri ps = tsome (dr_withParams d uri ps) (Thrown ''Invalid URL'')"

definition errorRedirect :: "door_deps \<Rightarrow> pending_request \<Rightarrow> authorization_error \<Rightarrow> login_outcome site_tx" where
  "errorRedirect d q e =
     tbind (located d (pr_redirectUri q) (error_params d (pr_state q) e)) (\<lambda>location.
     tret (ErrorRedirect location))"

definition code_params :: "door_deps \<Rightarrow> pending_request \<Rightarrow> string \<Rightarrow> (string \<times> string) list" where
  "code_params d q code =
     [(''code'', code)] @ (case pr_state q of None \<Rightarrow> [] | Some v \<Rightarrow> [(''state'', v)])
       @ [(''iss'', dp_issuer (dr_deps d))]"

text \<open>The cookie lists of the browser once the login is done.\<close>

definition login_redirect_of ::
  "tenant \<Rightarrow> string \<Rightarrow> string \<Rightarrow> session_entry option \<Rightarrow> bool \<Rightarrow> (session \<times> session_entry) list
     \<Rightarrow> login_redirect" where
  "login_redirect_of t location sessionId issued rememberMeRequested existing =
     (let survivors = filter (\<lambda>(row, e). ss_id row \<noteq> sessionId) existing;
          reused = find (\<lambda>(row, e). ss_id row = sessionId) existing;
          remembered = (if issued = None
             then (case reused of None \<Rightarrow> False | Some (row, e) \<Rightarrow> ss_remembered row)
             else rememberMeRequested);
          own = js_or_else issued (map_option snd reused);
          joined = (case own of None \<Rightarrow> [] | Some e \<Rightarrow> [e]);
          bucket = (\<lambda>flag. map snd (filter (\<lambda>(row, e). ss_remembered row = flag) survivors))
      in \<lparr>lr_location = location, lr_sessionId = sessionId,
          lr_ephemeral = (if remembered then bucket False else bucket False @ joined),
          lr_persistent = (if remembered then bucket True @ joined else bucket True),
          lr_persistentMaxAge = lf_rememberMax (tn_lifespans t)\<rparr>)"

definition complete_input_of ::
  "tenant \<Rightarrow> string \<Rightarrow> pending_request \<Rightarrow> string \<Rightarrow> string \<Rightarrow> string list \<Rightarrow> bool
     \<Rightarrow> (session \<times> session_entry) list \<Rightarrow> complete_login_input" where
  "complete_input_of t authSessionId q clientId subjectId authenticators remember before =
     \<lparr>cm_authSessionId = authSessionId, cm_pending = q, cm_clientId = clientId,
      cm_subjectId = subjectId, cm_authenticators = authenticators, cm_remembered = remember,
      cm_reuse = (case (pr_reuseSessionId q, pr_reuseAuthTime q) of
                    (Some i, Some at) \<Rightarrow> Some (i, at) | _ \<Rightarrow> None),
      cm_browserSessions = map snd before, cm_lifespans = tn_lifespans t,
      cm_maxSessionsPerBrowser = tn_maxSessionsPerBrowser t\<rparr>"

text \<open>The answer to the browser once \<open>completeLogin\<close> has committed.\<close>

definition completed_answer ::
  "door_deps \<Rightarrow> tenant \<Rightarrow> string \<Rightarrow> pending_request \<Rightarrow> string option \<Rightarrow> bool \<Rightarrow> complete_outcome
     \<Rightarrow> login_outcome site_tx" where
  "completed_answer d t authSessionId q header remember completed =
     (case completed of
        AlreadyConsumed \<Rightarrow> tret Unauthenticated
      | SubjectDisabled \<Rightarrow> tret (Reject authSessionId (Some Rejected) None)
      | Issued sessionId code issued \<Rightarrow>
          tbind (located d (pr_redirectUri q) (code_params d q code)) (\<lambda>location.
          tbind (tget (resolveSessions d t header)) (\<lambda>existing.
          tret (Redirect (login_redirect_of t location sessionId issued remember existing)))))"

definition completeAuthorizedLogin ::
  "door_deps \<Rightarrow> tenant \<Rightarrow> string \<Rightarrow> pending_request \<Rightarrow> string \<Rightarrow> string \<Rightarrow> string list
     \<Rightarrow> string option \<Rightarrow> bool \<Rightarrow> login_outcome site_tx" where
  "completeAuthorizedLogin d t authSessionId q clientId subjectId authenticators header remember =
     tbind (tget (resolveSessions d t header)) (\<lambda>before.
     tbind (completeLogin d
       (complete_input_of t authSessionId q clientId subjectId authenticators remember before))
       (completed_answer d t authSessionId q header remember))"

section \<open>The login form\<close>

definition differs :: "string option \<Rightarrow> string \<Rightarrow> bool" where
  "differs wanted subjectId = (case wanted of None \<Rightarrow> False | Some w \<Rightarrow> w \<noteq> subjectId)"

definition with_username :: "string option \<Rightarrow> login_outcome \<Rightarrow> login_outcome" where
  "with_username username outcome =
     (case outcome of
        Reject i refusal u \<Rightarrow> Reject i refusal (js_or_else username u)
      | _ \<Rightarrow> outcome)"

text \<open>From the resolved client: the consent gate, and the end of the login behind it.\<close>

definition login_consent_gate ::
  "door_deps \<Rightarrow> tenant \<Rightarrow> string \<Rightarrow> pending_request \<Rightarrow> string \<Rightarrow> string list \<Rightarrow> string option
     \<Rightarrow> string option \<Rightarrow> bool \<Rightarrow> string \<Rightarrow> login_outcome site_tx" where
  "login_consent_gate d t authSessionId q subjectId authenticators username header remembered clientId =
     tbind (tget (decideConsentGate clientId subjectId (pr_scope q) (pr_prompt q))) (\<lambda>gate.
     case gate of
       GateRefuse \<Rightarrow> errorRedirect d q ErrConsentRequired
     | GateAsk page \<Rightarrow>
         tbind (recordRememberMe authSessionId remembered) (\<lambda>_. tret (AskConsent authSessionId page))
     | GateNotRequired \<Rightarrow>
         tbind (completeAuthorizedLogin d t authSessionId q clientId subjectId authenticators header
           remembered) (\<lambda>completed.
         case completed of
           Reject i refusal u \<Rightarrow>
             tbind (resetAuthenticationProgress authSessionId) (\<lambda>_.
             tret (with_username username completed))
         | _ \<Rightarrow> tret completed))"

text \<open>The gates after a success of the flow, in the order of the code.\<close>

definition login_gates ::
  "door_deps \<Rightarrow> tenant \<Rightarrow> string \<Rightarrow> string \<Rightarrow> string list \<Rightarrow> string option \<Rightarrow> string option
     \<Rightarrow> bool \<Rightarrow> login_outcome site_tx" where
  "login_gates d t authSessionId subjectId authenticators username header remembered =
     tbind (tget (subjectEnabled subjectId)) (\<lambda>enabled.
     if \<not> enabled
     then tbind (resetAuthenticationProgress authSessionId) (\<lambda>_.
          tret (Reject authSessionId (Some Rejected) username))
     else tbind (tget (refusedForUnverifiedEmail t subjectId)) (\<lambda>refusal.
     case refusal of
       Some hasEmail \<Rightarrow> tret (Unverified authSessionId hasEmail)
     | None \<Rightarrow>
     tbind (tget (\<lambda>s. loadPendingRequest authSessionId (si_attempts s))) (\<lambda>pending.
     case pending of
       None \<Rightarrow> tret Unauthenticated
     | Some q \<Rightarrow>
         if differs (pr_idTokenHintSubject q) subjectId \<or> differs (pr_claimsSubject q) subjectId
         then tbind (resetAuthenticationProgress authSessionId) (\<lambda>_. errorRedirect d q ErrLoginRequired)
         else tbind (pendingActions subjectId) (\<lambda>owed.
         case nextRequiredAction owed of
           Some action \<Rightarrow>
             tbind (recordRememberMe authSessionId remembered) (\<lambda>_.
             tret (Owes authSessionId subjectId action))
         | None \<Rightarrow>
             tbind (tget (resolveClientId (pr_clientId q))) (\<lambda>client.
             case client of
               None \<Rightarrow> tret Unauthenticated
             | Some clientId \<Rightarrow>
                 login_consent_gate d t authSessionId q subjectId authenticators username header
                   remembered clientId)))))"

definition login_answer ::
  "door_deps \<Rightarrow> tenant \<Rightarrow> string \<Rightarrow> advance_input \<Rightarrow> string option \<Rightarrow> bool \<Rightarrow> advance_outcome
     \<Rightarrow> login_outcome site_tx" where
  "login_answer d t authSessionId input header remembered result =
     (case result of
        AdvanceSuccess subjectId authenticators \<Rightarrow>
          login_gates d t authSessionId subjectId authenticators (in_username input) header remembered
      | AdvanceChallenge form \<Rightarrow> tret (Reject authSessionId None (in_username input))
      | AdvanceFailure reason \<Rightarrow>
          tret (if reason = ''authentication_session_expired'' then Unauthenticated
                else Reject authSessionId (Some (if reason = ''already_used'' then AlreadyUsed else Rejected))
                       (in_username input)))"

definition handleLoginSubmission ::
  "door_deps \<Rightarrow> string option \<Rightarrow> advance_input \<Rightarrow> string option \<Rightarrow> bool \<Rightarrow> login_outcome site_tx" where
  "handleLoginSubmission d authSessionId input header rememberMe =
     (case authSessionId of
        None \<Rightarrow> tret Unauthenticated
      | Some i \<Rightarrow>
          if \<not> isUuid i then tret Unauthenticated
          else tbind (tget enabled_tenant) (\<lambda>tenant.
          case tenant of
            None \<Rightarrow> tret Unauthenticated
          | Some t \<Rightarrow>
              tbind (atomically (advance (dr_sign d) i input))
                (login_answer d t i input header (rememberMe \<and> tn_rememberMeAllowed t))))"

section \<open>The consent page\<close>

record consent_answer =
  an_decision :: "string option"
  an_scopes :: "string list"

definition granted_this_time :: "consent_context \<Rightarrow> consent_answer \<Rightarrow> string \<Rightarrow> bool" where
  "granted_this_time context answer scope \<longleftrightarrow>
     scope \<notin> set (cc_optionalScopes context) \<or> scope \<in> set (an_scopes answer)"

definition final_scopes :: "consent_context \<Rightarrow> consent_answer \<Rightarrow> pending_request \<Rightarrow> string list" where
  "final_scopes context answer q = filter (granted_this_time context answer) (tokens (pr_scope q))"

definition recorded_ids :: "consent_context \<Rightarrow> consent_answer \<Rightarrow> pending_request \<Rightarrow> string list" where
  "recorded_ids context answer q =
     List.map_filter (\<lambda>name. map_of (cc_scopeIdByName context) name)
       (filter (\<lambda>scope. scope \<in> set (tokens (pr_scope q)) \<and> granted_this_time context answer scope)
          (cc_defaultScopes context @ cc_optionalScopes context))"

definition consent_allowed ::
  "door_deps \<Rightarrow> tenant \<Rightarrow> string \<Rightarrow> pending_request \<Rightarrow> string \<Rightarrow> string list \<Rightarrow> consent_answer
     \<Rightarrow> string option \<Rightarrow> string \<Rightarrow> login_outcome site_tx" where
  "consent_allowed d t authSessionId q subjectId authenticators answer header clientId =
     tbind (tget (consentContext clientId)) (\<lambda>context.
     tbind (atomically (recordConsent subjectId clientId (recorded_ids context answer q))) (\<lambda>_.
     tbind (completeAuthorizedLogin d t authSessionId
       (q\<lparr>pr_scope := join_scope (final_scopes context answer q)\<rparr>) clientId subjectId authenticators
       header (coalesce (pr_rememberMe q) False)) (\<lambda>completed.
     tret (case completed of Reject i refusal u \<Rightarrow> Unauthenticated | _ \<Rightarrow> completed))))"

definition consent_gates ::
  "door_deps \<Rightarrow> tenant \<Rightarrow> string \<Rightarrow> string \<Rightarrow> string list \<Rightarrow> consent_answer \<Rightarrow> string option
     \<Rightarrow> login_outcome site_tx" where
  "consent_gates d t authSessionId subjectId authenticators answer header =
     tbind (tget (refusedForUnverifiedEmail t subjectId)) (\<lambda>refusal.
     case refusal of
       Some hasEmail \<Rightarrow> tret (Unverified authSessionId hasEmail)
     | None \<Rightarrow>
     tbind (tget (\<lambda>s. loadPendingRequest authSessionId (si_attempts s))) (\<lambda>pending.
     case pending of
       None \<Rightarrow> tret Unauthenticated
     | Some q \<Rightarrow>
         tbind (pendingActions subjectId) (\<lambda>owed.
         case nextRequiredAction owed of
           Some action \<Rightarrow> tret (Owes authSessionId subjectId action)
         | None \<Rightarrow>
             tbind (tget (resolveClientId (pr_clientId q))) (\<lambda>client.
             case client of
               None \<Rightarrow> tret Unauthenticated
             | Some clientId \<Rightarrow>
                 if an_decision answer \<noteq> Some ''allow'' then errorRedirect d q ErrAccessDenied
                 else consent_allowed d t authSessionId q subjectId authenticators answer header
                        clientId))))"

definition handleConsentSubmission ::
  "door_deps \<Rightarrow> string option \<Rightarrow> consent_answer \<Rightarrow> string option \<Rightarrow> login_outcome site_tx" where
  "handleConsentSubmission d authSessionId answer header =
     (case authSessionId of
        None \<Rightarrow> tret Unauthenticated
      | Some i \<Rightarrow>
          if \<not> isUuid i then tret Unauthenticated
          else tbind (tget enabled_tenant) (\<lambda>tenant.
          case tenant of
            None \<Rightarrow> tret Unauthenticated
          | Some t \<Rightarrow>
              tbind (atomically (authenticatedSession (dr_sign d) i)) (\<lambda>authenticated.
              case authenticated of
                None \<Rightarrow> tret Unauthenticated
              | Some (subjectId, authenticators) \<Rightarrow>
                  consent_gates d t i subjectId authenticators answer header)))"

end
