(* ===== verification/Authorization_Request.thy ===== *)
theory Authorization_Request
  imports Doors
begin

text \<open>
  The authorization endpoint of \<^verbatim>\<open>packages/protocol-oidc\<close>: what a request is answered with, from
  its parameters and the browser's sessions (\<^verbatim>\<open>usecase/authorization-request.ts\<close>), the client a
  URL names (\<^verbatim>\<open>usecase/resolve-cimd-client.ts\<close>), and the answer to the account chooser.
\<close>

section \<open>The client\<close>

fun policy_name :: "registration_policy \<Rightarrow> string" where
  "policy_name RegistrationDisabled = ''disabled''"
| "policy_name RegistrationOpen = ''open''"
| "policy_name RegistrationToken = ''token''"
| "policy_name RegistrationMcp = ''mcp''"

record resolved_client =
  rc_client :: "client option"
  rc_config :: "oidc_config option"
  rc_scopes :: "string list"

definition NO_CLIENT :: resolved_client where
  "NO_CLIENT = \<lparr>rc_client = None, rc_config = None, rc_scopes = []\<rparr>"

definition resolveClient :: "string \<Rightarrow> site \<Rightarrow> resolved_client" where
  "resolveClient oauthClientId s =
     (let st = si_store s
      in case client_byClientId oauthClientId (st_clients st) of
           None \<Rightarrow> NO_CLIENT
         | Some c \<Rightarrow> \<lparr>rc_client = Some c, rc_config = config_byClientId (cl_id c) (st_configs st),
                      rc_scopes = map cs_name (scope_forClient (cl_id c) st)\<rparr>)"

definition resolveAuthorizeClient ::
  "door_deps \<Rightarrow> tenant \<Rightarrow> string \<Rightarrow> string \<Rightarrow> resolved_client site_tx" where
  "resolveAuthorizeClient d t oauthClientId mcpAudience =
     tbind (tget (resolveClient oauthClientId)) (\<lambda>held.
     if \<not> isCimdClientId (dr_URL d) (dr_href d) (dr_isIP d) oauthClientId then tret held
     else if (case rc_client held of None \<Rightarrow> False | Some c \<Rightarrow> cl_registrationOrigin c \<noteq> ''cimd'')
     then tret held
     else if \<not> tn_cimdEnabled t then tret NO_CLIENT
     else (case dr_refreshCimd d of
         None \<Rightarrow> tret NO_CLIENT
       | Some refresh \<Rightarrow>
           tbind (refresh oauthClientId
             (mcpGrantOf (policy_name (tn_clientRegistrationPolicy t)) mcpAudience)) (\<lambda>usable.
           if usable then tget (resolveClient oauthClientId) else tret NO_CLIENT)))"

section \<open>Answers\<close>

text \<open>What the sign-in page is told: its form, and what the tenant offers beside it.\<close>

record login_page =
  lp_form :: string
  lp_rememberMeAllowed :: bool
  lp_loginWithEmail :: bool
  lp_registrationAllowed :: bool
  lp_resetPasswordAllowed :: bool

definition login_page_of :: "tenant \<Rightarrow> string \<Rightarrow> login_page" where
  "login_page_of t form =
     \<lparr>lp_form = form, lp_rememberMeAllowed = tn_rememberMeAllowed t,
      lp_loginWithEmail = tn_loginWithEmail t, lp_registrationAllowed = tn_registrationAllowed t,
      lp_resetPasswordAllowed = tn_resetPasswordAllowed t\<rparr>"

text \<open>\<open>SignInBrowser\<close>: the parked session's id, the secret and its maximum age.\<close>

type_synonym sign_in_browser = "string \<times> string \<times> int"

datatype request_outcome =
    RequestRender authorization_error string
  | RequestRedirect string authorization_error "string option" "string option"
  | RequestStarted string "sign_in_browser option" login_page
  | RequestReused string string "string option"
  | RequestConsent string consent_page
  | RequestOwes string string required_action
  | RequestSelect string sign_in_browser "(string \<times> string) list"
  | RequestRegister string sign_in_browser
  | RequestUnauthenticated
  | InvalidSelection

definition rejected :: "pending_request \<Rightarrow> authorization_error \<Rightarrow> string option \<Rightarrow> request_outcome" where
  "rejected q e description = RequestRedirect (pr_redirectUri q) e (pr_state q) description"

fun outcome_of :: "authorize_outcome \<Rightarrow> request_outcome option" where
  "outcome_of (AuthorizeRender e description) = Some (RequestRender e description)"
| "outcome_of (AuthorizeRedirect uri e state description) = Some (RequestRedirect uri e state description)"
| "outcome_of (AuthorizeOk q prompts idTokenHint maxAge) = None"

section \<open>Reusing a session\<close>

definition toReusableSession :: "session \<Rightarrow> resolved_session \<times> string list" where
  "toReusableSession row =
     (\<lparr>rs_id = ss_id row, rs_subjectId = ss_subjectId row, rs_authTime = ss_createdAt row\<rparr>,
      ss_authenticators row)"

text \<open>\<open>newestPerSubject\<close>; two sessions of a browser are two rows, so they differ in their ids.\<close>

definition newest_of :: "string \<Rightarrow> resolved_session list \<Rightarrow> resolved_session option" where
  "newest_of i candidates =
     foldl (\<lambda>current c. if rs_subjectId c \<noteq> i then current
              else (case current of
                      None \<Rightarrow> Some c
                    | Some m \<Rightarrow> if rs_authTime c > rs_authTime m then Some c else current))
       None candidates"

definition newestPerSubject :: "resolved_session list \<Rightarrow> resolved_session list" where
  "newestPerSubject candidates =
     filter (\<lambda>c. newest_of (rs_subjectId c) candidates = Some c) candidates"

definition accountDisplayName :: "string \<Rightarrow> site \<Rightarrow> string" where
  "accountDisplayName subjectId s =
     (case user_bySubjectId subjectId s of
        None \<Rightarrow> subjectId
      | Some u \<Rightarrow> coalesce (us_preferredUsername u) (us_username u))"

definition completeReuse :: "door_deps \<Rightarrow> string \<Rightarrow> code_input \<Rightarrow> string site_tx" where
  "completeReuse d sessionId i = atomically
     (tbind (on_store (sessions_tx (\<lambda>rows. ((), session_touch sessionId (dr_now d) rows)))) (\<lambda>_.
      issueAuthorizationCode d i))"

definition markAuthenticated :: "door_deps \<Rightarrow> string \<Rightarrow> string \<Rightarrow> string list \<Rightarrow> unit site_tx" where
  "markAuthenticated d i subjectId authenticators =
     atomically (markSessionAuthenticated (dr_sign d) i subjectId authenticators)"

text \<open>The lock on the client's row that keeps it from being evicted, and whether it was there.\<close>

definition holdForSignIn :: "string \<Rightarrow> site \<Rightarrow> bool" where
  "holdForSignIn oauthClientId s \<longleftrightarrow> client_byClientId oauthClientId (st_clients (si_store s)) \<noteq> None"

definition park :: "door_deps \<Rightarrow> pending_request \<Rightarrow> sign_in_browser site_tx" where
  "park d q = atomically
     (tbind (tget (holdForSignIn (pr_clientId q))) (\<lambda>held.
      if held then startAuthentication (dr_sign d) q
      else tfail (Thrown ''the client was removed while its authorization request began'')))"

definition promoteToParkedRequest ::
  "door_deps \<Rightarrow> pending_request \<Rightarrow> resolved_session \<Rightarrow> string list \<Rightarrow> string site_tx" where
  "promoteToParkedRequest d q session authenticators =
     tbind (park d (q\<lparr>pr_reuseSessionId := Some (rs_id session),
       pr_reuseAuthTime := Some (rs_authTime session)\<rparr>)) (\<lambda>(i, secret, maxAge).
     tbind (markAuthenticated d i (rs_subjectId session) authenticators) (\<lambda>_.
     tret i))"

text \<open>From the session to reuse to the code or what stands before it.\<close>

definition reuse_consent ::
  "door_deps \<Rightarrow> pending_request \<Rightarrow> string \<Rightarrow> resolved_session \<Rightarrow> string list \<Rightarrow> request_outcome site_tx" where
  "reuse_consent d q clientId session authenticators =
     tbind (tget (decideConsentGate clientId (rs_subjectId session) (pr_scope q) (pr_prompt q))) (\<lambda>gate.
     case gate of
       GateRefuse \<Rightarrow> tret (rejected q ErrConsentRequired None)
     | GateAsk page \<Rightarrow>
         tbind (promoteToParkedRequest d q session authenticators) (\<lambda>i. tret (RequestConsent i page))
     | GateNotRequired \<Rightarrow>
         tbind (completeReuse d (rs_id session)
           (code_of_pending q clientId (rs_subjectId session) (rs_authTime session) (rs_id session))) (\<lambda>code.
         tret (RequestReused code (pr_redirectUri q) (pr_state q))))"

definition reuse_session ::
  "door_deps \<Rightarrow> tenant \<Rightarrow> pending_request \<Rightarrow> string \<Rightarrow> resolved_session \<Rightarrow> string list
     \<Rightarrow> request_outcome site_tx" where
  "reuse_session d t q clientId session authenticators =
     (let subjectId = rs_subjectId session
      in if differs (pr_idTokenHintSubject q) subjectId
         then tfail (Thrown ''unreachable: decideReuse reused a session the hint filter excluded'')
         else if differs (pr_claimsSubject q) subjectId
         then tfail (Thrown ''unreachable: decideReuse reused a session the claims sub filter excluded'')
         else tbind (tget (refusedForUnverifiedEmail t subjectId)) (\<lambda>refusal.
           if refusal \<noteq> None then tret (rejected q ErrLoginRequired None)
           else tbind (pendingActions subjectId) (\<lambda>owed.
             case nextRequiredAction owed of
               Some action \<Rightarrow>
                 if PromptNone \<in> set (coalesce (pr_prompt q) [])
                 then tret (rejected q ErrLoginRequired None)
                 else tbind (promoteToParkedRequest d q session authenticators) (\<lambda>i.
                      tret (RequestOwes i subjectId action))
             | None \<Rightarrow> reuse_consent d q clientId session authenticators)))"

section \<open>The request\<close>

text \<open>The sign-in page, with the request parked behind it.\<close>

definition show_login :: "door_deps \<Rightarrow> tenant \<Rightarrow> pending_request \<Rightarrow> request_outcome site_tx" where
  "show_login d t q =
     tbind (atomically (initialChallenge (dr_sign d))) (\<lambda>initial.
     case initial of
       AuthChallenge form \<Rightarrow>
         tbind (park d q) (\<lambda>(i, secret, maxAge).
         tret (RequestStarted i (Some (i, secret, maxAge)) (login_page_of t form)))
     | AuthSuccess i commit \<Rightarrow>
         tfail (Thrown ''unreachable: initialChallenge succeeded with no input submitted'')
     | AuthFailure reason refused \<Rightarrow> tret (rejected q ErrLoginRequired None))"

definition show_chooser ::
  "door_deps \<Rightarrow> pending_request \<Rightarrow> resolved_session list \<Rightarrow> request_outcome site_tx" where
  "show_chooser d q candidates =
     tbind (park d q) (\<lambda>(i, secret, maxAge).
     tbind (tget (\<lambda>s. map (\<lambda>c. (rs_id c, accountDisplayName (rs_subjectId c) s))
       (newestPerSubject candidates))) (\<lambda>accounts.
     tret (RequestSelect i (i, secret, maxAge) accounts)))"

text \<open>The browser's sessions of enabled subjects, and of them those the request allows.\<close>

definition reusable_sessions ::
  "door_deps \<Rightarrow> tenant \<Rightarrow> string option \<Rightarrow> site \<Rightarrow> (resolved_session \<times> string list) list" where
  "reusable_sessions d t header s =
     map toReusableSession
       (filter (\<lambda>row. subjectEnabled (ss_subjectId row) s) (map fst (resolveSessions d t header s)))"

definition candidate_sessions ::
  "pending_request \<Rightarrow> (resolved_session \<times> string list) list \<Rightarrow> resolved_session list" where
  "candidate_sessions q sessions =
     filter (\<lambda>c. \<not> differs (pr_idTokenHintSubject q) (rs_subjectId c)
                 \<and> \<not> differs (pr_claimsSubject q) (rs_subjectId c)) (map fst sessions)"

definition answer_from_sessions ::
  "door_deps \<Rightarrow> tenant \<Rightarrow> pending_request \<Rightarrow> string \<Rightarrow> int option \<Rightarrow> string option
     \<Rightarrow> request_outcome site_tx" where
  "answer_from_sessions d t q clientId maxAge header =
     (let prompts = coalesce (pr_prompt q) []; parked = q\<lparr>pr_maxAge := maxAge\<rparr>
      in tbind (tget (reusable_sessions d t header)) (\<lambda>sessions.
         case decideReuse (candidate_sessions q sessions) prompts maxAge (dr_now d) of
           RefuseReuse LoginRequired \<Rightarrow> tret (rejected q ErrLoginRequired None)
         | RefuseReuse AccountSelectionRequired \<Rightarrow>
             tret (rejected q ErrAccountSelectionRequired None)
         | Select candidates \<Rightarrow> show_chooser d parked candidates
         | Authenticate \<Rightarrow> show_login d t parked
         | Reuse chosen \<Rightarrow>
             (case find (\<lambda>(r, as). rs_id r = rs_id chosen) sessions of
                None \<Rightarrow> tfail (Thrown
                  ''unreachable: decideReuse reused a session outside the resolved set'')
              | Some (r, authenticators) \<Rightarrow>
                  tbind (atomically (authenticatorsSatisfyFlow (rs_subjectId chosen) authenticators)) (\<lambda>met.
                  if met then reuse_session d t q clientId chosen authenticators
                  else if PromptNone \<in> set prompts then tret (rejected q ErrLoginRequired None)
                  else show_login d t parked))))"

text \<open>The claims of the request with \<open>auth_time\<close> essential where an age was asked for.\<close>

definition claims_with_auth_time :: "int option \<Rightarrow> claims_request \<Rightarrow> claims_request" where
  "claims_with_auth_time maxAge claims =
     (if maxAge = None then claims
      else let entry = coalesce (map_of (cq_idToken claims) ''auth_time'')
                 \<lparr>ce_essential = False, ce_value = None, ce_values = None\<rparr>
           in claims\<lparr>cq_idToken :=
                AList.update ''auth_time'' (entry\<lparr>ce_essential := True\<rparr>) (cq_idToken claims)\<rparr>)"

definition claims_subject :: "claims_request \<Rightarrow> string option" where
  "claims_subject claims =
     (case map_of (cq_idToken claims) ''sub'' of None \<Rightarrow> None | Some e \<Rightarrow> ce_value e)"

text \<open>What every branch parks.\<close>

definition parked_request ::
  "pending_request \<Rightarrow> prompt_value list \<Rightarrow> string list \<Rightarrow> string option \<Rightarrow> string list \<Rightarrow> claims_request
     \<Rightarrow> pending_request" where
  "parked_request q prompts uiLocales hintSubject audience claims =
     q\<lparr>pr_prompt := Some prompts,
       pr_uiLocales := (if length uiLocales > 0 then Some uiLocales else None),
       pr_idTokenHintSubject := hintSubject, pr_claimsSubject := claims_subject claims,
       pr_resource := Some audience, pr_claims := Some claims\<rparr>"

definition show_registration :: "door_deps \<Rightarrow> tenant \<Rightarrow> pending_request \<Rightarrow> request_outcome site_tx" where
  "show_registration d t q =
     (if \<not> tn_registrationAllowed t
      then tret (rejected q ErrInvalidRequest (Some ''prompt=create is not supported: registration is off''))
      else if pr_idTokenHintSubject q \<noteq> None \<or> pr_claimsSubject q \<noteq> None
      then tret (rejected q ErrInvalidRequest
             (Some ''prompt=create cannot be sent with id_token_hint or a claims sub''))
      else tbind (park d q) (\<lambda>(i, secret, maxAge). tret (RequestRegister i (i, secret, maxAge))))"

text \<open>Once the redirect URI is trusted and the parameters stand: the rules that take the tenant.\<close>

definition admit_request ::
  "door_deps \<Rightarrow> tenant \<Rightarrow> json \<Rightarrow> params \<Rightarrow> client \<Rightarrow> oidc_config \<Rightarrow> pending_request \<Rightarrow> prompt_value list
     \<Rightarrow> string option \<Rightarrow> int option \<Rightarrow> string option \<Rightarrow> request_outcome site_tx" where
  "admit_request d t rawParams ps client config q prompts idTokenHint askedMaxAge header =
     (let mcpAudience = mcpAudienceOfIssuer (dp_issuer (dr_deps d));
          origin = cl_registrationOrigin client;
          scopes = tokens (pr_scope q)
      in case parseResource (dr_URL d) (resourceParam rawParams)
                (audiencesHeld (dr_URL d) origin (policy_name (tn_clientRegistrationPolicy t))
                   (oc_audiences config) mcpAudience) of
           ResourceInvalidTarget \<Rightarrow> tret (rejected q ErrInvalidTarget None)
         | ResourceOk audience \<Rightarrow>
             if refusesWriteScope origin scopes
                \<or> \<not> scopesCoherentWithAudience scopes audience mcpAudience ADMIN_API_AUDIENCE
             then tret (rejected q ErrInvalidScope None)
             else
               let maxAge = js_or_else askedMaxAge (oc_defaultMaxAge config)
               in (case parseClaimsRequest (dr_JSON d) (param_of ''claims'' ps) of
                     ClaimsInvalid reason \<Rightarrow>
                       tret (rejected q ErrInvalidRequest (Some ''claims is not valid''))
                   | ClaimsOk asked \<Rightarrow>
                       tbind (tget (\<lambda>s. map_option (\<lambda>hint.
                         subjectOfAuthorizeHint (dp_platform (dr_deps d))
                           (key_listPublishable (st_keys (si_store s))) (dp_acceptedIssuers (dr_deps d))
                           hint (pr_clientId q)) idTokenHint)) (\<lambda>hint.
                       if hint = Some None
                       then tret (rejected q ErrInvalidRequest (Some ''id_token_hint is not valid''))
                       else
                         let parked = parked_request q prompts (parseUiLocales (param_of ''ui_locales'' ps))
                               (case hint of Some (Some h) \<Rightarrow> Some (hc_subject h) | _ \<Rightarrow> None)
                               audience (claims_with_auth_time maxAge asked)
                         in if PromptCreate \<in> set prompts
                            then show_registration d t (parked\<lparr>pr_maxAge := maxAge\<rparr>)
                            else answer_from_sessions d t parked (cl_id client) maxAge header)))"

text \<open>A client nobody at the tenant vetted is asked about what it can be given.\<close>

definition asked_params :: "resolved_client \<Rightarrow> params \<Rightarrow> params" where
  "asked_params resolved ps =
     (let origin = (case rc_client resolved of None \<Rightarrow> [] | Some c \<Rightarrow> cl_registrationOrigin c)
      in case requestWithGrantableScope origin (param_of ''scope'' ps) of
           None \<Rightarrow> ps | Some scope \<Rightarrow> (''scope'', scope) # ps)"

definition handleAuthorizationRequest ::
  "door_deps \<Rightarrow> json \<Rightarrow> string option \<Rightarrow> request_outcome site_tx" where
  "handleAuthorizationRequest d rawParams header =
     (case normalizeAuthorizeQuery rawParams of
        QueryRender e description \<Rightarrow> tret (RequestRender e description)
      | QueryOk ps repeatedKey \<Rightarrow>
          tbind (tget enabled_tenant) (\<lambda>tenant.
          case tenant of
            None \<Rightarrow>
              tsome (outcome_of (validateAuthorizationRequest (dr_URL d) ps None None [] [] repeatedKey))
                (Thrown ''unreachable: validateAuthorizationRequest cannot succeed with a null client'')
          | Some t \<Rightarrow>
              tbind (case param_of ''client_id'' ps of
                  None \<Rightarrow> tret NO_CLIENT
                | Some oauthClientId \<Rightarrow>
                    resolveAuthorizeClient d t oauthClientId
                      (mcpAudienceOfIssuer (dp_issuer (dr_deps d)))) (\<lambda>resolved.
              let asked = asked_params resolved ps
              in tbind (tget (\<lambda>s. map cs_name
                   (scope_byNames (requestedScopeTokens (param_of ''scope'' asked)) (si_store s)))) (\<lambda>known.
                 case (validateAuthorizationRequest (dr_URL d) asked (rc_client resolved)
                         (rc_config resolved) known (rc_scopes resolved) repeatedKey,
                       rc_client resolved, rc_config resolved) of
                   (AuthorizeOk q prompts idTokenHint maxAge, Some client, Some config) \<Rightarrow>
                     admit_request d t rawParams ps client config q prompts idTokenHint maxAge header
                 | (outcome, _, _) \<Rightarrow>
                     tsome (outcome_of outcome)
                       (Thrown ''unreachable: validateAuthorizationRequest succeeded with a null client'')))))"

section \<open>The account chooser\<close>

record select_answer =
  sa_sessionId :: "string option"
  sa_useOther :: bool

text \<open>The parked session itself shows the sign-in page: nobody was ever bound to it.\<close>

definition started_login ::
  "door_deps \<Rightarrow> tenant \<Rightarrow> string \<Rightarrow> pending_request \<Rightarrow> request_outcome site_tx" where
  "started_login d t authSessionId q =
     tbind (atomically (initialChallenge (dr_sign d))) (\<lambda>initial.
     case initial of
       AuthChallenge form \<Rightarrow> tret (RequestStarted authSessionId None (login_page_of t form))
     | AuthSuccess i commit \<Rightarrow>
         tfail (Thrown ''unreachable: initialChallenge succeeded with no input submitted'')
     | AuthFailure reason refused \<Rightarrow> tret (rejected q ErrLoginRequired None))"

definition chosen_consent ::
  "door_deps \<Rightarrow> string \<Rightarrow> pending_request \<Rightarrow> string \<Rightarrow> session \<Rightarrow> request_outcome site_tx" where
  "chosen_consent d authSessionId q clientId chosen =
     tbind (tget (decideConsentGate clientId (ss_subjectId chosen) (pr_scope q) (pr_prompt q))) (\<lambda>gate.
     case gate of
       GateRefuse \<Rightarrow> tret (rejected q ErrConsentRequired None)
     | GateAsk page \<Rightarrow>
         tbind (markAuthenticated d authSessionId (ss_subjectId chosen) (ss_authenticators chosen)) (\<lambda>_.
         tret (RequestConsent authSessionId page))
     | GateNotRequired \<Rightarrow>
         tbind (completeReuse d (ss_id chosen)
           (code_of_pending q clientId (ss_subjectId chosen) (ss_createdAt chosen) (ss_id chosen))) (\<lambda>code.
         tret (RequestReused code (pr_redirectUri q) (pr_state q))))"

definition chosen_session ::
  "door_deps \<Rightarrow> tenant \<Rightarrow> string \<Rightarrow> pending_request \<Rightarrow> string \<Rightarrow> session \<Rightarrow> request_outcome site_tx" where
  "chosen_session d t authSessionId q clientId chosen =
     (let subjectId = ss_subjectId chosen; authenticators = ss_authenticators chosen
      in if differs (pr_idTokenHintSubject q) subjectId \<or> differs (pr_claimsSubject q) subjectId
         then tret (rejected q ErrLoginRequired None)
         else tbind (tget (refusedForUnverifiedEmail t subjectId)) (\<lambda>refusal.
           if refusal \<noteq> None then tret (rejected q ErrLoginRequired None)
           else tbind (tget (subjectEnabled subjectId)) (\<lambda>enabled.
             if \<not> enabled then started_login d t authSessionId q
             else tbind (atomically (authenticatorsSatisfyFlow subjectId authenticators)) (\<lambda>met.
               if \<not> met then started_login d t authSessionId q
               else tbind (pendingActions subjectId) (\<lambda>owed.
                 case nextRequiredAction owed of
                   Some action \<Rightarrow>
                     tbind (markAuthenticated d authSessionId subjectId authenticators) (\<lambda>_.
                     tret (RequestOwes authSessionId subjectId action))
                 | None \<Rightarrow> chosen_consent d authSessionId q clientId chosen)))))"

definition handleSelectAccountSubmission ::
  "door_deps \<Rightarrow> string option \<Rightarrow> select_answer \<Rightarrow> string option \<Rightarrow> request_outcome site_tx" where
  "handleSelectAccountSubmission d authSessionId answer header =
     (case authSessionId of
        None \<Rightarrow> tret RequestUnauthenticated
      | Some i \<Rightarrow>
          if \<not> isUuid i then tret RequestUnauthenticated
          else tbind (tget enabled_tenant) (\<lambda>tenant.
          case tenant of
            None \<Rightarrow> tret RequestUnauthenticated
          | Some t \<Rightarrow>
              tbind (tget (\<lambda>s. pendingSession i (dr_now d) (si_attempts s))) (\<lambda>pending.
              case pending of
                None \<Rightarrow> tret RequestUnauthenticated
              | Some q \<Rightarrow>
                  if sa_useOther answer then started_login d t i q
                  else tbind (tget (\<lambda>s. find (\<lambda>row. Some (ss_id row) = sa_sessionId answer)
                         (map fst (resolveSessions d t header s)))) (\<lambda>found.
                    case found of
                      None \<Rightarrow> tret InvalidSelection
                    | Some chosen \<Rightarrow>
                        if \<not> withinMaxAge (ss_createdAt chosen) (pr_maxAge q) (dr_now d)
                        then tret InvalidSelection
                        else tbind (tget (resolveClientId (pr_clientId q))) (\<lambda>client.
                          case client of
                            None \<Rightarrow> tret RequestUnauthenticated
                          | Some clientId \<Rightarrow> chosen_session d t i q clientId chosen)))))"

end
