(* ===== verification/Sign_In_Frame.thy ===== *)
theory Sign_In_Frame
  imports Sign_In
begin

text \<open>
  What the requests of a sign-in leave alone, proved once for any predicate that the single writes
  keep (the locale \<open>sign_in_frame\<close>): the flow and who holds which credentials (\<open>same_flow\<close>), and
  whom the parked attempts are bound to and what they have passed (\<open>same_core\<close>).
\<close>

section \<open>Frames\<close>

lemma keeps_on_store:
  "(\<And>s r st. I s \<Longrightarrow> m (si_store s) = (r, st) \<Longrightarrow> I (s\<lparr>si_store := st\<rparr>)) \<Longrightarrow> keeps I (on_store m)"
  by (auto simp: keeps_def tx_simps)

lemma keeps_tables:
  "(\<And>s. I s \<Longrightarrow> I (s\<lparr>si_credentials := snd (fc (si_credentials s))\<rparr>)) \<Longrightarrow> keeps I (credentials_tx fc)"
  "(\<And>s. I s \<Longrightarrow> I (s\<lparr>si_attempts := snd (fa (si_attempts s))\<rparr>)) \<Longrightarrow> keeps I (attempts_tx fa)"
  "(\<And>s. I s \<Longrightarrow> I (s\<lparr>si_actions := snd (fo (si_actions s))\<rparr>)) \<Longrightarrow> keeps I (actions_tx fo)"
  "(\<And>s. I s \<Longrightarrow> I (s\<lparr>si_failures := snd (fl (si_failures s))\<rparr>)) \<Longrightarrow> keeps I (failures_tx fl)"
  by (auto simp: keeps_def tx_simps)

lemma keeps_pair [keeps_intros]: "(\<And>a b. keeps I (f a b)) \<Longrightarrow> keeps I (case p of (a, b) \<Rightarrow> f a b)"
  by (cases p) auto

text \<open>What a credential keeps for good, whatever is written to its row.\<close>

definition identity_of :: "credential \<Rightarrow> string \<times> string \<times> credential_type" where
  "identity_of c = (cd_id c, cd_subjectId c, cd_type c)"

text \<open>What no request of a sign-in writes: the flow, the tenant's row, users, subjects and clients,
  and who holds which credentials.\<close>

definition same_flow :: "site \<Rightarrow> site \<Rightarrow> bool" where
  "same_flow s s' \<longleftrightarrow> si_executions s' = si_executions s \<and> si_tenant s' = si_tenant s
     \<and> si_users s' = si_users s \<and> st_subjects (si_store s') = st_subjects (si_store s)
     \<and> st_clients (si_store s') = st_clients (si_store s)
     \<and> map identity_of (si_credentials s') = map identity_of (si_credentials s)"

lemma same_flow_refl [simp]: "same_flow s s"
  by (simp add: same_flow_def)

lemma same_flow_trans: "same_flow a b \<Longrightarrow> same_flow b c \<Longrightarrow> same_flow a c"
  by (simp add: same_flow_def)

lemma same_flow_tables [simp]:
  "same_flow s0 (s\<lparr>si_attempts := as\<rparr>) = same_flow s0 s"
  "same_flow s0 (s\<lparr>si_actions := os\<rparr>) = same_flow s0 s"
  "same_flow s0 (s\<lparr>si_failures := fs\<rparr>) = same_flow s0 s"
  "same_flow s0 (s\<lparr>si_store := (si_store s)\<lparr>st_audit := au\<rparr>\<rparr>) = same_flow s0 s"
  by (simp_all add: same_flow_def)

lemma map_update_where_if:
  "(\<And>r. p r \<Longrightarrow> g (f r) = g r) \<Longrightarrow> map g (update_where p f rs) = map g rs"
  by (auto simp: update_where_def)

lemma credential_writes_identity [simp]:
  "map identity_of (snd (upgradePassword i fh th rows)) = map identity_of rows"
  "map identity_of (snd (recordTotpUse i n at rows)) = map identity_of rows"
  "map identity_of (snd (advanceWebauthnCounter i k at rows)) = map identity_of rows"
  "map identity_of (snd (spendRecoveryCode i at rows)) = map identity_of rows"
  unfolding upgradePassword_def recordTotpUse_def advanceWebauthnCounter_def spendRecoveryCode_def
    Let_def snd_conv
  by (rule map_update_where_if;
      auto simp: identity_of_def cd_type_def split: credential_secret.splits option.splits)+

text \<open>Counting the credentials of a subject reads nothing else of them.\<close>

lemma credentials_of_length:
  "length (credentials_of i ty rows) =
     length (filter (\<lambda>(c, j, t). j = i \<and> t = ty) (map identity_of rows))"
  by (simp add: credentials_of_def filter_map comp_def identity_of_def)

lemma credentials_of_same:
  assumes "map identity_of rows' = map identity_of rows"
  shows "length (credentials_of i ty rows') = length (credentials_of i ty rows)"
  using assms by (simp add: credentials_of_length)

lemma storedTotpFor_same:
  assumes "map identity_of rows' = map identity_of rows"
  shows "storedTotpFor i rows' = None \<longleftrightarrow> storedTotpFor i rows = None"
  using credentials_of_same [OF assms, of i TotpType]
  by (auto simp: storedTotpFor_def first_row_def split: list.splits)

lemma keeps_same_flow_store:
  "(\<And>st r st'. m st = (r, st') \<Longrightarrow> \<exists>a. st' = st\<lparr>st_audit := a\<rparr>) \<Longrightarrow> keeps (same_flow s0) (on_store m)"
  by (rule keeps_on_store) (metis same_flow_tables(4))

lemma logged_store: "logged (audit_recordAll d es) st = (r, st') \<Longrightarrow> \<exists>a. st' = st\<lparr>st_audit := a\<rparr>"
proof -
  assume l: "logged (audit_recordAll d es) st = (r, st')"
  obtain q s1 where q: "audit_recordAll d es st = (q, s1)" by fastforce
  show ?thesis
  proof (cases q)
    case (Inl e)
    with l q have "st' = st" by (auto simp: logged_def atomically_def)
    then show ?thesis by (intro exI [of _ "st_audit st"]) simp
  next
    case (Inr u)
    with l q have "st' = s1" by (auto simp: logged_def atomically_def)
    with audit_recordAll_state [OF q] show ?thesis by auto
  qed
qed

lemma keeps_same_flow [keeps_intros]:
  "keeps (same_flow s0) (on_store (audit_record dp e))"
  "keeps (same_flow s0) (on_store (logged (audit_recordAll dp es)))"
  "keeps (same_flow s0) (attempts_tx fa)"
  "keeps (same_flow s0) (actions_tx fo)"
  "keeps (same_flow s0) (failures_tx fl)"
  "keeps (same_flow s0) (credentials_tx (upgradePassword i fh th))"
  "keeps (same_flow s0) (credentials_tx (recordTotpUse i n at))"
  "keeps (same_flow s0) (credentials_tx (advanceWebauthnCounter i k at))"
  "keeps (same_flow s0) (credentials_tx (spendRecoveryCode i at))"
  "keeps (same_flow s0) (owe i a)"
  "keeps (same_flow s0) (bindSubject i j)"
  "keeps (same_flow s0) (recordFailure d i policy)"
          apply (rule keeps_same_flow_store, erule audit_record_rest)
         apply (rule keeps_same_flow_store, erule logged_store)
        apply (rule keeps_tables, simp)+
  by (auto simp: keeps_def owe_def bindSubject_def recordFailure_def tx_simps same_flow_def split: if_splits)

lemma keeps_results [keeps_intros]:
  "(\<And>i c. keeps I (fs i c)) \<Longrightarrow> (\<And>f. keeps I (fc f)) \<Longrightarrow> (\<And>x a. keeps I (ff x a)) \<Longrightarrow>
     keeps I (case ar of AuthSuccess i c \<Rightarrow> fs i c | AuthChallenge f \<Rightarrow> fc f | AuthFailure x a \<Rightarrow> ff x a)"
  "(\<And>i n. keeps I (ts i n)) \<Longrightarrow> keeps I tc \<Longrightarrow> (\<And>x b. keeps I (tf x b)) \<Longrightarrow>
     keeps I (case t of TotpSuccess i n \<Rightarrow> ts i n | TotpChallenge \<Rightarrow> tc | TotpFailure x b \<Rightarrow> tf x b)"
  "(\<And>i n. keeps I (rs i n)) \<Longrightarrow> keeps I rc \<Longrightarrow> (\<And>x. keeps I (rf x)) \<Longrightarrow>
     keeps I (case ro of RecoverySuccess i n \<Rightarrow> rs i n | RecoveryChallenge \<Rightarrow> rc | RecoveryFailure x \<Rightarrow> rf x)"
  "(\<And>i n k. keeps I (ps i n k)) \<Longrightarrow> keeps I pc \<Longrightarrow> (\<And>x. keeps I (pf x)) \<Longrightarrow>
     keeps I (case po of PasskeySuccess i n k \<Rightarrow> ps i n k | PasskeyChallenge \<Rightarrow> pc | PasskeyFailure x \<Rightarrow> pf x)"
  "(\<And>i n. keeps I (dr i n)) \<Longrightarrow> keeps I dc \<Longrightarrow> keeps I df \<Longrightarrow>
     keeps I (case di of Ran i n \<Rightarrow> dr i n | DispatchComplete \<Rightarrow> dc | DispatchFail \<Rightarrow> df)"
  "(\<And>i n. keeps I (os i n)) \<Longrightarrow> (\<And>f. keeps I (oc f)) \<Longrightarrow> (\<And>x. keeps I (oo x)) \<Longrightarrow>
     keeps I (case ao of AdvanceSuccess i n \<Rightarrow> os i n | AdvanceChallenge f \<Rightarrow> oc f | AdvanceFailure x \<Rightarrow> oo x)"
  "keeps I b1 \<Longrightarrow> keeps I b2 \<Longrightarrow> keeps I (case b of True \<Rightarrow> b1 | False \<Rightarrow> b2)"
  "keeps I (tsum_of su)"
  by (simp_all add: tsum_of_def keeps_intros split: auth_result.splits totp_outcome.splits
      recovery_outcome.splits passkey_outcome.splits dispatch.splits advance_outcome.splits bool.splits
      sum.splits)

lemmas step_keeps = runPasswordStep_def refused_password_def runOtpStep_def refusedWhileLocked_def
  countSecondFactorFailure_def runRecoveryStep_def runPasskeyStep_def failures_for_def commit_recovery_def
  oweRecoveryCodesIfNoneUnspent_def

section \<open>What a transaction returns\<close>

definition yields :: "('a \<Rightarrow> bool) \<Rightarrow> ('s, 'e, 'a) tx \<Rightarrow> bool" where
  "yields P m \<longleftrightarrow> (\<forall>s x s'. m s = (Inr x, s') \<longrightarrow> P x)"

named_theorems yields_intros "what every value a transaction returns satisfies"

lemma yieldsD: "yields P m \<Longrightarrow> m s = (Inr x, s') \<Longrightarrow> P x"
  by (auto simp: yields_def)

lemma yields_basic [yields_intros]:
  "P x \<Longrightarrow> yields P (tret x)" "yields P (tfail e)"
  "(\<And>x. yields P (f x)) \<Longrightarrow> yields P (tbind m f)"
  "yields P m1 \<Longrightarrow> yields P m2 \<Longrightarrow> yields P (if b then m1 else m2)"
  "yields P m1 \<Longrightarrow> (\<And>x. yields P (g x)) \<Longrightarrow> yields P (case v of None \<Rightarrow> m1 | Some x \<Rightarrow> g x)"
  "(\<And>x y. yields P (h x y)) \<Longrightarrow> yields P (case pq of (x, y) \<Rightarrow> h x y)"
  by (cases pq; auto simp: yields_def tx_simps split: option.splits)+

lemma yields_after:
  "yields Q m \<Longrightarrow> (\<And>x. Q x \<Longrightarrow> yields P (f x)) \<Longrightarrow> yields P (tbind m f)"
  unfolding yields_def tx_simps by blast

lemma yields_results [yields_intros]:
  "(\<And>i n. yields I (ts i n)) \<Longrightarrow> yields I tc \<Longrightarrow> (\<And>x b. yields I (tf x b)) \<Longrightarrow>
     yields I (case t of TotpSuccess i n \<Rightarrow> ts i n | TotpChallenge \<Rightarrow> tc | TotpFailure x b \<Rightarrow> tf x b)"
  "(\<And>i n. yields I (rs i n)) \<Longrightarrow> yields I rc \<Longrightarrow> (\<And>x. yields I (rf x)) \<Longrightarrow>
     yields I (case ro of RecoverySuccess i n \<Rightarrow> rs i n | RecoveryChallenge \<Rightarrow> rc | RecoveryFailure x \<Rightarrow> rf x)"
  "(\<And>i n k. yields I (ps i n k)) \<Longrightarrow> yields I pc \<Longrightarrow> (\<And>x. yields I (pf x)) \<Longrightarrow>
     yields I (case po of PasskeySuccess i n k \<Rightarrow> ps i n k | PasskeyChallenge \<Rightarrow> pc | PasskeyFailure x \<Rightarrow> pf x)"
  "yields I b1 \<Longrightarrow> yields I b2 \<Longrightarrow> yields I (case b of True \<Rightarrow> b1 | False \<Rightarrow> b2)"
  by (simp_all split: totp_outcome.splits recovery_outcome.splits passkey_outcome.splits bool.splits)

text \<open>The write a success defers keeps a predicate.\<close>

definition commit_keeps :: "(site \<Rightarrow> bool) \<Rightarrow> auth_result \<Rightarrow> bool" where
  "commit_keeps I r = (case r of AuthSuccess i (Some c) \<Rightarrow> keeps I c | _ \<Rightarrow> True)"

lemma commit_keeps_simps [simp]:
  "commit_keeps I (AuthChallenge f)" "commit_keeps I (AuthFailure x a)"
  "commit_keeps I (AuthSuccess i None)" "commit_keeps I (AuthSuccess i (Some c)) = keeps I c"
  by (simp_all add: commit_keeps_def)

section \<open>Predicates a sign-in keeps\<close>

text \<open>
  A predicate on the site that survives every single write of a factor or of what follows it
  survives every authenticator, every write one defers and every dispatch.
\<close>

locale sign_in_frame =
  fixes I :: "site \<Rightarrow> bool"
  assumes audit_kept: "keeps I (on_store (audit_record dp e))"
    and refusal_kept: "keeps I (on_store (logged (audit_recordAll dp es)))"
    and failure_kept: "keeps I (recordFailure d i policy)"
    and cleared_kept: "keeps I (failures_tx (\<lambda>rows. ((), clear_failures i rows)))"
    and upgrade_kept: "keeps I (credentials_tx (upgradePassword i from_hash to_hash))"
    and totp_kept: "keeps I (credentials_tx (recordTotpUse i n at))"
    and counter_kept: "keeps I (credentials_tx (advanceWebauthnCounter i k at))"
    and spend_kept: "keeps I (credentials_tx (spendRecoveryCode i at))"
    and owe_kept: "keeps I (owe i a)"
    and claim_kept: "keeps I (attempts_tx (claimWebauthnChallenge i))"
    and finished_kept: "keeps I (attempts_tx (\<lambda>rows. ((), recordAuthenticated i at' rows)))"
begin

lemmas frame_intros = keeps_intros audit_kept refusal_kept failure_kept cleared_kept upgrade_kept
  totp_kept counter_kept spend_kept owe_kept claim_kept finished_kept

lemma commit_recovery_kept: "keeps I (commit_recovery d ctx i j)"
  unfolding step_keeps by (intro frame_intros)

lemma authenticators_kept:
  "keeps I (runPasswordStep d input ctx)" "keeps I (runPasskeyStep d input ctx)"
  "keeps I (runOtpStep d input ctx)" "keeps I (runRecoveryStep d input ctx)"
  unfolding step_keeps by (intro frame_intros)+

lemma passwordStep_commit: "commit_keeps I (passwordStep ip input v)"
  by (auto simp: passwordStep_def Let_def split: option.splits intro!: frame_intros)

lemma runPasswordStep_commit: "yields (commit_keeps I) (runPasswordStep d input ctx)"
proof -
  have "yields (commit_keeps I) (refused_password d ctx v l)" for v l
    unfolding refused_password_def Let_def by (intro yields_intros commit_keeps_simps)
  then show ?thesis
    by (auto simp: runPasswordStep_def Let_def intro!: yields_intros split: auth_result.splits)
      (metis passwordStep_commit)
qed

lemma second_factor_commit:
  "yields (commit_keeps I) (runOtpStep d input ctx)"
  "yields (commit_keeps I) (runRecoveryStep d input ctx)"
  "yields (commit_keeps I) (runPasskeyStep d input ctx)"
proof -
  have c: "yields (commit_keeps I) (countSecondFactorFailure d ctx x y)" for x y
    unfolding countSecondFactorFailure_def by (intro yields_intros commit_keeps_simps)
  have locked: "yields (\<lambda>l. \<forall>q. l = Some q \<longrightarrow> commit_keeps I q) (refusedWhileLocked d ctx b)" for b
    unfolding refusedWhileLocked_def locked_out_failure_def
    by (auto intro!: yields_intros split: option.splits bool.splits)
  show "yields (commit_keeps I) (runOtpStep d input ctx)"
    unfolding runOtpStep_def
    by (rule yields_after [OF locked]) (auto intro!: yields_intros c split: option.splits totp_outcome.splits)
  show "yields (commit_keeps I) (runRecoveryStep d input ctx)"
    unfolding runRecoveryStep_def
    by (rule yields_after [OF locked])
      (auto intro!: yields_intros commit_recovery_kept c split: option.splits recovery_outcome.splits)
  show "yields (commit_keeps I) (runPasskeyStep d input ctx)"
    unfolding runPasskeyStep_def
    by (intro yields_intros commit_keeps_simps keeps_intros) (simp_all add: counter_kept)
qed

lemma registered_cases:
  assumes "map_of AUTHENTICATORS a = Some run"
  shows "keeps I (run d input ctx)" "yields (commit_keeps I) (run d input ctx)"
proof -
  from assms consider "run = runPasswordStep" | "run = runPasskeyStep" | "run = runOtpStep"
    | "run = runRecoveryStep"
    unfolding AUTHENTICATORS_def by (auto split: if_splits)
  then have "keeps I (run d input ctx) \<and> yields (commit_keeps I) (run d input ctx)"
    by cases (simp_all only: authenticators_kept runPasswordStep_commit second_factor_commit simp_thms)
  then show "keeps I (run d input ctx)" "yields (commit_keeps I) (run d input ctx)" by simp_all
qed

lemma authenticator_commit:
  assumes "map_of AUTHENTICATORS a = Some run" "run d input ctx s = (Inr (AuthSuccess i (Some c)), s')"
  shows "keeps I c"
  using yieldsD [OF registered_cases(2) [OF assms(1)] assms(2)] by simp

lemma dispatch_kept: "keeps I (dispatchNext d ctx steps satisfied input)"
  unfolding dispatchNext_def
  by (auto split: next_step.splits option.splits intro!: keeps_intros registered_cases)

lemma audits_kept:
  "keeps I (audit_allowed d la a i)" "keeps I (audit_refused d la a j x b)" "keeps I (factorOffered d la f i)"
  "keeps I (recordSettled d la a q i)"
  unfolding recordSettled_def audit_allowed_def audit_refused_def factorOffered_def loginActionFor_def
  by (intro frame_intros)+

lemma owed_kept:
  "keeps I (recordOtpEnrolmentIfOwed i facts)" "keeps I (recordPasswordExpiryIfOwed d i n)"
  "keeps I (oweRecoveryCodesIfFactorWithoutCodes i)" "keeps I (close_run out i)"
  unfolding recordOtpEnrolmentIfOwed_def recordPasswordExpiryIfOwed_def oweRecoveryCodesIfFactorWithoutCodes_def
    close_run_def
  by (intro frame_intros)+

end

interpretation flow: sign_in_frame "same_flow s0" for s0
  by unfold_locales (intro keeps_intros)+

section \<open>What a request leaves of the attempts\<close>

definition core :: "attempt \<Rightarrow> string \<times> string option \<times> string list \<times> bool" where
  "core r = (at_id r, at_subjectId r, at_satisfied r, at_consumedAt r \<noteq> None)"

definition same_core :: "site \<Rightarrow> site \<Rightarrow> bool" where
  "same_core s s' \<longleftrightarrow> map core (si_attempts s') = map core (si_attempts s)"

lemma same_core_refl [simp]: "same_core s s"
  by (simp add: same_core_def)

lemma core_writes [simp]:
  "map core (recordAuthenticated i at rows) = map core rows"
  "map core (setWebauthnChallenge i c rows) = map core rows"
  "map core (snd (claimWebauthnChallenge i rows)) = map core rows"
  "map core (attempt_recordRememberMe i b rows) = map core rows"
  by (simp_all add: attempt_writes Let_def core_def)

lemma keeps_same_core:
  "keeps (same_core s0) (on_store m)"
  "keeps (same_core s0) (credentials_tx fc)"
  "keeps (same_core s0) (actions_tx fo)"
  "keeps (same_core s0) (failures_tx fl)"
  "keeps (same_core s0) (owe i a)"
  "keeps (same_core s0) (recordFailure d i policy)"
  "keeps (same_core s0) (attempts_tx (\<lambda>rows. ((), recordAuthenticated i at rows)))"
  "keeps (same_core s0) (attempts_tx (claimWebauthnChallenge i))"
  by (auto simp: keeps_def same_core_def tx_simps owe_def recordFailure_def split: if_splits)

interpretation core: sign_in_frame "same_core s0" for s0
  by unfold_locales (rule keeps_same_core)+

end
