(* ===== verification/Sign_In_Facts.thy ===== *)
theory Sign_In_Facts
  imports Sign_In_Frame
begin

text \<open>
  What a submission to a sign-in does: nothing submitted is always answered by a form, what
  \<open>advance\<close> comes to, and what a completed flow leaves satisfied.
\<close>

section \<open>Nothing submitted\<close>

text \<open>
  Every authenticator answers an empty submission with its own form, and touches nothing: the
  second dispatch of \<open>advance\<close> and the page of a parked sign-in cannot spend anything.
\<close>

lemma NO_INPUT_simps [simp]:
  "in_username NO_INPUT = None" "in_password NO_INPUT = None" "in_code NO_INPUT = None"
  "in_recoveryCode NO_INPUT = None" "in_assertion NO_INPUT = None" "assertionOffered NO_INPUT = False"
  "recoveryCodeOffered NO_INPUT = False" "carriesCredential NO_INPUT = False"
  by (simp_all add: NO_INPUT_def assertionOffered_def recoveryCodeOffered_def carriesCredential_def)

lemma refusedWhileLocked_unsubmitted: "refusedWhileLocked d ctx False = tret None"
  by (simp add: refusedWhileLocked_def)

lemma authenticator_NO_INPUT:
  assumes "map_of AUTHENTICATORS a = Some run"
  shows "run d NO_INPUT ctx s = (Inr (AuthChallenge a), s)"
proof -
  from assms consider "a = PASSWORD" "run = runPasswordStep" | "a = PASSKEY" "run = runPasskeyStep"
    | "a = OTP" "run = runOtpStep" | "a = RECOVERY_CODE" "run = runRecoveryStep"
    unfolding AUTHENTICATORS_def by (auto split: if_splits)
  then show ?thesis
    by cases (simp_all add: runPasswordStep_def runPasskeyStep_def runOtpStep_def runRecoveryStep_def
        refusedWhileLocked_unsubmitted totpStep_def tsum_of_def recoveryStep_def tbind_def tret_def tget_def)
qed

text \<open>The dispatch with nothing submitted is the decision of the flow.\<close>

lemma dispatchNext_NO_INPUT:
  assumes "dispatchNext d ctx steps satisfied NO_INPUT s = (r, s')"
  shows "s' = s"
    and "r = Inr DispatchComplete \<longleftrightarrow> nextStep steps satisfied = Complete"
    and "r = Inr DispatchFail \<longleftrightarrow> nextStep steps satisfied = Fail"
    and "r = Inr (Ran a result) \<longleftrightarrow>
      nextStep steps satisfied = Run a \<and> isRegisteredAuthenticator a \<and> result = AuthChallenge a"
    and "r = Inl e \<Longrightarrow> \<exists>a. nextStep steps satisfied = Run a \<and> \<not> isRegisteredAuthenticator a"
proof -
  have "s' = s
    \<and> (r = Inr DispatchComplete \<longleftrightarrow> nextStep steps satisfied = Complete)
    \<and> (r = Inr DispatchFail \<longleftrightarrow> nextStep steps satisfied = Fail)
    \<and> (r = Inr (Ran a result) \<longleftrightarrow>
      nextStep steps satisfied = Run a \<and> isRegisteredAuthenticator a \<and> result = AuthChallenge a)
    \<and> (r = Inl e \<longrightarrow> (\<exists>a. nextStep steps satisfied = Run a \<and> \<not> isRegisteredAuthenticator a))"
  proof (cases "nextStep steps satisfied")
    case (Run b)
    show ?thesis
    proof (cases "map_of AUTHENTICATORS b")
      case None
      with Run assms show ?thesis
        by (auto simp: dispatchNext_def isRegisteredAuthenticator_def tfail_def)
    next
      case (Some run)
      with Run assms have "r = Inr (Ran b (AuthChallenge b)) \<and> s' = s"
        using authenticator_NO_INPUT [OF Some, of d ctx s]
        by (simp add: dispatchNext_def tbind_def tret_def)
      with Run Some show ?thesis by (auto simp: isRegisteredAuthenticator_def)
    qed
  qed (use assms in \<open>auto simp: dispatchNext_def tret_def\<close>)
  then show "s' = s"
    and "r = Inr DispatchComplete \<longleftrightarrow> nextStep steps satisfied = Complete"
    and "r = Inr DispatchFail \<longleftrightarrow> nextStep steps satisfied = Fail"
    and "r = Inr (Ran a result) \<longleftrightarrow>
      nextStep steps satisfied = Run a \<and> isRegisteredAuthenticator a \<and> result = AuthChallenge a"
    and "r = Inl e \<Longrightarrow> \<exists>a. nextStep steps satisfied = Run a \<and> \<not> isRegisteredAuthenticator a" by auto
qed

section \<open>The steps of a subject\<close>

definition facts_of :: "facts_request \<Rightarrow> tenant \<Rightarrow> site \<Rightarrow> flow_facts" where
  "facts_of request t s =
     \<lparr>ff_hasTotp = (case fr_subjectId request of None \<Rightarrow> False
          | Some i \<Rightarrow> storedTotpFor i (si_credentials s) \<noteq> None),
      ff_hasRecoveryCodes = (fr_recoveryCodeOffered request
        \<and> (case fr_subjectId request of None \<Rightarrow> False
           | Some i \<Rightarrow> length (credentials_of i RecoveryCodeType (si_credentials s)) > 0)),
      ff_otpRequired = tn_otpRequired t, ff_passwordMaxAgeDays = tn_passwordMaxAgeDays t,
      ff_lockout = tn_lockout t, ff_loginWithEmail = tn_loginWithEmail t,
      ff_satisfied = fr_satisfied request, ff_assertionOffered = fr_assertionOffered request,
      ff_recoveryCodeOffered = fr_recoveryCodeOffered request\<rparr>"

definition flow_steps :: "facts_request \<Rightarrow> tenant \<Rightarrow> site \<Rightarrow> flow_step list" where
  "flow_steps request t s = steps_for (sort_key ex_index (si_executions s)) (facts_of request t s)"

lemma loadSteps_run:
  "loadSteps request s =
     (case si_tenant s of
        None \<Rightarrow> (Inl (Thrown ''tenant_not_found''), s)
      | Some t \<Rightarrow> (Inr (flow_steps request t s, facts_of request t s), s))"
  by (simp add: loadSteps_def flowFacts_def tenant_row_def flow_steps_def facts_of_def tbind_def tget_def
      tsome_def tret_def tfail_def split: option.splits)

lemma facts_of_same:
  assumes "same_flow s0 s"
  shows "facts_of request t s = facts_of request t s0"
proof -
  from assms have ids: "map identity_of (si_credentials s) = map identity_of (si_credentials s0)"
    by (simp add: same_flow_def)
  have "(storedTotpFor i (si_credentials s) \<noteq> None) = (storedTotpFor i (si_credentials s0) \<noteq> None)"
    "length (credentials_of i RecoveryCodeType (si_credentials s)) =
       length (credentials_of i RecoveryCodeType (si_credentials s0))" for i
    by (simp only: storedTotpFor_same [OF ids]) (rule credentials_of_same [OF ids])
  then show ?thesis by (cases "fr_subjectId request") (simp_all only: facts_of_def option.case)
qed

lemma flow_steps_same:
  assumes "same_flow s0 s"
  shows "flow_steps request t s = flow_steps request t s0"
  using assms by (simp add: flow_steps_def facts_of_same [OF assms] same_flow_def)

section \<open>A successful submission\<close>

text \<open>What the flow is asked of a subject who passed \<open>as\<close>, for one submission.\<close>

definition request_for :: "string \<Rightarrow> string list \<Rightarrow> advance_input \<Rightarrow> facts_request" where
  "request_for subjectId as input =
     \<lparr>fr_subjectId = Some subjectId, fr_satisfied = set as, fr_assertionOffered = assertionOffered input,
      fr_recoveryCodeOffered = recoveryCodeOffered input\<rparr>"

lemma outcome_after_challenge:
  "outcome_after d i la r a sub (Ran b (AuthChallenge b)) s = (Inr out, s') \<Longrightarrow> out = AdvanceChallenge b"
  by (auto simp: outcome_after_def settle_result_def recordSettled_def tx_simps)

lemma factor_passed_success:
  assumes "factor_passed d i la r input a sub s = (Inr (AdvanceSuccess sub' as), s')"
    and "same_flow s0 s" "si_tenant s0 = Some t"
  shows "sub' = sub \<and> as = js_unique (at_satisfied r @ [a])
    \<and> nextStep (flow_steps (request_for sub as input) t s0) (set as) = Complete"
proof -
  let ?I = "same_flow s0"
  from assms(1) obtain s1 s2 s3 s4 s5 s6 steps facts after where
    run: "audit_allowed d la a sub s = (Inr (), s1)" "bindSubject i sub s1 = (Inr (), s2)"
      "loadSteps (request_for sub as input\<lparr>fr_satisfied := insert a (set (at_satisfied r))\<rparr>) s2 = (Inr (steps, facts), s3)"
      "dispatchNext d (context_for facts (Some sub) (Some i)) steps (insert a (set (at_satisfied r))) NO_INPUT s4 = (Inr after, s5)"
      "outcome_after d i la r a sub after s5 = (Inr (AdvanceSuccess sub' as), s6)"
    by (auto simp: factor_passed_def Let_def tx_simps request_for_def)
  from flow.audits_kept(1) assms(2) run(1) have "?I s1" by (rule keepsD)
  with run(2) have "?I s2" by (metis keepsD keeps_same_flow(11))
  then have "steps = flow_steps (request_for sub as input\<lparr>fr_satisfied := insert a (set (at_satisfied r))\<rparr>) t s0"
    using run(3) assms(3) flow_steps_same [OF \<open>?I s2\<close>] by (simp add: loadSteps_run same_flow_def)
  moreover have c: "after = DispatchComplete"
  proof (cases after)
    case (Ran b result)
    with dispatchNext_NO_INPUT(4) [OF run(4), of b result] have "result = AuthChallenge b" by simp
    with run(5) Ran outcome_after_challenge show ?thesis by blast
  next
    case DispatchFail
    with run(5) show ?thesis by (simp add: outcome_after_def tx_simps)
  qed
  with run(5) have "sub' = sub" "as = js_unique (at_satisfied r @ [a])"
    by (simp_all add: outcome_after_def tx_simps)
  moreover from c dispatchNext_NO_INPUT(2) [OF run(4)]
  have "nextStep steps (insert a (set (at_satisfied r))) = Complete" by simp
  ultimately show ?thesis by (simp add: request_for_def)
qed

lemma dispatchNext_cases:
  "dispatchNext d ctx steps satisfied input =
     (case nextStep steps satisfied of
        Fail \<Rightarrow> tret DispatchFail
      | Complete \<Rightarrow> tret DispatchComplete
      | Run a \<Rightarrow> (case map_of AUTHENTICATORS a of
                   None \<Rightarrow> tfail (Thrown ''authenticator is not registered'')
                 | Some run \<Rightarrow> tbind (run d input ctx) (\<lambda>result. tret (Ran a result))))"
  by (simp add: dispatchNext_def)

lemma dispatchNext_Ran:
  assumes "dispatchNext d ctx steps satisfied input s = (Inr (Ran a result), s')"
  shows "\<exists>run. map_of AUTHENTICATORS a = Some run \<and> run d input ctx s = (Inr result, s')
    \<and> nextStep steps satisfied = Run a"
proof (cases "nextStep steps satisfied")
  case (Run b)
  with assms show ?thesis
    by (cases "map_of AUTHENTICATORS b") (simp_all add: dispatchNext_cases tfail_run tbind_Inr tret_run)
qed (use assms in \<open>simp_all add: dispatchNext_cases tret_run\<close>)

lemma dispatchNext_Complete:
  assumes "dispatchNext d ctx steps satisfied input s = (Inr DispatchComplete, s')"
  shows "s' = s \<and> nextStep steps satisfied = Complete"
proof (cases "nextStep steps satisfied")
  case (Run b)
  with assms show ?thesis
    by (cases "map_of AUTHENTICATORS b") (simp_all add: dispatchNext_cases tfail_run tbind_Inr tret_run)
qed (use assms in \<open>simp_all add: dispatchNext_cases tret_run\<close>)

lemma dispatchNext_Fail:
  assumes "dispatchNext d ctx steps satisfied input s = (Inr DispatchFail, s')"
  shows "s' = s"
proof (cases "nextStep steps satisfied")
  case (Run b)
  with assms show ?thesis
    by (cases "map_of AUTHENTICATORS b") (simp_all add: dispatchNext_cases tfail_run tbind_Inr tret_run)
qed (use assms in \<open>simp_all add: dispatchNext_cases tret_run\<close>)

text \<open>What an attempt asks of a submission: the context of its factors.\<close>

definition request_of :: "attempt \<Rightarrow> advance_input \<Rightarrow> facts_request" where
  "request_of r input =
     \<lparr>fr_subjectId = at_subjectId r, fr_satisfied = set (at_satisfied r),
      fr_assertionOffered = assertionOffered input, fr_recoveryCodeOffered = recoveryCodeOffered input\<rparr>"

definition context_of :: "attempt \<Rightarrow> string \<Rightarrow> tenant \<Rightarrow> step_context" where
  "context_of r i t =
     \<lparr>sc_subjectId = at_subjectId r, sc_authSessionId = Some i, sc_lockout = tn_lockout t,
      sc_loginWithEmail = tn_loginWithEmail t\<rparr>"

text \<open>\<open>advance\<close> once the attempt and the tenant are read.\<close>

definition advance_live ::
  "sign_deps \<Rightarrow> string \<Rightarrow> advance_input \<Rightarrow> attempt \<Rightarrow> tenant \<Rightarrow> flow_step list \<Rightarrow> login_audit
     \<Rightarrow> advance_outcome site_tx" where
  "advance_live d i input r t steps la =
     tbind (dispatchNext d (context_of r i t) steps (set (at_satisfied r)) input) (\<lambda>first.
     if is_complete first \<and> at_subjectId r \<noteq> None \<and> \<not> carriesCredential input
     then tbind (attempts_tx (\<lambda>rows. ((), recordAuthenticated i (Some (sg_now d)) rows))) (\<lambda>_.
          tret (AdvanceSuccess (the (at_subjectId r)) (at_satisfied r)))
     else tbind (if is_complete first \<and> at_subjectId r \<noteq> None
                 then dispatchNext d (context_of r i t) steps {} input
                 else tret first) (\<lambda>dispatched.
          case dispatched of
            Ran authenticator result \<Rightarrow> judge_factor d i la r input authenticator result
          | _ \<Rightarrow> tret (AdvanceFailure NO_APPLICABLE_EXECUTION)))"

definition audit_of :: "sign_deps \<Rightarrow> string \<Rightarrow> attempt \<Rightarrow> site \<Rightarrow> login_audit" where
  "audit_of d i r s =
     \<lparr>la_clientId = map_option cl_id
        (find (\<lambda>c. cl_clientId c = pr_clientId (at_pendingRequest r)) (st_clients (si_store s))),
      la_resourceId = authenticationSessionDigest (sg_identity d) i\<rparr>"

lemma context_for_facts: "context_for (facts_of request t s) (at_subjectId r) (Some i) = context_of r i t"
  by (simp add: context_for_def context_of_def facts_of_def)

lemma loadFlowContext_run:
  "loadFlowContext d i input s =
     (case attempt_byId i (si_attempts s) of
        None \<Rightarrow> (Inr None, s)
      | Some r \<Rightarrow>
          if at_expiresAt r \<le> sg_now d then (Inr None, s)
          else case si_tenant s of
                 None \<Rightarrow> (Inl (Thrown ''tenant_not_found''), s)
               | Some t \<Rightarrow>
                   (Inr (Some \<lparr>fc_record = r, fc_steps = flow_steps (request_of r input) t s,
                      fc_satisfied = set (at_satisfied r), fc_context = context_of r i t\<rparr>), s))"
  unfolding loadFlowContext_def request_of_def
  by (simp add: tbind_def tget_def loadSteps_run tret_def context_for_facts split: option.splits)

lemma advance_run:
  "advance d i input s =
     (case attempt_byId i (si_attempts s) of
        None \<Rightarrow> (Inr (AdvanceFailure ''authentication_session_expired''), s)
      | Some r \<Rightarrow>
          if at_expiresAt r \<le> sg_now d then (Inr (AdvanceFailure ''authentication_session_expired''), s)
          else case si_tenant s of
                 None \<Rightarrow> (Inl (Thrown ''tenant_not_found''), s)
               | Some t \<Rightarrow>
                   advance_live d i input r t (flow_steps (request_of r input) t s) (audit_of d i r s) s)"
proof -
  have "advance d i input s =
     (case loadFlowContext d i input s of
        (Inl e, s') \<Rightarrow> (Inl e, s')
      | (Inr None, s') \<Rightarrow> (Inr (AdvanceFailure ''authentication_session_expired''), s')
      | (Inr (Some fc), s') \<Rightarrow>
          tbind (loginAuditFor d i (pr_clientId (at_pendingRequest (fc_record fc)))) (\<lambda>la.
          tbind (dispatchNext d (fc_context fc) (fc_steps fc) (fc_satisfied fc) input) (\<lambda>first.
          if is_complete first \<and> at_subjectId (fc_record fc) \<noteq> None \<and> \<not> carriesCredential input
          then tbind (attempts_tx (\<lambda>rows. ((), recordAuthenticated i (Some (sg_now d)) rows))) (\<lambda>_.
               tret (AdvanceSuccess (the (at_subjectId (fc_record fc))) (at_satisfied (fc_record fc))))
          else tbind (if is_complete first \<and> at_subjectId (fc_record fc) \<noteq> None
                      then dispatchNext d (fc_context fc) (fc_steps fc) {} input
                      else tret first) (\<lambda>dispatched.
               case dispatched of
                 Ran authenticator result \<Rightarrow> judge_factor d i la (fc_record fc) input authenticator result
               | _ \<Rightarrow> tret (AdvanceFailure NO_APPLICABLE_EXECUTION)))) s')"
    unfolding advance_def Let_def tbind_def [of "loadFlowContext d i input"]
    by (auto simp: tret_def split: prod.splits sum.splits option.splits)
  then show ?thesis
    unfolding loadFlowContext_run
    by (cases "attempt_byId i (si_attempts s)"; cases "at_expiresAt (the (attempt_byId i (si_attempts s))) \<le> sg_now d";
        cases "si_tenant s")
      (simp_all add: advance_live_def audit_of_def loginAuditFor_def tbind_def [of "tget _"] tget_def
        del: not_None_eq cong del: if_weak_cong dispatch.case_cong_weak)
qed

lemma carries_offered:
  "\<not> carriesCredential input \<Longrightarrow> \<not> assertionOffered input \<and> \<not> recoveryCodeOffered input"
  by (auto simp: carriesCredential_def assertionOffered_def recoveryCodeOffered_def)

text \<open>
  The ways of a submission that does not throw: the attempt is gone, its flow has nothing to run, a
  finished attempt is resumed with nothing submitted, or one factor ran and is judged.
\<close>

lemma advance_cases:
  assumes "advance d i input s = (Inr out, s')"
  obtains (gone) "out = AdvanceFailure ''authentication_session_expired''" "s' = s"
  | (stuck) "out = AdvanceFailure NO_APPLICABLE_EXECUTION" "s' = s"
  | (resumed) r t sub where "attempt_byId i (si_attempts s) = Some r" "sg_now d < at_expiresAt r"
      "si_tenant s = Some t" "at_subjectId r = Some sub" "\<not> carriesCredential input"
      "nextStep (flow_steps (request_of r input) t s) (set (at_satisfied r)) = Complete"
      "out = AdvanceSuccess sub (at_satisfied r)"
      "s' = s\<lparr>si_attempts := recordAuthenticated i (Some (sg_now d)) (si_attempts s)\<rparr>"
  | (judged) r t a run result s2 where "attempt_byId i (si_attempts s) = Some r"
      "sg_now d < at_expiresAt r" "si_tenant s = Some t" "map_of AUTHENTICATORS a = Some run"
      "run d input (context_of r i t) s = (Inr result, s2)"
      "judge_factor d i (audit_of d i r s) r input a result s2 = (Inr out, s')"
proof (cases "attempt_byId i (si_attempts s)")
  case None
  with assms gone show ?thesis by (simp add: advance_run)
next
  case r: (Some r)
  show ?thesis
  proof (cases "at_expiresAt r \<le> sg_now d")
    case True
    with assms r gone show ?thesis by (simp add: advance_run)
  next
    case False
    then have live: "sg_now d < at_expiresAt r" by simp
    show ?thesis
    proof (cases "si_tenant s")
      case None
      with assms r False show ?thesis by (simp add: advance_run)
    next
      case t: (Some t)
      let ?steps = "flow_steps (request_of r input) t s"
      have "advance_live d i input r t ?steps (audit_of d i r s) s = (Inr out, s')"
        using assms r False t by (simp add: advance_run)
      then obtain first s1 where
        first: "dispatchNext d (context_of r i t) ?steps (set (at_satisfied r)) input s = (Inr first, s1)"
        and rest: "(if is_complete first \<and> at_subjectId r \<noteq> None \<and> \<not> carriesCredential input
           then tbind (attempts_tx (\<lambda>rows. ((), recordAuthenticated i (Some (sg_now d)) rows))) (\<lambda>_.
                tret (AdvanceSuccess (the (at_subjectId r)) (at_satisfied r)))
           else tbind (if is_complete first \<and> at_subjectId r \<noteq> None
                       then dispatchNext d (context_of r i t) ?steps {} input
                       else tret first) (\<lambda>dispatched.
                case dispatched of
                  Ran authenticator result \<Rightarrow> judge_factor d i (audit_of d i r s) r input authenticator result
                | _ \<Rightarrow> tret (AdvanceFailure NO_APPLICABLE_EXECUTION))) s1 = (Inr out, s')"
        unfolding advance_live_def by (rule tbind_Inr [THEN iffD1, elim_format]) blast
      have complete: "s1 = s" "nextStep ?steps (set (at_satisfied r)) = Complete" if "is_complete first"
      proof -
        from that have "first = DispatchComplete" by (cases first) simp_all
        from dispatchNext_Complete [OF first [unfolded this]]
        show "s1 = s" "nextStep ?steps (set (at_satisfied r)) = Complete" by simp_all
      qed
      show ?thesis
      proof (cases "is_complete first \<and> at_subjectId r \<noteq> None \<and> \<not> carriesCredential input")
        case True
        with rest complete show ?thesis
          by (intro resumed [OF r live t]) (auto simp: tbind_Inr table_tx_runs tret_run)
      next
        case False
        have "\<exists>sat dispatched s2. dispatchNext d (context_of r i t) ?steps sat input s = (Inr dispatched, s2)
           \<and> (case dispatched of
                Ran authenticator result \<Rightarrow> judge_factor d i (audit_of d i r s) r input authenticator result
              | _ \<Rightarrow> tret (AdvanceFailure NO_APPLICABLE_EXECUTION)) s2 = (Inr out, s')"
        proof (cases "is_complete first \<and> at_subjectId r \<noteq> None")
          case True
          with rest False complete show ?thesis by (simp only: simp_thms if_True if_False tbind_Inr) blast
        next
          case f: False
          with rest False have "(case first of
                Ran authenticator result \<Rightarrow> judge_factor d i (audit_of d i r s) r input authenticator result
              | _ \<Rightarrow> tret (AdvanceFailure NO_APPLICABLE_EXECUTION)) s1 = (Inr out, s')"
            by (simp only: simp_thms if_False tbind_Inr tret_run) blast
          with first show ?thesis by blast
        qed
        then obtain sat dispatched s2 where
          d: "dispatchNext d (context_of r i t) ?steps sat input s = (Inr dispatched, s2)"
          and out: "(case dispatched of
                Ran authenticator result \<Rightarrow> judge_factor d i (audit_of d i r s) r input authenticator result
              | _ \<Rightarrow> tret (AdvanceFailure NO_APPLICABLE_EXECUTION)) s2 = (Inr out, s')"
          by blast
        show ?thesis
        proof (cases dispatched)
          case (Ran a result)
          with out have "judge_factor d i (audit_of d i r s) r input a result s2 = (Inr out, s')" by simp
          with dispatchNext_Ran [OF d [unfolded Ran]] judged [OF r live t] show ?thesis by blast
        next
          case DispatchComplete
          with out dispatchNext_Complete [OF d [unfolded DispatchComplete]] stuck show ?thesis
            by (simp add: tret_run)
        next
          case DispatchFail
          with out dispatchNext_Fail [OF d [unfolded DispatchFail]] stuck show ?thesis
            by (simp add: tret_run)
        qed
      qed
    qed
  qed
qed

text \<open>
  A successful submission: a finished attempt resumed with nothing submitted, or the one factor
  that ran, with the write it deferred.
\<close>

lemma advance_success:
  assumes "advance d i input s = (Inr (AdvanceSuccess sub as), s')"
  obtains r t where "attempt_byId i (si_attempts s) = Some r" "sg_now d < at_expiresAt r"
    "si_tenant s = Some t" "at_subjectId r = None \<or> at_subjectId r = Some sub"
    "nextStep (flow_steps (request_for sub as input) t s) (set as) = Complete"
    "as = at_satisfied r \<and> at_subjectId r = Some sub \<and> \<not> carriesCredential input
      \<or> (\<exists>a run c s1. as = js_unique (at_satisfied r @ [a]) \<and> map_of AUTHENTICATORS a = Some run
          \<and> run d input (context_of r i t) s = (Inr (AuthSuccess sub c), s1)
          \<and> (case c of None \<Rightarrow> True | Some m \<Rightarrow> \<exists>s2. m s1 = (Inr True, s2)))"
  using assms
proof (cases rule: advance_cases)
  case (resumed r t sub')
  then have "request_for sub as input = request_of r input"
    by (simp add: request_for_def request_of_def)
  with resumed show ?thesis by (intro that [of r t]) simp_all
next
  case (judged r t a run result s2)
  from judged(6) obtain sub0 c s3 where
    succ: "result = AuthSuccess sub0 c" "at_subjectId r = None \<or> at_subjectId r = Some sub0"
    and c: "case c of None \<Rightarrow> s3 = s2 | Some m \<Rightarrow> m s2 = (Inr True, s3)"
    and passed: "factor_passed d i (audit_of d i r s) r input a sub0 s3 = (Inr (AdvanceSuccess sub as), s')"
    unfolding judge_factor_def
    by (auto simp: tx_simps Let_def split: auth_result.splits if_splits option.splits)
  have s2: "same_flow s s2"
    using keepsD [OF flow.registered_cases(1) [OF judged(4)] same_flow_refl judged(5)] .
  have "same_flow s s3"
  proof (cases c)
    case None
    with c s2 show ?thesis by simp
  next
    case (Some m)
    with c have "m s2 = (Inr True, s3)" by simp
    with flow.authenticator_commit [OF judged(4) judged(5) [unfolded succ(1) Some]] s2 show ?thesis
      by (rule keepsD)
  qed
  from factor_passed_success [OF passed this judged(3)]
  have eq: "sub = sub0" "as = js_unique (at_satisfied r @ [a])"
    and complete: "nextStep (flow_steps (request_for sub as input) t s) (set as) = Complete" by blast+
  have "case c of None \<Rightarrow> True | Some m \<Rightarrow> \<exists>s3. m s2 = (Inr True, s3)"
    using c by (cases c) auto
  with eq succ judged have "\<exists>a run c s1. as = js_unique (at_satisfied r @ [a]) \<and> map_of AUTHENTICATORS a = Some run
        \<and> run d input (context_of r i t) s = (Inr (AuthSuccess sub c), s1)
        \<and> (case c of None \<Rightarrow> True | Some m \<Rightarrow> \<exists>s2. m s1 = (Inr True, s2))" by blast
  then show ?thesis using that [OF judged(1-3)] succ(2) eq(1) complete by blast
qed simp_all

section \<open>What the flow leaves satisfied\<close>

lemma flow_step_of:
  "e \<in> set (si_executions s) \<Longrightarrow>
     \<lparr>sp_authenticator = ex_authenticator e, sp_requirement = ex_requirement e,
      sp_applicable = isApplicable (ex_authenticator e) (facts_of q t s)
        (list_ex (\<lambda>e. ex_authenticator e = RECOVERY_CODE \<and> ex_requirement e \<noteq> Disabled) (si_executions s)
          \<and> isApplicable RECOVERY_CODE (facts_of q t s) False)\<rparr> \<in> set (flow_steps q t s)"
  by (auto simp: flow_steps_def steps_for_def Let_def list_ex_iff)

lemma flow_steps_D:
  "m \<in> set (flow_steps q t s) \<Longrightarrow>
     \<exists>e \<in> set (si_executions s). sp_authenticator m = ex_authenticator e \<and> sp_requirement m = ex_requirement e"
  by (auto simp: flow_steps_def steps_for_def Let_def)

lemma isApplicable_recovery: "isApplicable RECOVERY_CODE facts b = isApplicable RECOVERY_CODE facts False"
  by (simp add: isApplicable_def authenticator_names)

lemma flow_complete:
  assumes c: "nextStep (flow_steps q t s) satisfied = Complete" and e: "e \<in> set (si_executions s)"
  shows "ex_requirement e = Required \<Longrightarrow> ex_authenticator e \<in> satisfied"
    and "ex_requirement e = Alternative \<Longrightarrow>
      \<exists>e' \<in> set (si_executions s). ex_requirement e' = Alternative \<and> ex_authenticator e' \<in> satisfied"
    and "ex_requirement e = Conditional \<Longrightarrow>
      isApplicable (ex_authenticator e) (facts_of q t s)
        (list_ex (\<lambda>e. ex_authenticator e = RECOVERY_CODE \<and> ex_requirement e \<noteq> Disabled) (si_executions s)
          \<and> isApplicable RECOVERY_CODE (facts_of q t s) False) \<Longrightarrow> ex_authenticator e \<in> satisfied"
  using nextStep_Complete [OF c flow_step_of [OF e, of q t]]
  by (simp_all, metis flow_steps_D)

lemma flow_complete_enabled:
  assumes "nextStep (flow_steps q t s) satisfied = Complete"
  shows "\<exists>e \<in> set (si_executions s). ex_requirement e \<noteq> Disabled"
  using nextStep_enabled [OF assms] by (metis flow_steps_D)

text \<open>
  A subject who holds a TOTP is never let through on less than a second factor, where the flow
  asks for one and no recovery code stands as an alternative to the first factor.
\<close>

lemma second_factor_satisfied:
  assumes c: "nextStep (flow_steps q t s) satisfied = Complete"
    and q: "fr_subjectId q = Some sub" "fr_satisfied q = satisfied"
    and otp: "e \<in> set (si_executions s)" "ex_authenticator e = OTP" "ex_requirement e \<in> {Required, Conditional}"
    and totp: "storedTotpFor sub (si_credentials s) \<noteq> None"
    and recovery: "\<forall>e' \<in> set (si_executions s).
      ex_authenticator e' = RECOVERY_CODE \<longrightarrow> ex_requirement e' \<noteq> Alternative"
  shows "OTP \<in> satisfied \<or> RECOVERY_CODE \<in> satisfied \<or> PASSKEY \<in> satisfied"
proof (rule ccontr)
  assume none: "\<not> (OTP \<in> satisfied \<or> RECOVERY_CODE \<in> satisfied \<or> PASSKEY \<in> satisfied)"
  let ?f = "facts_of q t s"
  let ?carries = "list_ex (\<lambda>e. ex_authenticator e = RECOVERY_CODE \<and> ex_requirement e \<noteq> Disabled) (si_executions s)
          \<and> isApplicable RECOVERY_CODE ?f False"
  have applies: "otpApplies ?f \<and> ff_hasTotp ?f"
    using none totp by (simp add: otpApplies_def otpApplicable_def facts_of_def q)
  show False
  proof (cases ?carries)
    case True
    then obtain e' where e': "e' \<in> set (si_executions s)" "ex_authenticator e' = RECOVERY_CODE"
      "ex_requirement e' \<noteq> Disabled" by (auto simp: list_ex_iff)
    with recovery have "ex_requirement e' = Required \<or> ex_requirement e' = Conditional"
      by (cases "ex_requirement e'") auto
    then have "RECOVERY_CODE \<in> satisfied"
      using flow_complete(1,3) [OF c e'(1)] e'(2) True isApplicable_recovery by metis
    with none show False by simp
  next
    case False
    then have "isApplicable OTP ?f ?carries"
      using none applies by (auto simp: isApplicable_def authenticator_names facts_of_def q)
    then have "OTP \<in> satisfied"
      using flow_complete(1,3) [OF c otp(1)] otp(2,3) by auto
    with none show False by simp
  qed
qed

end
