(* ===== verification/Factor_Proofs.thy ===== *)
theory Factor_Proofs
  imports Sign_In_Facts
begin

text \<open>
  What each authenticator accepts: the evidence a success stands on, read off the credentials of
  the subject it names, and that a locked account is answered without looking at the submission.
\<close>

section \<open>Evidence\<close>

text \<open>The account a login name stands for: a username, or a verified address where the tenant lets
  an address log in.\<close>

definition login_names :: "site \<Rightarrow> bool \<Rightarrow> string \<Rightarrow> string \<Rightarrow> bool" where
  "login_names s loginWithEmail login sub \<longleftrightarrow>
     (\<exists>u \<in> set (si_users s). us_subjectId u = sub \<and> has_subject (si_store s) sub
       \<and> (us_username u = login
         \<or> loginWithEmail \<and> us_emailVerified u \<and> map_option toLowerCase (us_email u) = Some (toLowerCase login)))"

definition unlocked :: "sign_deps \<Rightarrow> site \<Rightarrow> string \<Rightarrow> bool" where
  "unlocked d s sub \<longleftrightarrow> \<not> isLockedOut (failure_forSubject sub (si_failures s)) (sg_now d)"

definition password_evidence :: "sign_deps \<Rightarrow> advance_input \<Rightarrow> bool \<Rightarrow> site \<Rightarrow> string \<Rightarrow> bool" where
  "password_evidence d input loginWithEmail s sub \<longleftrightarrow>
     (\<exists>login plain c. in_username input = Some login \<and> in_password input = Some plain
       \<and> login_names s loginWithEmail login sub
       \<and> c \<in> set (credentials_of sub PasswordType (si_credentials s))
       \<and> (ip_verify (sg_identity d) (secret_hash (cd_secret c)) (ip_nfc (sg_identity d) plain)
         \<or> cd_hashNfc c \<noteq> Some True \<and> ip_verify (sg_identity d) (secret_hash (cd_secret c)) plain))
     \<and> unlocked d s sub"

definition otp_evidence :: "sign_deps \<Rightarrow> advance_input \<Rightarrow> site \<Rightarrow> string \<Rightarrow> bool" where
  "otp_evidence d input s sub \<longleftrightarrow>
     (\<exists>code c n. in_code input = Some code \<and> c \<in> set (credentials_of sub TotpType (si_credentials s))
       \<and> verifyTotp (ip_hmac (sg_identity d)) (totp_secret (cd_secret c)) code (sg_now d)
           (Some (totp_lastStep (cd_secret c))) = Some (Some n))
     \<and> unlocked d s sub"

definition recovery_evidence :: "sign_deps \<Rightarrow> advance_input \<Rightarrow> site \<Rightarrow> string \<Rightarrow> bool" where
  "recovery_evidence d input s sub \<longleftrightarrow>
     (\<exists>code c h. in_recoveryCode input = Some code
       \<and> c \<in> set (credentials_of sub RecoveryCodeType (si_credentials s))
       \<and> cd_secret c = RecoveryCodeSecret h None
       \<and> ip_verify (sg_identity d) h (normaliseRecoveryCode code))
     \<and> unlocked d s sub"

definition passkey_evidence :: "sign_deps \<Rightarrow> advance_input \<Rightarrow> string \<Rightarrow> site \<Rightarrow> string \<Rightarrow> bool" where
  "passkey_evidence d input i s sub \<longleftrightarrow>
     (\<exists>v response c r challenge rp counter. in_assertion input = Some v
       \<and> parseAuthenticationResponse v = Some response
       \<and> c \<in> set (credentials_of sub WebauthnType (si_credentials s)) \<and> cd_lookupKey c = Some (as_id response)
       \<and> r \<in> set (si_attempts s) \<and> named i r \<and> at_webauthnChallenge r = Some challenge
       \<and> sg_relyingParty d = Some rp
       \<and> credentialRelyingPartyId (cd_rpId c) (sg_baseRpId d) = Some (rp_id rp)
       \<and> ip_assert (sg_identity d) rp challenge response (cd_secret c) = Some counter
       \<and> counterAdvanced (wa_counter (cd_secret c)) counter)"

definition factor_evidence ::
  "sign_deps \<Rightarrow> advance_input \<Rightarrow> string \<Rightarrow> bool \<Rightarrow> string option \<Rightarrow> site \<Rightarrow> string \<Rightarrow> string \<Rightarrow> bool" where
  "factor_evidence d input i loginWithEmail bound s a sub \<longleftrightarrow>
     a = PASSWORD \<and> password_evidence d input loginWithEmail s sub
     \<or> a = OTP \<and> bound = Some sub \<and> otp_evidence d input s sub
     \<or> a = RECOVERY_CODE \<and> bound = Some sub \<and> recovery_evidence d input s sub
     \<or> a = PASSKEY \<and> passkey_evidence d input i s sub"

section \<open>What a success stands on\<close>

lemma with_subject_Some:
  "with_subject s u = Some (sj, u') \<Longrightarrow> u' = u \<and> sj_id sj = us_subjectId u \<and> has_subject (si_store s) (us_subjectId u)"
  by (auto simp: with_subject_def has_subject_def rev_image_eqI dest!: find_SomeD)

lemma map_filter_mem: "y \<in> set (List.map_filter f xs) \<longleftrightarrow> (\<exists>x \<in> set xs. f x = Some y)"
  by (induction xs) (auto simp: List.map_filter_simps split: option.splits)

lemma first_row_mem: "first_row xs = Some x \<Longrightarrow> x \<in> set xs"
  by (cases xs) (auto simp: first_row_def)

lemma user_lookups:
  "user_byUsername login s = Some (sj, u) \<Longrightarrow> login_names s b login (sj_id sj)"
  "user_byVerifiedEmail login s = Some (sj, u) \<Longrightarrow> login_names s True login (sj_id sj)"
proof -
  assume "user_byUsername login s = Some (sj, u)"
  then obtain u0 where "u0 \<in> set (si_users s)" "us_username u0 = login" "with_subject s u0 = Some (sj, u)"
    unfolding user_byUsername_def by (auto simp: map_filter_mem dest!: first_row_mem)
  with with_subject_Some [OF this(3)] show "login_names s b login (sj_id sj)"
    unfolding login_names_def by metis
next
  assume e: "user_byVerifiedEmail login s = Some (sj, u)"
  define rows where "rows = List.map_filter (with_subject s)
        (filter (\<lambda>u. map_option toLowerCase (us_email u) = Some (toLowerCase login)
            \<and> us_emailVerified u) (si_users s))"
  from e have "(sj, u) \<in> set rows"
    unfolding user_byVerifiedEmail_def rows_def [symmetric]
    by (cases rows; cases "tl rows") (auto split: list.splits)
  then obtain u0 where u0: "u0 \<in> set (si_users s)" "us_emailVerified u0"
    "map_option toLowerCase (us_email u0) = Some (toLowerCase login)" "with_subject s u0 = Some (sj, u)"
    unfolding rows_def map_filter_mem by auto
  from with_subject_Some [OF u0(4)] have "us_subjectId u0 = sj_id sj" "has_subject (si_store s) (sj_id sj)"
    by simp_all
  with u0 show "login_names s True login (sj_id sj)" unfolding login_names_def by blast
qed

lemma password_attempt:
  assumes "passwordAttemptFor login b s = (v, l)"
  shows "l = failure_forSubject (pv_keyedOn v) (si_failures s)"
    and "pv_subjectId v = Some sub \<Longrightarrow> pv_keyedOn v = sub \<and> login_names s b login sub"
    and "pv_storedHash v = Some h \<Longrightarrow> \<exists>c \<in> set (credentials_of (pv_keyedOn v) PasswordType (si_credentials s)).
      secret_hash (cd_secret c) = h \<and> pv_normalised v = (cd_hashNfc c = Some True)"
proof -
  show "l = failure_forSubject (pv_keyedOn v) (si_failures s)"
    using assms by (auto simp: passwordAttemptFor_def Let_def)
  have v: "pv_storedHash v = map_option fst (passwordCredentialFor (pv_keyedOn v) (si_credentials s))"
    "pv_normalised v = coalesce (map_option snd (passwordCredentialFor (pv_keyedOn v) (si_credentials s))) True"
    using assms by (auto simp: passwordAttemptFor_def Let_def)
  show "\<exists>c \<in> set (credentials_of (pv_keyedOn v) PasswordType (si_credentials s)).
      secret_hash (cd_secret c) = h \<and> pv_normalised v = (cd_hashNfc c = Some True)" if "pv_storedHash v = Some h"
    using that v first_row_mem
    by (cases "first_row (credentials_of (pv_keyedOn v) PasswordType (si_credentials s))")
      (force simp: passwordCredentialFor_def)+
  show "pv_keyedOn v = sub \<and> login_names s b login sub" if sub: "pv_subjectId v = Some sub"
  proof -
    define byEmail where "byEmail = (if b then user_byVerifiedEmail login s else None)"
    define found where "found = (if CHR ''@'' \<in> set login then js_or_else byEmail (user_byUsername login s)
      else js_or_else (user_byUsername login s) byEmail)"
    have v: "pv_subjectId v = map_option (\<lambda>(sj, u). sj_id sj) found"
      "pv_keyedOn v = coalesce (map_option (\<lambda>(sj, u). sj_id sj) found) DUMMY_SUBJECT_ID"
      using assms by (auto simp: passwordAttemptFor_def Let_def found_def byEmail_def)
    with sub obtain sj u where f: "found = Some (sj, u)" "sj_id sj = sub" by auto
    have "found = user_byUsername login s \<or> found = byEmail"
      unfolding found_def by (cases "user_byUsername login s"; cases byEmail) auto
    then have "login_names s b login sub"
    proof
      assume "found = user_byUsername login s"
      with f have "user_byUsername login s = Some (sj, u)" by simp
      from user_lookups(1) [OF this] f(2) show ?thesis by simp
    next
      assume "found = byEmail"
      with f have "b" "user_byVerifiedEmail login s = Some (sj, u)"
        unfolding byEmail_def by (auto split: if_splits)
      from user_lookups(2) [OF this(2)] this(1) f(2) show ?thesis by simp
    qed
    with v f show ?thesis by simp
  qed
qed

lemma yields_no_success:
  "yields (\<lambda>r. \<forall>i c. r \<noteq> AuthSuccess i c) (refused_password d ctx v l)"
  "yields (\<lambda>r. \<forall>i c. r \<noteq> AuthSuccess i c) (countSecondFactorFailure d ctx x y)"
  unfolding refused_password_def countSecondFactorFailure_def Let_def by (intro yields_intros; simp)+

lemma password_success:
  assumes "runPasswordStep d input ctx s = (Inr (AuthSuccess sub c), s')"
  shows "password_evidence d input (sc_loginWithEmail ctx) s sub"
proof -
  from assms obtain login plain where input: "in_username input = Some login" "in_password input = Some plain"
    by (auto simp: runPasswordStep_def tret_run split: if_splits)
  obtain v l where at: "passwordAttemptFor login (sc_loginWithEmail ctx) s = (v, l)" by fastforce
  have "(case passwordStep (sg_identity d) input v of
      AuthSuccess i c' \<Rightarrow> if \<not> isLockedOut l (sg_now d) then tret (passwordStep (sg_identity d) input v)
                          else refused_password d ctx v l
    | _ \<Rightarrow> refused_password d ctx v l) s = (Inr (AuthSuccess sub c), s')"
    using assms input at by (simp add: runPasswordStep_def tbind_def tget_def Let_def)
  moreover have "refused_password d ctx v l s \<noteq> (Inr (AuthSuccess sub c), s')"
    using yieldsD [OF yields_no_success(1)] by blast
  ultimately have step: "passwordStep (sg_identity d) input v = AuthSuccess sub c"
    and unl: "\<not> isLockedOut l (sg_now d)"
    by (auto simp: tret_run split: auth_result.splits if_splits)
  from step input obtain h where h: "pv_subjectId v = Some sub" "pv_storedHash v = Some h"
    "matchUserPassword (sg_identity d) h plain (\<not> pv_normalised v) \<noteq> None"
    by (auto simp: passwordStep_def Let_def split: option.splits if_splits)
  from password_attempt(2) [OF at h(1)] password_attempt(3) [OF at h(2)] obtain c where
    c: "login_names s (sc_loginWithEmail ctx) login sub" "pv_keyedOn v = sub"
      "c \<in> set (credentials_of sub PasswordType (si_credentials s))" "secret_hash (cd_secret c) = h"
      "pv_normalised v = (cd_hashNfc c = Some True)" by metis
  moreover from h(3) c(5) have "ip_verify (sg_identity d) h (ip_nfc (sg_identity d) plain)
      \<or> cd_hashNfc c \<noteq> Some True \<and> ip_verify (sg_identity d) h plain"
    by (auto simp: matchUserPassword_def Let_def split: if_splits)
  moreover from unl password_attempt(1) [OF at] c(2) have "unlocked d s sub" by (simp add: unlocked_def)
  ultimately show ?thesis unfolding password_evidence_def using input by blast
qed

lemma refusedWhileLocked_None:
  assumes "refusedWhileLocked d ctx True s = (Inr None, s1)" "sc_subjectId ctx = Some sub"
  shows "s1 = s \<and> unlocked d s sub"
  using assms by (auto simp: refusedWhileLocked_def failures_for_def unlocked_def tx_simps split: if_splits)

lemma refusedWhileLocked_Some:
  "yields (\<lambda>l. \<forall>q i c. l = Some q \<longrightarrow> q \<noteq> AuthSuccess i c) (refusedWhileLocked d ctx b)"
  unfolding refusedWhileLocked_def locked_out_failure_def
  by (auto intro!: yields_intros split: option.splits bool.splits)

lemma otp_success:
  assumes "runOtpStep d input ctx s = (Inr (AuthSuccess sub c), s')"
  shows "sc_subjectId ctx = Some sub \<and> otp_evidence d input s sub"
proof -
  from assms obtain l s1 where l: "refusedWhileLocked d ctx (in_code input \<noteq> None) s = (Inr l, s1)"
    by (auto simp: runOtpStep_def tbind_Inr)
  with assms yieldsD [OF refusedWhileLocked_Some l] have l': "l = None"
    by (cases l) (auto simp: runOtpStep_def tbind_def tret_def)
  define stored where "stored = (case sc_subjectId ctx of None \<Rightarrow> None
                          | Some i \<Rightarrow> storedTotpFor i (si_credentials s1))"
  have no: "countSecondFactorFailure d ctx x y s2 \<noteq> (Inr (AuthSuccess sub c), s')" for x y s2
    using yieldsD [OF yields_no_success(2)] by blast
  define r where "r = totpStep (ip_hmac (sg_identity d)) (sg_now d) (in_code input) (sc_subjectId ctx)
      (map_option (\<lambda>c. (totp_secret (cd_secret c), totp_lastStep (cd_secret c))) stored)"
  have "tbind (tsum_of r) (\<lambda>outcome.
         case outcome of
           TotpFailure reason replayed \<Rightarrow>
             countSecondFactorFailure d ctx (if replayed then ''replayed'' else ''bad_credential'') reason
         | TotpChallenge \<Rightarrow> tret (AuthChallenge OTP)
         | TotpSuccess subjectId newStep \<Rightarrow>
             (case stored of
                None \<Rightarrow> tret (AuthSuccess subjectId None)
              | Some c \<Rightarrow>
                  tbind (credentials_tx (recordTotpUse (cd_id c) newStep (sg_now d))) (\<lambda>spent.
                  if spent then tret (AuthSuccess subjectId None)
                  else countSecondFactorFailure d ctx ''replayed'' ''invalid_credentials''))) s1
      = (Inr (AuthSuccess sub c), s')"
    using assms l l' by (simp add: runOtpStep_def tbind_def [of "refusedWhileLocked _ _ _"]
        tbind_def [of "tget _"] tget_def stored_def r_def
        cong del: if_weak_cong totp_outcome.case_cong_weak option.case_cong_weak)
  then obtain outcome where o: "r = Inr outcome" and run: "(case outcome of
           TotpFailure reason replayed \<Rightarrow>
             countSecondFactorFailure d ctx (if replayed then ''replayed'' else ''bad_credential'') reason
         | TotpChallenge \<Rightarrow> tret (AuthChallenge OTP)
         | TotpSuccess subjectId newStep \<Rightarrow>
             (case stored of
                None \<Rightarrow> tret (AuthSuccess subjectId None)
              | Some c \<Rightarrow>
                  tbind (credentials_tx (recordTotpUse (cd_id c) newStep (sg_now d))) (\<lambda>spent.
                  if spent then tret (AuthSuccess subjectId None)
                  else countSecondFactorFailure d ctx ''replayed'' ''invalid_credentials''))) s1
      = (Inr (AuthSuccess sub c), s')"
    unfolding tsum_of_def by (cases r) (simp_all add: tbind_def tfail_def tret_def)
  obtain i n where step: "r = Inr (TotpSuccess i n)" and sub: "i = sub"
  proof (cases outcome)
    case (TotpSuccess i n)
    with run no have "i = sub"
      by (auto simp: tbind_Inr tret_run table_tx_runs split: option.splits if_splits)
    with TotpSuccess o that show ?thesis by blast
  qed (use run no in \<open>simp_all add: tret_run\<close>)
  from step [unfolded r_def] obtain code c0 where code: "in_code input = Some code" "sc_subjectId ctx = Some i" "stored = Some c0"
    "verifyTotp (ip_hmac (sg_identity d)) (totp_secret (cd_secret c0)) code (sg_now d)
       (Some (totp_lastStep (cd_secret c0))) = Some (Some n)"
    by (auto simp: totpStep_def split: option.splits)
  from refusedWhileLocked_None [of d ctx s s1 i] l l' code have s1: "s1 = s" "unlocked d s i" by auto
  have "c0 \<in> set (credentials_of i TotpType (si_credentials s))"
    using code(2,3) s1 by (auto simp: stored_def storedTotpFor_def dest: first_row_mem)
  with code s1 sub show ?thesis unfolding otp_evidence_def by blast
qed

lemma match_recovery_Success:
  "match_recovery ip i code cs = RecoverySuccess j k \<Longrightarrow>
     j = i \<and> (\<exists>c \<in> set cs. cd_id c = k \<and> ip_verify ip (secret_hash (cd_secret c)) code
       \<and> rc_usedAt (cd_secret c) = None)"
  by (induction cs) (auto split: if_splits)

lemma credentials_of_mem:
  "c \<in> set (credentials_of i ty rows) \<longleftrightarrow> c \<in> set rows \<and> cd_subjectId c = i \<and> cd_type c = ty"
  by (auto simp: credentials_of_def)

lemma recovery_type: "cd_type c = RecoveryCodeType \<Longrightarrow> \<exists>h u. cd_secret c = RecoveryCodeSecret h u"
  by (cases "cd_secret c") (auto simp: cd_type_def)

lemma recovery_success:
  assumes "runRecoveryStep d input ctx s = (Inr (AuthSuccess sub c), s')"
  shows "sc_subjectId ctx = Some sub \<and> recovery_evidence d input s sub"
proof -
  from assms obtain l s1 where l: "refusedWhileLocked d ctx (recoveryCodeOffered input) s = (Inr l, s1)"
    by (auto simp: runRecoveryStep_def tbind_Inr)
  with assms yieldsD [OF refusedWhileLocked_Some l] have l': "l = None"
    by (cases l) (auto simp: runRecoveryStep_def tbind_def tret_def)
  define codes where "codes = (case sc_subjectId ctx of None \<Rightarrow> []
                          | Some i \<Rightarrow> credentials_of i RecoveryCodeType (si_credentials s1))"
  have no: "countSecondFactorFailure d ctx x y s2 \<noteq> (Inr (AuthSuccess sub c), s')" for x y s2
    using yieldsD [OF yields_no_success(2)] by blast
  obtain k where step: "recoveryStep (sg_identity d) input (sc_subjectId ctx) codes = RecoverySuccess sub k"
    using assms l l' no unfolding runRecoveryStep_def
    by (auto simp: tbind_Inr tget_run tret_run codes_def [symmetric] split: recovery_outcome.splits)
  then obtain i code where i: "sc_subjectId ctx = Some i" "recoveryCodeOffered input"
    "in_recoveryCode input = Some code" "match_recovery (sg_identity d) i (normaliseRecoveryCode code) codes = RecoverySuccess sub k"
    by (auto simp: recoveryStep_def recoveryCodeOffered_def split: option.splits if_splits)
  from refusedWhileLocked_None [of d ctx s s1 i] l l' i have s1: "s1 = s" "unlocked d s i" by auto
  from match_recovery_Success [OF i(4)] obtain c0 where c0: "sub = i" "c0 \<in> set codes"
    "ip_verify (sg_identity d) (secret_hash (cd_secret c0)) (normaliseRecoveryCode code)"
    "rc_usedAt (cd_secret c0) = None" by auto
  from c0(2) i(1) s1 have m: "c0 \<in> set (credentials_of i RecoveryCodeType (si_credentials s))" by (simp add: codes_def)
  then obtain h where "cd_secret c0 = RecoveryCodeSecret h None"
    using recovery_type [of c0] c0(4) by (auto simp: credentials_of_mem)
  with m c0 i s1 show ?thesis unfolding recovery_evidence_def by fastforce
qed

lemma passkey_success:
  assumes "runPasskeyStep d input ctx s = (Inr (AuthSuccess sub c), s')" "sc_authSessionId ctx = Some i"
  shows "passkey_evidence d input i s sub"
proof -
  from assms obtain s1 v where v: "in_assertion input = Some v" "assertionOffered input"
    by (auto simp: runPasskeyStep_def tret_run assertionOffered_def split: if_splits option.splits)
  define cred where "cred = passkeyCredentialFor v (si_credentials s)"
  define ch where "ch = fst (claimWebauthnChallenge i (si_attempts s))"
  obtain k n where step: "passkeyStep d input cred ch = PasskeySuccess sub k n"
    using assms v unfolding runPasskeyStep_def
    by (auto simp: tbind_Inr tget_run tret_run table_tx_runs cred_def [symmetric] ch_def [symmetric]
        split: passkey_outcome.splits)
  then obtain response c0 challenge rp where r: "parseAuthenticationResponse v = Some response" "cred = Some c0"
    "ch = Some challenge" "sg_relyingParty d = Some rp"
    "credentialRelyingPartyId (cd_rpId c0) (sg_baseRpId d) = Some (rp_id rp)"
    "ip_assert (sg_identity d) rp challenge response (cd_secret c0) = Some n"
    "counterAdvanced (wa_counter (cd_secret c0)) n" "cd_subjectId c0 = sub"
    using v by (auto simp: passkeyStep_def split: option.splits if_splits)
  from r(2) have c0: "c0 \<in> set (si_credentials s)" "cd_lookupKey c0 = Some (as_id response)" "cd_type c0 = WebauthnType"
    using r(1) unfolding cred_def passkeyCredentialFor_def assertedCredentialId_def credential_byLookupKey_def
    by (auto dest: find_SomeD split: option.splits if_splits)
  from r(3) obtain row where "row \<in> set (si_attempts s)" "named i row" "at_webauthnChallenge row = Some challenge"
    unfolding ch_def claimWebauthnChallenge_def Let_def by (auto dest!: find_SomeD split: option.splits)
  with r c0 v show ?thesis unfolding passkey_evidence_def credentials_of_mem by blast
qed

text \<open>Whatever authenticator it was, its success is evidence for the subject it names.\<close>

lemma factor_success:
  assumes "map_of AUTHENTICATORS a = Some run" "run d input ctx s = (Inr (AuthSuccess sub c), s')"
    "sc_authSessionId ctx = Some i"
  shows "factor_evidence d input i (sc_loginWithEmail ctx) (sc_subjectId ctx) s a sub"
proof -
  from assms(1) consider "a = PASSWORD" "run = runPasswordStep" | "a = PASSKEY" "run = runPasskeyStep"
    | "a = OTP" "run = runOtpStep" | "a = RECOVERY_CODE" "run = runRecoveryStep"
    unfolding AUTHENTICATORS_def by (auto split: if_splits)
  then show ?thesis
  proof cases
    case 1
    with password_success assms(2) show ?thesis unfolding factor_evidence_def by blast
  next
    case 2
    with passkey_success assms(2,3) show ?thesis unfolding factor_evidence_def by blast
  next
    case 3
    with otp_success assms(2) show ?thesis unfolding factor_evidence_def by blast
  next
    case 4
    with recovery_success assms(2) show ?thesis unfolding factor_evidence_def by blast
  qed
qed

text \<open>The factor a successful submission adds, and the evidence for it.\<close>

lemma advance_evidence:
  assumes "advance d i input s = (Inr (AdvanceSuccess sub as), s')"
  obtains r t where "attempt_byId i (si_attempts s) = Some r" "si_tenant s = Some t"
    "at_subjectId r = None \<or> at_subjectId r = Some sub" "set (at_satisfied r) \<subseteq> set as"
    "as = at_satisfied r \<and> at_subjectId r = Some sub \<and> \<not> carriesCredential input
      \<or> (\<exists>a. set as = insert a (set (at_satisfied r))
          \<and> factor_evidence d input i (tn_loginWithEmail t) (at_subjectId r) s a sub)"
proof (rule advance_success [OF assms])
  fix r t
  assume at: "attempt_byId i (si_attempts s) = Some r" "si_tenant s = Some t"
    "at_subjectId r = None \<or> at_subjectId r = Some sub"
    and ran: "as = at_satisfied r \<and> at_subjectId r = Some sub \<and> \<not> carriesCredential input
      \<or> (\<exists>a run c s1. as = js_unique (at_satisfied r @ [a]) \<and> map_of AUTHENTICATORS a = Some run
          \<and> run d input (context_of r i t) s = (Inr (AuthSuccess sub c), s1)
          \<and> (case c of None \<Rightarrow> True | Some m \<Rightarrow> \<exists>s2. m s1 = (Inr True, s2)))"
  from ran show thesis
  proof (elim disjE exE conjE)
    assume "as = at_satisfied r" "at_subjectId r = Some sub" "\<not> carriesCredential input"
    then show thesis by (intro that [OF at]) simp_all
  next
    fix a run c s1
    assume a: "as = js_unique (at_satisfied r @ [a])" and run: "map_of AUTHENTICATORS a = Some run"
      "run d input (context_of r i t) s = (Inr (AuthSuccess sub c), s1)"
    from factor_success [OF run, of i]
    have "factor_evidence d input i (tn_loginWithEmail t) (at_subjectId r) s a sub"
      by (simp add: context_of_def)
    with a show thesis by (intro that [OF at]) auto
  qed
qed

section \<open>A locked account\<close>

lemma locked_password:
  assumes "passwordAttemptFor login (sc_loginWithEmail ctx) s = (v, l)" "isLockedOut l (sg_now d)"
    "in_username input = Some login" "in_password input \<noteq> None"
  shows "runPasswordStep d input ctx s = refused_password d ctx v l s"
  using assms by (auto simp: runPasswordStep_def tbind_def tget_def Let_def split: auth_result.splits)

lemma locked_second_factor:
  assumes "sc_subjectId ctx = Some sub" "\<not> unlocked d s sub"
  shows "in_code input \<noteq> None \<Longrightarrow> runOtpStep d input ctx s =
      tbind (recordFailure d sub (sc_lockout ctx)) (\<lambda>_. tret (locked_out_failure sub)) s"
    and "recoveryCodeOffered input \<Longrightarrow> runRecoveryStep d input ctx s =
      tbind (recordFailure d sub (sc_lockout ctx)) (\<lambda>_. tret (locked_out_failure sub)) s"
  using assms
  by (auto simp: runOtpStep_def runRecoveryStep_def refusedWhileLocked_def failures_for_def unlocked_def
      tbind_def tget_def tret_def split: prod.splits sum.splits)

text \<open>A submission that differs in the password only, of an account that is locked.\<close>

lemma offered_password [simp]:
  "assertionOffered (input\<lparr>in_password := p\<rparr>) = assertionOffered input"
  "recoveryCodeOffered (input\<lparr>in_password := p\<rparr>) = recoveryCodeOffered input"
  "in_username (input\<lparr>in_password := p\<rparr>) = in_username input"
  "in_code (input\<lparr>in_password := p\<rparr>) = in_code input"
  "in_recoveryCode (input\<lparr>in_password := p\<rparr>) = in_recoveryCode input"
  "in_assertion (input\<lparr>in_password := p\<rparr>) = in_assertion input"
  by (simp_all add: assertionOffered_def recoveryCodeOffered_def)

lemma passkeyStep_password: "passkeyStep d (input\<lparr>in_password := p\<rparr>) = passkeyStep d input"
  by (intro ext) (simp only: passkeyStep_def offered_password cong del: if_weak_cong)

lemma recoveryStep_password: "recoveryStep ip (input\<lparr>in_password := p\<rparr>) = recoveryStep ip input"
  by (intro ext)
    (simp only: recoveryStep_def offered_password cong del: if_weak_cong option.case_cong_weak)

lemma other_authenticators:
  assumes "map_of AUTHENTICATORS a = Some run" "a \<noteq> PASSWORD"
  shows "run d (input\<lparr>in_password := p\<rparr>) ctx = run d input ctx"
proof -
  from assms consider "run = runPasskeyStep" | "run = runOtpStep" | "run = runRecoveryStep"
    unfolding AUTHENTICATORS_def by (auto split: if_splits)
  then show ?thesis
    by cases (simp_all only: runPasskeyStep_def runOtpStep_def runRecoveryStep_def offered_password
        passkeyStep_password recoveryStep_password
        cong del: if_weak_cong option.case_cong_weak)
qed

lemma factor_passed_password:
  "factor_passed d i la r (input\<lparr>in_password := p\<rparr>) a sub = factor_passed d i la r input a sub"
  unfolding factor_passed_def offered_password by (rule refl)

lemma judge_factor_password:
  "judge_factor d i la r (input\<lparr>in_password := p\<rparr>) a result = judge_factor d i la r input a result"
  unfolding judge_factor_def factor_passed_password by (rule refl)

lemma password_of_dispatch:
  assumes "passwordAttemptFor login (sc_loginWithEmail ctx) s = (v, l)" "isLockedOut l (sg_now d)"
    "in_username input = Some login"
  shows "dispatchNext d ctx steps satisfied (input\<lparr>in_password := Some p\<rparr>) s
    = dispatchNext d ctx steps satisfied (input\<lparr>in_password := Some q\<rparr>) s"
proof (cases "nextStep steps satisfied")
  case (Run a)
  show ?thesis
  proof (cases "map_of AUTHENTICATORS a")
    case (Some run)
    have "run d (input\<lparr>in_password := Some p\<rparr>) ctx s = run d (input\<lparr>in_password := Some q\<rparr>) ctx s"
    proof (cases "a = PASSWORD")
      case True
      with Some have "run = runPasswordStep" by (simp add: AUTHENTICATORS_def)
      with locked_password [OF assms(1,2), of "input\<lparr>in_password := Some p\<rparr>"]
        locked_password [OF assms(1,2), of "input\<lparr>in_password := Some q\<rparr>"] assms(3)
      show ?thesis by simp
    next
      case False
      with other_authenticators [OF Some False] show ?thesis by simp
    qed
    with Run Some show ?thesis by (simp add: dispatchNext_cases tbind_def)
  qed (use Run in \<open>simp add: dispatchNext_cases\<close>)
qed (simp_all add: dispatchNext_cases)

lemma advance_locked:
  assumes at: "attempt_byId i (si_attempts s) = Some r" "si_tenant s = Some t"
    and locked: "isLockedOut (snd (passwordAttemptFor login (tn_loginWithEmail t) s)) (sg_now d)"
    and login: "in_username input = Some login"
  shows "advance d i (input\<lparr>in_password := Some p\<rparr>) s = advance d i (input\<lparr>in_password := Some q\<rparr>) s"
proof -
  let ?in = "\<lambda>p. input\<lparr>in_password := Some p\<rparr>"
  let ?ctx = "context_of r i t" and ?la = "audit_of d i r s"
  have same: "request_of r (?in p) = request_of r input" "carriesCredential (?in p) = True" for p
    by (simp_all add: request_of_def assertionOffered_def recoveryCodeOffered_def carriesCredential_def)
  obtain v l where vl: "passwordAttemptFor login (sc_loginWithEmail ?ctx) s = (v, l)" by fastforce
  with locked have l: "isLockedOut l (sg_now d)" by (simp add: context_of_def)
  have d: "dispatchNext d ?ctx steps sat (?in p) s = dispatchNext d ?ctx steps sat (?in q) s" for p q steps sat
    by (rule password_of_dispatch [OF vl l login])
  have live: "advance_live d i (?in p) r t steps ?la s =
      (case dispatchNext d ?ctx steps (set (at_satisfied r)) (?in p) s of
         (Inl e, s1) \<Rightarrow> (Inl e, s1)
       | (Inr first, s1) \<Rightarrow>
           (case (if is_complete first \<and> at_subjectId r \<noteq> None
                  then dispatchNext d ?ctx steps {} (?in p) s else (Inr first, s1)) of
              (Inl e, s2) \<Rightarrow> (Inl e, s2)
            | (Inr dispatched, s2) \<Rightarrow>
                (case dispatched of
                   Ran a result \<Rightarrow> judge_factor d i ?la r input a result
                 | _ \<Rightarrow> tret (AdvanceFailure NO_APPLICABLE_EXECUTION)) s2))" for p steps
  proof -
    have c: "s1 = s" if "dispatchNext d ?ctx steps (set (at_satisfied r)) (?in p) s = (Inr first, s1)"
      "is_complete first" for first s1
      using that dispatchNext_Complete by (cases first) auto
    show ?thesis
      unfolding advance_live_def judge_factor_password same(2)
      using c by (auto simp: tbind_def tret_def split: prod.splits sum.splits)
  qed
  show ?thesis
    unfolding advance_run at option.case same(1) live d [of _ _ p q] by (rule refl)
qed

end
