(* ===== verification/Attempt_Integrity.thy ===== *)
theory Attempt_Integrity
  imports Factor_Proofs
begin

text \<open>
  A parked sign-in seen from outside: an abstract protocol of whom an attempt is bound to, which
  factors it has passed and whether it is spent, the requests of the program as steps on the site,
  and the simulation of the second by the first.
\<close>

section \<open>What a submission does to the attempts\<close>

definition core_bind :: "string \<Rightarrow> string \<Rightarrow> string \<times> string option \<times> string list \<times> bool
    \<Rightarrow> string \<times> string option \<times> string list \<times> bool" where
  "core_bind i sub c = (case c of (k, b, fs, u) \<Rightarrow>
     (k, if k = toLowerCase i then Some sub else b, fs, u))"

definition core_satisfied :: "string \<Rightarrow> string \<Rightarrow> string \<times> string option \<times> string list \<times> bool
    \<Rightarrow> string \<times> string option \<times> string list \<times> bool" where
  "core_satisfied i a c = (case c of (k, b, fs, u) \<Rightarrow>
     (k, b, if k = toLowerCase i \<and> a \<notin> set fs then fs @ [a] else fs, u))"

lemma core_satisfied_row:
  "map core (recordSatisfied i a rows) = map (core_satisfied i a) (map core rows)"
  by (simp add: recordSatisfied_def update_where_def core_def core_satisfied_def)

lemma bindSubject_core:
  "bindSubject i sub s = (Inr u, s') \<Longrightarrow>
     map core (si_attempts s') = map (core_bind i sub) (map core (si_attempts s))
     \<and> (list_ex (named i) (si_attempts s) \<longrightarrow> has_subject (si_store s) sub)"
  by (auto simp: bindSubject_def update_where_def core_def core_bind_def split: if_splits)

lemma outcome_after_core:
  assumes "outcome_after d i la r a sub after s = (Inr out, s')"
    "\<And>b q. after = Ran b q \<Longrightarrow> q = AuthChallenge b"
  shows "same_core s s'"
proof (cases after)
  case (Ran b q)
  with assms have run: "recordSettled d la b (AuthChallenge b) sub s = (Inr (), s')"
    by (auto simp: outcome_after_def settle_result_def tx_simps)
  from core.audits_kept(4) same_core_refl run show ?thesis by (rule keepsD)
qed (use assms(1) in \<open>auto simp: outcome_after_def tx_simps\<close>)

lemma same_core_kept: "keeps (same_core s) m \<Longrightarrow> m s = (x, s') \<Longrightarrow> same_core s s'"
  using keepsD [of "same_core s" m s x s'] by simp

lemma tbindE:
  assumes "tbind m f s = (Inr y, s')"
  obtains x s1 where "m s = (Inr x, s1)" "f x s1 = (Inr y, s')"
  using assms by (auto simp: tbind_Inr)

lemma factor_passed_core:
  assumes "factor_passed d i la r input a sub s = (Inr out, s')"
  shows "map core (si_attempts s') = map (core_satisfied i a) (map (core_bind i sub) (map core (si_attempts s)))"
proof -
  from assms obtain u1 s1 u2 s2 p s3 u4 s4 u5 s5 u6 s6 after s7 s8 u9 s9 u10 s10 where
    run: "audit_allowed d la a sub s = (Inr u1, s1)" "bindSubject i sub s1 = (Inr u2, s2)"
      "loadSteps \<lparr>fr_subjectId = Some sub, fr_satisfied = insert a (set (at_satisfied r)),
           fr_assertionOffered = assertionOffered input,
           fr_recoveryCodeOffered = recoveryCodeOffered input\<rparr> s2 = (Inr p, s3)"
      "recordOtpEnrolmentIfOwed sub (snd p) s3 = (Inr u4, s4)"
      "recordPasswordExpiryIfOwed d sub (ff_passwordMaxAgeDays (snd p)) s4 = (Inr u5, s5)"
      "attempts_tx (\<lambda>rows. ((), recordSatisfied i a rows)) s5 = (Inr u6, s6)"
      "dispatchNext d (context_for (snd p) (Some sub) (Some i)) (fst p) (insert a (set (at_satisfied r))) NO_INPUT s6
         = (Inr after, s7)"
      "outcome_after d i la r a sub after s7 = (Inr out, s8)" "close_run out sub s8 = (Inr u9, s9)"
      "attempts_tx (\<lambda>rows. ((), recordAuthenticated i
         (case out of AdvanceSuccess i as \<Rightarrow> Some (sg_now d) | _ \<Rightarrow> None) rows)) s9 = (Inr u10, s10)"
      "s' = s10"
    unfolding factor_passed_def Let_def case_prod_beta
    by (elim tbindE) (simp only: tret_run sum.inject)
  note kept = same_core_kept
  have "same_core s s1" by (rule kept [OF core.audits_kept(1) run(1)])
  moreover have "map core (si_attempts s2) = map (core_bind i sub) (map core (si_attempts s1))"
    using bindSubject_core [OF run(2)] by blast
  moreover have "s3 = s2" using run(3) by (auto simp: loadSteps_run split: option.splits)
  moreover have "same_core s3 s4" by (rule kept [OF core.owed_kept(1) run(4)])
  moreover have "same_core s4 s5" by (rule kept [OF core.owed_kept(2) run(5)])
  moreover have "map core (si_attempts s6) = map (core_satisfied i a) (map core (si_attempts s5))"
    using run(6) by (simp only: table_tx_runs) (simp add: core_satisfied_row)
  moreover have "s7 = s6" using dispatchNext_NO_INPUT(1) [OF run(7)] .
  moreover have "same_core s7 s8"
  proof (rule outcome_after_core [OF run(8)])
    fix b q assume "after = Ran b q"
    with dispatchNext_NO_INPUT(4) [OF run(7), of b q] show "q = AuthChallenge b" by simp
  qed
  moreover have "same_core s8 s9" by (rule kept [OF core.owed_kept(4) run(9)])
  moreover have "map core (si_attempts s') = map core (si_attempts s9)"
    using run(10,11) by (simp add: table_tx_runs)
  ultimately show ?thesis by (simp only: same_core_def)
qed

text \<open>
  A submission that does not throw leaves the attempts as they were but for the mark of completion,
  or records one factor, with evidence for it, on the attempt, bound to that one subject.
\<close>

lemma advance_attempts:
  assumes "advance d i input s = (Inr out, s')"
  shows "same_core s s' \<or> (\<exists>r t a sub. attempt_byId i (si_attempts s) = Some r \<and> si_tenant s = Some t
    \<and> sg_now d < at_expiresAt r \<and> (at_subjectId r = None \<or> at_subjectId r = Some sub)
    \<and> factor_evidence d input i (tn_loginWithEmail t) (at_subjectId r) s a sub
    \<and> map core (si_attempts s') = map (core_satisfied i a) (map (core_bind i sub) (map core (si_attempts s))))"
  using assms
proof (cases rule: advance_cases)
  case (resumed r t sub)
  then show ?thesis by (simp add: same_core_def)
next
  case (judged r t a run result s2)
  have s2: "same_core s s2" by (rule same_core_kept [OF core.registered_cases(1) [OF judged(4)] judged(5)])
  show ?thesis
  proof (cases result)
    case (AuthChallenge form)
    with judged(6) s2 show ?thesis
      by (auto simp: judge_factor_def tbind_Inr table_tx_runs tret_run same_core_def)
  next
    case (AuthFailure reason audited)
    with judged(6) obtain j x b where "audit_refused d (audit_of d i r s) a j x b s2 = (Inr (), s')"
      by (auto simp: judge_factor_def Let_def tbind_Inr tret_run)
    from same_core_kept [OF core.audits_kept(2) this] s2 show ?thesis by (simp add: same_core_def)
  next
    case (AuthSuccess sub c)
    show ?thesis
    proof (cases "at_subjectId r = None \<or> at_subjectId r = Some sub")
      case False
      with AuthSuccess judged(6) obtain j x b where
        "audit_refused d (audit_of d i r s) a j x b s2 = (Inr (), s')"
        by (auto simp: judge_factor_def tbind_Inr tret_run split: option.splits)
      from same_core_kept [OF core.audits_kept(2) this] s2 show ?thesis by (simp add: same_core_def)
    next
      case True
      then have "\<not> (case at_subjectId r of None \<Rightarrow> False | Some bound \<Rightarrow> bound \<noteq> sub)" by auto
      with AuthSuccess judged(6) obtain landed s3 where
        c: "(case c of None \<Rightarrow> tret True | Some m \<Rightarrow> m) s2 = (Inr landed, s3)"
        and rest: "(if \<not> landed
           then tbind (audit_refused d (audit_of d i r s) a (Some sub) ''replayed'' False) (\<lambda>_.
                tret (AdvanceFailure ''invalid_credentials''))
           else factor_passed d i (audit_of d i r s) r input a sub) s3 = (Inr out, s')"
        by (auto simp: judge_factor_def tbind_Inr)
      have s3: "same_core s s3"
      proof (cases c)
        case None
        with c s2 show ?thesis by (simp add: tret_run)
      next
        case (Some m)
        with c have "m s2 = (Inr landed, s3)" by simp
        with core.authenticator_commit [OF judged(4) judged(5) [unfolded AuthSuccess Some]] s2 show ?thesis
          by (rule keepsD)
      qed
      show ?thesis
      proof (cases landed)
        case False
        with rest have "audit_refused d (audit_of d i r s) a (Some sub) ''replayed'' False s3 = (Inr (), s')"
          by (auto simp: tbind_Inr tret_run)
        from same_core_kept [OF core.audits_kept(2) this] s3 show ?thesis by (simp add: same_core_def)
      next
        case landed: True
        with rest have "factor_passed d i (audit_of d i r s) r input a sub s3 = (Inr out, s')" by simp
        from factor_passed_core [OF this] s3
        have "map core (si_attempts s') = map (core_satisfied i a) (map (core_bind i sub) (map core (si_attempts s)))"
          by (simp only: same_core_def)
        moreover have "factor_evidence d input i (tn_loginWithEmail t) (at_subjectId r) s a sub"
          using factor_success [OF judged(4) judged(5) [unfolded AuthSuccess], of i] by (simp add: context_of_def)
        ultimately show ?thesis using judged(1-3) True by blast
      qed
    qed
  qed
qed (simp_all add: same_core_def)

lemma advance_attempts_cases:
  assumes "advance d i input s = (Inr out, s')"
  obtains (same) "same_core s s'"
  | (passed) r and t :: tenant and a sub where "attempt_byId i (si_attempts s) = Some r"
      "at_subjectId r = None \<or> at_subjectId r = Some sub"
      "factor_evidence d input i (tn_loginWithEmail t) (at_subjectId r) s a sub"
      "map core (si_attempts s') = map (core_satisfied i a) (map (core_bind i sub) (map core (si_attempts s)))"
  using advance_attempts [OF assms] by blast

section \<open>The protocol\<close>

text \<open>
  The abstract attempt: whom it is bound to, what that subject has passed, and whether it is spent;
  the table is a partial map from ids. A pass names the only subject it may: the bound one.
\<close>

record phase =
  ph_subject :: "string option"
  ph_factors :: "string set"
  ph_spent :: bool

inductive proto_step :: "(string \<rightharpoonup> phase) \<Rightarrow> (string \<rightharpoonup> phase) \<Rightarrow> bool" where
  idle: "proto_step m m"
| park: "m k = None \<Longrightarrow>
    proto_step m (m(k \<mapsto> \<lparr>ph_subject = None, ph_factors = {}, ph_spent = False\<rparr>))"
| pass: "m k = Some p \<Longrightarrow> ph_subject p = None \<or> ph_subject p = Some sub \<Longrightarrow>
    proto_step m (m(k \<mapsto> p\<lparr>ph_subject := Some sub, ph_factors := insert a (ph_factors p)\<rparr>))"
| adopt: "m k = Some p \<Longrightarrow> ph_subject p = None \<Longrightarrow>
    proto_step m (m(k \<mapsto> p\<lparr>ph_subject := Some sub, ph_factors := ph_factors p \<union> as\<rparr>))"
| restart: "m k = Some p \<Longrightarrow>
    proto_step m (m(k \<mapsto> p\<lparr>ph_subject := None, ph_factors := {}\<rparr>))"
| spend: "m k = Some p \<Longrightarrow> \<not> ph_spent p \<Longrightarrow> proto_step m (m(k \<mapsto> p\<lparr>ph_spent := True\<rparr>))"

inductive_cases proto_stepE: "proto_step m m'"

definition phase_of :: "string option \<times> string list \<times> bool \<Rightarrow> phase" where
  "phase_of c = \<lparr>ph_subject = fst c, ph_factors = set (fst (snd c)), ph_spent = snd (snd c)\<rparr>"

definition attempts_abs :: "site \<Rightarrow> string \<rightharpoonup> phase" where
  "attempts_abs s = map_of (map (\<lambda>(k, c). (k, phase_of c)) (map core (si_attempts s)))"

section \<open>The requests\<close>

text \<open>
  Every request that writes an attempt, each one transaction that does not throw. An attempt is
  adopted (\<open>markSessionAuthenticated\<close>, for a session that is reused) right after it was parked, so
  while it is bound to nobody; everything else may change anything but the attempts.
\<close>

datatype sign_event =
    Parked
  | Submitted sign_deps string advance_input
  | Adopted string
  | Remembered string
  | Restarted string
  | Spent string
  | Offered string
  | Elsewhere

inductive sign_step :: "sign_event \<Rightarrow> site \<Rightarrow> site \<Rightarrow> bool" where
  parked: "startAuthentication d q s = (Inr x, s') \<Longrightarrow> sign_step Parked s s'"
| submitted: "advance d i input s = (Inr out, s') \<Longrightarrow> sign_step (Submitted d i input) s s'"
| adopted: "markSessionAuthenticated d i sub as s = (Inr (), s') \<Longrightarrow>
    attempt_byId i (si_attempts s) = Some r \<Longrightarrow> at_subjectId r = None \<Longrightarrow> sign_step (Adopted i) s s'"
| remembered: "recordRememberMe i b s = (Inr (), s') \<Longrightarrow> sign_step (Remembered i) s s'"
| restarted: "resetAuthenticationProgress i s = (Inr (), s') \<Longrightarrow> sign_step (Restarted i) s s'"
| spent: "consumeAuthenticationSession d i s = (Inr b, s') \<Longrightarrow> sign_step (Spent i) s s'"
| offered: "attempts_tx (\<lambda>rows. ((), setWebauthnChallenge i c rows)) s = (Inr (), s') \<Longrightarrow>
    sign_step (Offered i) s s'"
| elsewhere: "si_attempts s' = si_attempts s \<Longrightarrow> sign_step Elsewhere s s'"

inductive_simps sign_step_simps:
  "sign_step Parked s s'" "sign_step (Submitted d i input) s s'" "sign_step (Adopted i) s s'"
  "sign_step (Remembered i) s s'" "sign_step (Restarted i) s s'" "sign_step (Spent i) s s'"
  "sign_step (Offered i) s s'" "sign_step Elsewhere s s'"

fun sign_trace :: "sign_event list \<Rightarrow> site \<Rightarrow> site \<Rightarrow> bool" where
  "sign_trace [] s s' = (s' = s)"
| "sign_trace (e # es) s s' = (\<exists>s1. sign_step e s s1 \<and> sign_trace es s1 s')"

section \<open>The simulation\<close>

lemma attempts_abs_core: "map core (si_attempts s') = map core (si_attempts s) \<Longrightarrow> attempts_abs s' = attempts_abs s"
  by (simp add: attempts_abs_def)

text \<open>A write to the rows of one id is a write to the map at that id.\<close>

lemma attempts_abs_write:
  assumes "map core (si_attempts s') = map (\<lambda>(k, c). (k, if k = j then f c else c)) (map core (si_attempts s))"
    and "\<And>c. phase_of (f c) = g (phase_of c)"
  shows "attempts_abs s' = (case attempts_abs s j of None \<Rightarrow> attempts_abs s | Some p \<Rightarrow> (attempts_abs s)(j \<mapsto> g p))"
proof -
  have "map_of (map (\<lambda>(k, c). (k, phase_of c)) (map (\<lambda>(k, c). (k, if k = j then f c else c)) cs)) =
      (case map_of (map (\<lambda>(k, c). (k, phase_of c)) cs) j of
         None \<Rightarrow> map_of (map (\<lambda>(k, c). (k, phase_of c)) cs)
       | Some p \<Rightarrow> (map_of (map (\<lambda>(k, c). (k, phase_of c)) cs))(j \<mapsto> g p))" for cs
    by (induction cs) (auto simp: assms(2) split: option.splits)
  then show ?thesis unfolding attempts_abs_def assms(1) .
qed

lemma attempts_abs_at:
  assumes "attempt_byId i (si_attempts s) = Some r"
  shows "attempts_abs s (toLowerCase i) = Some (phase_of (snd (core r)))"
proof -
  have "find (named i) rows = Some r \<Longrightarrow> map_of (map (\<lambda>(k, c). (k, phase_of c)) (map core rows)) (toLowerCase i) =
      Some (phase_of (snd (core r)))" for rows
    by (induction rows) (auto simp: core_def split: if_splits)
  with assms show ?thesis by (auto simp: attempts_abs_def attempt_byId_def split: if_splits)
qed

lemma phase_of_simps [simp]:
  "ph_subject (phase_of c) = fst c" "ph_factors (phase_of c) = set (fst (snd c))" "ph_spent (phase_of c) = snd (snd c)"
  by (simp_all add: phase_of_def)

text \<open>The writes of the repository, on the rows of one id.\<close>

lemma passed_abs:
  assumes "map core (si_attempts s') = map (core_satisfied i a) (map (core_bind i sub) (map core (si_attempts s)))"
  shows "attempts_abs s' = (case attempts_abs s (toLowerCase i) of None \<Rightarrow> attempts_abs s
    | Some p \<Rightarrow> (attempts_abs s)(toLowerCase i \<mapsto>
        p\<lparr>ph_subject := Some sub, ph_factors := insert a (ph_factors p)\<rparr>))"
proof (rule attempts_abs_write [where f = "\<lambda>(b, fs, u). (Some sub, if a \<notin> set fs then fs @ [a] else fs, u)"])
  show "map core (si_attempts s') = map (\<lambda>(k, c). (k, if k = toLowerCase i
      then (case c of (b, fs, u) \<Rightarrow> (Some sub, if a \<notin> set fs then fs @ [a] else fs, u)) else c))
      (map core (si_attempts s))"
    by (simp add: assms core_satisfied_def core_bind_def case_prod_beta comp_def prod_eq_iff)
qed (auto simp: phase_of_def split: prod.splits)

lemma adopted_abs:
  assumes "markSessionAuthenticated d i sub as s = (Inr (), s')"
  shows "attempts_abs s' = (case attempts_abs s (toLowerCase i) of None \<Rightarrow> attempts_abs s
    | Some p \<Rightarrow> (attempts_abs s)(toLowerCase i \<mapsto>
        p\<lparr>ph_subject := Some sub, ph_factors := ph_factors p \<union> set as\<rparr>))"
proof -
  from assms obtain s1 where b: "bindSubject i sub s = (Inr (), s1)"
    and s': "si_attempts s' = recordAuthenticated i (Some (sg_now d)) (fold (recordSatisfied i) as (si_attempts s1))"
    unfolding markSessionAuthenticated_def by (auto simp: tbind_Inr table_tx_runs)
  define f where "f = (\<lambda>fs. foldl (\<lambda>fs a. if a \<notin> set fs then fs @ [a] else fs) fs as)"
  have setf: "set (foldl (\<lambda>fs a. if a \<notin> set fs then fs @ [a] else fs) fs as) = set fs \<union> set as" for fs as :: "string list"
    by (induction as arbitrary: fs) auto
  have fold: "map core (fold (recordSatisfied i) as rows) = map (\<lambda>(k, b, fs, u). (k, b,
      if k = toLowerCase i then foldl (\<lambda>fs a. if a \<notin> set fs then fs @ [a] else fs) fs as else fs, u)) (map core rows)" for rows as
  proof (induction as arbitrary: rows)
    case Nil
    show ?case by (simp add: core_def)
  next
    case (Cons a as)
    show ?case
      by (simp only: fold_simps Cons core_satisfied_row foldl_Cons)
        (simp add: core_satisfied_def case_prod_beta comp_def)
  qed
  have "map core (si_attempts s') = map (\<lambda>(k, c). (k, if k = toLowerCase i
      then (case c of (b, fs, u) \<Rightarrow> (Some sub, f fs, u)) else c)) (map core (si_attempts s))"
    using bindSubject_core [OF b]
    by (simp add: s' fold f_def core_bind_def case_prod_beta comp_def prod_eq_iff)
  then show ?thesis
    by (rule attempts_abs_write) (auto simp: phase_of_def f_def setf split: prod.splits)
qed

lemma reset_abs:
  assumes "resetAuthenticationProgress i s = (Inr (), s')"
  shows "attempts_abs s' = (case attempts_abs s (toLowerCase i) of None \<Rightarrow> attempts_abs s
    | Some p \<Rightarrow> (attempts_abs s)(toLowerCase i \<mapsto> p\<lparr>ph_subject := None, ph_factors := {}\<rparr>))"
proof (rule attempts_abs_write [where f = "\<lambda>(b, fs, u). (None, [], u)"])
  show "map core (si_attempts s') = map (\<lambda>(k, c). (k, if k = toLowerCase i
      then (case c of (b, fs, u) \<Rightarrow> (None, [], u)) else c)) (map core (si_attempts s))"
    using assms by (auto simp: resetAuthenticationProgress_def table_tx_runs resetProgress_def update_where_def core_def)
qed (auto simp: phase_of_def split: prod.splits)

lemma consume_abs:
  assumes "consumeAuthenticationSession d i s = (Inr b, s')"
  shows "attempts_abs s' = (case attempts_abs s (toLowerCase i) of None \<Rightarrow> attempts_abs s
    | Some p \<Rightarrow> (attempts_abs s)(toLowerCase i \<mapsto> p\<lparr>ph_spent := True\<rparr>))"
proof (rule attempts_abs_write [where f = "\<lambda>(b, fs, u). (b, fs, True)"])
  show "map core (si_attempts s') = map (\<lambda>(k, c). (k, if k = toLowerCase i
      then (case c of (b, fs, u) \<Rightarrow> (b, fs, True)) else c)) (map core (si_attempts s))"
    using assms by (auto simp: consumeAuthenticationSession_def table_tx_runs attempt_consume_def Let_def
        update_where_def core_def)
qed (auto simp: phase_of_def split: prod.splits)

lemma parked_abs:
  assumes "startAuthentication d q s = (Inr x, s')"
  shows "attempts_abs s (sg_newId d) = None
    \<and> attempts_abs s' = (attempts_abs s)(sg_newId d \<mapsto> \<lparr>ph_subject = None, ph_factors = {}, ph_spent = False\<rparr>)"
proof -
  from assms obtain row where new: "sg_newId d \<notin> at_id ` set (si_attempts s)"
    and row: "si_attempts s' = si_attempts s @ [row]"
      "core row = (sg_newId d, None, [], False)"
    unfolding startAuthentication_def tenant_row_def attempt_create_def
    by (auto simp: tx_simps insert_row_Some core_def split: option.splits)
  have none: "attempts_abs s (sg_newId d) = None"
    using new by (auto simp: attempts_abs_def map_of_eq_None_iff core_def image_iff)
  have "map_of (xs @ [(k, p)]) = (map_of xs)(k \<mapsto> p)" if "map_of xs k = None" for xs and k :: string and p :: phase
    using that by (auto simp: fun_eq_iff map_add_def split: option.splits)
  with none show ?thesis
    unfolding attempts_abs_def row(1) map_append by (simp add: row(2) phase_of_def)
qed

text \<open>Every step of the program is a step of the protocol.\<close>

lemma sign_step_proto:
  assumes "sign_step e s s'"
  shows "proto_step (attempts_abs s) (attempts_abs s')"
  using assms
proof cases
  case (parked d q x)
  with parked_abs [OF parked(2)] proto_step.park [of "attempts_abs s" "sg_newId d"] show ?thesis by simp
next
  case (submitted d i input out)
  from submitted(2) show ?thesis
  proof (cases rule: advance_attempts_cases)
    case same
    then have "attempts_abs s' = attempts_abs s" by (simp add: same_core_def attempts_abs_def)
    then show ?thesis by (simp add: proto_step.idle)
  next
    case (passed r t a sub)
    from attempts_abs_at [OF passed(1)] passed_abs [OF passed(4)]
      proto_step.pass [where m = "attempts_abs s" and k = "toLowerCase i" and p = "phase_of (snd (core r))"
        and sub = sub and a = a] passed(2)
    show ?thesis by (simp add: core_def)
  qed
next
  case (adopted d i sub as r)
  with attempts_abs_at [OF adopted(3)] adopted_abs [OF adopted(2)]
    proto_step.adopt [where m = "attempts_abs s" and k = "toLowerCase i" and p = "phase_of (snd (core r))"
        and sub = sub and as = "set as"]
  show ?thesis by (simp add: core_def)
next
  case (remembered i b)
  then have "map core (si_attempts s') = map core (si_attempts s)"
    by (auto simp: recordRememberMe_def table_tx_runs)
  then show ?thesis using attempts_abs_core [of s' s] by (simp add: proto_step.idle)
next
  case (restarted i)
  then show ?thesis
    using reset_abs [OF restarted(2)] proto_step.restart [of "attempts_abs s" "toLowerCase i"]
    by (auto split: option.splits intro: proto_step.idle)
next
  case (spent d i b)
  show ?thesis
  proof (cases "attempts_abs s (toLowerCase i)")
    case None
    with consume_abs [OF spent(2)] show ?thesis by (simp add: proto_step.idle)
  next
    case (Some p)
    show ?thesis
    proof (cases "ph_spent p")
      case True
      then have "p\<lparr>ph_spent := True\<rparr> = p" by simp
      with consume_abs [OF spent(2)] Some show ?thesis by (simp add: proto_step.idle fun_upd_idem)
    next
      case False
      with consume_abs [OF spent(2)] Some proto_step.spend [of "attempts_abs s" "toLowerCase i" p]
      show ?thesis by simp
    qed
  qed
next
  case (offered i c)
  then have "map core (si_attempts s') = map core (si_attempts s)" by (auto simp: table_tx_runs)
  then show ?thesis using attempts_abs_core [of s' s] by (simp add: proto_step.idle)
next
  case elsewhere
  then show ?thesis using attempts_abs_core [of s' s] by (simp add: proto_step.idle)
qed

section \<open>What a trace of requests cannot do\<close>

lemma sign_trace_append:
  "sign_trace (es @ fs) s s' \<longleftrightarrow> (\<exists>s1. sign_trace es s s1 \<and> sign_trace fs s1 s')"
  by (induction es arbitrary: s) auto

text \<open>
  One step keeps a bound attempt bound to its subject unless it restarts it, spent if it was, and
  adds to what it passed one factor at most, in a submission with the evidence for it.
\<close>

lemma sign_step_bound:
  assumes st: "sign_step e s s'" and p: "attempts_abs s k = Some p" "ph_subject p = Some sub"
    and e: "\<And>i. e = Restarted i \<Longrightarrow> toLowerCase i \<noteq> k"
  shows "\<exists>p'. attempts_abs s' k = Some p' \<and> ph_subject p' = Some sub \<and> (ph_spent p \<longrightarrow> ph_spent p')
    \<and> ph_factors p \<subseteq> ph_factors p'
    \<and> (\<forall>a \<in> ph_factors p' - ph_factors p. \<exists>d i input b. e = Submitted d i input \<and> toLowerCase i = k
        \<and> factor_evidence d input i b (Some sub) s a sub)"
  using st
proof cases
  case (parked d q x)
  with parked_abs [OF parked(2)] p show ?thesis by auto
next
  case (submitted d i input out)
  from submitted(2) show ?thesis
  proof (cases rule: advance_attempts_cases)
    case same
    then have "attempts_abs s' = attempts_abs s" by (simp add: same_core_def attempts_abs_def)
    with p show ?thesis by auto
  next
    case (passed r t a sub')
    show ?thesis
    proof (cases "toLowerCase i = k")
      case True
      with attempts_abs_at [OF passed(1)] p have "p = phase_of (snd (core r))" by simp
      with p have bound: "at_subjectId r = Some sub" by (simp add: core_def)
      with passed(2) have "sub' = sub" by simp
      with True passed_abs [OF passed(4)] p passed(3) bound submitted(1) show ?thesis by auto
    next
      case False
      with passed_abs [OF passed(4)] p show ?thesis by (auto split: option.splits)
    qed
  qed
next
  case (adopted d i sub' as r)
  have "toLowerCase i \<noteq> k"
    using attempts_abs_at [OF adopted(3)] adopted(4) p by (auto simp: core_def)
  with adopted_abs [OF adopted(2)] p show ?thesis by (auto split: option.splits)
next
  case (remembered i b)
  then have "map core (si_attempts s') = map core (si_attempts s)"
    by (auto simp: recordRememberMe_def table_tx_runs)
  with p show ?thesis using attempts_abs_core [of s' s] by simp
next
  case (restarted i)
  with e [of i] reset_abs [OF restarted(2)] p show ?thesis by (auto split: option.splits)
next
  case (spent d i b)
  with consume_abs [OF spent(2)] p show ?thesis by (auto split: option.splits)
next
  case (offered i c)
  then have "map core (si_attempts s') = map core (si_attempts s)" by (auto simp: table_tx_runs)
  with p show ?thesis using attempts_abs_core [of s' s] by simp
next
  case elsewhere
  with p show ?thesis using attempts_abs_core [of s' s] by simp
qed

end
