(* ===== verification/Door_Facts.thy ===== *)
theory Door_Facts
  imports Authorization_Request Attempt_Integrity
begin

text \<open>
  What a submission of a login leaves alone (\<open>same_rest\<close>, a third interpretation of the locale
  \<open>sign_in_frame\<close>), what completing a login writes, and which way each door to a code came.
\<close>

section \<open>The order of the required actions\<close>

text \<open>The order in which a subject is asked to do what it owes, as an order on the type.\<close>

instantiation required_action :: linorder
begin

fun rank_of :: "required_action \<Rightarrow> nat" where
  "rank_of UpdatePassword = 0"
| "rank_of ConfigureTotp = 1"
| "rank_of ConfigurePasskey = 2"
| "rank_of GenerateRecoveryCodes = 3"

definition less_eq_required_action :: "required_action \<Rightarrow> required_action \<Rightarrow> bool" where
  "less_eq_required_action a b \<longleftrightarrow> rank_of a \<le> rank_of b"

definition less_required_action :: "required_action \<Rightarrow> required_action \<Rightarrow> bool" where
  "less_required_action a b \<longleftrightarrow> rank_of a < rank_of b"

instance
proof
  fix a b c :: required_action
  show "a < b \<longleftrightarrow> a \<le> b \<and> \<not> b \<le> a"
    by (auto simp: less_eq_required_action_def less_required_action_def)
  show "a \<le> a" by (simp add: less_eq_required_action_def)
  show "a \<le> b \<Longrightarrow> b \<le> c \<Longrightarrow> a \<le> c" by (simp add: less_eq_required_action_def)
  show "a \<le> b \<Longrightarrow> b \<le> a \<Longrightarrow> a = b"
    by (cases a; cases b) (simp_all add: less_eq_required_action_def)
  show "a \<le> b \<or> b \<le> a" by (auto simp: less_eq_required_action_def)
qed

end

lemma ordered_actions: "REQUIRED_ACTION_ORDER = [UpdatePassword, ConfigureTotp, ConfigurePasskey, GenerateRecoveryCodes]
    \<and> sorted REQUIRED_ACTION_ORDER \<and> set REQUIRED_ACTION_ORDER = UNIV"
proof -
  have "x \<in> {UpdatePassword, ConfigureTotp, ConfigurePasskey, GenerateRecoveryCodes}" for x by (cases x) auto
  then show ?thesis by (auto simp: REQUIRED_ACTION_ORDER_def less_eq_required_action_def)
qed

lemma find_sorted:
  assumes "sorted xs" "set ys \<subseteq> set xs"
  shows "find (\<lambda>a. a \<in> set ys) xs = (if ys = [] then None else Some (Min (set ys)))"
  using assms
proof (induction xs)
  case (Cons x xs)
  show ?case
  proof (cases "x \<in> set ys")
    case True
    with Cons.prems have "Min (set ys) = x" by (intro Min_eqI) auto
    with True show ?thesis by auto
  next
    case False
    with Cons.prems have "set ys \<subseteq> set xs" by auto
    with False Cons show ?thesis by simp
  qed
qed simp

text \<open>The next action is the least one owed; none is next only where none is owed.\<close>

lemma nextRequiredAction_Min: "nextRequiredAction owed = (if owed = [] then None else Some (Min (set owed)))"
  unfolding nextRequiredAction_def using ordered_actions by (intro find_sorted) auto

lemma nextRequiredAction_None: "nextRequiredAction owed = None \<longleftrightarrow> owed = []"
  by (simp add: nextRequiredAction_Min)

section \<open>What a submission of the flow leaves alone\<close>

definition parked_part :: "attempt \<Rightarrow> string \<times> pending_request \<times> time \<times> time option" where
  "parked_part r = (at_id r, at_pendingRequest r, at_expiresAt r, at_consumedAt r)"

definition same_rest :: "site \<Rightarrow> site \<Rightarrow> bool" where
  "same_rest s s' \<longleftrightarrow> (\<exists>a. si_store s' = (si_store s)\<lparr>st_audit := a\<rparr>) \<and> si_users s' = si_users s
     \<and> si_executions s' = si_executions s \<and> si_consents s' = si_consents s
     \<and> si_assignmentOf s' = si_assignmentOf s \<and> si_displayOrder s' = si_displayOrder s
     \<and> si_tenant s' = si_tenant s
     \<and> map parked_part (si_attempts s') = map parked_part (si_attempts s)"

lemma same_rest_refl [simp]: "same_rest s s"
  by (auto simp: same_rest_def intro: exI [of _ "st_audit (si_store s)"])

lemma same_rest_trans: "same_rest a b \<Longrightarrow> same_rest b c \<Longrightarrow> same_rest a c"
  unfolding same_rest_def by (elim conjE exE, intro conjI) (simp_all, blast)

lemma same_rest_tables [simp]:
  "same_rest s0 (s\<lparr>si_credentials := cs\<rparr>) = same_rest s0 s"
  "same_rest s0 (s\<lparr>si_actions := os\<rparr>) = same_rest s0 s"
  "same_rest s0 (s\<lparr>si_failures := fs\<rparr>) = same_rest s0 s"
  by (simp_all add: same_rest_def)

lemma same_rest_attempts:
  "map parked_part as = map parked_part (si_attempts s) \<Longrightarrow>
     same_rest s0 (s\<lparr>si_attempts := as\<rparr>) = same_rest s0 s"
  by (simp add: same_rest_def)

lemma parked_writes [simp]:
  "map parked_part (recordAuthenticated i at rows) = map parked_part rows"
  "map parked_part (recordSatisfied i a rows) = map parked_part rows"
  "map parked_part (setWebauthnChallenge i c rows) = map parked_part rows"
  "map parked_part (snd (claimWebauthnChallenge i rows)) = map parked_part rows"
  "map parked_part (resetProgress i rows) = map parked_part rows"
  by (simp_all add: attempt_writes Let_def parked_part_def)

lemma keeps_same_rest_store:
  "(\<And>st r st'. m st = (r, st') \<Longrightarrow> \<exists>a. st' = st\<lparr>st_audit := a\<rparr>) \<Longrightarrow> keeps (same_rest s0) (on_store m)"
  by (rule keeps_on_store) (fastforce simp: same_rest_def)

lemma keeps_same_rest:
  "keeps (same_rest s0) (on_store (audit_record dp e))"
  "keeps (same_rest s0) (on_store (logged (audit_recordAll dp es)))"
  "keeps (same_rest s0) (actions_tx fo)"
  "keeps (same_rest s0) (failures_tx fl)"
  "keeps (same_rest s0) (credentials_tx fc)"
  "keeps (same_rest s0) (owe i a)"
  "keeps (same_rest s0) (recordFailure d i policy)"
  "keeps (same_rest s0) (attempts_tx (claimWebauthnChallenge i))"
  "keeps (same_rest s0) (attempts_tx (\<lambda>rows. ((), recordAuthenticated i at rows)))"
  "keeps (same_rest s0) (attempts_tx (\<lambda>rows. ((), recordSatisfied i b rows)))"
  "keeps (same_rest s0) (attempts_tx (\<lambda>rows. ((), resetProgress i rows)))"
  "keeps (same_rest s0) (bindSubject i j)"
             apply (rule keeps_same_rest_store, erule audit_record_rest)
            apply (rule keeps_same_rest_store, erule logged_store)
           apply (rule keeps_tables, simp)+
        apply (auto simp: keeps_def owe_def recordFailure_def tx_simps split: if_splits)[2]
      apply (rule keeps_tables, simp add: same_rest_attempts)+
  by (auto simp: keeps_def bindSubject_def same_rest_attempts update_where_def parked_part_def split: if_splits)

interpretation rest: sign_in_frame "same_rest s0" for s0
  by unfold_locales (rule keeps_same_rest)+

lemma keeps_settled:
  assumes "\<And>i c. q = AuthSuccess i (Some c) \<Longrightarrow> keeps (same_rest s0) c"
  shows "keeps (same_rest s0) (settle_result q j)"
  using assms unfolding settle_result_def
  by (auto split: auth_result.splits option.splits intro!: keeps_intros)

lemma keeps_after_outcome:
  assumes "\<And>a i c. after = Ran a (AuthSuccess i (Some c)) \<Longrightarrow> keeps (same_rest s0) c"
  shows "keeps (same_rest s0) (outcome_after d i la r a sub after)"
  using assms unfolding outcome_after_def
  by (auto split: dispatch.splits auth_result.splits advance_outcome.splits
      intro!: keeps_intros rest.audits_kept keeps_settled keeps_same_rest)

lemma keeps_after_dispatch:
  assumes "\<And>after. (\<And>a i c. after = Ran a (AuthSuccess i (Some c)) \<Longrightarrow> keeps (same_rest s0) c)
      \<Longrightarrow> keeps (same_rest s0) (f after)"
  shows "keeps (same_rest s0) (tbind (dispatchNext d ctx steps done NO_INPUT) f)"
proof (rule keepsI)
  fix s r s'
  assume I: "same_rest s0 s" and run: "tbind (dispatchNext d ctx steps done NO_INPUT) f s = (r, s')"
  obtain q s1 where q: "dispatchNext d ctx steps done NO_INPUT s = (q, s1)" by fastforce
  from rest.dispatch_kept I q have s1: "same_rest s0 s1" by (rule keepsD)
  show "same_rest s0 s'"
  proof (cases q)
    case (Inl e)
    with q run s1 show ?thesis by (simp add: tbind_def)
  next
    case (Inr after)
    have "keeps (same_rest s0) (f after)"
    proof (rule assms)
      fix a i c assume "after = Ran a (AuthSuccess i (Some c))"
      with q Inr dispatchNext_NO_INPUT(4) [of d ctx steps "done" s "Inr after" s1 a "AuthSuccess i (Some c)"]
      show "keeps (same_rest s0) c" by simp
    qed
    moreover from q run Inr have "f after s1 = (r, s')" by (simp add: tbind_def)
    ultimately show ?thesis using s1 keepsD by metis
  qed
qed

lemma keeps_loadSteps: "keeps I (loadSteps request)"
  unfolding loadSteps_def flowFacts_def tenant_row_def by (intro keeps_intros)

lemma keeps_factor_passed: "keeps (same_rest s0) (factor_passed d i la r input a sub)"
  unfolding factor_passed_def Let_def case_prod_beta
  apply (rule keeps_tbind [OF rest.audits_kept(1)])
  apply (rule keeps_tbind [OF keeps_same_rest(12)])
  apply (rule keeps_tbind [OF keeps_loadSteps])
  apply (rule keeps_tbind [OF rest.owed_kept(1)])
  apply (rule keeps_tbind [OF rest.owed_kept(2)])
  apply (rule keeps_tbind [OF keeps_same_rest(10)])
  apply (rule keeps_after_dispatch)
  by (intro keeps_tbind keeps_after_outcome rest.owed_kept keeps_same_rest keeps_tret)

lemma keeps_judge:
  assumes "\<And>i c. q = AuthSuccess i (Some c) \<Longrightarrow> keeps (same_rest s0) c"
  shows "keeps (same_rest s0) (judge_factor d i la r input a q)"
  using assms unfolding judge_factor_def Let_def
  by (auto split: auth_result.splits option.splits
      intro!: keeps_intros rest.audits_kept keeps_same_rest keeps_factor_passed)

lemma advance_rest:
  assumes "advance d i input s = (Inr out, s')"
  shows "same_rest s s'"
  using assms
proof (cases rule: advance_cases)
  case (resumed r t sub)
  then show ?thesis by (simp add: same_rest_attempts)
next
  case (judged r t a run result s2)
  have s2: "same_rest s s2"
    using rest.registered_cases(1) [OF judged(4)] same_rest_refl judged(5) by (rule keepsD)
  have "keeps (same_rest s) (judge_factor d i (audit_of d i r s) r input a result)"
  proof (rule keeps_judge)
    fix j c assume "result = AuthSuccess j (Some c)"
    with judged(4,5) show "keeps (same_rest s) c" by (metis rest.authenticator_commit)
  qed
  from this s2 judged(6) show ?thesis by (rule keepsD)
qed auto

section \<open>What completing a login writes\<close>

text \<open>A write to a tenant's sessions and to its trail.\<close>

definition sessions_written :: "store \<Rightarrow> store \<Rightarrow> bool" where
  "sessions_written st st' \<longleftrightarrow> (\<exists>ss au. st' = st\<lparr>st_sessions := ss, st_audit := au\<rparr>)"

lemma sessions_writtenI:
  "sessions_written st (st\<lparr>st_sessions := ss\<rparr>)"
  "sessions_written st st1 \<Longrightarrow> sessions_written st (st1\<lparr>st_audit := au\<rparr>)"
  unfolding sessions_written_def
   apply (rule exI [of _ ss], rule exI [of _ "st_audit st"], simp)
  by (elim exE) (simp, blast)

lemma sessions_written_rest:
  "sessions_written st st' \<Longrightarrow> st_codes st' = st_codes st \<and> st_clients st' = st_clients st
     \<and> st_configs st' = st_configs st \<and> st_subjects st' = st_subjects st
     \<and> st_grants st' = st_grants st \<and> st_refresh st' = st_refresh st"
  by (auto simp: sessions_written_def)

lemma admitSession_written:
  assumes "admitSession d digest entry input st = (Inr e, st')"
  shows "e = entry \<and> sessions_written st st'"
proof -
  let ?ev = "chooseEvictions (map fst (session_liveByEntries digest (ad_browserSessions input)
    (ad_lifespans input) (dp_now d) (st_sessions st))) (ad_maxSessionsPerBrowser input)"
  let ?rows = "session_endMany ?ev (dp_now d) (st_sessions st)"
  from assms obtain s1 v u u' where
    a: "audit_recordAll d (map eviction_event (filter (\<lambda>r. ss_id r \<in> set ?ev)
        (map fst (session_liveByEntries digest (ad_browserSessions input)
          (ad_lifespans input) (dp_now d) (st_sessions st))))) (st\<lparr>st_sessions := ?rows\<rparr>) = (Inr u, s1)"
    and c: "session_create (dp_dbNow d) v s1 = (Inr u', st')" "e = entry"
    by (auto simp: admitSession_def Let_def establishSession_def tx_simps)
  from audit_recordAll_state [OF a] obtain au where "s1 = st\<lparr>st_sessions := ?rows, st_audit := au\<rparr>" by auto
  with session_create_Inr [OF c(1)]
  have "st' = st\<lparr>st_sessions := ?rows @ [session_row (dp_dbNow d) v], st_audit := au\<rparr>" by simp
  with c(2) show ?thesis unfolding sessions_written_def by blast
qed

lemma session_of_login_Inr:
  assumes "session_of_login d i s = (Inr (sid, at, entry), s')"
  shows "\<exists>st. s' = s\<lparr>si_store := st\<rparr> \<and> sessions_written (si_store s) st
    \<and> (case cm_reuse i of Some p \<Rightarrow> p = (sid, at) \<and> entry = None
       | None \<Rightarrow> sid = en_id (sg_entry (dr_sign d)) \<and> at = dr_now d \<and> entry = Some (sg_entry (dr_sign d)))"
proof (cases "cm_reuse i")
  case (Some p)
  with assms show ?thesis
    by (cases p) (auto simp: session_of_login_def tx_simps sessions_tx_run intro: sessions_writtenI)
next
  case None
  with assms obtain e st1 st2 where
    a: "admitSession (dr_deps d) (dr_digest d) (sg_entry (dr_sign d))
            \<lparr>ad_subjectId = cm_subjectId i, ad_authenticators = cm_authenticators i,
             ad_remembered = cm_remembered i, ad_browserSessions = cm_browserSessions i,
             ad_maxSessionsPerBrowser = cm_maxSessionsPerBrowser i, ad_lifespans = cm_lifespans i\<rparr>
            (si_store s) = (Inr e, st1)"
    and r: "audit_record (dr_deps d) (session_event (cm_subjectId i) (cm_clientId i) (en_id e)) st1 = (Inr (), st2)"
    and o: "sid = en_id e" "at = dr_now d" "entry = Some e" "s' = s\<lparr>si_store := st2\<rparr>"
    by (auto simp: session_of_login_def tx_simps)
  from admitSession_written [OF a] audit_record_rest [OF r] o None show ?thesis
    by (auto intro: sessions_writtenI)
qed

text \<open>Whether an attempt can still be completed.\<close>

definition completable :: "string \<Rightarrow> site \<Rightarrow> bool" where
  "completable i s \<longleftrightarrow> (\<exists>r \<in> set (si_attempts s). named i r \<and> at_consumedAt r = None)"

lemma not_completable: "\<not> completable i s \<longleftrightarrow> attempt_spent i (si_attempts s)"
  by (auto simp: completable_def attempt_spent_def)

lemma consume_run:
  "consumeAuthenticationSession d i s =
     (Inr (completable i s), s\<lparr>si_attempts := snd (attempt_consume i (sg_now d) (si_attempts s))\<rparr>)"
  by (auto simp: consumeAuthenticationSession_def attempts_tx_def attempt_consume_def Let_def
      completable_def returning_def filter_empty_conv split: prod.splits)

lemma issue_code_Inr:
  assumes "issueAuthorizationCode d k s = (Inr code, s')"
  shows "\<exists>t. si_tenant s = Some t \<and> code = sg_newCode (dr_sign d)
    \<and> ac_codeHash (code_row d t k) \<notin> ac_codeHash ` set (st_codes (si_store s))
    \<and> s' = s\<lparr>si_store := (si_store s)\<lparr>st_codes := st_codes (si_store s) @ [code_row d t k]\<rparr>\<rparr>"
proof -
  have row: "(code_row d t k)\<lparr>ac_consumedAt := None, ac_grantId := None\<rparr> = code_row d t k" for t
    by (simp add: code_row_def)
  from assms show ?thesis
    unfolding issueAuthorizationCode_def tenant_row_def create_code_def row
    by (auto simp: tx_simps insert_row_Some split: option.splits if_splits)
qed

lemma completeLogin_Issued:
  assumes "completeLogin d i s = (Inr (Issued sid code entry), s')"
  shows "\<exists>t at st. si_tenant s = Some t \<and> subjectEnabled (cm_subjectId i) s
    \<and> completable (cm_authSessionId i) s \<and> code = sg_newCode (dr_sign d)
    \<and> hash_token (dr_deps d) (sg_newCode (dr_sign d)) \<notin> ac_codeHash ` set (st_codes (si_store s))
    \<and> sessions_written (si_store s) st
    \<and> (case cm_reuse i of Some p \<Rightarrow> p = (sid, at) \<and> entry = None
       | None \<Rightarrow> sid = en_id (sg_entry (dr_sign d)) \<and> at = dr_now d \<and> entry = Some (sg_entry (dr_sign d)))
    \<and> s' = s\<lparr>si_attempts := snd (attempt_consume (cm_authSessionId i) (dr_now d) (si_attempts s)),
          si_store := st\<lparr>st_codes := st_codes (si_store s) @ [code_row d t
            (code_of_pending (cm_pending i) (cm_clientId i) (cm_subjectId i) at sid)]\<rparr>\<rparr>"
proof -
  from assms obtain at s2 where pre: "subjectEnabled (cm_subjectId i) s" "completable (cm_authSessionId i) s"
    and m: "session_of_login d i (s\<lparr>si_attempts := snd (attempt_consume (cm_authSessionId i) (dr_now d)
        (si_attempts s))\<rparr>) = (Inr (sid, at, entry), s2)"
    and k: "issueAuthorizationCode d (code_of_pending (cm_pending i) (cm_clientId i) (cm_subjectId i) at sid) s2
      = (Inr code, s')"
    by (auto simp: completeLogin_def tx_simps consume_run split: if_splits)
  from session_of_login_Inr [OF m] obtain st where
    st: "s2 = s\<lparr>si_attempts := snd (attempt_consume (cm_authSessionId i) (dr_now d) (si_attempts s)), si_store := st\<rparr>"
      "sessions_written (si_store s) st"
      "case cm_reuse i of Some p \<Rightarrow> p = (sid, at) \<and> entry = None
       | None \<Rightarrow> sid = en_id (sg_entry (dr_sign d)) \<and> at = dr_now d \<and> entry = Some (sg_entry (dr_sign d))"
    by auto
  from issue_code_Inr [OF k] st(1) obtain t where "si_tenant s = Some t" "code = sg_newCode (dr_sign d)"
    "hash_token (dr_deps d) (sg_newCode (dr_sign d)) \<notin> ac_codeHash ` set (st_codes (si_store s2))"
    "s' = s2\<lparr>si_store := (si_store s2)\<lparr>st_codes := st_codes (si_store s2) @ [code_row d t
       (code_of_pending (cm_pending i) (cm_clientId i) (cm_subjectId i) at sid)]\<rparr>\<rparr>"
    by (auto simp: code_row_def)
  with st sessions_written_rest [OF st(2)] pre show ?thesis
    by (intro exI [of _ t] exI [of _ at] exI [of _ st] conjI) simp_all
qed

lemma completeLogin_other:
  assumes "completeLogin d i s = (Inr out, s')" "\<And>sid code entry. out \<noteq> Issued sid code entry"
  shows "s' = s" and "out = SubjectDisabled \<or> out = AlreadyConsumed"
proof -
  have "snd (attempt_consume (cm_authSessionId i) (dr_now d) (si_attempts s)) = si_attempts s"
    if "\<not> completable (cm_authSessionId i) s"
    using that by (auto simp: completable_def attempt_consume_def Let_def intro!: update_where_none)
  with assms show "s' = s" "out = SubjectDisabled \<or> out = AlreadyConsumed"
    by (auto simp: completeLogin_def tx_simps consume_run split: if_splits)
qed

section \<open>What the doors read is what a submission left alone\<close>

lemma find_parked:
  "map parked_part xs = map parked_part ys \<Longrightarrow>
     map_option parked_part (find (named i) xs) = map_option parked_part (find (named i) ys)"
proof (induction xs arbitrary: ys)
  case (Cons x xs)
  then obtain y ys' where "ys = y # ys'" by (cases ys) auto
  with Cons show ?case by (auto simp: parked_part_def)
qed simp

lemma pending_of_parked:
  assumes "map parked_part xs = map parked_part ys"
  shows "loadPendingRequest i xs = loadPendingRequest i ys"
proof -
  have "loadPendingRequest i zs = (if isUuid i then map_option (\<lambda>(a, q, e, c). q)
      (map_option parked_part (find (named i) zs)) else None)" for zs
    by (auto simp: loadPendingRequest_def attempt_byId_def option.map_comp comp_def parked_part_def)
  with find_parked [OF assms, of i] show ?thesis by simp
qed

lemma completable_of_parked:
  assumes "map parked_part (si_attempts s1) = map parked_part (si_attempts s)"
  shows "completable i s1 = completable i s"
proof -
  have c: "completable i z \<longleftrightarrow>
      (\<exists>p \<in> set (map parked_part (si_attempts z)). fst p = toLowerCase i \<and> snd (snd (snd p)) = None)" for z
    by (auto simp: completable_def parked_part_def)
  show ?thesis by (simp only: c assms)
qed

lemma same_rest_reads:
  assumes "same_rest s s1"
  shows "subjectEnabled j s1 = subjectEnabled j s"
    and "refusedForUnverifiedEmail t j s1 = refusedForUnverifiedEmail t j s"
    and "resolveClientId k s1 = resolveClientId k s"
    and "decideConsentGate c j sc p s1 = decideConsentGate c j sc p s"
    and "st_codes (si_store s1) = st_codes (si_store s)" and "si_tenant s1 = si_tenant s"
    and "loadPendingRequest i (si_attempts s1) = loadPendingRequest i (si_attempts s)"
    and "completable i s1 = completable i s"
    and "consentContext c s1 = consentContext c s"
proof -
  from assms obtain a where st: "si_store s1 = (si_store s)\<lparr>st_audit := a\<rparr>"
    and tabs: "si_users s1 = si_users s" "si_consents s1 = si_consents s"
      "si_assignmentOf s1 = si_assignmentOf s" "si_displayOrder s1 = si_displayOrder s" "si_tenant s1 = si_tenant s"
      "map parked_part (si_attempts s1) = map parked_part (si_attempts s)"
    by (auto simp: same_rest_def)
  show "subjectEnabled j s1 = subjectEnabled j s" using st by (simp add: subjectEnabled_def)
  show "refusedForUnverifiedEmail t j s1 = refusedForUnverifiedEmail t j s"
    using tabs by (simp add: refusedForUnverifiedEmail_def checkEmailVerification_def user_bySubjectId_def)
  show "resolveClientId k s1 = resolveClientId k s" using st by (simp add: resolveClientId_def)
  have d: "display_cmp s1 = display_cmp s" using tabs by (intro ext) (simp add: display_cmp_def)
  have f: "forClientByAssignment c s1 = forClientByAssignment c s"
    using st tabs by (simp add: forClientByAssignment_def cong del: if_weak_cong)
  show cc: "consentContext c s1 = consentContext c s" using st d f by (simp add: consentContext_def Let_def)
  show "decideConsentGate c j sc p s1 = decideConsentGate c j sc p s"
    using tabs cc by (simp add: decideConsentGate_def grantedScopeIds_def)
  show "st_codes (si_store s1) = st_codes (si_store s)" "si_tenant s1 = si_tenant s" using st tabs by simp_all
  show "loadPendingRequest i (si_attempts s1) = loadPendingRequest i (si_attempts s)"
    using tabs by (intro pending_of_parked) simp
  show "completable i s1 = completable i s" using tabs by (intro completable_of_parked) simp
qed

lemma pendingActions_Inr:
  assumes "pendingActions j s = (Inr owed, s')"
  shows "\<exists>rows. s' = s\<lparr>si_actions := rows\<rparr>" and "same_rest s s'"
proof -
  show rows: "\<exists>rows. s' = s\<lparr>si_actions := rows\<rparr>"
  proof (cases "s' = s")
    case True
    then show ?thesis by (intro exI [of _ "si_actions s"]) simp
  next
    case False
    with assms show ?thesis
      by (auto simp: pendingActions_def pendingActionsFor_def tx_simps split: if_splits)
  qed
  then show "same_rest s s'" by auto
qed

section \<open>The end of every door\<close>

lemma completed_answer_Redirect:
  assumes "completed_answer d t i q header rem o' s = (Inr (Redirect lr), s')"
  shows "s' = s \<and> (\<exists>code entry. o' = Issued (lr_sessionId lr) code entry
    \<and> dr_withParams d (pr_redirectUri q) (code_params d q code) = Some (lr_location lr))"
  using assms
  by (cases o') (auto simp: completed_answer_def located_def tx_simps login_redirect_of_def Let_def)

lemma completed_answer_other:
  assumes "completed_answer d t i q header rem o' s = (Inr out, s')" "\<And>lr. out \<noteq> Redirect lr"
  shows "s' = s \<and> (o' = AlreadyConsumed \<and> out = Unauthenticated
    \<or> o' = SubjectDisabled \<and> out = Reject i (Some Rejected) None)"
  using assms by (cases o') (auto simp: completed_answer_def located_def tx_simps)

lemma completeAuthorizedLogin_Redirect:
  assumes "completeAuthorizedLogin d t i q cid sub auths header rem s = (Inr (Redirect lr), s')"
  shows "\<exists>code entry. completeLogin d (complete_input_of t i q cid sub auths rem (resolveSessions d t header s)) s
      = (Inr (Issued (lr_sessionId lr) code entry), s')
    \<and> dr_withParams d (pr_redirectUri q) (code_params d q code) = Some (lr_location lr)"
  using assms
  by (auto simp: completeAuthorizedLogin_def tbind_Inr tget_run dest!: completed_answer_Redirect)

lemma completeAuthorizedLogin_other:
  assumes "completeAuthorizedLogin d t i q cid sub auths header rem s = (Inr out, s')"
    "\<And>lr. out \<noteq> Redirect lr"
  shows "s' = s \<and> (out = Unauthenticated \<or> out = Reject i (Some Rejected) None)"
proof -
  from assms(1) obtain o' s1 where
    c: "completeLogin d (complete_input_of t i q cid sub auths rem (resolveSessions d t header s)) s = (Inr o', s1)"
    and r: "completed_answer d t i q header rem o' s1 = (Inr out, s')"
    by (auto simp: completeAuthorizedLogin_def tbind_Inr tget_run)
  from completed_answer_other [OF r assms(2)] completeLogin_other(1) [OF c] show ?thesis by auto
qed

section \<open>The login form\<close>

lemma errorRedirect_run: "errorRedirect d q e s = (Inr out, s') \<Longrightarrow> s' = s \<and> (\<exists>l. out = ErrorRedirect l
    \<and> dr_withParams d (pr_redirectUri q) (error_params d (pr_state q) e) = Some l)"
  by (auto simp: errorRedirect_def located_def tx_simps)

lemma login_consent_gate_Redirect:
  assumes "login_consent_gate d t i q sub auths u header rem cid s = (Inr (Redirect lr), s')"
  shows "decideConsentGate cid sub (pr_scope q) (pr_prompt q) s = GateNotRequired
    \<and> completeAuthorizedLogin d t i q cid sub auths header rem s = (Inr (Redirect lr), s')"
proof (cases "decideConsentGate cid sub (pr_scope q) (pr_prompt q) s")
  case GateNotRequired
  with assms obtain o' s1 where
    c: "completeAuthorizedLogin d t i q cid sub auths header rem s = (Inr o', s1)"
    and r: "(case o' of Reject i refusal u' \<Rightarrow>
             tbind (resetAuthenticationProgress i') (\<lambda>_. tret (with_username u o'))
         | _ \<Rightarrow> tret o') s1 = (Inr (Redirect lr), s') \<or> o' = Redirect lr \<and> s1 = s'" for i'
    unfolding login_consent_gate_def
    by (auto simp: tbind_Inr tget_run tret_run with_username_def split: login_outcome.splits)
  then have "o' = Redirect lr \<and> s1 = s'"
    by (cases o') (auto simp: tx_simps with_username_def)
  with c GateNotRequired show ?thesis by simp
next
  case (GateAsk p)
  with assms show ?thesis by (simp add: login_consent_gate_def tbind_Inr tget_run tret_run)
next
  case GateRefuse
  with assms show ?thesis
    by (auto simp: login_consent_gate_def tbind_Inr tget_run dest: errorRedirect_run)
qed

lemma login_gates_Redirect:
  assumes "login_gates d t i sub auths u header rem s = (Inr (Redirect lr), s')"
  shows "\<exists>q cid s1. subjectEnabled sub s \<and> refusedForUnverifiedEmail t sub s = None
    \<and> loadPendingRequest i (si_attempts s) = Some q
    \<and> \<not> differs (pr_idTokenHintSubject q) sub \<and> \<not> differs (pr_claimsSubject q) sub
    \<and> (\<exists>owed. pendingActions sub s = (Inr owed, s1) \<and> nextRequiredAction owed = None)
    \<and> resolveClientId (pr_clientId q) s1 = Some cid
    \<and> decideConsentGate cid sub (pr_scope q) (pr_prompt q) s1 = GateNotRequired
    \<and> completeAuthorizedLogin d t i q cid sub auths header rem s1 = (Inr (Redirect lr), s')"
proof -
  have "subjectEnabled sub s" and "refusedForUnverifiedEmail t sub s = None"
    using assms unfolding login_gates_def
    by (auto simp: tbind_Inr tget_run tret_run split: if_splits option.splits)
  with assms obtain q where q: "loadPendingRequest i (si_attempts s) = Some q"
    and r: "(if differs (pr_idTokenHintSubject q) sub \<or> differs (pr_claimsSubject q) sub
         then tbind (resetAuthenticationProgress i) (\<lambda>_. errorRedirect d q ErrLoginRequired)
         else tbind (pendingActions sub) (\<lambda>owed.
         case nextRequiredAction owed of
           Some action \<Rightarrow>
             tbind (recordRememberMe i rem) (\<lambda>_. tret (Owes i sub action))
         | None \<Rightarrow>
             tbind (tget (resolveClientId (pr_clientId q))) (\<lambda>client.
             case client of
               None \<Rightarrow> tret Unauthenticated
             | Some clientId \<Rightarrow>
                 login_consent_gate d t i q sub auths u header rem clientId))) s = (Inr (Redirect lr), s')"
    unfolding login_gates_def
    by (auto simp: tbind_Inr tget_run tret_run split: option.splits)
  moreover from r have "\<not> differs (pr_idTokenHintSubject q) sub \<and> \<not> differs (pr_claimsSubject q) sub"
    by (auto simp: tbind_Inr dest: errorRedirect_run split: if_splits)
  moreover from this r obtain owed s1 where "pendingActions sub s = (Inr owed, s1)"
    "nextRequiredAction owed = None" and r': "tbind (tget (resolveClientId (pr_clientId q))) (\<lambda>client.
             case client of
               None \<Rightarrow> tret Unauthenticated
             | Some clientId \<Rightarrow>
                 login_consent_gate d t i q sub auths u header rem clientId) s1 = (Inr (Redirect lr), s')"
    by (auto simp: tbind_Inr tret_run split: option.splits)
  moreover from r' obtain cid where "resolveClientId (pr_clientId q) s1 = Some cid"
    "login_consent_gate d t i q sub auths u header rem cid s1 = (Inr (Redirect lr), s')"
    by (auto simp: tbind_Inr tget_run tret_run split: option.splits)
  ultimately show ?thesis
    using login_consent_gate_Redirect \<open>subjectEnabled sub s\<close> \<open>refusedForUnverifiedEmail t sub s = None\<close>
    by blast
qed

text \<open>What a login form that ends at the client has passed, and what it wrote.\<close>

definition minted_by ::
  "door_deps \<Rightarrow> string \<Rightarrow> pending_request \<Rightarrow> string \<Rightarrow> string \<Rightarrow> string \<Rightarrow> site \<Rightarrow> site \<Rightarrow> bool" where
  "minted_by d i q cid sub sid s s' \<longleftrightarrow> (\<exists>t at. si_tenant s = Some t \<and> completable i s
    \<and> hash_token (dr_deps d) (sg_newCode (dr_sign d)) \<notin> ac_codeHash ` set (st_codes (si_store s))
    \<and> (pr_reuseSessionId q = None \<longrightarrow> at = dr_now d \<and> sid = en_id (sg_entry (dr_sign d)))
    \<and> st_codes (si_store s') = st_codes (si_store s) @ [code_row d t (code_of_pending q cid sub at sid)]
    \<and> attempt_spent i (si_attempts s'))"

lemma attempt_consume_spent: "attempt_spent i (snd (attempt_consume i now rows))"
  by (auto simp: attempt_spent_def attempt_consume_def Let_def set_update_where)

lemma completed_login:
  assumes "completeAuthorizedLogin d t i q cid sub auths header rem s = (Inr (Redirect lr), s')"
  shows "subjectEnabled sub s \<and> minted_by d i q cid sub (lr_sessionId lr) s s' \<and> si_consents s' = si_consents s
    \<and> dr_withParams d (pr_redirectUri q) (code_params d q (sg_newCode (dr_sign d))) = Some (lr_location lr)"
proof -
  from completeAuthorizedLogin_Redirect [OF assms] obtain code entry where
    c: "completeLogin d (complete_input_of t i q cid sub auths rem (resolveSessions d t header s)) s
      = (Inr (Issued (lr_sessionId lr) code entry), s')"
    and l: "dr_withParams d (pr_redirectUri q) (code_params d q code) = Some (lr_location lr)" by blast
  from completeLogin_Issued [OF c] obtain t' at st where
    f: "si_tenant s = Some t'" "subjectEnabled sub s" "completable i s" "code = sg_newCode (dr_sign d)"
      "hash_token (dr_deps d) (sg_newCode (dr_sign d)) \<notin> ac_codeHash ` set (st_codes (si_store s))"
      "pr_reuseSessionId q = None \<longrightarrow> at = dr_now d \<and> lr_sessionId lr = en_id (sg_entry (dr_sign d))"
      "si_attempts s' = snd (attempt_consume i (dr_now d) (si_attempts s))" "si_consents s' = si_consents s"
      "st_codes (si_store s') = st_codes (si_store s) @
        [code_row d t' (code_of_pending q cid sub at (lr_sessionId lr))]"
    by (auto simp: complete_input_of_def split: option.splits)
  with l show ?thesis by (auto simp: minted_by_def attempt_consume_spent)
qed

lemma login_Redirect:
  assumes "handleLoginSubmission d a input header rm s = (Inr (Redirect lr), s')"
  shows "\<exists>i t sub auths s1 s2 q cid. a = Some i \<and> isUuid i \<and> si_tenant s = Some t \<and> tn_enabled t
    \<and> advance (dr_sign d) i input s = (Inr (AdvanceSuccess sub auths), s1)
    \<and> subjectEnabled sub s \<and> refusedForUnverifiedEmail t sub s = None
    \<and> loadPendingRequest i (si_attempts s) = Some q
    \<and> \<not> differs (pr_idTokenHintSubject q) sub \<and> \<not> differs (pr_claimsSubject q) sub
    \<and> (\<exists>owed. pendingActions sub s1 = (Inr owed, s2) \<and> nextRequiredAction owed = None)
    \<and> resolveClientId (pr_clientId q) s = Some cid
    \<and> decideConsentGate cid sub (pr_scope q) (pr_prompt q) s = GateNotRequired
    \<and> minted_by d i q cid sub (lr_sessionId lr) s s'
    \<and> dr_withParams d (pr_redirectUri q) (code_params d q (sg_newCode (dr_sign d))) = Some (lr_location lr)"
proof -
  from assms obtain i t where i: "a = Some i" "isUuid i" "enabled_tenant s = Some t"
    and r: "tbind (atomically (advance (dr_sign d) i input))
      (login_answer d t i input header (rm \<and> tn_rememberMeAllowed t)) s = (Inr (Redirect lr), s')"
    unfolding handleLoginSubmission_def
    by (auto simp: tbind_Inr [of "tget enabled_tenant"] tget_run tret_run split: option.splits if_splits)
  from i(3) have t: "si_tenant s = Some t" "tn_enabled t"
    by (auto simp: enabled_tenant_def split: option.splits if_splits)
  from r obtain res s1 where res: "atomically (advance (dr_sign d) i input) s = (Inr res, s1)"
      "login_answer d t i input header (rm \<and> tn_rememberMeAllowed t) res s1 = (Inr (Redirect lr), s')"
    by (rule tbindE)
  then obtain sub auths where adv: "advance (dr_sign d) i input s = (Inr (AdvanceSuccess sub auths), s1)"
    and g: "login_gates d t i sub auths (in_username input) header (rm \<and> tn_rememberMeAllowed t) s1
      = (Inr (Redirect lr), s')"
    by (cases res) (simp_all add: login_answer_def atomically_Inr tret_run split: if_splits)
  from login_gates_Redirect [OF g] obtain q cid s2 owed where
    f: "subjectEnabled sub s1" "refusedForUnverifiedEmail t sub s1 = None"
      "loadPendingRequest i (si_attempts s1) = Some q"
      "\<not> differs (pr_idTokenHintSubject q) sub" "\<not> differs (pr_claimsSubject q) sub"
      "pendingActions sub s1 = (Inr owed, s2)" "nextRequiredAction owed = None"
      "resolveClientId (pr_clientId q) s2 = Some cid"
      "decideConsentGate cid sub (pr_scope q) (pr_prompt q) s2 = GateNotRequired"
      "completeAuthorizedLogin d t i q cid sub auths header (rm \<and> tn_rememberMeAllowed t) s2 = (Inr (Redirect lr), s')"
    by blast
  note r1 = same_rest_reads [OF advance_rest [OF adv]]
  note r2 = same_rest_reads [OF pendingActions_Inr(2) [OF f(6)]]
  from completed_login [OF f(10)] have "minted_by d i q cid sub (lr_sessionId lr) s s'"
    "dr_withParams d (pr_redirectUri q) (code_params d q (sg_newCode (dr_sign d))) = Some (lr_location lr)"
    by (auto simp: minted_by_def r1 r2)
  moreover have "subjectEnabled sub s" "refusedForUnverifiedEmail t sub s = None"
    "loadPendingRequest i (si_attempts s) = Some q" "resolveClientId (pr_clientId q) s = Some cid"
    "decideConsentGate cid sub (pr_scope q) (pr_prompt q) s = GateNotRequired"
    using f(1,2,3,8,9) by (simp_all only: r1 r2)
  ultimately show ?thesis using i(1,2) t adv f(4,5,6,7)
    by (intro exI [of _ i] exI [of _ t] exI [of _ sub] exI [of _ auths] exI [of _ s1] exI [of _ s2]
        exI [of _ q] exI [of _ cid] conjI exI [of _ owed]) assumption+
qed

section \<open>The consent page\<close>

text \<open>An attempt that a finished authentication left waiting.\<close>

lemma authenticatedSession_Some:
  assumes "authenticatedSession d i s = (Inr (Some (sub, auths)), s')"
  shows "s' = s \<and> (\<exists>r t. attempt_byId i (si_attempts s) = Some r \<and> attemptIsLive r (sg_now d)
    \<and> at_authenticatedAt r \<noteq> None \<and> at_subjectId r = Some sub \<and> auths = at_satisfied r
    \<and> si_tenant s = Some t
    \<and> nextStep (flow_steps \<lparr>fr_subjectId = Some sub, fr_satisfied = set auths,
         fr_assertionOffered = False, fr_recoveryCodeOffered = False\<rparr> t s) (set auths) = Complete)"
proof -
  from assms obtain r where r: "attempt_byId i (si_attempts s) = Some r" "attemptIsLive r (sg_now d)"
    "at_authenticatedAt r \<noteq> None" "at_subjectId r = Some sub" "auths = at_satisfied r"
    and f: "authenticatorsSatisfyFlow sub (at_satisfied r) s = (Inr True, s')"
    unfolding authenticatedSession_def
    by (auto simp: tbind_Inr tget_run tret_run split: option.splits if_splits)
  then show ?thesis
    by (auto simp: authenticatorsSatisfyFlow_def tbind_Inr tret_run loadSteps_run split: option.splits)
qed

lemma recordConsent_Inr:
  assumes "recordConsent sub cid ids s = (Inr u, s')"
  shows "\<exists>rows. s' = s\<lparr>si_consents := rows\<rparr>"
    and "set (grantedScopeIds sub cid s') = set ids"
    and "sub' \<noteq> sub \<or> cid' \<noteq> cid \<Longrightarrow> grantedScopeIds sub' cid' s' = grantedScopeIds sub' cid' s"
proof -
  let ?mine = "\<lambda>r. cn_subjectId r = sub \<and> cn_clientId r = cid"
  let ?kept = "filter (\<lambda>r. ?mine r \<longrightarrow> cn_scopeId r \<in> set ids) (si_consents s)"
  let ?fresh = "filter (\<lambda>r. r \<notin> set ?kept)
    (map (\<lambda>i. \<lparr>cn_subjectId = sub, cn_clientId = cid, cn_scopeId = i\<rparr>) (js_unique ids))"
  from assms have s': "s' = s\<lparr>si_consents := ?kept @ ?fresh\<rparr>"
    by (simp add: recordConsent_def Let_def split: if_splits)
  then show "\<exists>rows. s' = s\<lparr>si_consents := rows\<rparr>" by blast
  have rows: "si_consents s' = ?kept @ ?fresh" by (subst s') simp
  have "cn_scopeId ` {r \<in> set (?kept @ ?fresh). ?mine r} = set ids"
  proof (intro equalityI subsetI)
    fix x assume x: "x \<in> set ids"
    let ?r = "\<lparr>cn_subjectId = sub, cn_clientId = cid, cn_scopeId = x\<rparr>"
    have "?r \<in> set (?kept @ ?fresh)" using x by auto
    then show "x \<in> cn_scopeId ` {r \<in> set (?kept @ ?fresh). ?mine r}" by (intro image_eqI [of _ _ ?r]) auto
  next
    have fresh: "cn_scopeId r \<in> set ids" if "r \<in> set ?fresh" for r
    proof -
      from that obtain j where "j \<in> set ids" "r = \<lparr>cn_subjectId = sub, cn_clientId = cid, cn_scopeId = j\<rparr>"
        unfolding set_filter set_map set_js_unique by blast
      then show ?thesis by (simp only: consent_row.simps)
    qed
    fix x assume "x \<in> cn_scopeId ` {r \<in> set (?kept @ ?fresh). ?mine r}"
    then obtain r where r: "x = cn_scopeId r" "?mine r" "r \<in> set (?kept @ ?fresh)" by blast
    from r(3) have "r \<in> set ?kept \<or> r \<in> set ?fresh" unfolding set_append by blast
    then show "x \<in> set ids"
    proof
      assume "r \<in> set ?kept"
      with r(1,2) show ?thesis by simp
    next
      assume "r \<in> set ?fresh"
      from fresh [OF this] r(1) show ?thesis by simp
    qed
  qed
  then show "set (grantedScopeIds sub cid s') = set ids"
    by (simp only: rows grantedScopeIds_def set_map set_filter)
  assume other: "sub' \<noteq> sub \<or> cid' \<noteq> cid"
  have "filter (\<lambda>r. cn_subjectId r = sub' \<and> cn_clientId r = cid') ?fresh = []"
    using other by (auto simp: filter_empty_conv)
  moreover have "filter (\<lambda>r. cn_subjectId r = sub' \<and> cn_clientId r = cid') ?kept
      = filter (\<lambda>r. cn_subjectId r = sub' \<and> cn_clientId r = cid') (si_consents s)"
    using other by (auto intro: filter_cong)
  ultimately show "grantedScopeIds sub' cid' s' = grantedScopeIds sub' cid' s"
    by (simp only: rows grantedScopeIds_def filter_append append_Nil2)
qed

lemma consent_allowed_Redirect:
  assumes "consent_allowed d t i q sub auths ans header cid s = (Inr (Redirect lr), s')"
  shows "let ctx = consentContext cid s; q' = q\<lparr>pr_scope := join_scope (final_scopes ctx ans q)\<rparr>
    in subjectEnabled sub s \<and> minted_by d i q' cid sub (lr_sessionId lr) s s'
     \<and> set (grantedScopeIds sub cid s') = set (recorded_ids ctx ans q)
     \<and> dr_withParams d (pr_redirectUri q) (code_params d q (sg_newCode (dr_sign d))) = Some (lr_location lr)"
proof -
  let ?ctx = "consentContext cid s"
  let ?q = "q\<lparr>pr_scope := join_scope (final_scopes ?ctx ans q)\<rparr>"
  from assms obtain o' s1 where
    rc: "recordConsent sub cid (recorded_ids ?ctx ans q) s = (Inr (), s1)"
    and c: "completeAuthorizedLogin d t i ?q cid sub auths header (coalesce (pr_rememberMe q) False) s1 = (Inr o', s')"
    and o: "(case o' of Reject i refusal u \<Rightarrow> Unauthenticated | _ \<Rightarrow> o') = Redirect lr"
    by (auto simp: consent_allowed_def tbind_Inr tget_run tret_run atomically_Inr)
  from o have "o' = Redirect lr" by (cases o') auto
  with c have "completeAuthorizedLogin d t i ?q cid sub auths header (coalesce (pr_rememberMe q) False) s1
    = (Inr (Redirect lr), s')" by simp
  note fin = completed_login [OF this]
  from recordConsent_Inr(1,2) [OF rc] obtain rows where s1: "s1 = s\<lparr>si_consents := rows\<rparr>"
    and g: "set (grantedScopeIds sub cid s1) = set (recorded_ids ?ctx ans q)" by blast
  from fin g s1 show ?thesis
    by (simp add: Let_def minted_by_def completable_def subjectEnabled_def grantedScopeIds_def code_params_def)
qed

lemma consent_gates_Redirect:
  assumes "consent_gates d t i sub auths ans header s = (Inr (Redirect lr), s')"
  shows "\<exists>q cid s1. refusedForUnverifiedEmail t sub s = None
    \<and> loadPendingRequest i (si_attempts s) = Some q
    \<and> (\<exists>owed. pendingActions sub s = (Inr owed, s1) \<and> nextRequiredAction owed = None)
    \<and> resolveClientId (pr_clientId q) s1 = Some cid \<and> an_decision ans = Some ''allow''
    \<and> consent_allowed d t i q sub auths ans header cid s1 = (Inr (Redirect lr), s')"
proof -
  from assms obtain q where "refusedForUnverifiedEmail t sub s = None"
    "loadPendingRequest i (si_attempts s) = Some q"
    and r: "tbind (pendingActions sub) (\<lambda>owed.
         case nextRequiredAction owed of
           Some action \<Rightarrow> tret (Owes i sub action)
         | None \<Rightarrow>
             tbind (tget (resolveClientId (pr_clientId q))) (\<lambda>client.
             case client of
               None \<Rightarrow> tret Unauthenticated
             | Some clientId \<Rightarrow>
                 if an_decision ans \<noteq> Some ''allow'' then errorRedirect d q ErrAccessDenied
                 else consent_allowed d t i q sub auths ans header clientId)) s = (Inr (Redirect lr), s')"
    unfolding consent_gates_def
    by (auto simp: tbind_Inr [of "tget f" for f] tget_run tret_run split: option.splits)
  moreover from r obtain owed s1 where "pendingActions sub s = (Inr owed, s1)"
    "nextRequiredAction owed = None" and r': "tbind (tget (resolveClientId (pr_clientId q))) (\<lambda>client.
             case client of
               None \<Rightarrow> tret Unauthenticated
             | Some clientId \<Rightarrow>
                 if an_decision ans \<noteq> Some ''allow'' then errorRedirect d q ErrAccessDenied
                 else consent_allowed d t i q sub auths ans header clientId) s1 = (Inr (Redirect lr), s')"
    by (auto simp: tbind_Inr tret_run split: option.splits)
  moreover from r' obtain cid where "resolveClientId (pr_clientId q) s1 = Some cid"
    "an_decision ans = Some ''allow''"
    "consent_allowed d t i q sub auths ans header cid s1 = (Inr (Redirect lr), s')"
    by (auto simp: tbind_Inr tget_run tret_run dest: errorRedirect_run split: option.splits if_splits)
  ultimately show ?thesis by blast
qed

lemma consent_Redirect:
  assumes "handleConsentSubmission d a ans header s = (Inr (Redirect lr), s')"
  shows "\<exists>i t sub auths s1 q cid. a = Some i \<and> isUuid i \<and> si_tenant s = Some t \<and> tn_enabled t
    \<and> authenticatedSession (dr_sign d) i s = (Inr (Some (sub, auths)), s)
    \<and> subjectEnabled sub s \<and> refusedForUnverifiedEmail t sub s = None
    \<and> loadPendingRequest i (si_attempts s) = Some q
    \<and> (\<exists>owed. pendingActions sub s = (Inr owed, s1) \<and> nextRequiredAction owed = None)
    \<and> resolveClientId (pr_clientId q) s = Some cid \<and> an_decision ans = Some ''allow''
    \<and> minted_by d i (q\<lparr>pr_scope := join_scope (final_scopes (consentContext cid s) ans q)\<rparr>) cid sub
        (lr_sessionId lr) s s'
    \<and> set (grantedScopeIds sub cid s') = set (recorded_ids (consentContext cid s) ans q)
    \<and> dr_withParams d (pr_redirectUri q) (code_params d q (sg_newCode (dr_sign d))) = Some (lr_location lr)"
proof -
  from assms obtain i t where i: "a = Some i" "isUuid i" "enabled_tenant s = Some t"
    and r: "tbind (atomically (authenticatedSession (dr_sign d) i)) (\<lambda>authenticated.
              case authenticated of
                None \<Rightarrow> tret Unauthenticated
              | Some (subjectId, authenticators) \<Rightarrow>
                  consent_gates d t i subjectId authenticators ans header) s = (Inr (Redirect lr), s')"
    unfolding handleConsentSubmission_def
    by (auto simp: tbind_Inr [of "tget enabled_tenant"] tget_run tret_run split: option.splits if_splits)
  from i(3) have t: "si_tenant s = Some t" "tn_enabled t"
    by (auto simp: enabled_tenant_def split: option.splits if_splits)
  from r obtain sub auths s0 where au: "authenticatedSession (dr_sign d) i s = (Inr (Some (sub, auths)), s0)"
    and g0: "consent_gates d t i sub auths ans header s0 = (Inr (Redirect lr), s')"
    by (auto simp: tbind_Inr [of "atomically m" for m] atomically_Inr tret_run split: option.splits)
  from authenticatedSession_Some [OF au] have s0: "s0 = s" by simp
  from consent_gates_Redirect [OF g0 [unfolded s0]] obtain q cid s1 owed where
    f: "refusedForUnverifiedEmail t sub s = None" "loadPendingRequest i (si_attempts s) = Some q"
      "pendingActions sub s = (Inr owed, s1)" "nextRequiredAction owed = None"
      "resolveClientId (pr_clientId q) s1 = Some cid" "an_decision ans = Some ''allow''"
      "consent_allowed d t i q sub auths ans header cid s1 = (Inr (Redirect lr), s')" by blast
  from pendingActions_Inr(1) [OF f(3)] obtain rows where s1: "s1 = s\<lparr>si_actions := rows\<rparr>" by blast
  have ctx: "consentContext cid s1 = consentContext cid s"
    using pendingActions_Inr(2) [OF f(3)] by (rule same_rest_reads)
  have "resolveClientId (pr_clientId q) s = Some cid" using f(5) by (simp add: s1 resolveClientId_def)
  moreover have "subjectEnabled sub s" "minted_by d i (q\<lparr>pr_scope := join_scope (final_scopes (consentContext cid s) ans q)\<rparr>)
      cid sub (lr_sessionId lr) s s'"
    "set (grantedScopeIds sub cid s') = set (recorded_ids (consentContext cid s) ans q)"
    "dr_withParams d (pr_redirectUri q) (code_params d q (sg_newCode (dr_sign d))) = Some (lr_location lr)"
    using consent_allowed_Redirect [OF f(7)] unfolding ctx Let_def
    by (simp_all add: s1 minted_by_def completable_def subjectEnabled_def)
  ultimately show ?thesis using i(1,2) t au [unfolded s0] f(1,2,3,4,6)
    by (intro exI [of _ i] exI [of _ t] exI [of _ sub] exI [of _ auths] exI [of _ s1]
        exI [of _ q] exI [of _ cid] conjI exI [of _ owed]) assumption+
qed

end
