(* ===== verification/Request_Facts.thy ===== *)
theory Request_Facts
  imports Door_Facts
begin

text \<open>
  What the answers of the authorization endpoint have in common: the address they go to, what a
  request that forbids any page may be answered with, and how a code is minted from a session.
\<close>

section \<open>The checks on the request\<close>

lemma below_boundary_Ok:
  assumes "below_boundary c ps known assigned rep uri = AuthorizeOk q prompts hint maxAge"
  shows "rep = None \<and> param_of ''request'' ps = None \<and> param_of ''request_uri'' ps = None
    \<and> param_of ''response_type'' ps = Some ''code'' \<and> param_of ''code_challenge_method'' ps = Some ''S256''
    \<and> (\<exists>ch. param_of ''code_challenge'' ps = Some ch \<and> isWellFormedPkceString ch
        \<and> q = toPendingRequest c ps uri (param_of ''state'' ps) ch)
    \<and> scopesAreGrantable (param_of ''scope'' ps) known assigned
    \<and> parsePrompt (param_of ''prompt'' ps) = Some prompts \<and> hint = param_of ''id_token_hint'' ps
    \<and> parseMaxAge (param_of ''max_age'' ps) = MaxAgeOk maxAge"
  using assms by (auto simp: below_boundary_def Let_def split: if_splits option.splits max_age_parse.splits)

lemma below_boundary_Redirect:
  "below_boundary c ps known assigned rep uri = AuthorizeRedirect uri' e st desc \<Longrightarrow>
     uri' = uri \<and> st = param_of ''state'' ps"
  by (auto simp: below_boundary_def Let_def split: if_splits option.splits max_age_parse.splits)

lemma below_boundary_Render [simp]:
  "below_boundary c ps known assigned rep uri \<noteq> AuthorizeRender e desc"
  by (auto simp: below_boundary_def Let_def split: if_splits option.splits max_age_parse.splits)

text \<open>The address a client registered, for a client that may use it.\<close>

definition trusted_uri :: "url_parser \<Rightarrow> client option \<Rightarrow> oidc_config option \<Rightarrow> string \<Rightarrow> bool" where
  "trusted_uri URL client config uri \<longleftrightarrow> (\<exists>c cfg. client = Some c \<and> cl_enabled c \<and> config = Some cfg
     \<and> isRegisteredRedirectUri URL uri (oc_redirectUris cfg) (cl_type c) (cl_registrationOrigin c))"

lemma validate_past_boundary:
  assumes "validateAuthorizationRequest URL ps client config known assigned rep = out"
    "case out of AuthorizeRender e desc \<Rightarrow> False | _ \<Rightarrow> True"
  shows "\<exists>c cfg uri. client = Some c \<and> cl_enabled c \<and> config = Some cfg
    \<and> isRegisteredRedirectUri URL uri (oc_redirectUris cfg) (cl_type c) (cl_registrationOrigin c)
    \<and> out = below_boundary c ps known assigned rep uri"
  using assms unfolding validateAuthorizationRequest_def
  by (auto split: if_splits option.splits)

lemma validate_no_client: "validateAuthorizationRequest URL ps None None known assigned rep \<noteq> AuthorizeOk q p h m"
  by (auto simp: validateAuthorizationRequest_def split: if_splits)

text \<open>A set of prompts with \<open>none\<close> or \<open>create\<close> in it has nothing else.\<close>

lemma prompt_loop_mono: "prompt_loop ts acc = Some vs \<Longrightarrow> set acc \<subseteq> set vs"
  by (induction ts acc rule: prompt_loop.induct) (auto split: option.splits if_splits)

lemma prompt_loop_distinct: "prompt_loop ts acc = Some vs \<Longrightarrow> distinct acc \<Longrightarrow> distinct vs"
  by (induction ts acc rule: prompt_loop.induct) (auto split: option.splits if_splits)

lemma parsePrompt_alone:
  assumes "parsePrompt raw = Some vs"
  shows "PromptNone \<in> set vs \<Longrightarrow> vs = [PromptNone]" and "PromptCreate \<in> set vs \<Longrightarrow> vs = [PromptCreate]"
proof -
  have one: "v \<in> set vs \<Longrightarrow> \<not> 1 < length vs \<Longrightarrow> vs = [v]" for v
    by (cases vs) auto
  from assms show "PromptNone \<in> set vs \<Longrightarrow> vs = [PromptNone]" "PromptCreate \<in> set vs \<Longrightarrow> vs = [PromptCreate]"
    by (auto simp: parsePrompt_def intro!: one split: option.splits if_splits)
qed

lemma prompt_loop_none: "prompt_loop ts acc = Some vs \<Longrightarrow> ''none'' \<in> set ts \<Longrightarrow> PromptNone \<in> set vs"
proof (induction ts acc rule: prompt_loop.induct)
  case (2 t ts acc)
  show ?case
  proof (cases "t = ''none''")
    case True
    with "2.prems"(1) have "prompt_loop ts (if PromptNone \<in> set acc then acc else acc @ [PromptNone]) = Some vs"
      by simp
    from prompt_loop_mono [OF this] show ?thesis by (auto split: if_splits)
  next
    case False
    with 2 show ?thesis by (auto split: if_splits option.splits)
  qed
qed simp

section \<open>Where an answer goes\<close>

fun goes_to :: "string \<Rightarrow> request_outcome \<Rightarrow> bool" where
  "goes_to uri (RequestRedirect u e st desc) = (u = uri)"
| "goes_to uri (RequestReused code u st) = (u = uri)"
| "goes_to uri _ = True"

lemma goes_to_rejected [simp]: "goes_to uri (rejected q e desc) = (pr_redirectUri q = uri)"
  by (simp add: rejected_def)

lemma yields_outcomes [yields_intros]:
  "(\<And>i c. yields P (fs i c)) \<Longrightarrow> (\<And>f. yields P (fc f)) \<Longrightarrow> (\<And>x a. yields P (ff x a)) \<Longrightarrow>
     yields P (case ar of AuthSuccess i c \<Rightarrow> fs i c | AuthChallenge f \<Rightarrow> fc f | AuthFailure x a \<Rightarrow> ff x a)"
  "yields P g1 \<Longrightarrow> (\<And>p. yields P (g2 p)) \<Longrightarrow> yields P g3 \<Longrightarrow>
     yields P (case gt of GateNotRequired \<Rightarrow> g1 | GateAsk p \<Rightarrow> g2 p | GateRefuse \<Rightarrow> g3)"
  "(\<And>r. yields P (h1 r)) \<Longrightarrow> (\<And>cs. yields P (h2 cs)) \<Longrightarrow> yields P h3 \<Longrightarrow> (\<And>e. yields P (h4 e)) \<Longrightarrow>
     yields P (case rd of Reuse r \<Rightarrow> h1 r | Select cs \<Rightarrow> h2 cs | Authenticate \<Rightarrow> h3 | RefuseReuse e \<Rightarrow> h4 e)"
  "yields P e1 \<Longrightarrow> yields P e2 \<Longrightarrow>
     yields P (case er of LoginRequired \<Rightarrow> e1 | AccountSelectionRequired \<Rightarrow> e2)"
  "(\<And>as. yields P (r1 as)) \<Longrightarrow> yields P r2 \<Longrightarrow>
     yields P (case ro of ResourceOk as \<Rightarrow> r1 as | ResourceInvalidTarget \<Rightarrow> r2)"
  "(\<And>q. yields P (c1 q)) \<Longrightarrow> (\<And>x. yields P (c2 x)) \<Longrightarrow>
     yields P (case co of ClaimsOk q \<Rightarrow> c1 q | ClaimsInvalid x \<Rightarrow> c2 x)"
  by (simp_all split: auth_result.splits consent_gate.splits reuse_decision.splits reuse_error.splits
      resource_outcome.splits claims_outcome.splits)

lemmas door_defs = show_login_def show_chooser_def show_registration_def reuse_consent_def
  reuse_session_def answer_from_sessions_def admit_request_def

lemma admit_goes_to:
  "yields (goes_to (pr_redirectUri q)) (admit_request d t raw ps c cfg q prompts hint maxAge header)"
  unfolding door_defs Let_def
  by (intro yields_intros) (simp_all add: parked_request_def)

section \<open>Requests that forbid a page\<close>

fun no_page :: "request_outcome \<Rightarrow> bool" where
  "no_page (RequestRender e desc) = True"
| "no_page (RequestRedirect u e st desc) = True"
| "no_page (RequestReused code u st) = True"
| "no_page _ = False"

lemma no_page_rejected [simp]: "no_page (rejected q e desc)"
  by (simp add: rejected_def)

lemma silent_gate: "decideConsentGate cid sub sc (Some [PromptNone]) s \<noteq> GateAsk p"
  by (auto simp: decideConsentGate_def decideConsent_def consent_input_of_def Let_def)

lemma silent_consent:
  assumes "pr_prompt q = Some [PromptNone]"
  shows "yields no_page (reuse_consent d q cid r as)"
  unfolding reuse_consent_def
proof (rule yields_after [where Q = "\<lambda>g. \<forall>p. g \<noteq> GateAsk p"])
  show "yields (\<lambda>g. \<forall>p. g \<noteq> GateAsk p) (tget (decideConsentGate cid (rs_subjectId r) (pr_scope q) (pr_prompt q)))"
    by (simp add: yields_def tget_run assms silent_gate)
  fix g :: consent_gate
  assume "\<forall>p. g \<noteq> GateAsk p"
  then show "yields no_page (case g of GateNotRequired \<Rightarrow> tbind (completeReuse d (rs_id r)
        (code_of_pending q cid (rs_subjectId r) (rs_authTime r) (rs_id r)))
        (\<lambda>code. tret (RequestReused code (pr_redirectUri q) (pr_state q)))
    | GateAsk page \<Rightarrow> tbind (promoteToParkedRequest d q r as) (\<lambda>i. tret (RequestConsent i page))
    | GateRefuse \<Rightarrow> tret (rejected q ErrConsentRequired None))"
    by (cases g) (auto intro!: yields_intros)
qed

lemma silent_reuse:
  assumes "pr_prompt q = Some [PromptNone]"
  shows "yields no_page (reuse_session d t q cid r as)"
proof -
  have none: "(PromptNone \<in> set (coalesce (pr_prompt q) [])) = True" by (simp add: assms)
  show ?thesis
    unfolding reuse_session_def Let_def none if_True
    by (intro yields_intros silent_consent assms) simp_all
qed

lemma silent_answer:
  assumes "pr_prompt q = Some [PromptNone]"
  shows "yields no_page (answer_from_sessions d t q cid maxAge header)"
proof -
  have no: "decideReuse cs [PromptNone] maxAge now \<noteq> Authenticate"
    "decideReuse cs [PromptNone] maxAge now \<noteq> Select xs" for cs xs now
    by (auto simp: decideReuse_def Let_def)
  show ?thesis
    unfolding answer_from_sessions_def Let_def assms coalesce.simps
  proof (rule yields_basic(3))
    fix sessions
    show "yields no_page (case decideReuse (candidate_sessions q sessions) [PromptNone] maxAge (dr_now d) of
        Reuse chosen \<Rightarrow>
          (case find (\<lambda>(r, as). rs_id r = rs_id chosen) sessions of
             None \<Rightarrow> tfail (Thrown ''unreachable: decideReuse reused a session outside the resolved set'')
           | Some (r, authenticators) \<Rightarrow>
               tbind (atomically (authenticatorsSatisfyFlow (rs_subjectId chosen) authenticators)) (\<lambda>met.
               if met then reuse_session d t q cid chosen authenticators
               else if PromptNone \<in> set [PromptNone] then tret (rejected q ErrLoginRequired None)
               else show_login d t (q\<lparr>pr_maxAge := maxAge\<rparr>)))
      | Select candidates \<Rightarrow> show_chooser d (q\<lparr>pr_maxAge := maxAge\<rparr>) candidates
      | Authenticate \<Rightarrow> show_login d t (q\<lparr>pr_maxAge := maxAge\<rparr>)
      | RefuseReuse LoginRequired \<Rightarrow> tret (rejected q ErrLoginRequired None)
      | RefuseReuse AccountSelectionRequired \<Rightarrow> tret (rejected q ErrAccountSelectionRequired None))"
      using no [of "candidate_sessions q sessions" "dr_now d"]
      by (auto split: reuse_decision.splits reuse_error.splits
          intro!: yields_intros silent_reuse assms)
  qed
qed

lemma silent_admit:
  "yields no_page (admit_request d t raw ps c cfg q [PromptNone] hint maxAge header)"
proof -
  have create: "(PromptCreate \<in> set [PromptNone]) = False" by simp
  have prompt: "pr_prompt (parked_request q [PromptNone] l h a c) = Some [PromptNone]" for l h a c
    by (simp add: parked_request_def)
  show ?thesis
    unfolding admit_request_def Let_def create if_False
    by (intro yields_intros silent_answer prompt) simp_all
qed

section \<open>The request as a whole\<close>

lemma requested_scope: "tokens (pr_scope (toPendingRequest c ps uri st ch)) = requestedScopeTokens (param_of ''scope'' ps)"
  by (simp add: toPendingRequest_def requestedScopeTokens_def)

definition known_scopes :: "params \<Rightarrow> site \<Rightarrow> string list" where
  "known_scopes ps s = map cs_name (scope_byNames (requestedScopeTokens (param_of ''scope'' ps)) (si_store s))"

text \<open>A request that got past the boundary: its client, and what was decided below.\<close>

definition past_boundary ::
  "door_deps \<Rightarrow> json \<Rightarrow> site \<Rightarrow> params \<Rightarrow> string option \<Rightarrow> tenant \<Rightarrow> resolved_client \<Rightarrow> client \<Rightarrow> oidc_config
     \<Rightarrow> string \<Rightarrow> site \<Rightarrow> bool" where
  "past_boundary d raw s ps rep t r c cfg uri s1 \<longleftrightarrow>
     normalizeAuthorizeQuery raw = QueryOk ps rep \<and> enabled_tenant s = Some t
     \<and> (\<exists>i. param_of ''client_id'' ps = Some i
          \<and> resolveAuthorizeClient d t i (mcpAudienceOfIssuer (dp_issuer (dr_deps d))) s = (Inr r, s1))
     \<and> rc_client r = Some c \<and> rc_config r = Some cfg \<and> cl_enabled c
     \<and> isRegisteredRedirectUri (dr_URL d) uri (oc_redirectUris cfg) (cl_type c) (cl_registrationOrigin c)"

lemma handle_cases:
  assumes "handleAuthorizationRequest d raw header s = (Inr out, s')"
  obtains e desc where "out = RequestRender e desc"
  | ps rep t r c cfg uri s1 e desc where "past_boundary d raw s ps rep t r c cfg uri s1" "s' = s1"
      "out = RequestRedirect uri e (param_of ''state'' (asked_params r ps)) desc"
  | ps rep t r c cfg uri s1 q prompts hint maxAge where "past_boundary d raw s ps rep t r c cfg uri s1"
      "below_boundary c (asked_params r ps) (known_scopes (asked_params r ps) s1) (rc_scopes r) rep uri
         = AuthorizeOk q prompts hint maxAge"
      "admit_request d t raw ps c cfg q prompts hint maxAge header s1 = (Inr out, s')"
proof (cases "normalizeAuthorizeQuery raw")
  case (QueryRender e desc)
  with assms that(1) show ?thesis by (auto simp: handleAuthorizationRequest_def tret_run)
next
  case (QueryOk ps rep)
  show ?thesis
  proof (cases "enabled_tenant s")
    case None
    with assms QueryOk obtain o1 where o: "outcome_of o1 = Some out"
      "validateAuthorizationRequest (dr_URL d) ps None None [] [] rep = o1"
      by (auto simp: handleAuthorizationRequest_def tbind_Inr tget_run tsome_Inr)
    with validate_past_boundary [OF o(2)] show ?thesis
      by (cases o1) (auto intro: that(1))
  next
    case (Some t)
    let ?aud = "mcpAudienceOfIssuer (dp_issuer (dr_deps d))"
    from assms QueryOk Some obtain r s1 where
      r: "(case param_of ''client_id'' ps of None \<Rightarrow> tret NO_CLIENT
           | Some i \<Rightarrow> resolveAuthorizeClient d t i ?aud) s = (Inr r, s1)"
      and rest: "(case (validateAuthorizationRequest (dr_URL d) (asked_params r ps) (rc_client r)
                         (rc_config r) (known_scopes (asked_params r ps) s1) (rc_scopes r) rep,
                       rc_client r, rc_config r) of
                   (AuthorizeOk q prompts idTokenHint maxAge, Some client, Some config) \<Rightarrow>
                     admit_request d t raw ps client config q prompts idTokenHint maxAge header
                 | (outcome, _, _) \<Rightarrow> tsome (outcome_of outcome)
                     (Thrown ''unreachable: validateAuthorizationRequest succeeded with a null client'')) s1
        = (Inr out, s')"
      by (auto simp: handleAuthorizationRequest_def Let_def tbind_Inr tget_run known_scopes_def)
    let ?v = "validateAuthorizationRequest (dr_URL d) (asked_params r ps) (rc_client r)
       (rc_config r) (known_scopes (asked_params r ps) s1) (rc_scopes r) rep"
    show ?thesis
    proof (cases "\<exists>e desc. ?v = AuthorizeRender e desc")
      case True
      with rest that(1) show ?thesis by (auto simp: tsome_Inr)
    next
      case False
      then have "case ?v of AuthorizeRender e desc \<Rightarrow> False | _ \<Rightarrow> True"
        by (auto split: authorize_outcome.splits)
      from validate_past_boundary [OF refl this] obtain c cfg uri where
        v: "rc_client r = Some c" "cl_enabled c" "rc_config r = Some cfg"
          "isRegisteredRedirectUri (dr_URL d) uri (oc_redirectUris cfg) (cl_type c) (cl_registrationOrigin c)"
          "?v = below_boundary c (asked_params r ps) (known_scopes (asked_params r ps) s1) (rc_scopes r) rep uri"
        by blast
      from r v(1) obtain i where i: "param_of ''client_id'' ps = Some i"
        "resolveAuthorizeClient d t i ?aud s = (Inr r, s1)"
        by (cases "param_of ''client_id'' ps") (auto simp: tret_run NO_CLIENT_def)
      have past: "past_boundary d raw s ps rep t r c cfg uri s1"
        using QueryOk Some v(1-4) i unfolding past_boundary_def by blast
      show ?thesis
      proof (cases "?v")
        case (AuthorizeOk q prompts hint maxAge)
        with rest v(1,3) have "admit_request d t raw ps c cfg q prompts hint maxAge header s1 = (Inr out, s')"
          by simp
        with past AuthorizeOk v(5) that(3) show ?thesis by metis
      next
        case (AuthorizeRedirect u e st desc)
        with rest have "out = RequestRedirect u e st desc" "s' = s1" by (simp_all add: tsome_Inr)
        moreover from below_boundary_Redirect [of c "asked_params r ps"] AuthorizeRedirect v(5)
        have "u = uri" "st = param_of ''state'' (asked_params r ps)" by metis+
        ultimately show ?thesis using past that(2) by blast
      qed (use False in blast)
    qed
  qed
qed

section \<open>A code from a session the browser already has\<close>

text \<open>What a code minted without a login leaves: a row about that session, and its last activity.\<close>

definition code_from_session ::
  "door_deps \<Rightarrow> pending_request \<Rightarrow> string \<Rightarrow> string \<Rightarrow> time \<Rightarrow> string \<Rightarrow> site \<Rightarrow> site \<Rightarrow> bool" where
  "code_from_session d q cid sub at sid s s' \<longleftrightarrow> (\<exists>t. si_tenant s = Some t
     \<and> st_codes (si_store s') = st_codes (si_store s) @ [code_row d t (code_of_pending q cid sub at sid)]
     \<and> st_sessions (si_store s') = session_touch sid (dr_now d) (st_sessions (si_store s))
     \<and> si_attempts s' = si_attempts s \<and> si_consents s' = si_consents s)"

text \<open>What stands between a session and a code: the owner, the actions it owes and the consents.\<close>

definition reuse_passes :: "tenant \<Rightarrow> pending_request \<Rightarrow> string \<Rightarrow> string \<Rightarrow> string list \<Rightarrow> site \<Rightarrow> bool" where
  "reuse_passes t q cid sub as s \<longleftrightarrow> \<not> differs (pr_idTokenHintSubject q) sub \<and> \<not> differs (pr_claimsSubject q) sub
     \<and> refusedForUnverifiedEmail t sub s = None \<and> authenticatorsSatisfyFlow sub as s = (Inr True, s)
     \<and> (\<exists>owed s1. pendingActions sub s = (Inr owed, s1) \<and> nextRequiredAction owed = None)
     \<and> decideConsentGate cid sub (pr_scope q) (pr_prompt q) s = GateNotRequired"

lemma completeReuse_Inr:
  assumes "completeReuse d sid (code_of_pending q cid sub at sid) s = (Inr code, s')"
  shows "code = sg_newCode (dr_sign d) \<and> code_from_session d q cid sub at sid s s'"
proof -
  from assms obtain s1 where s1: "s1 = s\<lparr>si_store := (si_store s)\<lparr>st_sessions :=
      session_touch sid (dr_now d) (st_sessions (si_store s))\<rparr>\<rparr>"
    and k: "issueAuthorizationCode d (code_of_pending q cid sub at sid) s1 = (Inr code, s')"
    by (auto simp: completeReuse_def tx_simps sessions_tx_run)
  from issue_code_Inr [OF k] s1 show ?thesis by (auto simp: code_from_session_def)
qed

lemma code_from_session_before:
  assumes "code_from_session d q cid sub at sid s1 s'" "s1 = s\<lparr>si_actions := rows\<rparr>"
  shows "code_from_session d q cid sub at sid s s'"
  using assms by (simp add: code_from_session_def)

lemma satisfied_run: "authenticatorsSatisfyFlow sub as s = (Inr b, s') \<Longrightarrow> s' = s"
  by (auto simp: authenticatorsSatisfyFlow_def tbind_Inr tret_run loadSteps_run split: option.splits)

lemma reuse_consent_Reused:
  assumes "reuse_consent d q cid r as s = (Inr (RequestReused code uri st), s')"
  shows "decideConsentGate cid (rs_subjectId r) (pr_scope q) (pr_prompt q) s = GateNotRequired
    \<and> code = sg_newCode (dr_sign d) \<and> uri = pr_redirectUri q \<and> st = pr_state q
    \<and> code_from_session d q cid (rs_subjectId r) (rs_authTime r) (rs_id r) s s'"
  using assms unfolding reuse_consent_def
  by (auto simp: tbind_Inr tget_run tret_run rejected_def split: consent_gate.splits
      dest!: completeReuse_Inr)

lemma reuse_session_Reused:
  assumes "reuse_session d t q cid r as s = (Inr (RequestReused code uri st), s')"
    and met: "authenticatorsSatisfyFlow (rs_subjectId r) as s = (Inr True, s)"
  shows "reuse_passes t q cid (rs_subjectId r) as s \<and> code = sg_newCode (dr_sign d)
    \<and> uri = pr_redirectUri q \<and> st = pr_state q
    \<and> code_from_session d q cid (rs_subjectId r) (rs_authTime r) (rs_id r) s s'"
proof -
  from assms(1) obtain owed s1 where f: "\<not> differs (pr_idTokenHintSubject q) (rs_subjectId r)"
    "\<not> differs (pr_claimsSubject q) (rs_subjectId r)" "refusedForUnverifiedEmail t (rs_subjectId r) s = None"
    "pendingActions (rs_subjectId r) s = (Inr owed, s1)" "nextRequiredAction owed = None"
    and c: "reuse_consent d q cid r as s1 = (Inr (RequestReused code uri st), s')"
    unfolding reuse_session_def Let_def
    by (auto simp: tbind_Inr [of "tget g" for g] tbind_Inr [of "pendingActions j" for j]
        tbind_Inr [of "promoteToParkedRequest a b c e" for a b c e] tget_run tret_run tfail_run rejected_def
        split: if_splits option.splits)
  note ran = reuse_consent_Reused [OF c]
  from pendingActions_Inr(1) [OF f(4)] ran have "code_from_session d q cid (rs_subjectId r) (rs_authTime r) (rs_id r) s s'"
    using code_from_session_before by blast
  moreover have "decideConsentGate cid (rs_subjectId r) (pr_scope q) (pr_prompt q) s = GateNotRequired"
    using ran by (simp add: same_rest_reads(4) [OF pendingActions_Inr(2) [OF f(4)]])
  ultimately show ?thesis using f met ran unfolding reuse_passes_def by blast
qed

text \<open>A session the browser proved with its cookie, live, of a subject that is enabled.\<close>

definition proved_session :: "door_deps \<Rightarrow> tenant \<Rightarrow> string option \<Rightarrow> site \<Rightarrow> session \<Rightarrow> bool" where
  "proved_session d t header s row \<longleftrightarrow> row \<in> fst ` set (resolveSessions d t header s)
     \<and> subjectEnabled (ss_subjectId row) s"

lemma reusable_sessions_proved:
  "x \<in> set (reusable_sessions d t header s) \<Longrightarrow>
     \<exists>row. proved_session d t header s row \<and> x = toReusableSession row"
  by (auto simp: reusable_sessions_def proved_session_def)

lemma show_not_reused [simp]:
  "show_login d t q s \<noteq> (Inr (RequestReused code uri st), s')"
  "show_chooser d q cs s \<noteq> (Inr (RequestReused code uri st), s')"
  "show_registration d t q s \<noteq> (Inr (RequestReused code uri st), s')"
  by (auto simp: show_login_def show_chooser_def show_registration_def tbind_Inr tfail_run tret_run rejected_def
      split: auth_result.splits prod.splits if_splits)

text \<open>The primary key of the sessions; a proved session is one of them.\<close>

lemma proved_by_Some: "proved_by digest es row = Some en \<Longrightarrow>
    en \<in> set es \<and> toLowerCase (en_id en) = ss_id row \<and> entry_matches digest en (ss_secretHash row)"
  unfolding proved_by_def by (drule find_SomeD) simp

lemma live_entry_rows:
  assumes "(row, en) \<in> set (session_liveByEntries digest es life now rows)"
  shows "row \<in> set rows \<and> stillLive row life now \<and> proved_by digest es row = Some en"
  using assms unfolding session_liveByEntries_def
  by (auto simp: map_filter_mem split: if_splits option.splits)

definition browser_entries :: "door_deps \<Rightarrow> string option \<Rightarrow> session_entry list" where
  "browser_entries d header =
     (let entries = readSessionEntries header (dr_tenantName d) (dr_tls d) in fst entries @ snd entries)"

lemma resolveSessions_rows:
  assumes "(row, en) \<in> set (resolveSessions d t header s)"
  shows "row \<in> set (st_sessions (si_store s)) \<and> stillLive row (tn_lifespans t) (dr_now d)
    \<and> en \<in> set (browser_entries d header) \<and> toLowerCase (en_id en) = ss_id row
    \<and> entry_matches (dr_digest d) en (ss_secretHash row)"
proof -
  from assms have "(row, en) \<in> set (session_liveByEntries (dr_digest d) (browser_entries d header)
      (tn_lifespans t) (dr_now d) (st_sessions (si_store s)))"
    by (simp add: resolveSessions_def browser_entries_def Let_def)
  from live_entry_rows [OF this] proved_by_Some show ?thesis by blast
qed

lemma proved_session_by_id:
  assumes "distinct (map ss_id (st_sessions (si_store s)))"
    "proved_session d t header s a" "proved_session d t header s b" "ss_id a = ss_id b"
  shows "a = b"
  using assms resolveSessions_rows unfolding proved_session_def
  by (metis (no_types, lifting) imageE inj_onD distinct_map prod.collapse)

lemma answer_Reused:
  assumes "answer_from_sessions d t q cid maxAge header s = (Inr (RequestReused code uri st), s')"
    and key: "distinct (map ss_id (st_sessions (si_store s)))"
  shows "\<exists>row. proved_session d t header s row \<and> withinMaxAge (ss_createdAt row) maxAge (dr_now d)
    \<and> PromptLogin \<notin> set (coalesce (pr_prompt q) []) \<and> PromptSelectAccount \<notin> set (coalesce (pr_prompt q) [])
    \<and> reuse_passes t q cid (ss_subjectId row) (ss_authenticators row) s \<and> code = sg_newCode (dr_sign d)
    \<and> uri = pr_redirectUri q \<and> st = pr_state q
    \<and> code_from_session d q cid (ss_subjectId row) (ss_createdAt row) (ss_id row) s s'"
proof -
  let ?all = "reusable_sessions d t header s" and ?prompts = "coalesce (pr_prompt q) []"
  let ?dec = "decideReuse (candidate_sessions q ?all) ?prompts maxAge (dr_now d)"
  from assms(1) obtain chosen where c: "?dec = Reuse chosen"
    and f: "(case find (\<lambda>(r, as). rs_id r = rs_id chosen) ?all of
                None \<Rightarrow> tfail (Thrown ''unreachable: decideReuse reused a session outside the resolved set'')
              | Some (r, authenticators) \<Rightarrow>
                  tbind (atomically (authenticatorsSatisfyFlow (rs_subjectId chosen) authenticators)) (\<lambda>met.
                  if met then reuse_session d t q cid chosen authenticators
                  else if PromptNone \<in> set ?prompts then tret (rejected q ErrLoginRequired None)
                  else show_login d t (q\<lparr>pr_maxAge := maxAge\<rparr>))) s = (Inr (RequestReused code uri st), s')"
    unfolding answer_from_sessions_def Let_def
    by (auto simp: tbind_Inr [of "tget g" for g] tget_run tret_run rejected_def
        split: reuse_decision.splits reuse_error.splits)
  from decideReuse_Reuse [OF c] have one: "filter (\<lambda>x. withinMaxAge (rs_authTime x) maxAge (dr_now d))
      (candidate_sessions q ?all) = [chosen]"
    and prompts: "PromptLogin \<notin> set ?prompts" "PromptSelectAccount \<notin> set ?prompts" by auto
  then have "chosen \<in> set (filter (\<lambda>x. withinMaxAge (rs_authTime x) maxAge (dr_now d)) (candidate_sessions q ?all))"
    by simp
  then have "chosen \<in> fst ` set ?all" and age: "withinMaxAge (rs_authTime chosen) maxAge (dr_now d)"
    by (auto simp: candidate_sessions_def)
  then obtain row where row: "proved_session d t header s row" "chosen = fst (toReusableSession row)"
    using reusable_sessions_proved by fastforce
  from f obtain r as where r: "(r, as) \<in> set ?all" "rs_id r = rs_id chosen"
    and g: "tbind (atomically (authenticatorsSatisfyFlow (rs_subjectId chosen) as)) (\<lambda>met.
                  if met then reuse_session d t q cid chosen as
                  else if PromptNone \<in> set ?prompts then tret (rejected q ErrLoginRequired None)
                  else show_login d t (q\<lparr>pr_maxAge := maxAge\<rparr>)) s = (Inr (RequestReused code uri st), s')"
    by (cases "find (\<lambda>(r, as). rs_id r = rs_id chosen) ?all") (auto simp: tfail_run dest!: find_SomeD)
  from reusable_sessions_proved [OF r(1)] obtain row' where
    row': "proved_session d t header s row'" "(r, as) = toReusableSession row'" by auto
  with r(2) row(2) have "ss_id row' = ss_id row" by (auto simp: toReusableSession_def)
  from proved_session_by_id [OF key row'(1) row(1) this] row'(2) have as: "as = ss_authenticators row"
    by (simp add: toReusableSession_def)
  from g obtain s1 where met: "authenticatorsSatisfyFlow (rs_subjectId chosen) as s = (Inr True, s1)"
    and u: "reuse_session d t q cid chosen as s1 = (Inr (RequestReused code uri st), s')"
    by (auto simp: tbind_Inr [of "atomically m" for m] atomically_Inr tret_run rejected_def split: if_splits)
  from satisfied_run [OF met] have s1: "s1 = s" .
  have chosen: "rs_subjectId chosen = ss_subjectId row" "rs_authTime chosen = ss_createdAt row" "rs_id chosen = ss_id row"
    by (simp_all add: row(2) toReusableSession_def)
  from reuse_session_Reused [OF u [unfolded s1] met [unfolded s1]] row(1) prompts age show ?thesis
    unfolding chosen as by blast
qed

lemma parked_request_keeps [simp]:
  "pr_redirectUri (parked_request q p l h a c) = pr_redirectUri q" "pr_state (parked_request q p l h a c) = pr_state q"
  "pr_scope (parked_request q p l h a c) = pr_scope q" "pr_clientId (parked_request q p l h a c) = pr_clientId q"
  "pr_codeChallenge (parked_request q p l h a c) = pr_codeChallenge q" "pr_prompt (parked_request q p l h a c) = Some p"
  "pr_resource (parked_request q p l h a c) = Some a" "pr_nonce (parked_request q p l h a c) = pr_nonce q"
  "pr_idTokenHintSubject (parked_request q p l h a c) = h" "pr_reuseSessionId (parked_request q p l h a c) = pr_reuseSessionId q"
  by (simp_all add: parked_request_def)

text \<open>Naming a client changes no session, where fetching its document does not.\<close>

lemma resolve_sessions:
  assumes "resolveAuthorizeClient d t i aud s = (Inr r, s1)"
    "\<And>f i g x s1. dr_refreshCimd d = Some f \<Longrightarrow> f i g s = (x, s1) \<Longrightarrow>
       st_sessions (si_store s1) = st_sessions (si_store s)"
  shows "st_sessions (si_store s1) = st_sessions (si_store s)"
  using assms(1)
  by (auto simp: resolveAuthorizeClient_def tbind_Inr tget_run tret_run dest: assms(2) split: option.splits if_splits)

text \<open>The audience, scopes, claims and hint a request is admitted with.\<close>

definition admitted_as ::
  "door_deps \<Rightarrow> tenant \<Rightarrow> json \<Rightarrow> params \<Rightarrow> client \<Rightarrow> oidc_config \<Rightarrow> pending_request \<Rightarrow> prompt_value list
     \<Rightarrow> string option \<Rightarrow> int option \<Rightarrow> site \<Rightarrow> pending_request \<Rightarrow> bool" where
  "admitted_as d t raw ps c cfg q prompts hint maxAge s q' \<longleftrightarrow> (\<exists>audience asked h.
     parseResource (dr_URL d) (resourceParam raw) (audiencesHeld (dr_URL d) (cl_registrationOrigin c)
       (policy_name (tn_clientRegistrationPolicy t)) (oc_audiences cfg)
       (mcpAudienceOfIssuer (dp_issuer (dr_deps d)))) = ResourceOk audience
     \<and> \<not> refusesWriteScope (cl_registrationOrigin c) (tokens (pr_scope q))
     \<and> scopesCoherentWithAudience (tokens (pr_scope q)) audience
         (mcpAudienceOfIssuer (dp_issuer (dr_deps d))) ADMIN_API_AUDIENCE
     \<and> parseClaimsRequest (dr_JSON d) (param_of ''claims'' ps) = ClaimsOk asked
     \<and> (case hint of None \<Rightarrow> h = None
          | Some token \<Rightarrow> \<exists>hc. subjectOfAuthorizeHint (dp_platform (dr_deps d))
              (key_listPublishable (st_keys (si_store s))) (dp_acceptedIssuers (dr_deps d)) token
              (pr_clientId q) = Some hc \<and> h = Some (hc_subject hc))
     \<and> q' = parked_request q prompts (parseUiLocales (param_of ''ui_locales'' ps)) h audience
         (claims_with_auth_time (js_or_else maxAge (oc_defaultMaxAge cfg)) asked))"

lemma admit_Reused:
  assumes "admit_request d t raw ps c cfg q prompts hint maxAge header s = (Inr (RequestReused code uri st), s')"
  shows "\<exists>q'. admitted_as d t raw ps c cfg q prompts hint maxAge s q' \<and> PromptCreate \<notin> set prompts
    \<and> answer_from_sessions d t q' (cl_id c) (js_or_else maxAge (oc_defaultMaxAge cfg)) header s
        = (Inr (RequestReused code uri st), s')"
proof -
  let ?mcp = "mcpAudienceOfIssuer (dp_issuer (dr_deps d))" and ?age = "js_or_else maxAge (oc_defaultMaxAge cfg)"
  let ?hint = "map_option (\<lambda>h. subjectOfAuthorizeHint (dp_platform (dr_deps d))
      (key_listPublishable (st_keys (si_store s))) (dp_acceptedIssuers (dr_deps d)) h (pr_clientId q)) hint"
  from assms obtain audience asked where
    a: "parseResource (dr_URL d) (resourceParam raw) (audiencesHeld (dr_URL d) (cl_registrationOrigin c)
       (policy_name (tn_clientRegistrationPolicy t)) (oc_audiences cfg) ?mcp) = ResourceOk audience"
      "\<not> refusesWriteScope (cl_registrationOrigin c) (tokens (pr_scope q))"
      "scopesCoherentWithAudience (tokens (pr_scope q)) audience ?mcp ADMIN_API_AUDIENCE"
      "parseClaimsRequest (dr_JSON d) (param_of ''claims'' ps) = ClaimsOk asked" "?hint \<noteq> Some None"
    and create: "PromptCreate \<notin> set prompts"
    and run: "answer_from_sessions d t (parked_request q prompts (parseUiLocales (param_of ''ui_locales'' ps))
        (case ?hint of Some (Some h) \<Rightarrow> Some (hc_subject h) | _ \<Rightarrow> None) audience (claims_with_auth_time ?age asked))
        (cl_id c) ?age header s = (Inr (RequestReused code uri st), s')"
    unfolding admit_request_def Let_def
    by (auto simp: tbind_Inr [of "tget g" for g] tget_run tret_run rejected_def
        split: resource_outcome.splits claims_outcome.splits if_splits)
  have "case hint of None \<Rightarrow> (case ?hint of Some (Some h) \<Rightarrow> Some (hc_subject h) | _ \<Rightarrow> None) = None
      | Some token \<Rightarrow> \<exists>hc. subjectOfAuthorizeHint (dp_platform (dr_deps d))
          (key_listPublishable (st_keys (si_store s))) (dp_acceptedIssuers (dr_deps d)) token (pr_clientId q) = Some hc
          \<and> (case ?hint of Some (Some h) \<Rightarrow> Some (hc_subject h) | _ \<Rightarrow> None) = Some (hc_subject hc)"
    using a(5) by (cases hint) auto
  with a have "admitted_as d t raw ps c cfg q prompts hint maxAge s (parked_request q prompts
      (parseUiLocales (param_of ''ui_locales'' ps)) (case ?hint of Some (Some h) \<Rightarrow> Some (hc_subject h) | _ \<Rightarrow> None)
      audience (claims_with_auth_time ?age asked))"
    unfolding admitted_as_def by blast
  with run create show ?thesis by blast
qed

section \<open>The account chooser\<close>

lemma started_login_other [simp]: "started_login d t i q s \<noteq> (Inr (RequestReused code uri st), s')"
  by (auto simp: started_login_def tbind_Inr tfail_run tret_run rejected_def split: auth_result.splits)

lemma chosen_consent_Reused:
  assumes "chosen_consent d i q cid row s = (Inr (RequestReused code uri st), s')"
  shows "decideConsentGate cid (ss_subjectId row) (pr_scope q) (pr_prompt q) s = GateNotRequired
    \<and> code = sg_newCode (dr_sign d) \<and> uri = pr_redirectUri q \<and> st = pr_state q
    \<and> code_from_session d q cid (ss_subjectId row) (ss_createdAt row) (ss_id row) s s'"
  using assms unfolding chosen_consent_def
  by (auto simp: tbind_Inr tget_run tret_run rejected_def split: consent_gate.splits dest!: completeReuse_Inr)

lemma chosen_Reused:
  assumes "chosen_session d t i q cid row s = (Inr (RequestReused code uri st), s')"
  shows "subjectEnabled (ss_subjectId row) s
    \<and> reuse_passes t q cid (ss_subjectId row) (ss_authenticators row) s \<and> code = sg_newCode (dr_sign d)
    \<and> uri = pr_redirectUri q \<and> st = pr_state q
    \<and> code_from_session d q cid (ss_subjectId row) (ss_createdAt row) (ss_id row) s s'"
proof -
  let ?sub = "ss_subjectId row" and ?as = "ss_authenticators row"
  from assms have f: "\<not> differs (pr_idTokenHintSubject q) ?sub" "\<not> differs (pr_claimsSubject q) ?sub"
      "refusedForUnverifiedEmail t ?sub s = None" "subjectEnabled ?sub s"
    and g: "tbind (atomically (authenticatorsSatisfyFlow ?sub ?as)) (\<lambda>met.
               if \<not> met then started_login d t i q
               else tbind (pendingActions ?sub) (\<lambda>owed.
                 case nextRequiredAction owed of
                   Some action \<Rightarrow>
                     tbind (markAuthenticated d i ?sub ?as) (\<lambda>_. tret (RequestOwes i ?sub action))
                 | None \<Rightarrow> chosen_consent d i q cid row)) s = (Inr (RequestReused code uri st), s')"
    unfolding chosen_session_def Let_def
    by (auto simp: tbind_Inr [of "tget g" for g] tget_run tret_run rejected_def split: if_splits)
  from g obtain s1 where met: "authenticatorsSatisfyFlow ?sub ?as s = (Inr True, s1)"
    and h: "tbind (pendingActions ?sub) (\<lambda>owed.
                 case nextRequiredAction owed of
                   Some action \<Rightarrow>
                     tbind (markAuthenticated d i ?sub ?as) (\<lambda>_. tret (RequestOwes i ?sub action))
                 | None \<Rightarrow> chosen_consent d i q cid row) s1 = (Inr (RequestReused code uri st), s')"
    by (auto simp: tbind_Inr [of "atomically m" for m] atomically_Inr split: if_splits)
  from satisfied_run [OF met] h obtain owed s2 where
    p: "pendingActions ?sub s = (Inr owed, s2)" "nextRequiredAction owed = None"
    and c: "chosen_consent d i q cid row s2 = (Inr (RequestReused code uri st), s')"
    by (auto simp: tbind_Inr tret_run split: option.splits)
  note ran = chosen_consent_Reused [OF c]
  from pendingActions_Inr(1) [OF p(1)] ran
  have "code_from_session d q cid ?sub (ss_createdAt row) (ss_id row) s s'"
    using code_from_session_before by blast
  moreover have "decideConsentGate cid ?sub (pr_scope q) (pr_prompt q) s = GateNotRequired"
    using ran by (simp add: same_rest_reads(4) [OF pendingActions_Inr(2) [OF p(1)]])
  ultimately show ?thesis
    using f p met [unfolded satisfied_run [OF met]] ran unfolding reuse_passes_def by blast
qed

lemma select_Reused:
  assumes "handleSelectAccountSubmission d a ans header s = (Inr (RequestReused code uri st), s')"
  shows "\<exists>i t q cid row. a = Some i \<and> isUuid i \<and> si_tenant s = Some t \<and> tn_enabled t \<and> \<not> sa_useOther ans
    \<and> pendingSession i (dr_now d) (si_attempts s) = Some q \<and> resolveClientId (pr_clientId q) s = Some cid
    \<and> proved_session d t header s row \<and> sa_sessionId ans = Some (ss_id row)
    \<and> withinMaxAge (ss_createdAt row) (pr_maxAge q) (dr_now d)
    \<and> reuse_passes t q cid (ss_subjectId row) (ss_authenticators row) s \<and> code = sg_newCode (dr_sign d)
    \<and> uri = pr_redirectUri q \<and> st = pr_state q
    \<and> code_from_session d q cid (ss_subjectId row) (ss_createdAt row) (ss_id row) s s'"
proof -
  from assms obtain i t q cid row where
    i: "a = Some i" "isUuid i" "enabled_tenant s = Some t" "\<not> sa_useOther ans"
      "pendingSession i (dr_now d) (si_attempts s) = Some q" "resolveClientId (pr_clientId q) s = Some cid"
      "find (\<lambda>row. Some (ss_id row) = sa_sessionId ans) (map fst (resolveSessions d t header s)) = Some row"
      "withinMaxAge (ss_createdAt row) (pr_maxAge q) (dr_now d)"
    and c: "chosen_session d t i q cid row s = (Inr (RequestReused code uri st), s')"
    unfolding handleSelectAccountSubmission_def
    by (auto simp: tbind_Inr [of "tget g" for g] tget_run tret_run split: option.splits if_splits)
  from i(3) have "si_tenant s = Some t" "tn_enabled t"
    by (auto simp: enabled_tenant_def split: option.splits if_splits)
  moreover from find_SomeD [OF i(7)] have "row \<in> fst ` set (resolveSessions d t header s)"
    "sa_sessionId ans = Some (ss_id row)" by auto
  ultimately show ?thesis using i chosen_Reused [OF c] unfolding proved_session_def by blast
qed

end
