(* ===== verification/Door_Trace.thy ===== *)
theory Door_Trace
  imports Request_Facts
begin

text \<open>
  The doors over time. A parked attempt yields one code at most, in any order of login forms,
  consent forms and whatever else the program does (a trace with the codes counted); a login whose
  gates are all open does reach the client (the run is computed forwards); and the code it leaves
  can be redeemed.
\<close>

section \<open>An attempt that is spent stays spent\<close>

abbreviation spent_in :: "string \<Rightarrow> site \<Rightarrow> bool" where
  "spent_in i s \<equiv> attempt_spent i (si_attempts s)"

lemma spent_parked: "map parked_part (si_attempts s1) = map parked_part (si_attempts s) \<Longrightarrow> spent_in i s1 = spent_in i s"
  using completable_of_parked [of s1 s i] not_completable by blast

lemma spent_same_rest: "same_rest s s1 \<Longrightarrow> spent_in i s1 = spent_in i s"
  by (rule spent_parked) (simp add: same_rest_def)

text \<open>A transaction that is rolled back where it throws keeps what it keeps where it does not.\<close>

lemma keeps_committed:
  assumes "\<And>s x s'. I s \<Longrightarrow> m s = (Inr x, s') \<Longrightarrow> I s'"
  shows "keeps I (atomically m)"
  unfolding keeps_def atomically_def using assms by (auto split: prod.splits sum.splits)

lemma spent_of_marks:
  assumes "map (\<lambda>r. (at_id r, at_consumedAt r)) rows' = map (\<lambda>r. (at_id r, at_consumedAt r)) rows"
  shows "attempt_spent i rows' = attempt_spent i rows"
proof -
  have "attempt_spent i xs \<longleftrightarrow>
      (\<forall>(k, c) \<in> set (map (\<lambda>r. (at_id r, at_consumedAt r)) xs). k = toLowerCase i \<longrightarrow> c \<noteq> None)" for xs
    by (auto simp: attempt_spent_def)
  then show ?thesis by (simp only: assms)
qed

lemma remember_spent: "attempt_spent i (attempt_recordRememberMe j b rows) = attempt_spent i rows"
  by (rule spent_of_marks) (simp add: attempt_recordRememberMe_def update_where_def)

lemma reset_spent: "attempt_spent i (resetProgress j rows) = attempt_spent i rows"
  by (rule spent_of_marks) (simp add: resetProgress_def update_where_def)

lemma consume_spent: "attempt_spent i rows \<Longrightarrow> attempt_spent i (snd (attempt_consume j now rows))"
  by (auto simp: attempt_consume_def Let_def attempt_spent_def set_update_where)

lemma completeLogin_spent: "keeps (spent_in i) (completeLogin d k)"
proof -
  have body: "keeps (spent_in i) (atomically (completeLogin d k))"
  proof (rule keeps_committed)
    fix s out s' assume s: "spent_in i s" and run: "completeLogin d k s = (Inr out, s')"
    show "spent_in i s'"
    proof (cases out)
      case (Issued sid code entry)
      from completeLogin_Issued [OF run [unfolded Issued]] s show ?thesis by (auto simp: consume_spent)
    qed (use completeLogin_other(1) [OF run] s in auto)
  qed
  moreover have "atomically (completeLogin d k) = completeLogin d k"
    by (intro ext) (auto simp: completeLogin_def atomically_def split: prod.splits sum.splits)
  ultimately show ?thesis by simp
qed

lemma door_leaves_spent [keeps_intros]:
  "keeps (spent_in i) (recordRememberMe j b)"
  "keeps (spent_in i) (resetAuthenticationProgress j)"
  "keeps (spent_in i) (pendingActions k)"
  "keeps (spent_in i) (atomically (recordConsent k c ids))"
  "keeps (spent_in i) (atomically (advance dd j input))"
  "keeps (spent_in i) (atomically (authenticatedSession dd j))"
  "keeps (spent_in i) (located d uri ps)"
  "keeps (spent_in i) (completeAuthorizedLogin d t j q cid k auths header rem)"
proof -
  show "keeps (spent_in i) (recordRememberMe j b)" "keeps (spent_in i) (resetAuthenticationProgress j)"
    by (auto simp: keeps_def recordRememberMe_def resetAuthenticationProgress_def table_tx_runs
        remember_spent reset_spent)
  have "atomically (pendingActionsFor k) s = (Inr x, s') \<Longrightarrow> spent_in i s' = spent_in i s" for s x s'
    using pendingActions_Inr(2) spent_same_rest unfolding pendingActions_def by blast
  then show "keeps (spent_in i) (pendingActions k)"
    unfolding pendingActions_def by (intro keeps_committed) (simp add: atomically_Inr)
  show "keeps (spent_in i) (atomically (recordConsent k c ids))"
    by (rule keeps_committed) (auto dest!: recordConsent_Inr(1))
  show "keeps (spent_in i) (atomically (advance dd j input))"
    by (rule keeps_committed) (simp add: spent_same_rest [OF advance_rest])
  show "keeps (spent_in i) (atomically (authenticatedSession dd j))"
  proof (rule keeps_committed)
    fix s x s' assume "spent_in i s" "authenticatedSession dd j s = (Inr x, s')"
    then show "spent_in i s'"
      unfolding authenticatedSession_def
      by (auto simp: tbind_Inr tget_run tret_run dest: satisfied_run split: option.splits if_splits)
  qed
  have located: "keeps (spent_in i) (located d uri' ps')" for uri' ps'
    unfolding located_def by (intro keeps_intros)
  then show "keeps (spent_in i) (located d uri ps)" .
  have "keeps (spent_in i) (completed_answer d t j q header rem out)" for out
    unfolding completed_answer_def
    by (cases out) (auto intro!: keeps_intros located)
  then show "keeps (spent_in i) (completeAuthorizedLogin d t j q cid k auths header rem)"
    unfolding completeAuthorizedLogin_def by (intro keeps_intros completeLogin_spent)
qed

lemma keeps_door_outcomes [keeps_intros]:
  "keeps I g1 \<Longrightarrow> (\<And>p. keeps I (g2 p)) \<Longrightarrow> keeps I g3 \<Longrightarrow>
     keeps I (case gt of GateNotRequired \<Rightarrow> g1 | GateAsk p \<Rightarrow> g2 p | GateRefuse \<Rightarrow> g3)"
  "(\<And>j as. keeps I (a1 j as)) \<Longrightarrow> (\<And>f. keeps I (a2 f)) \<Longrightarrow> (\<And>x. keeps I (a3 x)) \<Longrightarrow>
     keeps I (case ao of AdvanceSuccess j as \<Rightarrow> a1 j as | AdvanceChallenge f \<Rightarrow> a2 f | AdvanceFailure x \<Rightarrow> a3 x)"
  by (simp_all split: consent_gate.splits advance_outcome.splits)

lemma login_gate_spent: "keeps (spent_in i) (login_consent_gate d t j q sub auths u header rem cid)"
proof -
  have "keeps (spent_in i) (case c of Reject k refusal v \<Rightarrow>
      tbind (resetAuthenticationProgress j) (\<lambda>_. tret (with_username u c)) | _ \<Rightarrow> tret c)" for c
    by (cases c) (auto intro!: keeps_intros)
  then show ?thesis unfolding login_consent_gate_def errorRedirect_def by (intro keeps_intros)
qed

lemma doors_spent:
  "keeps (spent_in i) (handleLoginSubmission d a input header rm)"
  "keeps (spent_in i) (handleConsentSubmission d a ans header)"
  unfolding handleLoginSubmission_def login_answer_def login_gates_def handleConsentSubmission_def
    consent_gates_def consent_allowed_def errorRedirect_def
  by (intro keeps_intros login_gate_spent)+

section \<open>One code for each attempt\<close>

text \<open>A form of the login or consent page, with what the environment draws for it.\<close>

datatype door_form =
    LoginForm door_deps "string option" advance_input "string option" bool
  | ConsentForm door_deps "string option" consent_answer "string option"

fun posted :: "door_form \<Rightarrow> login_outcome site_tx" where
  "posted (LoginForm d a input header rm) = handleLoginSubmission d a input header rm"
| "posted (ConsentForm d a ans header) = handleConsentSubmission d a ans header"

fun attempt_of :: "door_form \<Rightarrow> string option" where
  "attempt_of (LoginForm d a input header rm) = a"
| "attempt_of (ConsentForm d a ans header) = a"

definition code_for :: "string \<Rightarrow> door_form \<Rightarrow> exn + login_outcome \<Rightarrow> bool" where
  "code_for i f r \<longleftrightarrow> (\<exists>lr. r = Inr (Redirect lr)) \<and> map_option toLowerCase (attempt_of f) = Some (toLowerCase i)"

inductive door_trace :: "string \<Rightarrow> site \<Rightarrow> nat \<Rightarrow> site \<Rightarrow> bool" for i where
  nothing: "door_trace i s 0 s"
| form: "door_trace i s n s1 \<Longrightarrow> posted f s1 = (r, s2) \<Longrightarrow>
    door_trace i s (n + (if code_for i f r then 1 else 0)) s2"
| elsewhere: "door_trace i s n s1 \<Longrightarrow> (spent_in i s1 \<longrightarrow> spent_in i s2) \<Longrightarrow> door_trace i s n s2"

inductive_cases door_traceE: "door_trace i s n s'"

lemma posted_spent: "posted f s = (r, s') \<Longrightarrow> spent_in i s \<Longrightarrow> spent_in i s'"
  by (cases f) (auto intro: keepsD [OF doors_spent(1)] keepsD [OF doors_spent(2)])

lemma spent_lower: "toLowerCase j = toLowerCase i \<Longrightarrow> attempt_spent j rows = attempt_spent i rows"
  by (simp add: attempt_spent_def)

lemma posted_code:
  assumes "posted f s = (r, s')" "code_for i f r"
  shows "\<not> spent_in i s \<and> spent_in i s'"
proof -
  from assms(2) obtain lr j where lr: "r = Inr (Redirect lr)" "attempt_of f = Some j" "toLowerCase j = toLowerCase i"
    by (auto simp: code_for_def)
  have "\<exists>k cid sub q. minted_by k j q cid sub (lr_sessionId lr) s s'"
  proof (cases f)
    case (LoginForm d a input header rm)
    with assms(1) lr(1,2) have "handleLoginSubmission d (Some j) input header rm s = (Inr (Redirect lr), s')" by simp
    from login_Redirect [OF this] show ?thesis by blast
  next
    case (ConsentForm d a ans header)
    with assms(1) lr(1,2) have "handleConsentSubmission d (Some j) ans header s = (Inr (Redirect lr), s')" by simp
    from consent_Redirect [OF this] show ?thesis by blast
  qed
  then have "completable j s" "spent_in j s'" by (auto simp: minted_by_def)
  with not_completable [of j s] spent_lower [OF lr(3)] show ?thesis by simp
qed

lemma door_trace_codes:
  assumes "door_trace i s n s'"
  shows "n \<le> 1 \<and> (n = 1 \<longrightarrow> spent_in i s') \<and> (spent_in i s \<longrightarrow> n = 0 \<and> spent_in i s')"
  using assms
proof (induction rule: door_trace.induct)
  case (form s n s1 f r s2)
  with posted_code [OF form.hyps(2)] posted_spent [OF form.hyps(2)] show ?case
    by (cases "code_for i f r") (auto simp: le_Suc_eq)
qed auto

section \<open>A login that reaches the client\<close>

text \<open>The trail takes every row that is well formed; the events a login writes are.\<close>

lemma session_events_valid:
  "validatedRow (eviction_event row) = Inr (eviction_event row)"
  "validatedRow (session_event k c i) = Inr (session_event k c i)"
proof -
  have known: "assertActionKnown ''session'' ''session.ended'' = None"
    "assertActionKnown ''session'' ''session.created'' = None" by code_simp+
  have detail: "assertDetailAllowed ''session.ended'' [(''via'', JStr ''evicted'')] = None"
    "assertDetailAllowed ''session.created'' [] = None" by code_simp+
  show "validatedRow (eviction_event row) = Inr (eviction_event row)"
    "validatedRow (session_event k c i) = Inr (session_event k c i)"
    by (simp_all add: validatedRow_def eviction_event_def session_event_def known detail)
qed

lemma admitSession_succeeds:
  assumes "\<And>row. \<not> dp_auditRefused d row" "en_id entry \<notin> ss_id ` set (st_sessions s)"
    "has_subject s (ad_subjectId input)"
  shows "\<exists>st. admitSession d digest entry input s = (Inr entry, st)"
proof -
  let ?ev = "chooseEvictions (map fst (session_liveByEntries digest (ad_browserSessions input)
    (ad_lifespans input) (dp_now d) (st_sessions s))) (ad_maxSessionsPerBrowser input)"
  let ?es = "map eviction_event (filter (\<lambda>r. ss_id r \<in> set ?ev)
    (map fst (session_liveByEntries digest (ad_browserSessions input) (ad_lifespans input) (dp_now d) (st_sessions s))))"
  let ?rows = "session_endMany ?ev (dp_now d) (st_sessions s)"
  have "map ss_id ?rows = map ss_id (st_sessions s)"
    by (simp add: session_endMany_def update_where_def)
  then have ids: "ss_id ` set ?rows = ss_id ` set (st_sessions s)" by (metis list.set_map)
  from record_succeeds [OF assms(1), of ?es "s\<lparr>st_sessions := ?rows\<rparr>"] session_events_valid(1) obtain au where
    au: "audit_recordAll d ?es (s\<lparr>st_sessions := ?rows\<rparr>) = (Inr (), s\<lparr>st_sessions := ?rows, st_audit := au\<rparr>)"
    by auto
  have "ss_id (session_row (dp_dbNow d) v) = ns_id v" for v by (simp add: session_row_def)
  then have c: "session_create (dp_dbNow d) v (s\<lparr>st_sessions := ?rows, st_audit := au\<rparr>)
      = (Inr (), s\<lparr>st_sessions := ?rows @ [session_row (dp_dbNow d) v], st_audit := au\<rparr>)"
    if "ns_id v = en_id entry" "ns_subjectId v = ad_subjectId input" for v
    using that assms(2,3) ids by (simp add: session_create_def insert_row_def has_subject_def)
  show ?thesis
    unfolding admitSession_def Let_def establishSession_def
    by (simp add: tbind_def au tret_def c)
qed

text \<open>What a finished login needs: an owner, the parked attempt, and names nobody has taken.\<close>

definition login_ready :: "door_deps \<Rightarrow> string \<Rightarrow> string \<Rightarrow> string \<Rightarrow> site \<Rightarrow> bool" where
  "login_ready d i cid sub s \<longleftrightarrow> subjectEnabled sub s \<and> completable i s \<and> has_client (si_store s) cid
     \<and> en_id (sg_entry (dr_sign d)) \<notin> ss_id ` set (st_sessions (si_store s))
     \<and> hash_token (dr_deps d) (sg_newCode (dr_sign d)) \<notin> ac_codeHash ` set (st_codes (si_store s))
     \<and> (\<exists>t. si_tenant s = Some t)"

lemma enabled_has_subject: "subjectEnabled sub s \<Longrightarrow> has_subject (si_store s) sub"
  by (auto simp: subjectEnabled_def subjectIsEnabled_def subject_byId_def has_subject_def dest!: find_SomeD
      split: option.splits)

lemma completeLogin_succeeds:
  assumes ready: "login_ready d (cm_authSessionId k) (cm_clientId k) (cm_subjectId k) s"
    and trail: "\<And>row. \<not> dp_auditRefused (dr_deps d) row" and new: "cm_reuse k = None"
  shows "\<exists>s'. completeLogin d k s = (Inr (Issued (en_id (sg_entry (dr_sign d))) (sg_newCode (dr_sign d))
    (Some (sg_entry (dr_sign d)))), s')"
proof -
  let ?entry = "sg_entry (dr_sign d)" and ?sub = "cm_subjectId k"
  let ?s1 = "s\<lparr>si_attempts := snd (attempt_consume (cm_authSessionId k) (dr_now d) (si_attempts s))\<rparr>"
  let ?in = "\<lparr>ad_subjectId = ?sub, ad_authenticators = cm_authenticators k,
             ad_remembered = cm_remembered k, ad_browserSessions = cm_browserSessions k,
             ad_maxSessionsPerBrowser = cm_maxSessionsPerBrowser k, ad_lifespans = cm_lifespans k\<rparr>"
  from ready have pre: "subjectEnabled ?sub s" "completable (cm_authSessionId k) s" "has_client (si_store s) (cm_clientId k)"
    "en_id ?entry \<notin> ss_id ` set (st_sessions (si_store s))"
    "hash_token (dr_deps d) (sg_newCode (dr_sign d)) \<notin> ac_codeHash ` set (st_codes (si_store s))"
    by (auto simp: login_ready_def)
  from ready obtain t where t: "si_tenant s = Some t" by (auto simp: login_ready_def)
  from admitSession_succeeds [OF trail pre(4), where input = ?in] enabled_has_subject [OF pre(1)] obtain st1 where
    a: "admitSession (dr_deps d) (dr_digest d) ?entry ?in (si_store s) = (Inr ?entry, st1)" by auto
  from record_one_succeeds [OF trail session_events_valid(2)] obtain au where
    r: "audit_record (dr_deps d) (session_event ?sub (cm_clientId k) (en_id ?entry)) st1 = (Inr (), st1\<lparr>st_audit := au\<rparr>)"
    by blast
  let ?s2 = "?s1\<lparr>si_store := st1\<lparr>st_audit := au\<rparr>\<rparr>"
  have m: "session_of_login d k ?s1 = (Inr (en_id ?entry, dr_now d, Some ?entry), ?s2)"
    by (simp add: session_of_login_def new tbind_def on_store_def a r tret_def)
  from sessions_written_rest [OF admitSession_written [OF a, THEN conjunct2]]
  have same: "st_codes st1 = st_codes (si_store s)" "st_clients st1 = st_clients (si_store s)"
    "st_subjects st1 = st_subjects (si_store s)" by auto
  have "issueAuthorizationCode d (code_of_pending (cm_pending k) (cm_clientId k) ?sub (dr_now d) (en_id ?entry)) ?s2
      = (Inr (sg_newCode (dr_sign d)), snd (issueAuthorizationCode d
          (code_of_pending (cm_pending k) (cm_clientId k) ?sub (dr_now d) (en_id ?entry)) ?s2))"
    using t pre(3,5) enabled_has_subject [OF pre(1)]
    by (simp add: issueAuthorizationCode_def tenant_row_def tbind_def tget_def tsome_def tret_def on_store_def
        create_code_def code_row_def code_of_pending_def insert_row_def same has_client_def has_subject_def)
  then obtain s3 where i: "issueAuthorizationCode d (code_of_pending (cm_pending k) (cm_clientId k) ?sub (dr_now d)
      (en_id ?entry)) ?s2 = (Inr (sg_newCode (dr_sign d)), s3)" by blast
  have "completeLogin d k s = (Inr (Issued (en_id ?entry) (sg_newCode (dr_sign d)) (Some ?entry)), s3)"
    unfolding completeLogin_def
    by (simp add: atomically_def tbind_def tget_def consume_run pre(1,2) m i tret_def)
  then show ?thesis by blast
qed

lemma login_ready_rest:
  assumes "same_rest s s1"
  shows "login_ready d i cid sub s1 = login_ready d i cid sub s"
proof -
  from assms obtain a where "si_store s1 = (si_store s)\<lparr>st_audit := a\<rparr>" by (auto simp: same_rest_def)
  with same_rest_reads [OF assms] show ?thesis by (simp add: login_ready_def has_client_def)
qed

lemma login_lands:
  assumes ready: "login_ready d i cid sub s" and trail: "\<And>row. \<not> dp_auditRefused (dr_deps d) row"
    and new: "pr_reuseSessionId q = None"
    and url: "dr_withParams d (pr_redirectUri q) (code_params d q (sg_newCode (dr_sign d))) = Some location"
  shows "\<exists>lr s'. completeAuthorizedLogin d t i q cid sub auths header rm s = (Inr (Redirect lr), s') \<and> lr_location lr = location"
proof -
  define k where "k = complete_input_of t i q cid sub auths rm (resolveSessions d t header s)"
  have "login_ready d (cm_authSessionId k) (cm_clientId k) (cm_subjectId k) s" "cm_reuse k = None"
    using ready new by (simp_all add: k_def complete_input_of_def)
  from completeLogin_succeeds [OF this(1) trail this(2)] obtain s' where
    c: "completeLogin d k s = (Inr (Issued (en_id (sg_entry (dr_sign d))) (sg_newCode (dr_sign d))
      (Some (sg_entry (dr_sign d)))), s')" by blast
  then show ?thesis
    by (simp add: completeAuthorizedLogin_def tbind_def tget_def c [unfolded k_def] completed_answer_def located_def
        url tsome_def tret_def login_redirect_of_def Let_def)
qed

text \<open>Every gate of a login is open: the flow has succeeded and nothing stands before the code.\<close>

lemma login_succeeds:
  assumes adv: "advance (dr_sign d) i input s = (Inr (AdvanceSuccess sub auths), s1)"
    and site: "isUuid i" "si_tenant s = Some t" "tn_enabled t"
    and req: "loadPendingRequest i (si_attempts s) = Some q" "pr_reuseSessionId q = None"
      "\<not> differs (pr_idTokenHintSubject q) sub" "\<not> differs (pr_claimsSubject q) sub"
    and gates: "refusedForUnverifiedEmail t sub s = None" "resolveClientId (pr_clientId q) s = Some cid"
      "decideConsentGate cid sub (pr_scope q) (pr_prompt q) s = GateNotRequired"
    and owed: "pendingActions sub s1 = (Inr as, s2)" "nextRequiredAction as = None"
    and ready: "login_ready d i cid sub s" and trail: "\<And>row. \<not> dp_auditRefused (dr_deps d) row"
    and url: "dr_withParams d (pr_redirectUri q) (code_params d q (sg_newCode (dr_sign d))) = Some location"
  shows "\<exists>lr s'. handleLoginSubmission d (Some i) input header rm s = (Inr (Redirect lr), s') \<and> lr_location lr = location"
proof -
  note r1 = same_rest_reads [OF advance_rest [OF adv]]
  note r2 = same_rest_reads [OF pendingActions_Inr(2) [OF owed(1)]]
  have t2: "enabled_tenant s = Some t" using site by (simp add: enabled_tenant_def)
  have ready2: "login_ready d i cid sub s2"
    using ready login_ready_rest [OF advance_rest [OF adv]] login_ready_rest [OF pendingActions_Inr(2) [OF owed(1)]]
    by simp
  from login_lands [OF ready2 trail req(2) url] obtain lr s3 where
    lr: "completeAuthorizedLogin d t i q cid sub auths header (rm \<and> tn_rememberMeAllowed t) s2
      = (Inr (Redirect lr), s3)" "lr_location lr = location" by blast
  have gate: "login_consent_gate d t i q sub auths u header (rm \<and> tn_rememberMeAllowed t) cid s2
      = (Inr (Redirect lr), s3)" for u
    using gates(3) by (simp add: login_consent_gate_def tbind_def tget_def r1 r2 lr(1) tret_def)
  have g: "login_gates d t i sub auths u header (rm \<and> tn_rememberMeAllowed t) s1 = (Inr (Redirect lr), s3)" for u
    using ready gates req owed
    by (simp add: login_gates_def tbind_def tget_def r1 r2 login_ready_def gate)
  have "handleLoginSubmission d (Some i) input header rm s = (Inr (Redirect lr), s3)"
    using site(1) adv g
    by (simp add: handleLoginSubmission_def tbind_def tget_def t2 atomically_def login_answer_def)
  with lr(2) show ?thesis by blast
qed

text \<open>The consent page likewise, once its answer is on record.\<close>

lemma consent_succeeds:
  assumes auth: "authenticatedSession (dr_sign d) i s = (Inr (Some (sub, auths)), s)"
    and site: "isUuid i" "si_tenant s = Some t" "tn_enabled t"
    and req: "loadPendingRequest i (si_attempts s) = Some q" "pr_reuseSessionId q = None"
    and gates: "refusedForUnverifiedEmail t sub s = None" "resolveClientId (pr_clientId q) s = Some cid"
    and owed: "pendingActions sub s = (Inr as, s1)" "nextRequiredAction as = None"
    and answer: "an_decision ans = Some ''allow''"
    and recorded: "recordConsent sub cid (recorded_ids (consentContext cid s) ans q) s1 = (Inr (), s2)"
    and ready: "login_ready d i cid sub s" and trail: "\<And>row. \<not> dp_auditRefused (dr_deps d) row"
    and url: "dr_withParams d (pr_redirectUri q) (code_params d q (sg_newCode (dr_sign d))) = Some location"
  shows "\<exists>lr s'. handleConsentSubmission d (Some i) ans header s = (Inr (Redirect lr), s') \<and> lr_location lr = location"
proof -
  note r1 = same_rest_reads [OF pendingActions_Inr(2) [OF owed(1)]]
  from recordConsent_Inr(1) [OF recorded] obtain rows where s2: "s2 = s1\<lparr>si_consents := rows\<rparr>" by blast
  have "login_ready d i cid sub s1"
    using ready login_ready_rest [OF pendingActions_Inr(2) [OF owed(1)]] by simp
  then have ready2: "login_ready d i cid sub s2"
    by (simp add: s2 login_ready_def subjectEnabled_def completable_def)
  have en: "enabled_tenant s = Some t" using site by (simp add: enabled_tenant_def)
  let ?q = "q\<lparr>pr_scope := join_scope (final_scopes (consentContext cid s) ans q)\<rparr>"
  have "pr_reuseSessionId ?q = None" using req(2) by simp
  moreover have "dr_withParams d (pr_redirectUri ?q) (code_params d ?q (sg_newCode (dr_sign d))) = Some location"
    using url by (simp add: code_params_def)
  ultimately obtain lr s3 where
    lr: "completeAuthorizedLogin d t i ?q cid sub auths header (coalesce (pr_rememberMe q) False) s2
      = (Inr (Redirect lr), s3)" "lr_location lr = location"
    using login_lands [OF ready2 trail] by blast
  have "consent_allowed d t i q sub auths ans header cid s1 = (Inr (Redirect lr), s3)"
    by (simp add: consent_allowed_def tbind_def tget_def atomically_def r1 recorded lr(1) tret_def)
  then have "consent_gates d t i sub auths ans header s = (Inr (Redirect lr), s3)"
    using gates req(1) owed answer
    by (simp add: consent_gates_def tbind_def tget_def r1)
  then have "handleConsentSubmission d (Some i) ans header s = (Inr (Redirect lr), s3)"
    using site(1) auth
    by (simp add: handleConsentSubmission_def tbind_def tget_def en atomically_def)
  with lr(2) show ?thesis by blast
qed

section \<open>The code of a door at the token endpoint\<close>

lemma first_unspent:
  assumes "p r" "\<And>x. x \<in> set rows \<Longrightarrow> \<not> p x"
  shows "first_row (returning p f (rows @ [r])) = Some (f r)"
  using assms by (simp add: returning_def first_row_def filter_empty_conv)

text \<open>Whatever verifier the challenge was derived from, the row a door wrote is redeemed with it.\<close>

lemma minted_redeemed:
  assumes codes: "st_codes w = rows @ [code_row d t k]" "hash_token (dr_deps d) (sg_newCode (dr_sign d)) \<notin> ac_codeHash ` set rows"
    and hash: "hash_token e (cr_code request) = hash_token (dr_deps d) (sg_newCode (dr_sign d))"
    and time: "dp_dbNow e < dr_now d + tn_authorizationCodeTtlSeconds t * 1000"
    and request: "cl_id client = ki_clientId k" "cr_redirectUri request = ki_redirectUri k"
      "verifyPkce (pf_sha256 (dp_platform e)) (cr_codeVerifier request) (ki_codeChallenge k)"
    and owner: "subjectIsEnabled (subject_byId (ki_subjectId k) (st_subjects w))"
  shows "\<exists>cw. redeemAuthorizationCode e request client (c, w)
    = (Inr ((code_row d t k)\<lparr>ac_consumedAt := Some (dp_dbNow e)\<rparr>), cw)"
proof -
  let ?h = "hash_token e (cr_code request)"
  have "fst (consume_code (dp_dbNow e) ?h (st_codes w)) = Some ((code_row d t k)\<lparr>ac_consumedAt := Some (dp_dbNow e)\<rparr>)"
    unfolding consume_code_def Let_def codes(1) fst_conv
    by (rule first_unspent) (use codes(2) hash time in \<open>auto simp: code_row_def image_iff\<close>)
  then obtain rows' where "consume_code (dp_dbNow e) ?h (st_codes w)
      = (Some ((code_row d t k)\<lparr>ac_consumedAt := Some (dp_dbNow e)\<rparr>), rows')"
    by (metis prod.collapse)
  moreover have "evaluateAuthorizationCodeGrant (pf_sha256 (dp_platform e))
      ((code_row d t k)\<lparr>ac_consumedAt := Some (dp_dbNow e)\<rparr>) client (cr_redirectUri request) (cr_codeVerifier request) = None"
    using request by (simp add: evaluateAuthorizationCodeGrant_None code_row_def)
  ultimately show ?thesis
    using owner
    by (auto simp: redeemAuthorizationCode_def Let_def tx_simps codes_tx_run code_row_def tbind_def on_work_def
        codes_tx_def tget_def tret_def)
qed

end
