(* ===== verification/Examples.thy ===== *)
theory Examples
  imports Lifecycle
begin

text \<open>
  A small tenant the properties are exercised on: one confidential and one public client, one
  user with a session, an unredeemed code, a grant with a refresh token and its two signing
  keys. The platform is a stand-in for Node and \<open>jose\<close>: the digest puts a mark in front of
  its input, and the one signed token it knows is \<open>ex_jwt\<close>.
\<close>

section \<open>Platform\<close>

definition ex_url :: url where
  "ex_url = \<lparr>url_protocol = ''https:'', url_hostname = ''api'', url_port = [], url_username = [],
     url_password = [], url_pathname = ''/v1'', url_search = [], url_hash = []\<rparr>"

definition ex_URL :: url_parser where
  "ex_URL raw = (if prefix ''https://'' raw then Some ex_url else None)"

definition ex_jwt :: string where
  "ex_jwt = ''e.y.j''"

definition ex_header :: obj where
  "ex_header = [(''kid'', JStr ''k1''), (''alg'', JStr ''RS256''), (''typ'', JStr ''at+jwt'')]"

definition ex_payload :: obj where
  "ex_payload =
     [(''iss'', JStr ''https://id''), (''sub'', JStr ''alice''),
      (''aud'', JArr [JStr ''https://api'', JStr ''https://id'']), (''client_id'', JStr ''web''),
      (''scope'', JStr ''openid profile''), (''iat'', JNum 1000), (''exp'', JNum 1300),
      (''jti'', JStr ''j0''), (''grant_id'', JStr ''g0'')]"

definition ex_platform :: platform where
  "ex_platform =
     \<lparr>pf_URL = ex_URL, pf_sha256 = (\<lambda>x. CHR ''#'' # x), pf_sign = (\<lambda>k typ claims. ex_jwt),
      pf_header = (\<lambda>t. if t = ex_jwt then Some ex_header else None),
      pf_verify = (\<lambda>k issuers audience notExpiring t. if t = ex_jwt then Some ex_payload else None)\<rparr>"

definition ex_lifespans :: lifespans where
  "ex_lifespans = \<lparr>lf_ssoIdle = 1800, lf_ssoMax = 36000, lf_rememberIdle = 86400, lf_rememberMax = 864000\<rparr>"

definition ex_context :: "string \<Rightarrow> claim_context" where
  "ex_context i = \<lparr>cx_subjectId = i, cx_user = None, cx_roles = [], cx_groups = [], cx_bindings = []\<rparr>"

definition ex_deps :: deps where
  "ex_deps =
     \<lparr>dp_platform = ex_platform, dp_issuer = ''https://id'', dp_acceptedIssuers = [''https://id''],
      dp_now = 1000000, dp_dbNow = 1000000, dp_lifespans = ex_lifespans, dp_claims = ex_context,
      dp_assemble = (\<lambda>scope cx. [(''via'', JStr ''forged''), (''email'', JStr ''a@b'')]),
      dp_newGrantId = ''g1'', dp_newJti = ''j1'', dp_newRefresh = ''r1'',
      dp_auditRefused = (\<lambda>e. False)\<rparr>"

section \<open>Rows\<close>

definition ex_client :: client where
  "ex_client =
     \<lparr>cl_id = ''c1'', cl_clientId = ''web'', cl_enabled = True, cl_type = Confidential,
      cl_secretHash = Some ''#s3cret'', cl_previousSecretHash = None,
      cl_previousSecretExpiresAt = None, cl_serviceSubjectId = Some ''alice'',
      cl_fullScopeAllowed = False, cl_registrationOrigin = ''admin''\<rparr>"

definition ex_other_client :: client where
  "ex_other_client = ex_client\<lparr>cl_id := ''c2'', cl_clientId := ''other''\<rparr>"

definition ex_config :: oidc_config where
  "ex_config =
     \<lparr>oc_clientId = ''c1'', oc_redirectUris = [''https://app/cb''],
      oc_grantTypes = [''authorization_code'', ''refresh_token'', ''client_credentials'',
        TOKEN_EXCHANGE_GRANT],
      oc_authMethod = ClientSecretBasic, oc_audiences = [''https://api''],
      oc_lifetimes = \<lparr>cl_accessTtl = None, cl_idTtl = None, cl_refreshTtl = None\<rparr>,
      oc_clientCredentialsScopes = [''profile''], oc_impersonationAllowed = True,
      oc_allowedForPublic = False, oc_actorFromOtherClient = False,
      oc_idTokenSignedResponseAlg = None, oc_requireAuthTime = False,
      oc_backchannelLogoutUri = Some ''https://app/bc'', oc_jwks = None, oc_jwksUri = None,
      oc_tlsClientAuthSubjectDn = None, oc_postLogoutRedirectUris = [''https://app/bye''],
      oc_frontchannelLogoutUri = None, oc_frontchannelLogoutSessionRequired = False,
      oc_consentRequired = False, oc_defaultMaxAge = None\<rparr>"

definition ex_subject :: subject where
  "ex_subject = \<lparr>sj_id = ''alice'', sj_disabledAt = None\<rparr>"

definition ex_session :: session where
  "ex_session =
     \<lparr>ss_id = ''s1'', ss_subjectId = ''alice'', ss_createdAt = 900000, ss_expiresAt = 36900000,
      ss_lastActiveAt = 900000, ss_authenticators = [''password''], ss_remembered = False,
      ss_secretHash = Some ''00''\<rparr>"

definition ex_verifier :: string where
  "ex_verifier = replicate 43 CHR ''v''"

definition ex_code :: auth_code where
  "ex_code =
     \<lparr>ac_codeHash = ''#code'', ac_clientId = ''c1'', ac_subjectId = ''alice'',
      ac_redirectUri = ''https://app/cb'', ac_scope = ''openid profile'', ac_nonce = None,
      ac_codeChallenge = CHR ''#'' # ex_verifier, ac_authTime = 900000, ac_expiresAt = 1060000,
      ac_consumedAt = None, ac_grantId = None, ac_sessionId = Some ''s1'',
      ac_resource = [''https://api''], ac_claims = \<lparr>cq_idToken = [], cq_userinfo = []\<rparr>\<rparr>"

definition ex_grant :: token_grant where
  "ex_grant =
     \<lparr>tg_id = ''g0'', tg_clientId = ''c1'', tg_subjectId = ''alice'', tg_scope = ''openid profile'',
      tg_audience = [''https://api'', ''https://id''], tg_createdAt = 950000, tg_revokedAt = None,
      tg_sessionId = Some ''s1'', tg_actorSubjectId = None, tg_exchangedFromGrantId = None,
      tg_actChain = None, tg_expCeiling = None, tg_requestedUserinfoClaims = None,
      tg_agentWrites = 0, tg_agentCreates = 0, tg_budgetGrantId = None\<rparr>"

definition ex_token :: refresh_token where
  "ex_token =
     \<lparr>rt_tokenHash = ''#r0'', rt_grantId = ''g0'', rt_issuedAt = 950000, rt_expiresAt = 5000000,
      rt_usedAt = None, rt_replacedBy = None\<rparr>"

definition ex_key :: signing_key where
  "ex_key = \<lparr>sk_kid = ''k1'', sk_alg = ''RS256'', sk_status = KeyActive\<rparr>"

definition ex_lifetimes :: token_lifetimes where
  "ex_lifetimes = \<lparr>tl_accessTokenTtlSeconds = 300, tl_idTokenTtlSeconds = 300, tl_refreshTokenTtlSeconds = 3600\<rparr>"

definition ex_scope :: "string \<Rightarrow> client_scope" where
  "ex_scope n = \<lparr>cs_id = n, cs_name = n, cs_includeInIdToken = True, cs_includeInAccessToken = True\<rparr>"

definition ex_store :: store where
  "ex_store =
     \<lparr>st_clients = [ex_client, ex_other_client], st_configs = [ex_config],
      st_subjects = [ex_subject], st_sessions = [ex_session], st_codes = [ex_code],
      st_grants = [ex_grant], st_refresh = [ex_token],
      st_scopes = [ex_scope ''openid'', ex_scope ''profile''],
      st_assignments = [(''c1'', ''openid''), (''c1'', ''profile'')], st_scopeRoles = [],
      st_keys = [ex_key], st_jtis = [], st_audit = [], st_deliveries = [], st_auditTypes = None,
      st_policy = None, st_lifetimes = ex_lifetimes\<rparr>"

section \<open>Requests\<close>

definition ex_code_request :: code_request where
  "ex_code_request =
     \<lparr>cr_code = ''code'', cr_redirectUri = ''https://app/cb'', cr_clientId = None,
      cr_codeVerifier = ex_verifier, cr_resource = None\<rparr>"

definition ex_refresh_request :: refresh_request where
  "ex_refresh_request = \<lparr>rq_refreshToken = ''r0'', rq_clientId = None, rq_scope = [], rq_resource = None\<rparr>"

definition ex_cc_request :: cc_request where
  "ex_cc_request = \<lparr>cc_clientId = None, cc_scope = ''profile'', cc_resource = None\<rparr>"

definition ex_exchange_request :: exchange_request where
  "ex_exchange_request =
     \<lparr>xr_clientId = None, xr_subjectToken = ex_jwt, xr_subjectTokenType = ACCESS_TOKEN_TYPE,
      xr_actorToken = None, xr_actorTokenType = None, xr_requestedTokenType = None,
      xr_scope = ''profile'', xr_resource = None, xr_audience = None\<rparr>"

lemmas ex_rows =
  ex_client_def ex_other_client_def ex_config_def ex_subject_def ex_session_def ex_code_def
  ex_grant_def ex_token_def ex_key_def ex_lifetimes_def ex_scope_def ex_store_def

lemma ex_store_ok: "ok ex_store"
  by (auto simp: ok_def family_ok_def codes_ok_def token_fits_def unused_of_def ex_store_def
      ex_grant_def ex_token_def ex_code_def MCP_WRITE_SCOPE_def tokens_def)

section \<open>Runs\<close>

text \<open>The code redeemed, and presented again by another client; the token rotated, and reused.\<close>

definition ex_redeemed :: store where
  "ex_redeemed = snd (in_request (issueAuthorizationCodeTokens ex_deps ex_code_request ex_client
     ex_config ex_lifetimes) ex_store)"

definition ex_replay :: "(exn + token_response) \<times> store" where
  "ex_replay = in_request (issueAuthorizationCodeTokens ex_deps ex_code_request ex_other_client
     ex_config ex_lifetimes) ex_redeemed"

definition ex_rotated :: store where
  "ex_rotated = snd (in_request (issueRefreshTokens ex_deps ex_refresh_request ex_client
     ex_config ex_lifetimes) ex_store)"

definition ex_reuse :: "(exn + token_response) \<times> store" where
  "ex_reuse = in_request (issueRefreshTokens ex_deps ex_refresh_request ex_client
     ex_config ex_lifetimes) ex_rotated"

lemma run_Inr: "\<not> isl (fst p) \<Longrightarrow> \<exists>x. p = (Inr x, snd p)"
  by (cases p; cases "fst p") auto

lemma ex_redeemed_run:
  "\<exists>resp. in_request (issueAuthorizationCodeTokens ex_deps ex_code_request ex_client
      ex_config ex_lifetimes) ex_store = (Inr resp, ex_redeemed)"
  unfolding ex_redeemed_def by (rule run_Inr) code_simp

lemma ex_rotated_run:
  "\<exists>resp. in_request (issueRefreshTokens ex_deps ex_refresh_request ex_client
      ex_config ex_lifetimes) ex_store = (Inr resp, ex_rotated)"
  unfolding ex_rotated_def by (rule run_Inr) code_simp

text \<open>A tenant with no credential yet, a code minted in it, and the code redeemed.\<close>

definition ex_start :: store where
  "ex_start = ex_store\<lparr>st_codes := [], st_grants := [], st_refresh := []\<rparr>"

definition ex_minted :: store where
  "ex_minted = snd (create_code ex_code ex_start)"

definition ex_first :: store where
  "ex_first = snd (in_request (issueForAuthenticatedClient ex_deps (CodeRequest ex_code_request)
     ex_client ex_config) ex_minted)"

lemma ex_start_empty: "no_credentials ex_start"
  by (simp add: no_credentials_def ex_start_def)

lemma ex_first_reached: "step\<^sup>*\<^sup>* ex_start ex_first"
proof -
  have "step ex_start ex_minted"
    unfolding ex_minted_def by (rule step.code_minted [OF surjective_pairing])
  moreover have "step ex_minted ex_first"
    unfolding ex_first_def by (rule step.token_request [OF surjective_pairing])
  ultimately show ?thesis by simp
qed

lemma ex_reuse_ok: "ok (snd ex_reuse)"
proof -
  have "ok ex_rotated" using ex_rotated_run sound_refresh_request ex_store_ok unfolding sound_def by blast
  then show ?thesis
    using sound_refresh_request [OF surjective_pairing] unfolding ex_reuse_def sound_def by blast
qed

end
