(* ===== verification/Sign_In_Examples.thy ===== *)
theory Sign_In_Examples
  imports Attempt_Integrity Examples
begin

text \<open>
  The tenant of \<open>Examples\<close> with its sign-in: the flow \<^verbatim>\<open>provision-flow.ts\<close> gives a new tenant, one
  user with a password, a TOTP and a recovery code, and an attempt parked for its client. The
  platform compares a hash with the password itself and signs with twenty zero bytes.
\<close>

definition ex_identity :: identity_platform where
  "ex_identity =
     \<lparr>ip_verify = (\<lambda>h p. h = p), ip_hash = (\<lambda>p. p), ip_nfc = (\<lambda>p. p),
      ip_hmac = (\<lambda>k m. replicate 20 0), ip_sha256 = (\<lambda>x. x),
      ip_assert = (\<lambda>rp c r k. Some 1)\<rparr>"

definition ex_sign :: sign_deps where
  "ex_sign =
     \<lparr>sg_deps = ex_deps, sg_identity = ex_identity,
      sg_relyingParty = Some \<lparr>rp_id = ''id'', rp_origin = ''https://id''\<rparr>, sg_baseRpId = Some ''id'',
      sg_newId = ''0198a000-0000-7000-8000-000000000002'', sg_newSecret = ''secret'',
      sg_newCode = ''fresh'', sg_newCredentialIds = [],
      sg_entry = \<lparr>en_id = ''s2'', en_secret = ''x''\<rparr>, sg_contend = (\<lambda>n rows. rows)\<rparr>"

definition ex_user :: user where
  "ex_user = \<lparr>us_subjectId = ''alice'', us_username = ''alice'', us_email = Some ''a@b'',
     us_emailVerified = True, us_preferredUsername = None\<rparr>"

definition ex_credential :: "string \<Rightarrow> credential_secret \<Rightarrow> credential" where
  "ex_credential i secret = \<lparr>cd_id = i, cd_subjectId = ''alice'', cd_secret = secret, cd_hashNfc = Some True,
     cd_lookupKey = None, cd_rpId = None, cd_lastUsedAt = None, cd_createdAt = 0\<rparr>"

definition ex_password :: credential where
  "ex_password = ex_credential ''p'' (PasswordSecret ''pw'')"

definition ex_totp :: credential where
  "ex_totp = ex_credential ''t'' (TotpSecret ''AAAA'' 6 0)"

definition ex_recovery :: credential where
  "ex_recovery = ex_credential ''r'' (RecoveryCodeSecret ''C0DE'' None)"

definition ex_execution :: "int \<Rightarrow> string \<Rightarrow> requirement \<Rightarrow> execution" where
  "ex_execution n a q = \<lparr>ex_index = n, ex_authenticator = a, ex_requirement = q\<rparr>"

definition ex_flow :: "execution list" where
  "ex_flow = [ex_execution 0 PASSWORD Alternative, ex_execution 1 PASSKEY Alternative,
     ex_execution 2 OTP Conditional, ex_execution 3 RECOVERY_CODE Conditional]"

definition ex_pending :: pending_request where
  "ex_pending = \<lparr>pr_clientId = ''web'', pr_redirectUri = ''https://app/cb'', pr_scope = ''openid'',
     pr_state = None, pr_nonce = None, pr_codeChallenge = CHR ''#'' # ex_verifier, pr_idTokenHintSubject = None,
     pr_claimsSubject = None, pr_prompt = None, pr_maxAge = None, pr_uiLocales = None,
     pr_reuseSessionId = None, pr_reuseAuthTime = None, pr_rememberMe = None, pr_resource = None,
     pr_claims = None\<rparr>"

definition ex_attemptId :: string where
  "ex_attemptId = ''0198a000-0000-7000-8000-000000000001''"

definition ex_attempt :: attempt where
  "ex_attempt = \<lparr>at_id = ex_attemptId, at_pendingRequest = ex_pending, at_expiresAt = 2000000,
     at_consumedAt = None, at_satisfied = [], at_subjectId = None, at_authenticatedAt = None,
     at_webauthnChallenge = None, at_browserSecretHash = None\<rparr>"

definition ex_lockout :: lockout_policy where
  "ex_lockout = \<lparr>lo_maxFailures = 5, lo_lockoutSeconds = 60, lo_maxLockoutSeconds = 900,
     lo_failureResetSeconds = 43200\<rparr>"

definition ex_tenant :: tenant where
  "ex_tenant = \<lparr>tn_enabled = True, tn_otpRequired = False, tn_loginWithEmail = True,
     tn_passwordMaxAgeDays = 0, tn_lockout = ex_lockout, tn_loginTtlSeconds = 600,
     tn_authorizationCodeTtlSeconds = 60, tn_lifespans = ex_lifespans, tn_verifyEmail = False,
     tn_rememberMeAllowed = True, tn_registrationAllowed = False, tn_resetPasswordAllowed = True,
     tn_maxSessionsPerBrowser = 5, tn_clientRegistrationPolicy = RegistrationDisabled,
     tn_cimdEnabled = False\<rparr>"

definition ex_site :: site where
  "ex_site = \<lparr>si_store = ex_store, si_users = [ex_user],
     si_credentials = [ex_password, ex_totp, ex_recovery], si_failures = [], si_actions = [],
     si_attempts = [ex_attempt], si_executions = ex_flow, si_consents = [],
     si_assignmentOf = (\<lambda>k. Default), si_displayOrder = (\<lambda>i. 0), si_tenant = Some ex_tenant\<rparr>"

section \<open>Submissions\<close>

definition ex_login :: advance_input where
  "ex_login = NO_INPUT\<lparr>in_username := Some ''alice'', in_password := Some ''pw''\<rparr>"

definition ex_otp :: advance_input where
  "ex_otp = NO_INPUT\<lparr>in_code := Some ''000000''\<rparr>"

text \<open>The attempt once the password was accepted, and the two submissions.\<close>

definition ex_half :: attempt where
  "ex_half = ex_attempt\<lparr>at_satisfied := [PASSWORD], at_subjectId := Some ''alice''\<rparr>"

definition ex_half_site :: site where
  "ex_half_site = ex_site\<lparr>si_attempts := [ex_half]\<rparr>"

definition ex_identified :: site where
  "ex_identified = snd (advance ex_sign ex_attemptId ex_login ex_site)"

definition ex_signed_in :: site where
  "ex_signed_in = snd (advance ex_sign ex_attemptId ex_otp ex_half_site)"

text \<open>A submission evaluated by its stages: the attempt, the steps of its subject, the rest.\<close>

lemma advance_stages:
  assumes "attempt_byId i (si_attempts s) = Some r" "si_tenant s = Some t" "sg_now d < at_expiresAt r"
    "flow_steps (request_of r input) t s = steps" "audit_of d i r s = la"
    "fst (advance_live d i input r t steps la s) = Inr out"
  shows "advance d i input s = (Inr out, snd (advance d i input s))"
  using assms by (simp add: advance_run prod_eq_iff)

definition ex_la :: login_audit where
  "ex_la = \<lparr>la_clientId = Some ''c1'', la_resourceId = authenticationSessionDigest ex_identity ex_attemptId\<rparr>"

definition ex_steps :: "bool \<Rightarrow> flow_step list" where
  "ex_steps otp = [\<lparr>sp_authenticator = PASSWORD, sp_requirement = Alternative, sp_applicable = True\<rparr>,
     \<lparr>sp_authenticator = PASSKEY, sp_requirement = Alternative, sp_applicable = False\<rparr>,
     \<lparr>sp_authenticator = OTP, sp_requirement = Conditional, sp_applicable = otp\<rparr>,
     \<lparr>sp_authenticator = RECOVERY_CODE, sp_requirement = Conditional, sp_applicable = False\<rparr>]"

lemma ex_first: "advance ex_sign ex_attemptId ex_login ex_site = (Inr (AdvanceChallenge OTP), ex_identified)"
  unfolding ex_identified_def
proof (rule advance_stages)
  show "attempt_byId ex_attemptId (si_attempts ex_site) = Some ex_attempt" by code_simp
  show "si_tenant ex_site = Some ex_tenant" by code_simp
  show "sg_now ex_sign < at_expiresAt ex_attempt" by code_simp
  show "flow_steps (request_of ex_attempt ex_login) ex_tenant ex_site = ex_steps False" by code_simp
  show "audit_of ex_sign ex_attemptId ex_attempt ex_site = ex_la" by code_simp
  show "fst (advance_live ex_sign ex_attemptId ex_login ex_attempt ex_tenant (ex_steps False) ex_la ex_site) =
    Inr (AdvanceChallenge OTP)" by code_simp
qed

text \<open>The code of any step under the example's HMAC, and the OTP step that accepts it.\<close>

lemma ex_totpCode: "totpCode (ip_hmac ex_identity) ''AAAA'' n = Some ''000000''"
proof -
  have key: "base32Decode ''AAAA'' = Some [0, 0]" by code_simp
  have mac: "ip_hmac ex_identity k m = replicate 20 0" for k m by (simp add: ex_identity_def)
  have at: "byteAt (replicate 20 0) n = Some 0" if "n < 20" for n using that by (simp add: byteAt_def)
  have zero: "truncated 0 0 0 0 = 0" by (simp add: truncated_def)
  have digits: "digits_of 6 0 = ''000000''" by code_simp
  have "hotp (ip_hmac ex_identity) [0, 0] n = Some ''000000''"
    unfolding hotp_def Let_def mac by (simp add: at zero digits)
  then show ?thesis by (simp add: totpCode_def key)
qed

lemma ex_verifyTotp: "verifyTotp (ip_hmac ex_identity) ''AAAA'' ''000000'' 1000000 (Some 0) = Some (Some 32)"
proof -
  have "VERIFY_CODE_SHAPE ''000000''" by code_simp
  then show ?thesis by (simp add: verifyTotp_def totpCounter_def ex_totpCode)
qed

definition ex_spent_site :: site where
  "ex_spent_site = ex_half_site\<lparr>si_credentials :=
     [ex_password, ex_totp\<lparr>cd_secret := TotpSecret ''AAAA'' 6 32, cd_lastUsedAt := Some 1000000\<rparr>, ex_recovery]\<rparr>"

lemma ex_otp_step:
  "runOtpStep ex_sign ex_otp (context_of ex_half ex_attemptId ex_tenant) ex_half_site =
     (Inr (AuthSuccess ''alice'' None), ex_spent_site)"
proof -
  have now: "sg_now ex_sign = 1000000" "sg_identity ex_sign = ex_identity"
    by (simp_all add: ex_sign_def ex_deps_def)
  have ctx: "sc_subjectId (context_of ex_half ex_attemptId ex_tenant) = Some ''alice''"
    by (simp add: context_of_def ex_half_def)
  have code: "in_code ex_otp = Some ''000000''" by (simp add: ex_otp_def)
  have locked: "refusedWhileLocked ex_sign (context_of ex_half ex_attemptId ex_tenant) True ex_half_site
      = (Inr None, ex_half_site)"
  proof -
    have "\<not> isLockedOut (failure_forSubject ''alice'' (si_failures ex_half_site)) (sg_now ex_sign)" by code_simp
    then show ?thesis by (simp add: refusedWhileLocked_def ctx failures_for_def tbind_def tget_def tret_def)
  qed
  have stored: "storedTotpFor ''alice'' (si_credentials ex_half_site) = Some ex_totp" by code_simp
  have totp: "totp_secret (cd_secret ex_totp) = ''AAAA''" "totp_lastStep (cd_secret ex_totp) = 0" "cd_id ex_totp = ''t''"
    by (simp_all add: ex_totp_def ex_credential_def)
  have spent: "credentials_tx (recordTotpUse ''t'' 32 1000000) ex_half_site = (Inr True, ex_spent_site)"
    by (simp add: credentials_tx_def recordTotpUse_def Let_def returning_def update_where_def ex_half_site_def
        ex_spent_site_def ex_site_def ex_totp_def ex_password_def ex_recovery_def ex_credential_def)
  show ?thesis
    using locked spent
    by (simp add: runOtpStep_def ctx code stored totp totpStep_def now ex_verifyTotp tsum_of_def
        tbind_def tget_def tret_def)
qed

lemma advance_live_ran:
  assumes "dispatchNext d (context_of r i t) steps (set (at_satisfied r)) input s = (Inr (Ran a result), s1)"
  shows "advance_live d i input r t steps la s = judge_factor d i la r input a result s1"
  by (simp add: advance_live_def tbind_def assms tret_def)

lemma ex_judged:
  "advance ex_sign ex_attemptId ex_otp ex_half_site =
     judge_factor ex_sign ex_attemptId ex_la ex_half ex_otp OTP (AuthSuccess ''alice'' None) ex_spent_site"
proof -
  have "nextStep (ex_steps True) (set (at_satisfied ex_half)) = Run OTP" by code_simp
  moreover have "map_of AUTHENTICATORS OTP = Some runOtpStep" by (simp add: AUTHENTICATORS_def authenticator_names)
  ultimately have d: "dispatchNext ex_sign (context_of ex_half ex_attemptId ex_tenant) (ex_steps True)
      (set (at_satisfied ex_half)) ex_otp ex_half_site = (Inr (Ran OTP (AuthSuccess ''alice'' None)), ex_spent_site)"
    by (simp add: dispatchNext_cases ex_otp_step tbind_def tret_def)
  have r: "attempt_byId ex_attemptId (si_attempts ex_half_site) = Some ex_half" by code_simp
  have t: "si_tenant ex_half_site = Some ex_tenant" by code_simp
  have now: "\<not> at_expiresAt ex_half \<le> sg_now ex_sign" by code_simp
  have steps: "flow_steps (request_of ex_half ex_otp) ex_tenant ex_half_site = ex_steps True" by code_simp
  have la: "audit_of ex_sign ex_attemptId ex_half ex_half_site = ex_la" by code_simp
  show ?thesis by (simp add: advance_run r t now steps la advance_live_ran [OF d])
qed

lemma ex_second:
  "advance ex_sign ex_attemptId ex_otp ex_half_site = (Inr (AdvanceSuccess ''alice'' [PASSWORD, OTP]), ex_signed_in)"
proof -
  have "fst (judge_factor ex_sign ex_attemptId ex_la ex_half ex_otp OTP (AuthSuccess ''alice'' None)
      ex_spent_site) = Inr (AdvanceSuccess ''alice'' [PASSWORD, OTP])" by code_simp
  then show ?thesis by (simp add: ex_signed_in_def ex_judged prod_eq_iff)
qed

end
