(* ===== verification/Door_Examples.thy ===== *)
theory Door_Examples
  imports Door_Trace Sign_In_Examples
begin

text \<open>
  The tenant of \<open>Sign_In_Examples\<close> at its doors: what the authorization endpoint needs besides, a
  request of the client \<^verbatim>\<open>web\<close>, a browser that holds a session, and the forms posted. The parser
  of \<^verbatim>\<open>JSON\<close> of the example knows no text, and an address is written with its parameters dropped.
\<close>

definition ex_doors :: door_deps where
  "ex_doors =
     \<lparr>dr_sign = ex_sign, dr_tenantName = ''t'', dr_tls = True, dr_JSON = (\<lambda>s. None),
      dr_isIP = (\<lambda>s. False), dr_href = (\<lambda>s. s), dr_withParams = (\<lambda>uri ps. Some (uri @ ''?code'')),
      dr_refreshCimd = None\<rparr>"

definition ex_done :: attempt where
  "ex_done = ex_attempt\<lparr>at_satisfied := [PASSWORD, OTP], at_subjectId := Some ''alice'',
     at_authenticatedAt := Some 1000000\<rparr>"

definition ex_done_site :: site where
  "ex_done_site = ex_site\<lparr>si_attempts := [ex_done]\<rparr>"

definition ex_allow :: consent_answer where
  "ex_allow = \<lparr>an_decision = Some ''allow'', an_scopes = []\<rparr>"

section \<open>The login form\<close>

definition ex_logged_in :: "(exn + login_outcome) \<times> site" where
  "ex_logged_in = handleLoginSubmission ex_doors (Some ex_attemptId) ex_otp None False ex_half_site"

definition ex_judged_site :: site where
  "ex_judged_site = snd (judge_factor ex_sign ex_attemptId ex_la ex_half ex_otp OTP (AuthSuccess ''alice'' None)
     ex_spent_site)"

lemma ex_signed_in_judged: "ex_signed_in = ex_judged_site"
  by (simp add: ex_signed_in_def ex_judged ex_judged_site_def)

lemma ex_gates:
  "isUuid ex_attemptId" "si_tenant ex_half_site = Some ex_tenant" "tn_enabled ex_tenant"
  "loadPendingRequest ex_attemptId (si_attempts ex_half_site) = Some ex_pending"
  "refusedForUnverifiedEmail ex_tenant ''alice'' ex_half_site = None"
  "resolveClientId (pr_clientId ex_pending) ex_half_site = Some ''c1''"
  "decideConsentGate ''c1'' ''alice'' (pr_scope ex_pending) (pr_prompt ex_pending) ex_half_site = GateNotRequired"
  "\<not> differs (pr_idTokenHintSubject ex_pending) ''alice''" "\<not> differs (pr_claimsSubject ex_pending) ''alice''"
  "pr_reuseSessionId ex_pending = None"
  by code_simp+

lemma ex_owes_nothing: "fst (pendingActions ''alice'' ex_judged_site) = Inr []"
  by code_simp

lemma ex_trail: "\<not> dp_auditRefused (dr_deps ex_doors) row"
  by (simp add: ex_doors_def ex_sign_def ex_deps_def)

lemma ex_ready: "login_ready ex_doors ex_attemptId ''c1'' ''alice'' ex_half_site"
  "login_ready ex_doors ex_attemptId ''c1'' ''alice'' ex_done_site"
proof -
  have "subjectEnabled ''alice'' ex_site \<and> has_client (si_store ex_site) ''c1''
    \<and> en_id (sg_entry (dr_sign ex_doors)) \<notin> ss_id ` set (st_sessions (si_store ex_site))
    \<and> hash_token (dr_deps ex_doors) (sg_newCode (dr_sign ex_doors)) \<notin> ac_codeHash ` set (st_codes (si_store ex_site))
    \<and> si_tenant ex_site = Some ex_tenant \<and> toLowerCase ex_attemptId = ex_attemptId" by code_simp
  then show "login_ready ex_doors ex_attemptId ''c1'' ''alice'' ex_half_site"
    "login_ready ex_doors ex_attemptId ''c1'' ''alice'' ex_done_site"
    by (auto simp: login_ready_def subjectEnabled_def completable_def ex_half_site_def ex_half_def ex_done_site_def
        ex_done_def ex_attempt_def)
qed

lemma ex_logged_in_run: "\<exists>lr. fst ex_logged_in = Inr (Redirect lr)"
proof -
  have a: "advance (dr_sign ex_doors) ex_attemptId ex_otp ex_half_site
      = (Inr (AdvanceSuccess ''alice'' [PASSWORD, OTP]), ex_judged_site)"
    using ex_second by (simp add: ex_doors_def ex_signed_in_judged)
  have p: "pendingActions ''alice'' ex_judged_site = (Inr [], snd (pendingActions ''alice'' ex_judged_site))"
    using ex_owes_nothing by (simp add: prod_eq_iff)
  have n: "nextRequiredAction [] = None" by code_simp
  have u: "dr_withParams ex_doors (pr_redirectUri ex_pending) (code_params ex_doors ex_pending (sg_newCode (dr_sign ex_doors)))
      = Some ''https://app/cb?code''" by code_simp
  from login_succeeds [OF a ex_gates(1,2,3,4,10,8,9,5,6,7) p n ex_ready(1) ex_trail u] show ?thesis
    unfolding ex_logged_in_def by (metis fst_conv)
qed

section \<open>A browser with a session\<close>

definition ex_browser :: session_entry where
  "ex_browser = \<lparr>en_id = ''01234567-89ab-cdef-0123-456789abcdef'', en_secret = replicate 43 CHR ''x''\<rparr>"

definition ex_cookie :: "string option" where
  "ex_cookie = Some (''__Host-t-session='' @ cookieValue ex_browser)"

definition ex_live :: session where
  "ex_live = ex_session\<lparr>ss_id := en_id ex_browser, ss_authenticators := [PASSWORD, OTP],
     ss_secretHash := Some (entry_secretHash (\<lambda>x. x) ex_browser)\<rparr>"

definition ex_live_site :: site where
  "ex_live_site = ex_site\<lparr>si_store := ex_store\<lparr>st_sessions := [ex_live]\<rparr>\<rparr>"

definition ex_ask :: "(string \<times> json) list \<Rightarrow> json" where
  "ex_ask extra = JObj ([(''client_id'', JStr ''web''), (''redirect_uri'', JStr ''https://app/cb''),
     (''response_type'', JStr ''code''), (''scope'', JStr ''openid profile''), (''state'', JStr ''xyz''),
     (''code_challenge'', JStr ex_verifier), (''code_challenge_method'', JStr ''S256'')] @ extra)"

definition ex_known :: resolved_client where
  "ex_known = \<lparr>rc_client = Some ex_client, rc_config = Some ex_config, rc_scopes = [''openid'', ''profile'']\<rparr>"

definition ex_params :: "params \<Rightarrow> params" where
  "ex_params extra = extra @ [(''code_challenge_method'', ''S256''), (''code_challenge'', ex_verifier),
     (''state'', ''xyz''), (''scope'', ''openid profile''), (''response_type'', ''code''),
     (''redirect_uri'', ''https://app/cb''), (''client_id'', ''web'')]"

definition ex_parked :: pending_request where
  "ex_parked = toPendingRequest ex_client (ex_params []) ''https://app/cb'' (Some ''xyz'') ex_verifier"

text \<open>The endpoint by its stages, for a request of the client above.\<close>

lemma ex_admitted:
  assumes "normalizeAuthorizeQuery raw = QueryOk ps None" "param_of ''client_id'' ps = Some ''web''"
    "asked_params ex_known ps = asked" "requestedScopeTokens (param_of ''scope'' asked) = [''openid'', ''profile'']"
    "validateAuthorizationRequest (dr_URL ex_doors) asked (Some ex_client) (Some ex_config) [''openid'', ''profile'']
       [''openid'', ''profile''] None = AuthorizeOk q prompts hint maxAge"
  shows "handleAuthorizationRequest ex_doors raw header ex_live_site =
    admit_request ex_doors ex_tenant raw ps ex_client ex_config q prompts hint maxAge header ex_live_site"
proof -
  have t: "enabled_tenant ex_live_site = Some ex_tenant" by code_simp
  have "resolveClient ''web'' ex_live_site = ex_known" by code_simp
  moreover have "\<not> isCimdClientId (dr_URL ex_doors) (dr_href ex_doors) (dr_isIP ex_doors) ''web''" by code_simp
  ultimately have r: "resolveAuthorizeClient ex_doors ex_tenant ''web'' aud ex_live_site = (Inr ex_known, ex_live_site)" for aud
    by (simp add: resolveAuthorizeClient_def tbind_def tget_def tret_def)
  have k: "map cs_name (scope_byNames [''openid'', ''profile''] (si_store ex_live_site)) = [''openid'', ''profile'']"
    by code_simp
  have c: "rc_client ex_known = Some ex_client" "rc_config ex_known = Some ex_config"
    "rc_scopes ex_known = [''openid'', ''profile'']" by (simp_all add: ex_known_def)
  show ?thesis
    by (simp add: handleAuthorizationRequest_def assms tbind_def tget_def t r Let_def k c)
qed

definition ex_request :: "prompt_value list \<Rightarrow> pending_request" where
  "ex_request prompts = parked_request ex_parked prompts [] None [''https://api''] EMPTY_CLAIMS_REQUEST"

lemma ex_answered:
  assumes "resourceParam raw = None" "param_of ''claims'' ps = None" "param_of ''ui_locales'' ps = None"
    "PromptCreate \<notin> set prompts"
  shows "admit_request ex_doors ex_tenant raw ps ex_client ex_config ex_parked prompts None maxAge header ex_live_site =
    answer_from_sessions ex_doors ex_tenant (parked_request ex_parked prompts [] None [''https://api'']
      (claims_with_auth_time maxAge EMPTY_CLAIMS_REQUEST)) ''c1'' maxAge header ex_live_site"
proof -
  have a: "parseResource (dr_URL ex_doors) None hs = ResourceOk hs" for hs
    by (simp add: parseResource_def)
  have h: "audiencesHeld (dr_URL ex_doors) (cl_registrationOrigin ex_client) p (oc_audiences ex_config) m = [''https://api'']" for p m
  proof -
    have "\<not> needsApproval (cl_registrationOrigin ex_client)" by code_simp
    then show ?thesis by (simp add: audiencesHeld_def ex_config_def)
  qed
  have w: "\<not> refusesWriteScope (cl_registrationOrigin ex_client) (tokens (pr_scope ex_parked))"
    "scopesCoherentWithAudience (tokens (pr_scope ex_parked)) [''https://api''] (mcpAudienceOfIssuer (dp_issuer (dr_deps ex_doors)))
       ADMIN_API_AUDIENCE" by code_simp+
  have c: "oc_defaultMaxAge ex_config = None" "cl_id ex_client = ''c1''" by (simp_all add: ex_config_def ex_client_def)
  show ?thesis
    by (cases maxAge) (simp_all add: admit_request_def Let_def assms a h w c parseClaimsRequest_def parseUiLocales_def tbind_def tget_def)
qed

lemma ex_resolved: "map fst (resolveSessions ex_doors ex_tenant ex_cookie ex_live_site) = [ex_live]"
proof -
  have e: "readSessionEntries ex_cookie (dr_tenantName ex_doors) (dr_tls ex_doors) = ([ex_browser], [])" by code_simp
  have d: "dr_digest ex_doors = (\<lambda>x. x)" by (simp add: ex_doors_def ex_sign_def ex_identity_def)
  have m: "entry_matches (\<lambda>x. x) ex_browser (ss_secretHash ex_live)" by (simp add: ex_live_def entry_matches_issued)
  have i: "toLowerCase (en_id ex_browser) = ss_id ex_live" by code_simp
  have l: "stillLive ex_live (tn_lifespans ex_tenant) (dr_now ex_doors)" by code_simp
  have "st_sessions (si_store ex_live_site) = [ex_live]" by (simp add: ex_live_site_def)
  then have "map fst (session_liveByEntries (dr_digest ex_doors) [ex_browser] (tn_lifespans ex_tenant) (dr_now ex_doors)
    (st_sessions (si_store ex_live_site))) = [ex_live]"
    by (simp add: session_liveByEntries_def proved_by_def d m i l List.map_filter_simps)
  then show ?thesis by (simp add: resolveSessions_def e)
qed

lemma ex_reuse_decided: "fst (answer_from_sessions ex_doors ex_tenant (ex_request []) ''c1'' None ex_cookie ex_live_site)
    = Inr (RequestReused ''fresh'' ''https://app/cb'' (Some ''xyz''))"
proof -
  let ?r = "\<lparr>rs_id = en_id ex_browser, rs_subjectId = ''alice'', rs_authTime = 900000\<rparr>"
  have all: "reusable_sessions ex_doors ex_tenant ex_cookie ex_live_site = [(?r, [PASSWORD, OTP])]"
  proof -
    have "toReusableSession ex_live = (?r, [PASSWORD, OTP])" by code_simp
    moreover have "subjectEnabled (ss_subjectId ex_live) ex_live_site" by code_simp
    ultimately show ?thesis by (simp add: reusable_sessions_def ex_resolved)
  qed
  have mine: "candidate_sessions (ex_request []) [(?r, [PASSWORD, OTP])] = [?r]" by code_simp
  have reuse: "decideReuse [?r] [] None (dr_now ex_doors) = Reuse ?r" by code_simp
  have "fst (authenticatorsSatisfyFlow ''alice'' [PASSWORD, OTP] ex_live_site) = Inr True" by code_simp
  then have met: "authenticatorsSatisfyFlow ''alice'' [PASSWORD, OTP] ex_live_site = (Inr True, ex_live_site)"
    by (metis prod.collapse satisfied_run)
  have "pr_prompt (ex_request []) = Some []" by (simp add: ex_request_def)
  then have "answer_from_sessions ex_doors ex_tenant (ex_request []) ''c1'' None ex_cookie ex_live_site
    = reuse_session ex_doors ex_tenant (ex_request []) ''c1'' ?r [PASSWORD, OTP] ex_live_site"
    by (simp add: answer_from_sessions_def Let_def tbind_def tget_def all mine reuse atomically_def met)
  moreover have "fst (reuse_session ex_doors ex_tenant (ex_request []) ''c1'' ?r [PASSWORD, OTP] ex_live_site)
    = Inr (RequestReused ''fresh'' ''https://app/cb'' (Some ''xyz''))" by code_simp
  ultimately show ?thesis by simp
qed

definition ex_reused :: "(exn + request_outcome) \<times> site" where
  "ex_reused = handleAuthorizationRequest ex_doors (ex_ask []) ex_cookie ex_live_site"

lemma ex_reused_run: "fst ex_reused = Inr (RequestReused ''fresh'' ''https://app/cb'' (Some ''xyz''))"
proof -
  have "ex_reused = admit_request ex_doors ex_tenant (ex_ask []) (ex_params []) ex_client ex_config ex_parked [] None None
      ex_cookie ex_live_site"
    unfolding ex_reused_def by (rule ex_admitted) code_simp+
  moreover have "\<dots> = answer_from_sessions ex_doors ex_tenant (ex_request []) ''c1'' None ex_cookie ex_live_site"
    by (subst ex_answered) (code_simp, code_simp, code_simp, code_simp, simp add: ex_request_def claims_with_auth_time_def)
  ultimately show ?thesis using ex_reuse_decided by simp
qed

lemma ex_silent_run: "fst (handleAuthorizationRequest ex_doors (ex_ask [(''prompt'', JStr ''none'')]) None ex_live_site)
    = Inr (RequestRedirect ''https://app/cb'' ErrLoginRequired (Some ''xyz'') None)"
proof -
  have "handleAuthorizationRequest ex_doors (ex_ask [(''prompt'', JStr ''none'')]) None ex_live_site =
    admit_request ex_doors ex_tenant (ex_ask [(''prompt'', JStr ''none'')]) (ex_params [(''prompt'', ''none'')]) ex_client
      ex_config ex_parked [PromptNone] None None None ex_live_site"
    by (rule ex_admitted) code_simp+
  moreover have "\<dots> = answer_from_sessions ex_doors ex_tenant (ex_request [PromptNone]) ''c1'' None None ex_live_site"
    by (subst ex_answered) (code_simp, code_simp, code_simp, code_simp, simp add: ex_request_def claims_with_auth_time_def)
  moreover have "fst (answer_from_sessions ex_doors ex_tenant (ex_request [PromptNone]) ''c1'' None None ex_live_site)
      = Inr (RequestRedirect ''https://app/cb'' ErrLoginRequired (Some ''xyz'') None)" by code_simp
  ultimately show ?thesis by simp
qed

definition ex_choice :: select_answer where
  "ex_choice = \<lparr>sa_sessionId = Some (en_id ex_browser), sa_useOther = False\<rparr>"

lemma ex_chosen_run: "fst (handleSelectAccountSubmission ex_doors (Some ex_attemptId) ex_choice ex_cookie ex_live_site)
    = Inr (RequestReused ''fresh'' ''https://app/cb'' None)"
proof -
  have u: "isUuid ex_attemptId" by code_simp
  have t: "enabled_tenant ex_live_site = Some ex_tenant" by code_simp
  have p: "pendingSession ex_attemptId (dr_now ex_doors) (si_attempts ex_live_site) = Some ex_pending" by code_simp
  have o: "\<not> sa_useOther ex_choice" by code_simp
  have c: "resolveClientId (pr_clientId ex_pending) ex_live_site = Some ''c1''" by code_simp
  have i: "Some (ss_id ex_live) = sa_sessionId ex_choice" by code_simp
  have w: "withinMaxAge (ss_createdAt ex_live) (pr_maxAge ex_pending) (dr_now ex_doors)" by code_simp
  have "handleSelectAccountSubmission ex_doors (Some ex_attemptId) ex_choice ex_cookie ex_live_site =
    chosen_session ex_doors ex_tenant ex_attemptId ex_pending ''c1'' ex_live ex_live_site"
    by (simp add: handleSelectAccountSubmission_def tbind_def tget_def u t p o c ex_resolved i w)
  moreover have "fst (chosen_session ex_doors ex_tenant ex_attemptId ex_pending ''c1'' ex_live ex_live_site)
      = Inr (RequestReused ''fresh'' ''https://app/cb'' None)" by code_simp
  ultimately show ?thesis by simp
qed

definition ex_allowed :: "(exn + login_outcome) \<times> site" where
  "ex_allowed = handleConsentSubmission ex_doors (Some ex_attemptId) ex_allow None ex_done_site"

definition ex_narrowed :: pending_request where
  "ex_narrowed = ex_pending\<lparr>pr_scope := join_scope (final_scopes (consentContext ''c1'' ex_done_site) ex_allow ex_pending)\<rparr>"

lemma ex_authenticated:
  "authenticatedSession (dr_sign ex_doors) ex_attemptId ex_done_site = (Inr (Some (''alice'', [PASSWORD, OTP])), ex_done_site)"
proof -
  have "fst (authenticatedSession (dr_sign ex_doors) ex_attemptId ex_done_site) = Inr (Some (''alice'', [PASSWORD, OTP]))"
    by code_simp
  then obtain s' where r: "authenticatedSession (dr_sign ex_doors) ex_attemptId ex_done_site
      = (Inr (Some (''alice'', [PASSWORD, OTP])), s')" by (metis prod.collapse)
  with authenticatedSession_Some [OF r] show ?thesis by simp
qed

lemma ex_consent_gates:
  "loadPendingRequest ex_attemptId (si_attempts ex_done_site) = Some ex_pending"
  "si_tenant ex_done_site = Some ex_tenant" "refusedForUnverifiedEmail ex_tenant ''alice'' ex_done_site = None"
  "resolveClientId (pr_clientId ex_pending) ex_done_site = Some ''c1''" "an_decision ex_allow = Some ''allow''"
  by code_simp+

lemma ex_allowed_run: "\<exists>lr. fst ex_allowed = Inr (Redirect lr)"
proof -
  have "fst (pendingActions ''alice'' ex_done_site) = Inr []" by code_simp
  then have p: "pendingActions ''alice'' ex_done_site = (Inr [], snd (pendingActions ''alice'' ex_done_site))"
    by (simp add: prod_eq_iff)
  from pendingActions_Inr(1) [OF p] obtain rows where
    s1: "snd (pendingActions ''alice'' ex_done_site) = ex_done_site\<lparr>si_actions := rows\<rparr>" by blast
  let ?ids = "recorded_ids (consentContext ''c1'' ex_done_site) ex_allow ex_pending"
  have "fst (recordConsent ''alice'' ''c1'' ?ids ex_done_site) = Inr ()" by code_simp
  moreover have "fst (recordConsent ''alice'' ''c1'' ids (s\<lparr>si_actions := rows\<rparr>)) = fst (recordConsent ''alice'' ''c1'' ids s)"
    for ids and s :: site by (simp add: recordConsent_def Let_def)
  ultimately have r: "recordConsent ''alice'' ''c1'' ?ids (snd (pendingActions ''alice'' ex_done_site))
      = (Inr (), snd (recordConsent ''alice'' ''c1'' ?ids (snd (pendingActions ''alice'' ex_done_site))))"
    by (simp add: s1 prod_eq_iff)
  have n: "nextRequiredAction [] = None" by code_simp
  have u: "dr_withParams ex_doors (pr_redirectUri ex_pending) (code_params ex_doors ex_pending (sg_newCode (dr_sign ex_doors)))
      = Some ''https://app/cb?code''" by code_simp
  note g = ex_consent_gates
  from consent_succeeds [OF ex_authenticated ex_gates(1) g(2) ex_gates(3) g(1) ex_gates(10) g(3,4) p n g(5) r ex_ready(2)
      ex_trail u] show ?thesis
    unfolding ex_allowed_def by (metis fst_conv)
qed

lemma ex_allowed_minted: "minted_by ex_doors ex_attemptId ex_narrowed ''c1'' ''alice'' ''s2'' ex_done_site (snd ex_allowed)"
proof -
  from ex_allowed_run obtain lr where "handleConsentSubmission ex_doors (Some ex_attemptId) ex_allow None ex_done_site
      = (Inr (Redirect lr), snd ex_allowed)" by (metis ex_allowed_def prod.collapse)
  from consent_Redirect [OF this] ex_authenticated ex_consent_gates(1,4)
  have m: "minted_by ex_doors ex_attemptId ex_narrowed ''c1'' ''alice'' (lr_sessionId lr) ex_done_site (snd ex_allowed)"
    by (auto simp: ex_narrowed_def)
  moreover have "pr_reuseSessionId ex_narrowed = None" using ex_gates(10) by (simp add: ex_narrowed_def)
  moreover have "en_id (sg_entry (dr_sign ex_doors)) = ''s2''" by (simp add: ex_doors_def ex_sign_def)
  ultimately show ?thesis by (auto simp: minted_by_def)
qed

end
