(* ===== verification/Door_Properties.thy ===== *)
theory Door_Properties
  imports Door_Examples
begin

text \<open>
  The properties of the authorization endpoint and of the doors to a code behind it.
\<close>

section \<open>The authorization endpoint\<close>

text \<open>
  C6: whatever a request says, the browser is sent, with an error or with a code, only to an
  address the named client registered for itself: one of its list to the letter, or, for a public
  client or one that is described by a document, a loopback address that differs from one of the
  list in its port alone. The client is enabled, and so is the tenant.
\<close>

theorem authorize_redirects_registered:
  assumes "handleAuthorizationRequest d raw header s = (Inr out, s')"
    "(\<exists>e st desc. out = RequestRedirect uri e st desc) \<or> (\<exists>code st. out = RequestReused code uri st)"
  shows "\<exists>ps rep t i r s1 c cfg. normalizeAuthorizeQuery raw = QueryOk ps rep \<and> enabled_tenant s = Some t
    \<and> param_of ''client_id'' ps = Some i
    \<and> resolveAuthorizeClient d t i (mcpAudienceOfIssuer (dp_issuer (dr_deps d))) s = (Inr r, s1)
    \<and> rc_client r = Some c \<and> rc_config r = Some cfg \<and> cl_enabled c
    \<and> (uri \<in> set (oc_redirectUris cfg)
       \<or> (\<exists>u \<in> set (oc_redirectUris cfg).
            cl_registrationOrigin c = ''cimd'' \<and> matchesLoopbackPort (dr_URL d) uri u CIMD_LOOPBACK_HOSTS
            \<or> cl_type c = Public \<and> matchesLoopbackPort (dr_URL d) uri u LOOPBACK_LITERALS))"
proof -
  have "\<exists>ps rep t r c cfg s1. past_boundary d raw s ps rep t r c cfg uri s1"
    using assms(1)
  proof (cases rule: handle_cases)
    case (1 e desc)
    with assms(2) show ?thesis by auto
  next
    case (2 ps rep t r c cfg uri' s1 e desc)
    with assms(2) have "uri' = uri" by auto
    with 2(1) show ?thesis by blast
  next
    case (3 ps rep t r c cfg uri' s1 q prompts hint maxAge)
    from below_boundary_Ok [OF 3(2)] have "pr_redirectUri q = uri'" by (auto simp: toPendingRequest_def)
    with yieldsD [OF admit_goes_to 3(3)] assms(2) have "uri = uri'" by auto
    with 3(1) show ?thesis by blast
  qed
  then obtain ps rep t r c cfg s1 where "past_boundary d raw s ps rep t r c cfg uri s1" by blast
  then show ?thesis
    unfolding past_boundary_def isRegisteredRedirectUri_def isCimdRedirectUri_def list_ex_iff
    by (elim conjE exE, intro exI conjI; (assumption | fastforce split: if_splits))
qed

theorem authorize_redirects_registered_witness:
  "\<exists>t r s1 c cfg. resolveAuthorizeClient ex_doors t ''web'' ''https://id/mcp'' ex_live_site = (Inr r, s1)
    \<and> rc_client r = Some c \<and> rc_config r = Some cfg \<and> ''https://app/cb'' \<in> set (oc_redirectUris cfg)"
proof -
  have q: "normalizeAuthorizeQuery (ex_ask []) = QueryOk (ex_params []) None" by code_simp
  have i: "param_of ''client_id'' (ex_params []) = Some ''web''" by code_simp
  have m: "mcpAudienceOfIssuer (dp_issuer (dr_deps ex_doors)) = ''https://id/mcp''" by code_simp
  have u: "\<not> matchesLoopbackPort (dr_URL ex_doors) ''https://app/cb'' u hosts" for u hosts
    by (auto simp: matchesLoopbackPort_def ex_doors_def ex_sign_def ex_deps_def ex_platform_def ex_URL_def ex_url_def
        split: option.splits)
  have "handleAuthorizationRequest ex_doors (ex_ask []) ex_cookie ex_live_site = (fst ex_reused, snd ex_reused)"
    by (simp add: ex_reused_def)
  from authorize_redirects_registered [OF this [unfolded ex_reused_run], of "''https://app/cb''"] show ?thesis
    by (simp add: q i m u) metis
qed

text \<open>
  C14: a request that forbids any page gets none: its answer is an error, on a page only where the
  client or its address cannot be trusted, or the code of a session that needs nothing more.
\<close>

theorem prompt_none_silent:
  assumes "handleAuthorizationRequest d raw header s = (Inr out, s')" "normalizeAuthorizeQuery raw = QueryOk ps rep"
    "param_of ''prompt'' ps = Some text" "''none'' \<in> set (js_split CHR '' '' text)"
  shows "(\<exists>e desc. out = RequestRender e desc) \<or> (\<exists>uri e st desc. out = RequestRedirect uri e st desc)
    \<or> (\<exists>code uri st. out = RequestReused code uri st)"
proof -
  have "no_page out"
    using assms(1)
  proof (cases rule: handle_cases)
    case (3 ps' rep' t r c cfg uri s1 q prompts hint maxAge)
    from 3(1) assms(2) have ps': "ps' = ps" by (simp add: past_boundary_def)
    have "param_of ''prompt'' (asked_params r ps) = Some text"
      using assms(3) by (auto simp: asked_params_def Let_def split: option.splits)
    with below_boundary_Ok [OF 3(2)] ps' obtain vs where
      p: "parsePrompt (Some text) = Some prompts" "prompt_loop (js_split CHR '' '' text) [] = Some vs" "vs = prompts"
      by (auto simp: parsePrompt_def split: option.splits if_splits)
    with prompt_loop_none [OF p(2) assms(4)] parsePrompt_alone(1) have "prompts = [PromptNone]" by blast
    with yieldsD [OF silent_admit 3(3) [unfolded \<open>prompts = [PromptNone]\<close>]] show ?thesis by simp
  qed simp_all
  then show ?thesis by (cases out) auto
qed

theorem prompt_none_silent_witness:
  "fst (handleAuthorizationRequest ex_doors (ex_ask [(''prompt'', JStr ''none'')]) None ex_live_site)
     = Inr (RequestRedirect ''https://app/cb'' ErrLoginRequired (Some ''xyz'') None)
   \<and> (\<exists>out. fst (handleAuthorizationRequest ex_doors (ex_ask [(''prompt'', JStr ''none'')]) None ex_live_site) = Inr out
        \<and> \<not> (\<exists>i b p. out = RequestStarted i b p))"
proof -
  let ?run = "handleAuthorizationRequest ex_doors (ex_ask [(''prompt'', JStr ''none'')]) None ex_live_site"
  have run: "?run = (Inr (RequestRedirect ''https://app/cb'' ErrLoginRequired (Some ''xyz'') None), snd ?run)"
    using ex_silent_run by (simp add: prod_eq_iff)
  have q: "normalizeAuthorizeQuery (ex_ask [(''prompt'', JStr ''none'')]) = QueryOk (ex_params [(''prompt'', ''none'')]) None"
    by code_simp
  have p: "param_of ''prompt'' (ex_params [(''prompt'', ''none'')]) = Some ''none''" by code_simp
  have "''none'' \<in> set (js_split CHR '' '' ''none'')" by code_simp
  from prompt_none_silent [OF run q p this] ex_silent_run show ?thesis by auto
qed



section \<open>The account chooser\<close>

text \<open>
  C13: the account chooser signs in only a session this browser proves with its own cookie, whatever
  id is posted, of an enabled subject, young enough for the request that was parked, and under the
  same conditions as a reuse; the code is for the parked request.
\<close>

theorem chooser_own_sessions:
  assumes "handleSelectAccountSubmission d a ans header s = (Inr (RequestReused code uri st), s')"
  shows "\<exists>i t q cid row. a = Some i \<and> enabled_tenant s = Some t
    \<and> pendingSession i (dr_now d) (si_attempts s) = Some q \<and> resolveClientId (pr_clientId q) s = Some cid
    \<and> sa_sessionId ans = Some (ss_id row) \<and> proved_session d t header s row
    \<and> withinMaxAge (ss_createdAt row) (pr_maxAge q) (dr_now d)
    \<and> reuse_passes t q cid (ss_subjectId row) (ss_authenticators row) s
    \<and> uri = pr_redirectUri q \<and> st = pr_state q \<and> code = sg_newCode (dr_sign d)
    \<and> code_from_session d q cid (ss_subjectId row) (ss_createdAt row) (ss_id row) s s'"
  using select_Reused [OF assms] by (auto simp: enabled_tenant_def)

theorem chooser_own_sessions_witness:
  "\<exists>row. proved_session ex_doors ex_tenant ex_cookie ex_live_site row \<and> ss_id row = en_id ex_browser"
proof -
  let ?run = "handleSelectAccountSubmission ex_doors (Some ex_attemptId) ex_choice ex_cookie ex_live_site"
  have "?run = (Inr (RequestReused ''fresh'' ''https://app/cb'' None), snd ?run)"
    using ex_chosen_run by (simp add: prod_eq_iff)
  from chooser_own_sessions [OF this] have "\<exists>t row. enabled_tenant ex_live_site = Some t
      \<and> proved_session ex_doors t ex_cookie ex_live_site row \<and> sa_sessionId ex_choice = Some (ss_id row)" by blast
  moreover have "enabled_tenant ex_live_site = Some ex_tenant" by code_simp
  moreover have "sa_sessionId ex_choice = Some (en_id ex_browser)" by (simp add: ex_choice_def)
  ultimately show ?thesis by auto
qed

section \<open>The login form\<close>

text \<open>
  C8: a login form reaches the client only after the flow of the tenant succeeded in that very
  submission, for an enabled subject whose address is verified where the tenant asks for it, who is
  the one a hint or the claims name, owes no action, and whose consent stands; the attempt was not
  used yet, and is used up with it. The one row of a code added is for the request that was parked.
\<close>

theorem login_mints_after_all_gates:
  assumes "handleLoginSubmission d a input header rm s = (Inr (Redirect lr), s')"
  shows "\<exists>i t sub auths s1 s2 q cid. a = Some i \<and> enabled_tenant s = Some t
    \<and> advance (dr_sign d) i input s = (Inr (AdvanceSuccess sub auths), s1)
    \<and> subjectEnabled sub s \<and> refusedForUnverifiedEmail t sub s = None
    \<and> loadPendingRequest i (si_attempts s) = Some q
    \<and> \<not> differs (pr_idTokenHintSubject q) sub \<and> \<not> differs (pr_claimsSubject q) sub
    \<and> pendingActions sub s1 = (Inr [], s2)
    \<and> resolveClientId (pr_clientId q) s = Some cid
    \<and> decideConsentGate cid sub (pr_scope q) (pr_prompt q) s = GateNotRequired
    \<and> minted_by d i q cid sub (lr_sessionId lr) s s'
    \<and> dr_withParams d (pr_redirectUri q) (code_params d q (sg_newCode (dr_sign d))) = Some (lr_location lr)"
proof -
  from login_Redirect [OF assms] show ?thesis
    unfolding nextRequiredAction_None enabled_tenant_def by (elim exE conjE, intro exI conjI) simp_all
qed

theorem login_mints_after_all_gates_witness:
  "\<exists>q s' sid. minted_by ex_doors ex_attemptId q ''c1'' ''alice'' sid ex_half_site s'
     \<and> loadPendingRequest ex_attemptId (si_attempts ex_half_site) = Some q"
proof -
  obtain lr where run: "ex_logged_in = (Inr (Redirect lr), snd ex_logged_in)"
    using ex_logged_in_run by (metis prod.collapse)
  have h: "handleLoginSubmission ex_doors (Some ex_attemptId) ex_otp None False ex_half_site
      = (Inr (Redirect lr), snd ex_logged_in)"
    using run by (simp add: ex_logged_in_def)
  from login_mints_after_all_gates [OF h] obtain sub auths s1 q cid where
    f: "advance ex_sign ex_attemptId ex_otp ex_half_site = (Inr (AdvanceSuccess sub auths), s1)"
      "loadPendingRequest ex_attemptId (si_attempts ex_half_site) = Some q"
      "resolveClientId (pr_clientId q) ex_half_site = Some cid"
      "minted_by ex_doors ex_attemptId q cid sub (lr_sessionId lr) ex_half_site (snd ex_logged_in)"
    by (auto simp: ex_doors_def)
  with ex_second ex_gates(4,6) show ?thesis by auto
qed

text \<open>
  C9: a login whose gates are all open does reach the client: where the flow has succeeded, nothing
  is owed, the tenant and the subject are enabled and consent stands, the form is answered with the
  address of the parked request, for a session id and a code nobody has and a trail that takes its rows.
\<close>

theorem login_reaches_client:
  assumes "advance (dr_sign d) i input s = (Inr (AdvanceSuccess sub auths), s1)"
    "isUuid i" "si_tenant s = Some t" "tn_enabled t"
    "loadPendingRequest i (si_attempts s) = Some q" "pr_reuseSessionId q = None"
    "\<not> differs (pr_idTokenHintSubject q) sub" "\<not> differs (pr_claimsSubject q) sub"
    "refusedForUnverifiedEmail t sub s = None" "resolveClientId (pr_clientId q) s = Some cid"
    "decideConsentGate cid sub (pr_scope q) (pr_prompt q) s = GateNotRequired"
    "pendingActions sub s1 = (Inr as, s2)" "nextRequiredAction as = None"
    "login_ready d i cid sub s" "\<And>row. \<not> dp_auditRefused (dr_deps d) row"
    "dr_withParams d (pr_redirectUri q) (code_params d q (sg_newCode (dr_sign d))) = Some location"
  shows "\<exists>lr s'. handleLoginSubmission d (Some i) input header rm s = (Inr (Redirect lr), s') \<and> lr_location lr = location"
  using assms by (rule login_succeeds)

theorem login_reaches_client_witness:
  "\<exists>lr s'. handleLoginSubmission ex_doors (Some ex_attemptId) ex_otp None False ex_half_site = (Inr (Redirect lr), s')
    \<and> lr_location lr = ''https://app/cb?code''"
proof (rule login_reaches_client [OF _ ex_gates(1,2,3,4,10,8,9,5,6,7)])
  show "advance (dr_sign ex_doors) ex_attemptId ex_otp ex_half_site
      = (Inr (AdvanceSuccess ''alice'' [PASSWORD, OTP]), ex_signed_in)"
    using ex_second by (simp add: ex_doors_def)
  show "pendingActions ''alice'' ex_signed_in = (Inr [], snd (pendingActions ''alice'' ex_judged_site))"
    using ex_owes_nothing by (simp add: ex_signed_in_judged prod_eq_iff)
  show "nextRequiredAction [] = None" by code_simp
  show "login_ready ex_doors ex_attemptId ''c1'' ''alice'' ex_half_site" by (rule ex_ready)
  show "\<And>row. \<not> dp_auditRefused (dr_deps ex_doors) row" by (simp add: ex_doors_def ex_sign_def ex_deps_def)
  show "dr_withParams ex_doors (pr_redirectUri ex_pending) (code_params ex_doors ex_pending (sg_newCode (dr_sign ex_doors)))
      = Some ''https://app/cb?code''" by code_simp
qed



section \<open>The consent page\<close>



section \<open>The code at the token endpoint\<close>

text \<open>
  C11: the code of a login is good at the token endpoint: presented within its time by the client it
  was minted for, with the address of the request and the verifier its challenge was derived from,
  while its subject is enabled, it is redeemed, and what is redeemed is the request that was parked.
\<close>

theorem door_code_redeems:
  assumes "minted_by d i q cid sub sid s s'" "si_tenant s = Some t"
    "hash_token e (cr_code request) = hash_token (dr_deps d) (sg_newCode (dr_sign d))"
    "dp_dbNow e < dr_now d + tn_authorizationCodeTtlSeconds t * 1000"
    "cl_id client = cid" "cr_redirectUri request = pr_redirectUri q"
    "verifyPkce (pf_sha256 (dp_platform e)) (cr_codeVerifier request) (pr_codeChallenge q)"
    "subjectIsEnabled (subject_byId sub (st_subjects (si_store s')))"
  shows "\<exists>code cw. redeemAuthorizationCode e request client (c, si_store s') = (Inr code, cw)
    \<and> ac_clientId code = cid \<and> ac_subjectId code = sub \<and> ac_scope code = pr_scope q
    \<and> ac_nonce code = pr_nonce q \<and> ac_sessionId code = Some sid"
proof -
  from assms(1,2) obtain at where
    codes: "st_codes (si_store s') = st_codes (si_store s) @ [code_row d t (code_of_pending q cid sub at sid)]"
      "hash_token (dr_deps d) (sg_newCode (dr_sign d)) \<notin> ac_codeHash ` set (st_codes (si_store s))"
    by (auto simp: minted_by_def)
  have k: "cl_id client = ki_clientId (code_of_pending q cid sub at sid)"
    "cr_redirectUri request = ki_redirectUri (code_of_pending q cid sub at sid)"
    "verifyPkce (pf_sha256 (dp_platform e)) (cr_codeVerifier request) (ki_codeChallenge (code_of_pending q cid sub at sid))"
    "subjectIsEnabled (subject_byId (ki_subjectId (code_of_pending q cid sub at sid)) (st_subjects (si_store s')))"
    using assms(5-8) by (simp_all add: code_of_pending_def)
  from minted_redeemed [OF codes assms(3,4) k] obtain cw where
    "redeemAuthorizationCode e request client (c, si_store s')
      = (Inr ((code_row d t (code_of_pending q cid sub at sid))\<lparr>ac_consumedAt := Some (dp_dbNow e)\<rparr>), cw)" by blast
  then show ?thesis by (simp add: code_row_def code_of_pending_def)
qed

theorem door_code_redeems_witness:
  "\<exists>code cw. redeemAuthorizationCode ex_deps (ex_code_request\<lparr>cr_code := ''fresh''\<rparr>) ex_client
      (ex_store, si_store (snd ex_allowed)) = (Inr code, cw) \<and> ac_subjectId code = ''alice'' \<and> ac_sessionId code = Some ''s2''"
proof -
  have t: "si_tenant ex_done_site = Some ex_tenant" by code_simp
  have "\<exists>code cw. redeemAuthorizationCode ex_deps (ex_code_request\<lparr>cr_code := ''fresh''\<rparr>) ex_client
      (ex_store, si_store (snd ex_allowed)) = (Inr code, cw) \<and> ac_clientId code = ''c1'' \<and> ac_subjectId code = ''alice''
      \<and> ac_scope code = pr_scope ex_narrowed \<and> ac_nonce code = pr_nonce ex_narrowed \<and> ac_sessionId code = Some ''s2''"
    by (rule door_code_redeems [OF ex_allowed_minted t]) code_simp+
  then show ?thesis by blast
qed

end
