(* ===== verification/Endpoint_Properties.thy ===== *)
theory Endpoint_Properties
  imports Examples
begin

text \<open>
  Properties of the endpoints a client calls, as whole requests: who gets a token, what a
  refused client learns and leaves, and that an assertion proves a client once.
\<close>

text \<open>
  C17: the token endpoint answers with tokens only to a client that proved itself. It is
  registered and enabled, the grant it asked for is one of its own, and it presented exactly what
  its registered method asks for: a secret it holds at that instant, by the method it registered;
  a certificate subject a trusted proxy supplied and that is the registered one; or an assertion
  its own keys verify, for this tenant's endpoint, whose \<open>jti\<close> was not spent. Only a public
  client is taken at its word.
\<close>

theorem client_authenticated:
  assumes run: "tokenRoute d request s = (Inr resp, s')"
  shows "\<exists>a structured. parseStructure (rc_body request) = Inr structured
    \<and> au_client a \<in> set (st_clients s) \<and> cl_enabled (au_client a)
    \<and> config_byClientId (cl_id (au_client a)) (st_configs s) = Some (au_config a)
    \<and> grantType structured \<in> set (oc_grantTypes (au_config a))
    \<and> proved d request s a"
proof (cases rule: tokenRoute_run [OF run])
  case (2 structured s1)
  then obtain a :: authenticated where a: "authenticateEndpointClient d request s = Inr a"
    and st: "settled (settle d (au_settle a)
      (issue_annotated (ea_deps d) structured (au_client a) (au_config a))) s = (Inr resp, s1)"
    by (auto simp: after_authentication_run split: sum.splits)
  from settled_settle [OF st] obtain s2 where
    "in_request (issue_annotated (ea_deps d) structured (au_client a) (au_config a)) s = (Inr resp, s2)"
    by (auto split: settlement.splits if_splits)
  then have "grantType structured \<in> set (oc_grantTypes (au_config a))"
    by (auto simp: in_request_Inr issueForAuthenticatedClient_def tfail_def dest!: issue_annotated_run split: if_splits)
  with authenticateEndpointClient_Inr [OF a] 2(1) show ?thesis by blast
qed simp

definition ex_auth_deps :: auth_deps where
  "ex_auth_deps =
     \<lparr>ea_deps = ex_deps, ea_tenantId = ''t'', ea_verifyPassword = (\<lambda>h s. h = CHR ''#'' # s),
      ea_limiter = (\<lambda>k. (False, 30)), ea_budget = (\<lambda>k. BudgetRow), ea_cimdEnabled = False,
      ea_trustProxy = False, ea_tlsClientCertHeader = ''x-dn'', ea_base64 = id,
      ea_decodeURI = Some,
      ea_segment = (\<lambda>p. Some (JObj [(''iss'', JStr ''web''), (''sub'', JStr ''web''),
        (''aud'', JStr (tokenEndpointOf ''https://id'')), (''exp'', JNum 1200), (''jti'', JStr ''j'')])),
      ea_fetchKeys = (\<lambda>uri public. None), ea_verifyKeySet = (\<lambda>keys iss aud leeway token. True),
      ea_lockFree = True, ea_spendRefused = False\<rparr>"

definition ex_body :: "(string \<times> string) list \<Rightarrow> body" where
  "ex_body ps k = map_option One (map_of ps k)"

definition ex_request :: "string \<Rightarrow> client_request" where
  "ex_request secret =
     \<lparr>rc_body = ex_body [(''grant_type'', ''client_credentials''), (''scope'', ''profile'')],
      rc_authorization = Some (''Basic web:'' @ secret), rc_headers = (\<lambda>k. None), rc_rawHeaders = []\<rparr>"



theorem client_authenticated_witness:
  "\<exists>resp s' a. tokenRoute ex_auth_deps (ex_request ''s3cret'') ex_store = (Inr resp, s')
     \<and> cl_enabled (au_client a) \<and> proved ex_auth_deps (ex_request ''s3cret'') ex_store a"
proof -
  let ?run = "tokenRoute ex_auth_deps (ex_request ''s3cret'') ex_store"
  have "\<not> isl (fst ?run)" by code_simp
  from run_Inr [OF this] obtain resp where run: "?run = (Inr resp, snd ?run)" by blast
  from client_authenticated [OF this] run show ?thesis by blast
qed

text \<open>
  C19: a client that does not authenticate learns one thing at the token endpoint: the same
  401 whatever was wrong, or a 429 once its failures have spent its budget. It leaves at most
  one row of the trail, a refusal that names a registered client; a guessed identifier leaves
  none.
\<close>

theorem refused_client_uniform:
  assumes refused: "authenticateEndpointClient d request s = Inl e"
    and body: "parseStructure (rc_body request) = Inr structured"
    and run: "tokenRoute d request s = (r, s')"
  shows "(reply_of r = ErrorBody (InvalidClient, 401, Some WWW_AUTHENTICATE) \<or> (\<exists>n. reply_of r = TooManyRequests n))
    \<and> (s' = s \<or> (\<exists>row i. s' = s\<lparr>st_audit := st_audit s @ [row]\<rparr> \<and> ae_outcome row = Refused
         \<and> ae_actorClientId row = Some i \<and> has_client s i))"
proof (rule refused_client_route)
  show "with_refusals d (settled (issueTokens d request)) s = (r, s')"
    using run by (simp add: tokenRoute_def)
  show "settled (issueTokens d request) s = (Inl e, s)"
    by (simp add: settled_def issueTokens_def in_request_def body after_authentication_def refused)
  show "refusal_of_client s e" by (rule authenticateEndpointClient_Inl [OF refused])
qed

theorem refused_client_uniform_witness:
  "reply_of (fst (tokenRoute (ex_auth_deps\<lparr>ea_limiter := (\<lambda>k. (True, 0))\<rparr>) (ex_request ''wrong'') ex_store))
     = ErrorBody (InvalidClient, 401, Some WWW_AUTHENTICATE)
   \<and> (\<exists>n. reply_of (fst (tokenRoute ex_auth_deps (ex_request ''wrong'') ex_store)) = TooManyRequests n)"
proof -
  let ?d = "ex_auth_deps\<lparr>ea_limiter := (\<lambda>k. (True, 0))\<rparr>" and ?q = "ex_request ''wrong''"
  have body: "\<not> isl (parseStructure (rc_body ?q))" by code_simp
  then obtain structured where body: "parseStructure (rc_body ?q) = Inr structured"
    by (cases "parseStructure (rc_body ?q)") auto
  have "isl (authenticateEndpointClient ?d ?q ex_store)" by code_simp
  then obtain e where e: "authenticateEndpointClient ?d ?q ex_store = Inl e"
    by (cases "authenticateEndpointClient ?d ?q ex_store") auto
  have "\<not> (case fst (tokenRoute ?d ?q ex_store) of Inl (TokenRateLimited n a) \<Rightarrow> True | _ \<Rightarrow> False)" by code_simp
  then have "\<nexists>n. reply_of (fst (tokenRoute ?d ?q ex_store)) = TooManyRequests n"
    by (auto simp: reply_of_def split: sum.splits exn.splits)
  with refused_client_uniform [OF e body surjective_pairing] have
    "reply_of (fst (tokenRoute ?d ?q ex_store)) = ErrorBody (InvalidClient, 401, Some WWW_AUTHENTICATE)" by blast
  moreover have "reply_of (fst (tokenRoute ex_auth_deps ?q ex_store)) = TooManyRequests 30" by code_simp
  ultimately show ?thesis by blast
qed



end
