(* ===== verification/Sign_In_Properties.thy ===== *)
theory Sign_In_Properties
  imports Sign_In_Examples
begin

text \<open>
  The properties of the sign-in: what a successful submission proves, what a locked account tells,
  which factors are used once, and the protocol a parked attempt follows.
\<close>

section \<open>A successful submission\<close>



text \<open>
  C24: whoever is signed in has passed the tenant's whole flow as it applies to them: every required
  step, one of each group of alternatives, every conditional step that applies, and at least one
  step at all.
\<close>

theorem sign_in_completes_flow:
  assumes "advance d i input s = (Inr (AdvanceSuccess sub as), s')" "e \<in> set (si_executions s)"
  shows "(ex_requirement e = Required \<longrightarrow> ex_authenticator e \<in> set as)
    \<and> (ex_requirement e = Alternative \<longrightarrow>
        (\<exists>e' \<in> set (si_executions s). ex_requirement e' = Alternative \<and> ex_authenticator e' \<in> set as))
    \<and> (\<exists>t. si_tenant s = Some t \<and> (ex_requirement e = Conditional \<longrightarrow>
        isApplicable (ex_authenticator e) (facts_of (request_for sub as input) t s)
          (list_ex (\<lambda>e. ex_authenticator e = RECOVERY_CODE \<and> ex_requirement e \<noteq> Disabled) (si_executions s)
            \<and> isApplicable RECOVERY_CODE (facts_of (request_for sub as input) t s) False) \<longrightarrow>
        ex_authenticator e \<in> set as))
    \<and> (\<exists>e' \<in> set (si_executions s). ex_requirement e' \<noteq> Disabled)"
proof (rule advance_success [OF assms(1)])
  fix r t
  assume "si_tenant s = Some t" and c: "nextStep (flow_steps (request_for sub as input) t s) (set as) = Complete"
  with flow_complete [OF c assms(2)] flow_complete_enabled [OF c] show ?thesis by blast
qed

theorem sign_in_completes_flow_witness:
  "\<exists>e' \<in> set (si_executions ex_half_site). ex_requirement e' = Alternative \<and> ex_authenticator e' \<in> set [PASSWORD, OTP]"
proof -
  have e: "ex_execution 1 PASSKEY Alternative \<in> set (si_executions ex_half_site)"
    by (simp add: ex_half_site_def ex_site_def ex_flow_def)
  show ?thesis using sign_in_completes_flow [OF ex_second e] by (simp add: ex_execution_def)
qed



section \<open>A locked account\<close>

text \<open>
  C26: while the account a login name stands for is locked, what a submission answers and leaves behind
  is the same whatever the password: a locked account cannot be used to test one. Nor can its second
  factors: a code of the app or a recovery code is refused before it is looked at, and counted.
\<close>

theorem locked_account_silent:
  assumes "attempt_byId i (si_attempts s) = Some r" "si_tenant s = Some t"
    and "isLockedOut (snd (passwordAttemptFor login (tn_loginWithEmail t) s)) (sg_now d)"
    and "in_username input = Some login"
    and "sc_subjectId ctx = Some sub" "isLockedOut (failure_forSubject sub (si_failures s)) (sg_now d)"
    and "in_code coded \<noteq> None" "recoveryCodeOffered recovering"
  shows "advance d i (input\<lparr>in_password := Some p\<rparr>) s = advance d i (input\<lparr>in_password := Some q\<rparr>) s
    \<and> runOtpStep d coded ctx s =
        tbind (recordFailure d sub (sc_lockout ctx)) (\<lambda>_. tret (locked_out_failure sub)) s
    \<and> runRecoveryStep d recovering ctx s =
        tbind (recordFailure d sub (sc_lockout ctx)) (\<lambda>_. tret (locked_out_failure sub)) s"
proof -
  have locked: "\<not> unlocked d s sub" using assms(6) by (simp add: unlocked_def)
  show ?thesis
    using advance_locked [OF assms(1-4)] locked_second_factor(1) [OF assms(5) locked assms(7)]
      locked_second_factor(2) [OF assms(5) locked assms(8)] by blast
qed

definition ex_locked_site :: site where
  "ex_locked_site = ex_site\<lparr>si_failures := [\<lparr>lg_subjectId = ''alice'', lg_failureCount = 5,
     lg_firstFailureAt = Some 900000, lg_lastFailureAt = Some 990000, lg_lockedUntil = Some 1050000\<rparr>]\<rparr>"

theorem locked_account_silent_witness:
  "advance ex_sign ex_attemptId (ex_login\<lparr>in_password := Some ''pw''\<rparr>) ex_locked_site
     = advance ex_sign ex_attemptId (ex_login\<lparr>in_password := Some ''guess''\<rparr>) ex_locked_site"
proof -
  have at: "attempt_byId ex_attemptId (si_attempts ex_locked_site) = Some ex_attempt" by code_simp
  have t: "si_tenant ex_locked_site = Some ex_tenant" by code_simp
  have l: "isLockedOut (snd (passwordAttemptFor ''alice'' (tn_loginWithEmail ex_tenant) ex_locked_site)) (sg_now ex_sign)"
    by code_simp
  have u: "in_username ex_login = Some ''alice''" by (simp add: ex_login_def)
  have c: "sc_subjectId (context_of ex_half ex_attemptId ex_tenant) = Some ''alice''"
    by (simp add: context_of_def ex_half_def)
  have f: "isLockedOut (failure_forSubject ''alice'' (si_failures ex_locked_site)) (sg_now ex_sign)" by code_simp
  have o: "in_code ex_otp \<noteq> None" by (simp add: ex_otp_def)
  have r: "recoveryCodeOffered (NO_INPUT\<lparr>in_recoveryCode := Some ''C0DE''\<rparr>)" by code_simp
  show ?thesis using locked_account_silent [OF at t l u c f o r] by blast
qed

section \<open>The protocol of an attempt\<close>






text \<open>
  The hypothesis on the recovery-code step cannot be dropped: in a flow that lists it as an
  alternative beside the password, the OTP step stands down for a submission that carries any text
  in its recovery-code field, and no recovery step runs, since the password has satisfied the
  alternatives already. Nothing here has verified a second factor.
\<close>

definition ex_loose_site :: site where
  "ex_loose_site = ex_site\<lparr>si_executions := [ex_execution 0 PASSWORD Alternative,
     ex_execution 1 RECOVERY_CODE Alternative, ex_execution 2 OTP Conditional]\<rparr>"

definition ex_any_text :: advance_input where
  "ex_any_text = ex_login\<lparr>in_recoveryCode := Some ''0''\<rparr>"

lemma recovery_text_skips_second_factor:
  "\<exists>s'. advance ex_sign ex_attemptId ex_any_text ex_loose_site = (Inr (AdvanceSuccess ''alice'' [PASSWORD]), s')"
proof (intro exI, rule advance_stages)
  show "attempt_byId ex_attemptId (si_attempts ex_loose_site) = Some ex_attempt" by code_simp
  show "si_tenant ex_loose_site = Some ex_tenant" by code_simp
  show "sg_now ex_sign < at_expiresAt ex_attempt" by code_simp
  let ?steps = "[\<lparr>sp_authenticator = PASSWORD, sp_requirement = Alternative, sp_applicable = True\<rparr>,
     \<lparr>sp_authenticator = RECOVERY_CODE, sp_requirement = Alternative, sp_applicable = False\<rparr>,
     \<lparr>sp_authenticator = OTP, sp_requirement = Conditional, sp_applicable = False\<rparr>]"
  show "flow_steps (request_of ex_attempt ex_any_text) ex_tenant ex_loose_site = ?steps" by code_simp
  show "audit_of ex_sign ex_attemptId ex_attempt ex_loose_site = ex_la" by code_simp
  show "fst (advance_live ex_sign ex_attemptId ex_any_text ex_attempt ex_tenant ?steps ex_la ex_loose_site) =
    Inr (AdvanceSuccess ''alice'' [PASSWORD])" by code_simp
qed

section \<open>Factors used once\<close>

text \<open>How often a write that decides for itself accepts a key over a sequence of presentations.\<close>

fun accepted :: "('k \<Rightarrow> time \<Rightarrow> 't \<Rightarrow> bool \<times> 't) \<Rightarrow> 'k \<Rightarrow> (time \<times> 'k) list \<Rightarrow> 't \<Rightarrow> nat" where
  "accepted write k [] t = 0"
| "accepted write k ((now, j) # ps) t =
     (case write j now t of (b, t') \<Rightarrow> (if b \<and> j = k then 1 else 0) + accepted write k ps t')"

lemma decided_simps: "fst (decided p) = (if fst p then Some () else None)" "snd (decided p) = snd p"
  by (simp_all add: decided_def)

lemma accepted_wins:
  "accepted (\<lambda>k now t. recordTotpUse (fst k) (snd k) now t) kt pt ct =
     totp_uses.wins kt (totp_uses.presented pt ct)"
  "accepted spendRecoveryCode k ps cs = recovery_uses.wins k (recovery_uses.presented ps cs)"
  "accepted attempt_consume k ps rows = attempt_uses.wins k (attempt_uses.presented ps rows)"
proof -
  show "accepted (\<lambda>k now t. recordTotpUse (fst k) (snd k) now t) kt pt ct =
     totp_uses.wins kt (totp_uses.presented pt ct)"
    by (induction pt arbitrary: ct) (auto simp: totp_uses.wins_def decided_simps split: prod.splits)
  show "accepted spendRecoveryCode k ps cs = recovery_uses.wins k (recovery_uses.presented ps cs)"
    by (induction ps arbitrary: cs) (auto simp: recovery_uses.wins_def decided_simps split: prod.splits)
  show "accepted attempt_consume k ps rows = attempt_uses.wins k (attempt_uses.presented ps rows)"
    by (induction ps arbitrary: rows) (auto simp: attempt_uses.wins_def decided_simps split: prod.splits)
qed

text \<open>
  C25: whatever the order in which transactions present them, a time step of a TOTP credential, a
  recovery code and a parked attempt are each accepted at most once, by the write that spends them.
\<close>

theorem factors_single_use:
  "accepted (\<lambda>k now rows. recordTotpUse (fst k) (snd k) now rows) totp_step presentations credentials \<le> 1
    \<and> accepted spendRecoveryCode code presentations' credentials' \<le> 1
    \<and> accepted attempt_consume attempt_id presentations'' attempts \<le> 1"
  unfolding accepted_wins
  using totp_uses.at_most_one recovery_uses.at_most_one attempt_uses.at_most_one by blast

section \<open>Lockout\<close>

text \<open>Failed attempts at the given instants, with nobody else writing to the account's row.\<close>

definition failures_at :: "lockout_policy \<Rightarrow> string \<Rightarrow> time list \<Rightarrow> login_failure list \<Rightarrow> login_failure list" where
  "failures_at policy i ts rows =
     fold (\<lambda>t rows. snd (try_recordFailure (\<lambda>n r. r) True i policy t CAS_ATTEMPTS rows)) ts rows"

text \<open>Each failure within the reset time of the one before it.\<close>

fun one_run :: "lockout_policy \<Rightarrow> time list \<Rightarrow> bool" where
  "one_run policy (t # t' # ts) \<longleftrightarrow> t' - t < lo_failureResetSeconds policy * 1000 \<and> one_run policy (t' # ts)"
| "one_run policy ts \<longleftrightarrow> True"

lemma one_run_snoc:
  "one_run policy (ts @ [t]) \<Longrightarrow> one_run policy ts
    \<and> (ts \<noteq> [] \<longrightarrow> t - last ts < lo_failureResetSeconds policy * 1000)"
  by (induction policy ts rule: one_run.induct) auto

lemma failures_run:
  assumes "one_run policy ts" "ts \<noteq> []" "0 \<le> lg_failureCount (failure_forSubject i rows)"
  shows "int (length ts) \<le> lg_failureCount (failure_forSubject i (failures_at policy i ts rows))
    \<and> lg_lastFailureAt (failure_forSubject i (failures_at policy i ts rows)) = Some (last ts)
    \<and> (\<exists>before. failure_forSubject i (failures_at policy i ts rows) = failed_once before policy (last ts))"
  using assms(1,2)
proof (induction ts rule: rev_induct)
  case (snoc t ts)
  let ?before = "failure_forSubject i (failures_at policy i ts rows)"
  have run: "one_run policy ts" "ts \<noteq> [] \<longrightarrow> t - last ts < lo_failureResetSeconds policy * 1000"
    using one_run_snoc [OF snoc.prems(1)] by auto
  have after: "failure_forSubject i (failures_at policy i (ts @ [t]) rows) = failed_once ?before policy t"
    using failure_after [of i policy t 4] by (simp add: failures_at_def CAS_ATTEMPTS_def eval_nat_numeral)
  have "int (length ts) + 1 \<le> fst (nextLockout ?before policy t)"
  proof (cases "ts = []")
    case True
    with assms(3) show ?thesis by (simp add: nextLockout_count failures_at_def)
  next
    case False
    with snoc.IH run have ih: "int (length ts) \<le> lg_failureCount ?before" "lg_lastFailureAt ?before = Some (last ts)"
      by auto
    with run(2) False have "\<not> runIsBroken ?before policy t" by (simp add: runIsBroken_def)
    with ih(1) show ?thesis by (simp add: nextLockout_count)
  qed
  with after show ?case by auto
qed simp

text \<open>
  C27: as many failures as the tenant's policy allows, each within the reset time of the one before,
  lock the account, for no less than the policy's lockout and no more than its longest one.
\<close>

theorem lockout_enforced:
  assumes "one_run policy ts" "ts \<noteq> []" "0 \<le> lg_failureCount (failure_forSubject i rows)"
    and "lo_maxFailures policy \<le> int (length ts)"
    and "0 < lo_lockoutSeconds policy" "lo_lockoutSeconds policy \<le> lo_maxLockoutSeconds policy"
  shows "(now < last ts + lo_lockoutSeconds policy * 1000 \<longrightarrow>
      isLockedOut (failure_forSubject i (failures_at policy i ts rows)) now)
    \<and> (last ts + lo_maxLockoutSeconds policy * 1000 \<le> now \<longrightarrow>
      \<not> isLockedOut (failure_forSubject i (failures_at policy i ts rows)) now)"
proof -
  let ?l = "failure_forSubject i (failures_at policy i ts rows)"
  from failures_run [OF assms(1-3)] obtain before where
    l: "?l = failed_once before policy (last ts)" "int (length ts) \<le> lg_failureCount ?l" by blast
  obtain n u where n: "nextLockout before policy (last ts) = (n, u)" by fastforce
  with l assms(4) have "lo_maxFailures policy \<le> n" by simp
  with n obtain t where t: "u = Some t" by (auto simp: nextLockout_def Let_def split: if_splits)
  from nextLockout_locks [OF n [unfolded t] assms(5,6)] l(1) n t show ?thesis by (auto simp: isLockedOut_def)
qed

theorem lockout_enforced_witness:
  "isLockedOut (failure_forSubject ''alice'' (failures_at ex_lockout ''alice'' [1000, 2000, 3000, 4000, 5000] [])) 60000"
proof -
  have "0 \<le> lg_failureCount (failure_forSubject ''alice'' [])" by code_simp
  from lockout_enforced [OF _ _ this, of ex_lockout "[1000, 2000, 3000, 4000, 5000]" 60000]
  show ?thesis by (simp add: ex_lockout_def)
qed

section \<open>Round trips\<close>

text \<open>
  The cookie handed to the browser that parks an authorization request finds that very request
  again until the sign-in's time is over.
\<close>

theorem parked_request_found:
  assumes "startAuthentication d q s = (Inr (i, secret, ttl), s')"
    and "isUuid (sg_newId d)" "toLowerCase (sg_newId d) = sg_newId d" "HANDLE_SECRET (sg_newSecret d)"
    and "now < sg_now d + ttl * 1000"
  shows "heldSignIn (sg_identity d)
      (Some (signInHandleName tls @ CHR ''='' # i @ CHR ''.'' # secret)) tls now (si_attempts s') = Some (i, q)"
  using startAuthentication_parks [OF assms(1)] assms(2-4) parked_found [OF assms(1) _ _ _ assms(5)] by simp

definition ex_parked :: site where
  "ex_parked = snd (startAuthentication ex_sign ex_pending ex_site)"

theorem parked_request_found_witness:
  "heldSignIn ex_identity (Some (signInHandleName True @ CHR ''='' # sg_newId ex_sign @ CHR ''.'' # ''secret'')) True
     1500000 (si_attempts ex_parked) = Some (sg_newId ex_sign, ex_pending)"
proof -
  have run: "startAuthentication ex_sign ex_pending ex_site = (Inr (sg_newId ex_sign, ''secret'', 600), ex_parked)"
  proof -
    have "fst (startAuthentication ex_sign ex_pending ex_site) = Inr (sg_newId ex_sign, ''secret'', 600)" by code_simp
    then show ?thesis by (simp add: ex_parked_def prod_eq_iff)
  qed
  have "isUuid (sg_newId ex_sign)" "toLowerCase (sg_newId ex_sign) = sg_newId ex_sign"
    "HANDLE_SECRET (sg_newSecret ex_sign)" by code_simp+
  from parked_request_found [OF run this, of 1500000 True] show ?thesis by (simp add: ex_sign_def ex_deps_def)
qed

text \<open>
  A TOTP secret shown to an authenticator in base32 is read back as the bytes it was made from,
  whatever their number, with the accumulator of the code wrapping at 32 bits.
\<close>

theorem totp_secret_roundtrip: "base32Decode (base32Encode bytes) = Some bytes"
  by (rule base32_decode_encode)

end
