(* ===== verification/Retention.thy ===== *)
theory Retention
  imports Lifecycle
begin

text \<open>
  The retention pass over a tenant's credentials (\<open>apps/server/src/cli/reap.ts\<close>): the rules of
  the tables the development models, in the order the pass runs them, with the foreign keys'
  own actions written out (\<open>ON DELETE CASCADE\<close> of a grant's tokens, \<open>SET NULL\<close> of a grant's
  parent and session), and the check of the order itself. Instants are compared as numbers; the
  code compares their ISO texts, which order the same way.
\<close>

section \<open>Rules\<close>

record retention_policy =
  rp_grantSeconds :: int
  rp_offlineGrantSeconds :: int
  rp_authorizationCodeSeconds :: int
  rp_sessionSeconds :: int

definition before :: "time \<Rightarrow> int \<Rightarrow> time" where
  "before now seconds = now - seconds * 1000"

definition token_live :: "time \<Rightarrow> refresh_token \<Rightarrow> bool" where
  "token_live now t \<longleftrightarrow> rt_usedAt t = None \<and> rt_expiresAt t > now"

definition grantPastRetention ::
  "time \<Rightarrow> retention_policy \<Rightarrow> int \<Rightarrow> refresh_token list \<Rightarrow> token_grant \<Rightarrow> bool" where
  "grantPastRetention now policy ssoSessionMaxSeconds refresh g \<longleftrightarrow>
     (let sessionCutoff = before now (max (rp_grantSeconds policy) ssoSessionMaxSeconds);
          offlineCutoff = before now (max (rp_offlineGrantSeconds policy) ssoSessionMaxSeconds);
          laterCutoff = (if sessionCutoff > offlineCutoff then sessionCutoff else offlineCutoff)
      in tg_createdAt g < laterCutoff
         \<and> tg_createdAt g < (if tg_sessionId g = None then offlineCutoff else sessionCutoff)
         \<and> \<not> list_ex (\<lambda>t. rt_grantId t = tg_id g \<and> token_live now t) refresh)"

definition reap_refresh_tokens :: "time \<Rightarrow> retention_policy \<Rightarrow> int \<Rightarrow> store \<Rightarrow> store" where
  "reap_refresh_tokens now policy ssoMax s =
     s\<lparr>st_refresh := filter (\<lambda>t. \<not> list_ex (\<lambda>g. tg_id g = rt_grantId t
         \<and> grantPastRetention now policy ssoMax (st_refresh s) g) (st_grants s)) (st_refresh s)\<rparr>"

definition code_past_retention :: "time \<Rightarrow> retention_policy \<Rightarrow> int \<Rightarrow> store \<Rightarrow> auth_code \<Rightarrow> bool" where
  "code_past_retention now policy ssoMax s c \<longleftrightarrow>
     ac_expiresAt c < before now (rp_authorizationCodeSeconds policy)
     \<and> (case ac_grantId c of
          None \<Rightarrow> True
        | Some i \<Rightarrow>
            \<not> list_ex (\<lambda>gone. tg_id gone = i) (st_grants s)
            \<or> list_ex (\<lambda>g. tg_id g = i \<and> grantPastRetention now policy ssoMax (st_refresh s) g) (st_grants s))"

definition reap_authorization_codes :: "time \<Rightarrow> retention_policy \<Rightarrow> int \<Rightarrow> store \<Rightarrow> store" where
  "reap_authorization_codes now policy ssoMax s =
     s\<lparr>st_codes := filter (\<lambda>c. \<not> code_past_retention now policy ssoMax s c) (st_codes s)\<rparr>"

text \<open>A deletion of grants: the tokens of a deleted one go with it, a child forgets its parent.\<close>

definition orphaned :: "token_grant list \<Rightarrow> token_grant \<Rightarrow> token_grant" where
  "orphaned deleted g =
     (if list_ex (\<lambda>k. tg_exchangedFromGrantId g = Some (tg_id k)) deleted
      then g\<lparr>tg_exchangedFromGrantId := None\<rparr> else g)"

definition delete_grants :: "(token_grant \<Rightarrow> bool) \<Rightarrow> store \<Rightarrow> store" where
  "delete_grants p s =
     (let deleted = filter p (st_grants s)
      in s\<lparr>st_grants := map (orphaned deleted) (filter (\<lambda>g. \<not> p g) (st_grants s)),
           st_refresh := filter (\<lambda>t. \<not> list_ex (\<lambda>g. tg_id g = rt_grantId t) deleted) (st_refresh s)\<rparr>)"

definition reap_token_grants :: "time \<Rightarrow> retention_policy \<Rightarrow> int \<Rightarrow> store \<Rightarrow> store" where
  "reap_token_grants now policy ssoMax s =
     delete_grants (grantPastRetention now policy ssoMax (st_refresh s)) s"

text \<open>A deletion of sessions: a grant of a deleted one forgets its session.\<close>

definition unsessioned :: "session list \<Rightarrow> token_grant \<Rightarrow> token_grant" where
  "unsessioned deleted g =
     (if list_ex (\<lambda>x. tg_sessionId g = Some (ss_id x)) deleted then g\<lparr>tg_sessionId := None\<rparr> else g)"

definition delete_sessions :: "(session \<Rightarrow> bool) \<Rightarrow> store \<Rightarrow> store" where
  "delete_sessions p s =
     s\<lparr>st_sessions := filter (\<lambda>x. \<not> p x) (st_sessions s),
       st_grants := map (unsessioned (filter p (st_sessions s))) (st_grants s)\<rparr>"

definition reap_sessions :: "time \<Rightarrow> retention_policy \<Rightarrow> store \<Rightarrow> store" where
  "reap_sessions now policy s =
     delete_sessions (\<lambda>x. ss_expiresAt x < before now (rp_sessionSeconds policy)
       \<and> \<not> list_ex (\<lambda>g. tg_sessionId g = Some (ss_id x)) (st_grants s)) s"

definition reap_assertions :: "time \<Rightarrow> store \<Rightarrow> store" where
  "reap_assertions now s = s\<lparr>st_jtis := reap_jtis now (st_jtis s)\<rparr>"

section \<open>The pass\<close>

datatype table =
    RefreshTokens | AuthorizationCodes | TokenGrants | AuthenticationSessions | ActionTokens
  | PendingRegistrations | ClientRegistrationTokens | LoginFailures | EmailOutbox
  | BackchannelLogoutDeliveries | ClientAssertionJti | ConsoleSessions | ConsoleLogins
  | TenantIssuerRetirements | ClientMetadataCache | IdempotencyKeys | CimdClients
  | DynamicClients | TenantDomains | SessionsTable | AuditEvents

definition ALL_RULES :: "table list" where
  "ALL_RULES =
     [RefreshTokens, AuthorizationCodes, TokenGrants, AuthenticationSessions, ActionTokens,
      PendingRegistrations, ClientRegistrationTokens, LoginFailures, EmailOutbox,
      BackchannelLogoutDeliveries, ClientAssertionJti, ConsoleSessions, ConsoleLogins,
      TenantIssuerRetirements, ClientMetadataCache, IdempotencyKeys, CimdClients, DynamicClients,
      TenantDomains, SessionsTable, AuditEvents]"

definition reap_after :: "table \<Rightarrow> table list" where
  "reap_after t =
     (case t of
        TokenGrants \<Rightarrow> [RefreshTokens, AuthorizationCodes]
      | DynamicClients \<Rightarrow> [TokenGrants, AuthorizationCodes]
      | SessionsTable \<Rightarrow> [TokenGrants]
      | _ \<Rightarrow> [])"

definition REAP_ORDER :: "table list" where
  "REAP_ORDER =
     [RefreshTokens, AuthorizationCodes, TokenGrants, AuthenticationSessions, ActionTokens,
      PendingRegistrations, ClientRegistrationTokens, LoginFailures, EmailOutbox,
      BackchannelLogoutDeliveries, ClientAssertionJti, ConsoleSessions, ConsoleLogins,
      TenantIssuerRetirements, ClientMetadataCache, IdempotencyKeys, CimdClients, DynamicClients,
      TenantDomains, SessionsTable, AuditEvents]"

text \<open>\<open>order.indexOf(t)\<close>, -1 where it is absent.\<close>

fun indexOf :: "'a list \<Rightarrow> 'a \<Rightarrow> int" where
  "indexOf [] x = -1"
| "indexOf (y # ys) x = (if y = x then 0 else let i = indexOf ys x in if i < 0 then -1 else i + 1)"

definition assertReapOrder :: "table list \<Rightarrow> string + unit" where
  "assertReapOrder order =
     (let missing = filter (\<lambda>t. t \<notin> set order) ALL_RULES;
          duplicated = filter (\<lambda>(i, t). indexOf order t \<noteq> int i) (enumerate 0 order);
          early = filter (\<lambda>(i, t). list_ex (\<lambda>dep. indexOf order dep \<ge> int i) (reap_after t)) (enumerate 0 order)
      in if missing \<noteq> [] then Inl ''reap order omits''
         else if duplicated \<noteq> [] then Inl ''reap order repeats''
         else if early \<noteq> [] then Inl ''reap order puts a table before its dependency''
         else Inr ())"

text \<open>The rule of one table; those of tables outside this model leave it as it is.\<close>

definition rule_of :: "time \<Rightarrow> retention_policy \<Rightarrow> int \<Rightarrow> table \<Rightarrow> store \<Rightarrow> store" where
  "rule_of now policy ssoMax t =
     (case t of
        RefreshTokens \<Rightarrow> reap_refresh_tokens now policy ssoMax
      | AuthorizationCodes \<Rightarrow> reap_authorization_codes now policy ssoMax
      | TokenGrants \<Rightarrow> reap_token_grants now policy ssoMax
      | ClientAssertionJti \<Rightarrow> reap_assertions now
      | SessionsTable \<Rightarrow> reap_sessions now policy
      | _ \<Rightarrow> id)"

definition reapTenant :: "time \<Rightarrow> retention_policy \<Rightarrow> int \<Rightarrow> table list \<Rightarrow> store \<Rightarrow> store" where
  "reapTenant now policy ssoMax order s = foldl (\<lambda>s t. rule_of now policy ssoMax t s) s order"

definition reap :: "time \<Rightarrow> retention_policy \<Rightarrow> int \<Rightarrow> store \<Rightarrow> store" where
  "reap now policy ssoMax s = reapTenant now policy ssoMax REAP_ORDER s"

section \<open>What a pass deletes\<close>

lemma past_not_live:
  "grantPastRetention now policy m refresh g \<Longrightarrow> t \<in> set refresh \<Longrightarrow> rt_grantId t = tg_id g \<Longrightarrow> \<not> token_live now t"
  by (auto simp: grantPastRetention_def Let_def list_ex_iff)

text \<open>Deleting the tokens of past families changes no family's being past.\<close>

lemma past_stable:
  "grantPastRetention now policy m (st_refresh (reap_refresh_tokens now policy m s)) g =
   grantPastRetention now policy m (st_refresh s) g"
proof -
  have "list_ex (\<lambda>t. rt_grantId t = tg_id g \<and> token_live now t) (st_refresh (reap_refresh_tokens now policy m s))
      = list_ex (\<lambda>t. rt_grantId t = tg_id g \<and> token_live now t) (st_refresh s)"
    by (simp add: reap_refresh_tokens_def list_ex_iff) (metis past_not_live)
  then show ?thesis unfolding grantPastRetention_def by simp
qed

text \<open>A deletion none of whose rows is referred to.\<close>

lemma delete_sessions_unused:
  "(\<And>x g. x \<in> set (st_sessions s) \<Longrightarrow> p x \<Longrightarrow> g \<in> set (st_grants s) \<Longrightarrow> tg_sessionId g \<noteq> Some (ss_id x)) \<Longrightarrow>
     delete_sessions p s = s\<lparr>st_sessions := filter (\<lambda>x. \<not> p x) (st_sessions s)\<rparr>"
proof -
  assume unused: "\<And>x g. x \<in> set (st_sessions s) \<Longrightarrow> p x \<Longrightarrow> g \<in> set (st_grants s) \<Longrightarrow> tg_sessionId g \<noteq> Some (ss_id x)"
  then have "map (unsessioned (filter p (st_sessions s))) (st_grants s) = st_grants s"
    by (intro map_idI) (auto simp: unsessioned_def list_ex_iff)
  then show ?thesis by (simp add: delete_sessions_def)
qed

lemma delete_grants_unused:
  "(\<And>g t. g \<in> set (st_grants s) \<Longrightarrow> p g \<Longrightarrow> t \<in> set (st_refresh s) \<Longrightarrow> tg_id g \<noteq> rt_grantId t) \<Longrightarrow>
     st_refresh (delete_grants p s) = st_refresh s"
  by (auto simp: delete_grants_def Let_def list_ex_iff intro!: filter_True)

text \<open>The whole pass, the actions of the foreign keys gone.\<close>

definition past :: "time \<Rightarrow> retention_policy \<Rightarrow> int \<Rightarrow> store \<Rightarrow> token_grant \<Rightarrow> bool" where
  "past now policy m s = grantPastRetention now policy m (st_refresh s)"

lemma reap_eq:
  "reap now policy m s =
     (let s1 = reap_refresh_tokens now policy m s; s2 = reap_authorization_codes now policy m s1;
          s3 = reap_token_grants now policy m s2
      in reap_sessions now policy (reap_assertions now s3))"
  by (simp add: reap_def reapTenant_def REAP_ORDER_def rule_of_def Let_def)

lemma reap_tables:
  fixes now m policy s
  assumes ids: "distinct (map tg_id (st_grants s))"
  defines "P \<equiv> past now policy m s"
  shows "st_refresh (reap now policy m s) =
      filter (\<lambda>t. \<not> list_ex (\<lambda>g. tg_id g = rt_grantId t \<and> P g) (st_grants s)) (st_refresh s)"
    and "st_codes (reap now policy m s) = filter (\<lambda>c. \<not> code_past_retention now policy m s c) (st_codes s)"
    and "st_grants (reap now policy m s) = map (orphaned (filter P (st_grants s))) (filter (\<lambda>g. \<not> P g) (st_grants s))"
    and "\<exists>p. st_sessions (reap now policy m s) = filter (\<lambda>x. \<not> p x) (st_sessions s)
      \<and> (\<forall>x g. p x \<and> g \<in> set (st_grants (reap now policy m s)) \<longrightarrow> tg_sessionId g \<noteq> Some (ss_id x))
      \<and> (\<forall>x. p x \<longrightarrow> ss_expiresAt x < now - rp_sessionSeconds policy * 1000)"
proof -
  let ?s1 = "reap_refresh_tokens now policy m s"
  let ?s2 = "reap_authorization_codes now policy m ?s1"
  let ?s3 = "reap_token_grants now policy m ?s2"
  let ?s4 = "reap_assertions now ?s3"
  have P: "grantPastRetention now policy m (st_refresh ?s1) = P"
    by (rule ext) (simp add: past_stable P_def past_def)
  have r1: "st_refresh ?s1 = filter (\<lambda>t. \<not> list_ex (\<lambda>g. tg_id g = rt_grantId t \<and> P g) (st_grants s)) (st_refresh s)"
    by (simp add: reap_refresh_tokens_def P_def past_def)
  have c: "st_codes ?s2 = filter (\<lambda>c. \<not> code_past_retention now policy m s c) (st_codes s)"
  proof -
    have same: "st_grants ?s1 = st_grants s" "st_codes ?s1 = st_codes s" by (simp_all add: reap_refresh_tokens_def)
    have "code_past_retention now policy m ?s1 c = code_past_retention now policy m s c" for c
      unfolding code_past_retention_def past_stable same ..
    then show ?thesis by (simp add: reap_authorization_codes_def same)
  qed
  have s2: "st_refresh ?s2 = st_refresh ?s1" "st_grants ?s2 = st_grants s"
    by (simp_all add: reap_authorization_codes_def reap_refresh_tokens_def)
  have s3: "?s3 = delete_grants P ?s2"
    by (simp add: reap_token_grants_def s2 P)
  have r3: "st_refresh ?s3 = st_refresh ?s2"
    unfolding s3 by (rule delete_grants_unused) (auto simp: s2 r1 list_ex_iff)
  have g3: "st_grants ?s3 = map (orphaned (filter P (st_grants s))) (filter (\<lambda>g. \<not> P g) (st_grants s))"
    by (simp add: s3 delete_grants_def s2 Let_def)
  have x3: "st_codes ?s3 = st_codes ?s2" "st_sessions ?s3 = st_sessions s"
    unfolding s3
    by (simp_all add: delete_grants_def Let_def)
       (simp add: reap_authorization_codes_def reap_refresh_tokens_def)
  define p where "p = (\<lambda>x::session. ss_expiresAt x < before now (rp_sessionSeconds policy)
       \<and> \<not> list_ex (\<lambda>g. tg_sessionId g = Some (ss_id x)) (st_grants ?s4))"
  have s4: "st_refresh ?s4 = st_refresh ?s3" "st_codes ?s4 = st_codes ?s2" "st_grants ?s4 = st_grants ?s3"
    "st_sessions ?s4 = st_sessions s"
    using x3 by (simp_all add: reap_assertions_def)
  have "reap now policy m s = delete_sessions p ?s4"
    by (simp add: reap_eq Let_def reap_sessions_def p_def)
  also have "\<dots> = ?s4\<lparr>st_sessions := filter (\<lambda>x. \<not> p x) (st_sessions ?s4)\<rparr>"
    by (rule delete_sessions_unused) (auto simp: p_def list_ex_iff)
  finally have all: "reap now policy m s = ?s4\<lparr>st_sessions := filter (\<lambda>x. \<not> p x) (st_sessions ?s4)\<rparr>" .
  show "st_refresh (reap now policy m s) =
      filter (\<lambda>t. \<not> list_ex (\<lambda>g. tg_id g = rt_grantId t \<and> P g) (st_grants s)) (st_refresh s)"
    "st_codes (reap now policy m s) = filter (\<lambda>c. \<not> code_past_retention now policy m s c) (st_codes s)"
    "st_grants (reap now policy m s) = map (orphaned (filter P (st_grants s))) (filter (\<lambda>g. \<not> P g) (st_grants s))"
    by (simp_all add: all s4 r3 s2 r1 c g3)
  show "\<exists>p. st_sessions (reap now policy m s) = filter (\<lambda>x. \<not> p x) (st_sessions s)
      \<and> (\<forall>x g. p x \<and> g \<in> set (st_grants (reap now policy m s)) \<longrightarrow> tg_sessionId g \<noteq> Some (ss_id x))
      \<and> (\<forall>x. p x \<longrightarrow> ss_expiresAt x < now - rp_sessionSeconds policy * 1000)"
    by (intro exI [of _ p]) (auto simp: all s4 p_def list_ex_iff before_def)
qed

end
