(* ===== verification/Retention_Properties.thy ===== *)
theory Retention_Properties
  imports Examples Retention
begin

text \<open>Properties of the retention pass.\<close>

lemma orphaned_simps [simp]:
  "tg_id (orphaned D g) = tg_id g" "tg_sessionId (orphaned D g) = tg_sessionId g"
  "tg_revokedAt (orphaned D g) = tg_revokedAt g" "tg_expCeiling (orphaned D g) = tg_expCeiling g"
  "tg_scope (orphaned D g) = tg_scope g"
  by (simp_all add: orphaned_def)

lemma token_fits_orphaned [simp]: "token_fits (orphaned D g) t = token_fits g t"
  by (simp add: token_fits_def)

lemma family_ok_filter:
  assumes f: "family_ok gs ts"
  shows "family_ok (map (orphaned D) (filter (\<lambda>g. \<not> P g) gs))
    (filter (\<lambda>t. \<not> list_ex (\<lambda>g. tg_id g = rt_grantId t \<and> P g) gs) ts)"
proof -
  let ?ts = "filter (\<lambda>t. \<not> list_ex (\<lambda>g. tg_id g = rt_grantId t \<and> P g) gs) ts"
  have "length (unused_of i ?ts) \<le> 1" for i
  proof -
    have "unused_of i ?ts = filter (\<lambda>t. \<not> list_ex (\<lambda>g. tg_id g = rt_grantId t \<and> P g) gs) (unused_of i ts)"
      unfolding unused_of_def filter_filter by (rule filter_cong) auto
    then have "length (unused_of i ?ts) \<le> length (unused_of i ts)" by simp
    also have "\<dots> \<le> 1" using f by (simp add: family_ok_def)
    finally show ?thesis .
  qed
  moreover have "\<exists>g \<in> set (map (orphaned D) (filter (\<lambda>g. \<not> P g) gs)). token_fits g t" if "t \<in> set ?ts" for t
  proof -
    from that f obtain g where "g \<in> set gs" "token_fits g t" by (auto simp: family_ok_def)
    with that have "g \<in> set (filter (\<lambda>g. \<not> P g) gs)" by (auto simp: list_ex_iff token_fits_def)
    with \<open>token_fits g t\<close> show ?thesis by (auto intro!: bexI [of _ "orphaned D g"])
  qed
  moreover have "map tg_id (map (orphaned D) (filter (\<lambda>g. \<not> P g) gs)) = map tg_id (filter (\<lambda>g. \<not> P g) gs)"
    by simp
  then have "distinct (map tg_id (map (orphaned D) (filter (\<lambda>g. \<not> P g) gs)))"
    using f by (simp only: family_ok_def distinct_map_filter)
  moreover have "distinct (map rt_tokenHash ?ts)"
    using f by (simp only: family_ok_def distinct_map_filter)
  ultimately show ?thesis unfolding family_ok_def by blast
qed

text \<open>
  C22: the retention pass deletes only what no decision can still read. From a store in order it
  leaves one in order. A refresh token that can still be used stays, and so does its grant; a
  family goes whole or stays whole, so that a rotated token of a family that stays is still
  known as used; a redeemed code stays while its grant does, so that a replay still revokes; no
  grant is changed but for the parent it may forget, in particular none bound to a session
  becomes an offline one; and a session goes only once it is expired and no grant that stays
  names it.
\<close>

theorem retention_safe:
  assumes ok: "ok s" and s': "s' = reap now policy ssoMax s"
  shows "ok s'
    \<and> (\<forall>t \<in> set (st_refresh s). token_live now t \<longrightarrow> t \<in> set (st_refresh s'))
    \<and> (\<forall>t \<in> set (st_refresh s). t \<in> set (st_refresh s') \<longleftrightarrow> has_grant s' (rt_grantId t))
    \<and> (\<forall>c \<in> set (st_codes s). (\<exists>i. ac_grantId c = Some i \<and> has_grant s' i) \<longrightarrow> c \<in> set (st_codes s'))
    \<and> (\<forall>g \<in> set (st_grants s'). g \<in> set (st_grants s)
         \<or> (\<exists>g0 \<in> set (st_grants s). g = g0\<lparr>tg_exchangedFromGrantId := None\<rparr>))
    \<and> (\<forall>x \<in> set (st_sessions s). x \<notin> set (st_sessions s') \<longrightarrow>
         ss_expiresAt x < now - rp_sessionSeconds policy * 1000
         \<and> (\<forall>g \<in> set (st_grants s'). tg_sessionId g \<noteq> Some (ss_id x)))"
proof (intro conjI)
  let ?P = "past now policy ssoMax s"
  have f: "family_ok (st_grants s) (st_refresh s)" and cs: "codes_ok (st_codes s)"
    using ok by (simp_all add: ok_def)
  then have ids: "distinct (map tg_id (st_grants s))" by (simp add: family_ok_def)
  note tables = reap_tables [OF ids, of now policy ssoMax]
  have kept: "has_grant s' i \<longleftrightarrow> (\<exists>g \<in> set (st_grants s). tg_id g = i \<and> \<not> ?P g)" for i
    by (auto simp: has_grant_def s' tables(3) image_image)
  have owner: "\<exists>g \<in> set (st_grants s). tg_id g = rt_grantId t" if "t \<in> set (st_refresh s)" for t
    using f that by (auto simp: family_ok_def token_fits_def)
  have one: "g = g'" if "g \<in> set (st_grants s)" "g' \<in> set (st_grants s)" "tg_id g = tg_id g'" for g g'
    using distinct_keyD [OF ids that] .
  show "ok s'"
    using family_ok_filter [OF f] cs
    by (auto simp: ok_def s' tables codes_ok_def distinct_map_filter)
  show whole: "\<forall>t \<in> set (st_refresh s). t \<in> set (st_refresh s') \<longleftrightarrow> has_grant s' (rt_grantId t)"
  proof
    fix t assume t: "t \<in> set (st_refresh s)"
    then obtain g where g: "g \<in> set (st_grants s)" "tg_id g = rt_grantId t" using owner by blast
    then have "list_ex (\<lambda>g. tg_id g = rt_grantId t \<and> ?P g) (st_grants s) \<longleftrightarrow> ?P g"
      using one unfolding list_ex_iff by metis
    moreover have "has_grant s' (rt_grantId t) \<longleftrightarrow> \<not> ?P g" using g one unfolding kept by metis
    ultimately show "t \<in> set (st_refresh s') \<longleftrightarrow> has_grant s' (rt_grantId t)"
      using t by (simp add: s' tables)
  qed
  show "\<forall>t \<in> set (st_refresh s). token_live now t \<longrightarrow> t \<in> set (st_refresh s')"
    by (auto simp: s' tables list_ex_iff past_def dest: past_not_live)
  show "\<forall>c \<in> set (st_codes s). (\<exists>i. ac_grantId c = Some i \<and> has_grant s' i) \<longrightarrow> c \<in> set (st_codes s')"
  proof (intro ballI impI, elim exE conjE)
    fix c i assume c: "c \<in> set (st_codes s)" "ac_grantId c = Some i" "has_grant s' i"
    from c(3) obtain g where g: "g \<in> set (st_grants s)" "tg_id g = i" "\<not> ?P g" unfolding kept by blast
    then have "\<not> code_past_retention now policy ssoMax s c"
      using one by (auto simp: code_past_retention_def c(2) list_ex_iff past_def)
    with c(1) show "c \<in> set (st_codes s')" by (simp add: s' tables)
  qed
  show "\<forall>g \<in> set (st_grants s'). g \<in> set (st_grants s)
      \<or> (\<exists>g0 \<in> set (st_grants s). g = g0\<lparr>tg_exchangedFromGrantId := None\<rparr>)"
    by (auto simp: s' tables orphaned_def)
  show "\<forall>x \<in> set (st_sessions s). x \<notin> set (st_sessions s') \<longrightarrow>
      ss_expiresAt x < now - rp_sessionSeconds policy * 1000
      \<and> (\<forall>g \<in> set (st_grants s'). tg_sessionId g \<noteq> Some (ss_id x))"
    using tables(4) unfolding s' by fastforce
qed

definition ex_policy :: retention_policy where
  "ex_policy = \<lparr>rp_grantSeconds = 60, rp_offlineGrantSeconds = 60, rp_authorizationCodeSeconds = 60,
     rp_sessionSeconds = 60\<rparr>"

theorem retention_safe_witness:
  "ex_token \<in> set (st_refresh (reap 4900000 ex_policy 600 ex_store))
   \<and> ok (reap 4900000 ex_policy 600 ex_store)
   \<and> st_codes (reap 4900000 ex_policy 600 ex_store) = []
   \<and> st_refresh (reap 5000000 ex_policy 600 ex_store) = []"
proof -
  have "ex_token \<in> set (st_refresh ex_store)" "token_live 4900000 ex_token" by code_simp+
  with retention_safe [OF ex_store_ok refl, of 4900000 ex_policy 600] have
    "ex_token \<in> set (st_refresh (reap 4900000 ex_policy 600 ex_store))"
    "ok (reap 4900000 ex_policy 600 ex_store)" by blast+
  moreover have "st_codes (reap 4900000 ex_policy 600 ex_store) = []"
    "st_refresh (reap 5000000 ex_policy 600 ex_store) = []" by code_simp+
  ultimately show ?thesis by blast
qed

lemma ALL_RULES_UNIV: "set ALL_RULES = UNIV"
proof -
  have "t \<in> set ALL_RULES" for t by (cases t) (simp_all add: ALL_RULES_def)
  then show ?thesis by blast
qed

lemma indexOf_absent: "x \<notin> set xs \<Longrightarrow> indexOf xs x = -1"
  by (induction xs) auto

lemma indexOf_bound: "-1 \<le> indexOf xs x \<and> indexOf xs x < int (length xs)"
  by (induction xs) (auto simp: Let_def)

lemma indexOf_nonneg: "x \<in> set xs \<Longrightarrow> 0 \<le> indexOf xs x"
  by (induction xs) (auto simp: Let_def)

lemma indexOf_append:
  "indexOf (xs @ zs) x = (if x \<in> set xs then indexOf xs x
     else if x \<in> set zs then int (length xs) + indexOf zs x else -1)"
proof (induction xs)
  case Nil
  then show ?case by (simp add: indexOf_absent)
next
  case (Cons y ys)
  then show ?case
    using indexOf_nonneg [of x zs] indexOf_nonneg [of x ys] by (auto simp: Let_def indexOf_absent)
qed

lemma indexOf_before: "x \<in> set (xs @ zs) \<Longrightarrow> indexOf (xs @ zs) x < int (length xs) \<longleftrightarrow> x \<in> set xs"
  using indexOf_nonneg [of x zs] indexOf_bound [of xs x] by (auto simp: indexOf_append)

lemma all_positions:
  "(\<forall>(i, t) \<in> set (enumerate 0 order). Q i t) \<longleftrightarrow> (\<forall>xs t ys. order = xs @ t # ys \<longrightarrow> Q (length xs) t)"
proof
  assume all: "\<forall>(i, t) \<in> set (enumerate 0 order). Q i t"
  show "\<forall>xs t ys. order = xs @ t # ys \<longrightarrow> Q (length xs) t"
  proof (intro allI impI)
    fix xs t ys assume o: "order = xs @ t # ys"
    then have "(length xs, t) \<in> set (enumerate 0 order)"
      by (auto simp: in_set_enumerate_eq nth_append)
    with all show "Q (length xs) t" by blast
  qed
next
  assume split: "\<forall>xs t ys. order = xs @ t # ys \<longrightarrow> Q (length xs) t"
  show "\<forall>(i, t) \<in> set (enumerate 0 order). Q i t"
  proof (clarsimp simp: in_set_enumerate_eq)
    fix i assume i: "i < length order"
    from split [rule_format, OF id_take_nth_drop [OF i]] i show "Q i (order ! i)" by simp
  qed
qed

lemma no_duplicates:
  "distinct order \<longleftrightarrow> (\<forall>xs t ys. order = xs @ t # ys \<longrightarrow> indexOf order t = int (length xs))"
proof
  show "distinct order \<Longrightarrow> \<forall>xs t ys. order = xs @ t # ys \<longrightarrow> indexOf order t = int (length xs)"
    by (auto simp: indexOf_append)
next
  assume all: "\<forall>xs t ys. order = xs @ t # ys \<longrightarrow> indexOf order t = int (length xs)"
  show "distinct order"
  proof (rule ccontr)
    assume "\<not> distinct order"
    then obtain xs ys zs t where o: "order = xs @ [t] @ ys @ [t] @ zs" using not_distinct_decomp by blast
    have "indexOf order t = int (length xs)" using all o by simp
    moreover have "indexOf order t = int (length (xs @ t # ys))" using all o by (metis append.assoc append_Cons append_Nil)
    ultimately show False by simp
  qed
qed

text \<open>
  The order check of the pass accepts exactly the orders that run every rule once, each
  after the rules it depends on; the order the pass runs in is one of them.
\<close>

theorem reap_order_check:
  "(assertReapOrder order = Inr () \<longleftrightarrow>
      distinct order \<and> set order = UNIV
      \<and> (\<forall>xs t ys. order = xs @ t # ys \<longrightarrow> set (reap_after t) \<subseteq> set xs))
   \<and> assertReapOrder REAP_ORDER = Inr ()"
proof -
  have "assertReapOrder order = Inr () \<longleftrightarrow>
      set order = UNIV
      \<and> (\<forall>(i, t) \<in> set (enumerate 0 order). indexOf order t = int i)
      \<and> (\<forall>(i, t) \<in> set (enumerate 0 order). \<forall>dep \<in> set (reap_after t). indexOf order dep < int i)"
  proof -
    have "filter (\<lambda>t. t \<notin> set order) ALL_RULES = [] \<longleftrightarrow> set order = UNIV"
      using ALL_RULES_UNIV by (auto simp: filter_empty_conv)
    moreover have "filter (\<lambda>(i, t). indexOf order t \<noteq> int i) (enumerate 0 order) = []
        \<longleftrightarrow> (\<forall>(i, t) \<in> set (enumerate 0 order). indexOf order t = int i)"
      by (simp add: filter_empty_conv split_def)
    moreover have "filter (\<lambda>(i, t). list_ex (\<lambda>dep. indexOf order dep \<ge> int i) (reap_after t)) (enumerate 0 order) = []
        \<longleftrightarrow> (\<forall>(i, t) \<in> set (enumerate 0 order). \<forall>dep \<in> set (reap_after t). indexOf order dep < int i)"
      by (simp add: filter_empty_conv split_def list_ex_iff not_le)
    ultimately show ?thesis unfolding assertReapOrder_def Let_def by (simp split: if_splits)
  qed
  moreover have "(\<forall>dep \<in> set (reap_after t). indexOf order dep < int (length xs)) \<longleftrightarrow> set (reap_after t) \<subseteq> set xs"
    if "set order = UNIV" "order = xs @ t # ys" for xs t ys
    using that indexOf_before [of _ xs "t # ys"] by auto
  ultimately have "assertReapOrder order = Inr () \<longleftrightarrow>
      distinct order \<and> set order = UNIV
      \<and> (\<forall>xs t ys. order = xs @ t # ys \<longrightarrow> set (reap_after t) \<subseteq> set xs)"
    unfolding all_positions no_duplicates [symmetric] by blast
  moreover have "assertReapOrder REAP_ORDER = Inr ()" by code_simp
  ultimately show ?thesis by blast
qed

theorem reap_order_check_witness: "TokenGrants \<in> set (take 19 REAP_ORDER)"
proof -
  have "REAP_ORDER = take 19 REAP_ORDER @ SessionsTable # [AuditEvents]" by code_simp
  with reap_order_check [of REAP_ORDER] have "set (reap_after SessionsTable) \<subseteq> set (take 19 REAP_ORDER)" by metis
  then show ?thesis by (simp add: reap_after_def)
qed

end
