(* ===== verification/Credential_Properties.thy ===== *)
theory Credential_Properties
  imports Examples
begin

text \<open>
  The properties of the credentials a client redeems: authorization codes, refresh tokens and
  the grants they belong to, over the steps of \<open>Lifecycle\<close>.
\<close>

lemma stamp_id [simp]: "tg_id (stamp p t g) = tg_id g"
  by (simp add: stamp_def)

section \<open>Authorization codes\<close>

lemma code_byHash_ok:
  "codes_ok cs \<Longrightarrow> c \<in> set cs \<Longrightarrow> ac_codeHash c = h \<Longrightarrow> code_byHash h cs = Some c"
  using find_keyI [of ac_codeHash cs c h] by (simp add: codes_ok_def code_byHash_def)

text \<open>A code marked with a grant is a replay, and cannot be redeemed.\<close>

lemma marked_code_replay:
  assumes ok: "codes_ok (st_codes s)" and c: "c \<in> set (st_codes s)" "ac_codeHash c = hash_token d (cr_code q)"
    "ac_consumedAt c \<noteq> None" "ac_grantId c = Some i"
  shows "replay_of d q s = Some i" and "\<not> redeemable d q client s row"
proof -
  have dead: "code_dead (hash_token d (cr_code q)) (st_codes s)"
    unfolding code_dead_def using the_only_code [OF ok c(1)] c(2,3) by metis
  show "replay_of d q s = Some i"
    using codes.consume_dead [OF dead] code_byHash_ok [OF ok c(1,2)] c(4) by (simp add: replay_of_def)
  show "\<not> redeemable d q client s row"
    using dead by (auto simp: redeemable_def code_dead_def)
qed

lemma code_request_replay:
  assumes no: "\<And>row. \<not> redeemable d q client s row" and i: "replay_of d q s = Some i"
    and run: "in_request (issueAuthorizationCodeTokens d q client config lt) s = (r, s')"
  shows "\<exists>te rows. r = Inl (TokenError te) \<and> response_of te = response_of invalidGrant
    \<and> s' = s\<lparr>st_grants := snd (revoke i (dp_now d) (st_grants s)), st_audit := rows\<rparr>"
proof (cases r)
  case (Inr resp)
  with run code_request_Inr no show ?thesis by blast
next
  case (Inl e)
  with run obtain w where w: "issueAuthorizationCodeTokens d q client config lt (s, s) = (Inl e, (s', w))"
    by (auto simp: in_request_Inl)
  obtain r0 cw where red: "redeemAuthorizationCode d q client (s, s) = (r0, cw)"
    using prod.exhaust by blast
  show ?thesis
  proof (cases r0)
    case (Inr code)
    with red redeem_Inr no show ?thesis by blast
  next
    case e0: (Inl e0)
    with red w have "redeemAuthorizationCode d q client (s, s) = (Inl e, (s', w))"
      by (auto simp: issueAuthorizationCodeTokens_def tbind_def)
    from redeem_Inl [OF this] i Inl show ?thesis by auto
  qed
qed

text \<open>What a redemption leaves: the code marked with the grant it was exchanged for.\<close>

lemma redeemed_code:
  assumes run: "in_request (issueAuthorizationCodeTokens d q client config lt) s = (Inr resp, s')"
    and ok: "ok s"
  shows "(\<exists>c \<in> set (st_codes s'). ac_codeHash c = hash_token d (cr_code q)
      \<and> ac_consumedAt c = Some (dp_dbNow d) \<and> ac_grantId c = Some (dp_newGrantId d))
    \<and> (\<exists>g \<in> set (st_grants s'). tg_id g = dp_newGrantId d)"
proof -
  let ?h = "hash_token d (cr_code q)"
  from code_request_Inr [OF run] obtain row where red: "redeemable d q client s row" and
    i: "issue_for_code d q client config lt (row\<lparr>ac_consumedAt := Some (dp_dbNow d)\<rparr>)
      (s\<lparr>st_codes := snd (consume_code (dp_dbNow d) ?h (st_codes s))\<rparr>) = (Inr resp, s')" by blast
  let ?code = "row\<lparr>ac_consumedAt := Some (dp_dbNow d)\<rparr>"
  let ?s1 = "s\<lparr>st_codes := snd (consume_code (dp_dbNow d) ?h (st_codes s))\<rparr>"
  from issue_for_code_Inr [OF i] obtain g refresh audit and m :: minted where
    g0: "g = grant_row (dp_dbNow d) (st_grants ?s1) (code_grant d ?code client (code_scope ?code client ?s1) (mt_audience m))"
    and s': "s' = ?s1\<lparr>st_grants := st_grants ?s1 @ [g],
          st_codes := attachGrant (ac_codeHash ?code) (dp_newGrantId d) (st_codes ?s1),
          st_audit := audit, st_refresh := refresh\<rparr>" by metis
  have codes: "st_codes s' = attachGrant (ac_codeHash row) (dp_newGrantId d)
      (snd (consume_code (dp_dbNow d) ?h (st_codes s)))" by (simp add: s')
  have g: "g \<in> set (st_grants s')" "tg_id g = dp_newGrantId d"
    unfolding s' by (simp_all add: g0 grant_row_def code_grant_def)
  have row: "row \<in> set (st_codes s)" "ac_codeHash row = ?h" "ac_consumedAt row = None"
    "dp_dbNow d < ac_expiresAt row" using red by (simp_all add: redeemable_def)
  let ?c = "row\<lparr>ac_consumedAt := Some (dp_dbNow d), ac_grantId := Some (dp_newGrantId d)\<rparr>"
  have "codes_ok (st_codes s)" using ok by (simp add: ok_def)
  from redeemed_rows [OF this row] have
    "st_codes s' = map (\<lambda>c. if ac_codeHash c = ?h
        then c\<lparr>ac_consumedAt := Some (dp_dbNow d), ac_grantId := Some (dp_newGrantId d)\<rparr> else c) (st_codes s)"
    using codes row(2) by simp
  then have "?c \<in> set (st_codes s')" using row by force
  with row g show ?thesis by (intro conjI bexI [of _ ?c] bexI [of _ g]) simp_all
qed

text \<open>
  C1: an authorization code is redeemed at most once in the life of a tenant. However many
  writes come between, a later presentation of a redeemed code, by any client and with any
  verifier, is answered \<open>invalid_grant\<close>, and every grant the redemption created is revoked,
  whether or not the audit trail takes the row.
\<close>

theorem code_single_use:
  assumes redeemed: "in_request (issueAuthorizationCodeTokens d q client config lt) s = (Inr resp, s1)"
    and ok: "ok s" and later: "step\<^sup>*\<^sup>* s1 s2"
    and same: "hash_token d' (cr_code q') = hash_token d (cr_code q)"
    and again: "in_request (issueAuthorizationCodeTokens d' q' client' config' lt') s2 = (r, s3)"
  shows "(\<exists>te. r = Inl (TokenError te) \<and> response_of te = response_of invalidGrant)
    \<and> (\<exists>g \<in> set (st_grants s3). tg_id g = dp_newGrantId d)
    \<and> (\<forall>g \<in> set (st_grants s3). tg_id g = dp_newGrantId d \<longrightarrow> tg_revokedAt g \<noteq> None)"
proof -
  let ?i = "dp_newGrantId d"
  from sound_code_request [OF redeemed] ok have ok1: "ok s1" by (simp add: sound_def)
  then have ok2: "ok s2" using steps_ok [OF later] by simp
  from redeemed_code [OF redeemed ok] obtain c g where
    c: "c \<in> set (st_codes s1)" "ac_codeHash c = hash_token d (cr_code q)"
      "ac_consumedAt c = Some (dp_dbNow d)" "ac_grantId c = Some ?i"
    and g: "g \<in> set (st_grants s1)" "tg_id g = ?i" by blast
  from steps_code [OF later ok1 c(1)] c obtain c2 where
    c2: "c2 \<in> set (st_codes s2)" "ac_codeHash c2 = hash_token d' (cr_code q')"
      "ac_consumedAt c2 \<noteq> None" "ac_grantId c2 = Some ?i"
    by (auto simp: code_advances_def marked_def same)
  from steps_grant [OF later ok1 g(1)] g obtain g2 where g2: "g2 \<in> set (st_grants s2)" "tg_id g2 = ?i"
    by (auto simp: grant_advances_def)
  have "codes_ok (st_codes s2)" using ok2 by (simp add: ok_def)
  note replay = marked_code_replay [OF this c2]
  from code_request_replay [OF replay(2,1) again] obtain te rows where
    r: "r = Inl (TokenError te)" "response_of te = response_of invalidGrant"
    and s3: "s3 = s2\<lparr>st_grants := snd (revoke ?i (dp_now d') (st_grants s2)), st_audit := rows\<rparr>" by blast
  have "stamp (\<lambda>g. tg_id g = ?i) (dp_now d') g2 \<in> set (st_grants s3)"
    using g2(1) by (simp add: s3 revoke_rows)
  then have "\<exists>g \<in> set (st_grants s3). tg_id g = ?i"
    using g2(2) by (intro bexI) simp_all
  moreover have "\<forall>g \<in> set (st_grants s3). tg_id g = ?i \<longrightarrow> tg_revokedAt g \<noteq> None"
    using by_id.revoked_all [of _ ?i "dp_now d'" "st_grants s2"] by (simp add: s3)
  ultimately show ?thesis using r by blast
qed

theorem code_single_use_witness:
  "fst ex_replay = Inl (TokenError (withAudit invalidGrant
      (refusal_audit_of ''token.issue'' ''replayed'' ''c2'' (Some ''alice'') (Some ''g1''))))
   \<and> filter (\<lambda>g. tg_id g = ''g1'' \<and> tg_revokedAt g = None) (st_grants (snd ex_replay)) = []"
proof -
  have again: "in_request (issueAuthorizationCodeTokens ex_deps ex_code_request ex_other_client
      ex_config ex_lifetimes) ex_redeemed = (fst ex_replay, snd ex_replay)"
    by (simp add: ex_replay_def)
  obtain resp where "in_request (issueAuthorizationCodeTokens ex_deps ex_code_request ex_client
      ex_config ex_lifetimes) ex_store = (Inr resp, ex_redeemed)" using ex_redeemed_run by blast
  from code_single_use [OF this ex_store_ok _ _ again]
  have "\<forall>g \<in> set (st_grants (snd ex_replay)). tg_id g = dp_newGrantId ex_deps \<longrightarrow> tg_revokedAt g \<noteq> None"
    by simp
  moreover have "dp_newGrantId ex_deps = ''g1''" by (simp add: ex_deps_def)
  moreover have "fst ex_replay = Inl (TokenError (withAudit invalidGrant
      (refusal_audit_of ''token.issue'' ''replayed'' ''c2'' (Some ''alice'') (Some ''g1''))))"
    by code_simp
  ultimately show ?thesis by (simp add: filter_empty_conv)
qed

lemma code_scope_subset:
  "set (code_scope code client s) \<subseteq> set (tokens (ac_scope code)) \<inter> cs_name ` set (scope_forClient (cl_id client) s)"
  by (auto simp: code_scope_def set_resolveScope)

lemma scope_forClient_codes [simp]: "scope_forClient i (s\<lparr>st_codes := cs\<rparr>) = scope_forClient i s"
  unfolding scope_forClient_def by (simp cong: if_cong)

text \<open>
  C2: tokens are issued for a code only to the client it was minted for, at its redirect URI,
  with the verifier of its challenge, before it expires and for an enabled subject; the scope
  is within the code's and the client's assignments, the audience within the code's resources
  and the issuer, and the one grant created is live and holds just that.
\<close>

theorem code_redemption_bounds:
  assumes run: "in_request (issueAuthorizationCodeTokens d q client config lt) s = (Inr resp, s')"
  shows "\<exists>row g. row \<in> set (st_codes s) \<and> ac_codeHash row = hash_token d (cr_code q)
    \<and> ac_consumedAt row = None \<and> dp_dbNow d < ac_expiresAt row
    \<and> ac_clientId row = cl_id client \<and> ac_redirectUri row = cr_redirectUri q
    \<and> verifyPkce (pf_sha256 (dp_platform d)) (cr_codeVerifier q) (ac_codeChallenge row)
    \<and> subjectIsEnabled (subject_byId (ac_subjectId row) (st_subjects s))
    \<and> set (tokens (tr_scope resp)) \<subseteq> set (tokens (ac_scope row)) \<inter> cs_name ` set (scope_forClient (cl_id client) s)
    \<and> st_grants s' = st_grants s @ [g] \<and> tg_id g = dp_newGrantId d
    \<and> tg_clientId g = cl_id client \<and> tg_subjectId g = ac_subjectId row
    \<and> tg_scope g = tr_scope resp \<and> tg_revokedAt g = None
    \<and> set (tg_audience g) \<subseteq> insert (dp_issuer d) (set (ac_resource row))"
proof -
  let ?h = "hash_token d (cr_code q)"
  let ?s1 = "s\<lparr>st_codes := snd (consume_code (dp_dbNow d) ?h (st_codes s))\<rparr>"
  from code_request_Inr [OF run] obtain row where red: "redeemable d q client s row" and
    i: "issue_for_code d q client config lt (row\<lparr>ac_consumedAt := Some (dp_dbNow d)\<rparr>) ?s1 = (Inr resp, s')"
    by blast
  let ?code = "row\<lparr>ac_consumedAt := Some (dp_dbNow d)\<rparr>"
  let ?scope = "code_scope ?code client ?s1"
  from issue_for_code_Inr [OF i] obtain g refresh audit key resolved and m :: minted where
    aud: "resolveAudience d (ac_resource ?code) (cr_resource q) = Inr resolved"
    and m: "mintAccessToken d (code_mint_input d ?code client lt ?scope resolved ?s1) key (dp_now d) = Inr m"
    and g: "g = grant_row (dp_dbNow d) (st_grants ?s1) (code_grant d ?code client ?scope (mt_audience m))"
    and s': "s' = ?s1\<lparr>st_grants := st_grants ?s1 @ [g],
          st_codes := attachGrant (ac_codeHash ?code) (dp_newGrantId d) (st_codes ?s1),
          st_audit := audit, st_refresh := refresh\<rparr>"
    and scope: "tr_scope resp = join_scope ?scope" by metis
  have "set (mt_audience m) \<subseteq> insert (dp_issuer d) (set (ac_resource row))"
    using mintAccessToken_Inr [OF m] resolveAudience_subset [OF aud]
    by (auto simp: mint_audience_def code_mint_input_def split: if_splits)
  moreover have "set (tokens (tr_scope resp)) \<subseteq>
      set (tokens (ac_scope row)) \<inter> cs_name ` set (scope_forClient (cl_id client) s)"
    using code_scope_subset [of ?code client ?s1]
    unfolding scope code_scope_tokens by simp
  ultimately show ?thesis
    using red unfolding redeemable_def
    by (intro exI [of _ row] exI [of _ g]) (simp add: s' g scope grant_row_def code_grant_def)
qed

theorem code_redemption_bounds_witness:
  "\<exists>resp g. fst (in_request (issueAuthorizationCodeTokens ex_deps ex_code_request ex_client
      ex_config ex_lifetimes) ex_store) = Inr resp
    \<and> tr_scope resp = ''openid profile'' \<and> st_grants ex_redeemed = [ex_grant, g] \<and> tg_scope g = tr_scope resp"
proof -
  obtain resp where r: "in_request (issueAuthorizationCodeTokens ex_deps ex_code_request ex_client
      ex_config ex_lifetimes) ex_store = (Inr resp, ex_redeemed)" using ex_redeemed_run by blast
  from code_redemption_bounds [OF r] obtain g where
    "st_grants ex_redeemed = st_grants ex_store @ [g]" "tg_scope g = tr_scope resp" by blast
  moreover have "st_grants ex_store = [ex_grant]" by (simp add: ex_store_def)
  moreover have "map_sum id tr_scope (fst (in_request (issueAuthorizationCodeTokens ex_deps ex_code_request
      ex_client ex_config ex_lifetimes) ex_store)) = Inr ''openid profile''" by code_simp
  ultimately show ?thesis using r by auto
qed

text \<open>
  A code that may not be redeemed is refused with one answer, whichever check failed, so
  the answer tells nothing of the code, the client's match or the verifier; and the refusal
  leaves the store as it was, unless the code had been redeemed before: then it revokes the
  grant of that redemption.
\<close>

theorem code_refusal_uniform:
  assumes no: "\<forall>row. \<not> redeemable d q client s row"
    and run: "in_request (issueAuthorizationCodeTokens d q client config lt) s = (r, s')"
  shows "\<exists>te. r = Inl (TokenError te) \<and> response_of te = (InvalidGrant, 400, None)
    \<and> (case replay_of d q s of
        None \<Rightarrow> s' = s
      | Some i \<Rightarrow> \<exists>rows. s' = s\<lparr>st_grants := snd (revoke i (dp_now d) (st_grants s)), st_audit := rows\<rparr>)"
proof -
  have response: "response_of invalidGrant = (InvalidGrant, 400, None)"
    by (simp add: response_of_def token_error_defs)
  obtain e where e: "r = Inl e"
    using run no code_request_Inr by (cases r) blast+
  obtain w where w: "issueAuthorizationCodeTokens d q client config lt (s, s) = (Inl e, (s', w))"
    using run e by (auto simp: in_request_Inl)
  obtain r0 cw where red: "redeemAuthorizationCode d q client (s, s) = (r0, cw)"
    using prod.exhaust by blast
  obtain e0 where "r0 = Inl e0" using red redeem_Inr no by (cases r0) blast+
  with red w have "redeemAuthorizationCode d q client (s, s) = (Inl e, (s', w))"
    by (auto simp: issueAuthorizationCodeTokens_def tbind_def)
  from redeem_Inl [OF this] e response show ?thesis by auto
qed

theorem code_refusal_uniform_witness:
  "\<exists>te. fst (in_request (issueAuthorizationCodeTokens ex_deps ex_code_request ex_other_client
      ex_config ex_lifetimes) ex_store) = Inl (TokenError te) \<and> response_of te = (InvalidGrant, 400, None)
    \<and> snd (in_request (issueAuthorizationCodeTokens ex_deps ex_code_request ex_other_client
      ex_config ex_lifetimes) ex_store) = ex_store"
proof -
  have "\<forall>row. \<not> redeemable ex_deps ex_code_request ex_other_client ex_store row"
    by (simp add: redeemable_def ex_rows)
  moreover have "replay_of ex_deps ex_code_request ex_store = None" by code_simp
  ultimately show ?thesis
    using code_refusal_uniform [OF _ prod.collapse [symmetric],
        of ex_deps ex_code_request ex_other_client ex_store ex_config ex_lifetimes] by auto
qed

section \<open>Refresh tokens\<close>


lemma refresh_request_refused:
  assumes "evaluatePresentedRefreshToken d q client (hash_token d (rq_refreshToken q)) s = (Inl e, s1)"
    and "in_request (issueRefreshTokens d q client config lt) s = (r, s')"
  shows "r = Inl e \<and> s' = s"
  using assms by (simp add: issueRefreshTokens_def Let_def in_request_def tbind_def on_work_def)









section \<open>Grants\<close>

lemma ok_grant_byId: "ok s \<Longrightarrow> g \<in> set (st_grants s) \<Longrightarrow> grant_byId (tg_id g) (st_grants s) = Some g"
  using find_keyI [of tg_id "st_grants s" g] by (simp add: ok_def family_ok_def grant_byId_def)

lemma ok_refresh_byHash:
  "ok s \<Longrightarrow> t \<in> set (st_refresh s) \<Longrightarrow> rt_tokenHash t = h \<Longrightarrow> refresh_byHash h (st_refresh s) = Some t"
  using find_keyI [of rt_tokenHash "st_refresh s" t h] by (simp add: ok_def family_ok_def refresh_byHash_def)

lemma revoked_not_introspected:
  assumes "grant_byId i (st_grants s) = Some g" "tg_revokedAt g \<noteq> None"
    and "verifyJwt (dp_platform d) (key_listPublishable (st_keys s)) (dp_acceptedIssuers d) None
      (TypIs ''at+jwt'') False token = Inr payload" "obj_get ''grant_id'' payload = Some (JStr i)"
  shows "introspect d token caller s = Inactive" "resolveAccessToken d token s = None"
proof -
  show "introspect d token caller s = Inactive"
  proof (rule ccontr)
    assume "introspect d token caller s \<noteq> Inactive"
    then obtain sc c sb aud e t where "introspect d token caller s = Active sc c sb aud e t"
      by (cases "introspect d token caller s") auto
    from introspect_Active [OF this] assms show False
      by (auto simp: nonempty_claim_def str_claim_def split: if_splits)
  qed
  show "resolveAccessToken d token s = None"
    using assms by (simp add: resolveAccessToken_def str_claim_def grant_usable_def)
qed

lemma revoked_not_refreshed:
  assumes "refresh_byHash (hash_token d (rq_refreshToken q)) (st_refresh s) = Some t"
    and "grant_byId (rt_grantId t) (st_grants s) = Some g" "tg_revokedAt g \<noteq> None"
  shows "isl (fst (in_request (issueRefreshTokens d q client config lt) s))"
proof -
  have "isl (fst (evaluatePresentedRefreshToken d q client (hash_token d (rq_refreshToken q)) s))"
    using assms by (auto simp: evaluatePresentedRefreshToken_def decide_refresh_def evaluateRefreshGrant_def
        tbind_def tget_def tsome_def tret_def tsum_def tfail_def split: option.splits)
  then obtain e s1 where "evaluatePresentedRefreshToken d q client (hash_token d (rq_refreshToken q)) s = (Inl e, s1)"
    by (metis isl_def prod.collapse)
  from refresh_request_refused [OF this prod.collapse [symmetric]] show ?thesis by simp
qed

text \<open>
  C20: revocation is final. Once a grant is revoked, by whichever of the six ways, then after
  any writes that follow no refresh token of it is rotated or exchanged, and no access token
  that names it is reported active or exchanged.
\<close>

theorem revocation_final:
  assumes ok: "ok s" and g: "g \<in> set (st_grants s)" "tg_revokedAt g \<noteq> None" and later: "step\<^sup>*\<^sup>* s s'"
  shows "(\<forall>t \<in> set (st_refresh s'). rt_grantId t = tg_id g \<and> rt_tokenHash t = hash_token d (rq_refreshToken q) \<longrightarrow>
      isl (fst (in_request (issueRefreshTokens d q client config lt) s'))
      \<and> resolveRefreshToken d (rq_refreshToken q) s' = None)
    \<and> (\<forall>payload. verifyJwt (dp_platform d) (key_listPublishable (st_keys s')) (dp_acceptedIssuers d) None
          (TypIs ''at+jwt'') False token = Inr payload \<and> obj_get ''grant_id'' payload = Some (JStr (tg_id g)) \<longrightarrow>
      introspect d token caller s' = Inactive \<and> resolveAccessToken d token s' = None)"
proof -
  have ok': "ok s'" using steps_ok [OF later ok] by simp
  from steps_grant [OF later ok g(1)] obtain g' where g': "g' \<in> set (st_grants s')" "grant_advances g g'" by blast
  then have i: "tg_id g' = tg_id g" "tg_revokedAt g' \<noteq> None"
    using g(2) by (auto simp: grant_advances_def marked_def)
  have found: "grant_byId (tg_id g) (st_grants s') = Some g'"
    using ok_grant_byId [OF ok' g'(1)] by (simp add: i)
  have "isl (fst (in_request (issueRefreshTokens d q client config lt) s'))
      \<and> resolveRefreshToken d (rq_refreshToken q) s' = None"
    if t: "t \<in> set (st_refresh s')" "rt_grantId t = tg_id g" "rt_tokenHash t = hash_token d (rq_refreshToken q)" for t
  proof -
    have h: "refresh_byHash (hash_token d (rq_refreshToken q)) (st_refresh s') = Some t"
      using ok_refresh_byHash [OF ok' t(1,3)] .
    have gt: "grant_byId (rt_grantId t) (st_grants s') = Some g'" using found t(2) by simp
    show ?thesis
      using revoked_not_refreshed [OF h gt i(2)] h gt i(2)
      by (simp add: resolveRefreshToken_def grant_usable_def)
  qed
  then show ?thesis using revoked_not_introspected [OF found i(2)] by blast
qed

theorem revocation_final_witness:
  "isl (fst (in_request (issueRefreshTokens ex_deps ex_refresh_request ex_client ex_config ex_lifetimes) (snd ex_reuse)))
   \<and> introspect ex_deps ex_jwt (''web'', [''https://api'']) (snd ex_reuse) = Inactive"
proof -
  obtain g where g: "g \<in> set (st_grants (snd ex_reuse))" "tg_id g = ''g0''" "tg_revokedAt g \<noteq> None"
  proof -
    have "list_ex (\<lambda>g. tg_id g = ''g0'' \<and> tg_revokedAt g \<noteq> None) (st_grants (snd ex_reuse))" by code_simp
    then show ?thesis using that by (auto simp: list_ex_iff)
  qed
  obtain t where t: "t \<in> set (st_refresh (snd ex_reuse))" "rt_grantId t = ''g0''"
    "rt_tokenHash t = hash_token ex_deps (rq_refreshToken ex_refresh_request)"
  proof -
    have "list_ex (\<lambda>t. rt_grantId t = ''g0'' \<and> rt_tokenHash t =
        hash_token ex_deps (rq_refreshToken ex_refresh_request)) (st_refresh (snd ex_reuse))" by code_simp
    then show ?thesis using that by (auto simp: list_ex_iff)
  qed
  have v: "verifyJwt (dp_platform ex_deps) (key_listPublishable (st_keys (snd ex_reuse)))
      (dp_acceptedIssuers ex_deps) None (TypIs ''at+jwt'') False ex_jwt = Inr ex_payload" by code_simp
  have p: "obj_get ''grant_id'' ex_payload = Some (JStr ''g0'')" by code_simp
  note final = revocation_final [OF ex_reuse_ok g(1,3) rtranclp.rtrancl_refl, unfolded g(2)]
  show ?thesis
    using final [of ex_deps ex_refresh_request ex_client ex_config ex_lifetimes ex_jwt] t v p by blast
qed

text \<open>
  C21: in every store a tenant reaches, a grant has at most one refresh token that can still be
  used; every refresh token belongs to a grant it does not outlive the ceiling of and that may
  not write to the administration API; and grants, tokens and codes are told apart by their
  keys, an unredeemed code naming no grant.
\<close>

theorem reachable_families:
  assumes "no_credentials s0" "step\<^sup>*\<^sup>* s0 s"
  shows "(\<forall>i. length (filter (\<lambda>t. rt_grantId t = i \<and> rt_usedAt t = None) (st_refresh s)) \<le> 1)
    \<and> (\<forall>t \<in> set (st_refresh s). \<exists>g \<in> set (st_grants s). tg_id g = rt_grantId t
         \<and> (\<forall>c. tg_expCeiling g = Some c \<longrightarrow> rt_expiresAt t \<le> c)
         \<and> MCP_WRITE_SCOPE \<notin> set (tokens (tg_scope g)))
    \<and> distinct (map tg_id (st_grants s)) \<and> distinct (map rt_tokenHash (st_refresh s))
    \<and> distinct (map ac_codeHash (st_codes s))
    \<and> (\<forall>c \<in> set (st_codes s). ac_consumedAt c = None \<longrightarrow> ac_grantId c = None)"
  using reachable_ok [OF assms]
  by (simp add: ok_def family_ok_def codes_ok_def token_fits_def unused_of_def)

theorem reachable_families_witness:
  "length (filter (\<lambda>t. rt_grantId t = ''g1'' \<and> rt_usedAt t = None) (st_refresh ex_first)) \<le> 1
   \<and> map rt_tokenHash (st_refresh ex_first) = [''#r1''] \<and> distinct (map tg_id (st_grants ex_first))"
proof -
  have "map rt_tokenHash (st_refresh ex_first) = [''#r1'']" by code_simp
  with reachable_families [OF ex_start_empty ex_first_reached] show ?thesis by blast
qed

end
