(* ===== verification/Token_Properties.thy ===== *)
theory Token_Properties
  imports Examples
begin

text \<open>
  The properties of the tokens the endpoint signs and of the grants it exchanges: what an
  access token says, where its scope may be used and for how long, how it is read back, and
  what an exchange, a client's own credentials and an agent's budget are limited to.
\<close>

section \<open>Access tokens\<close>

definition ex_mint_input :: mint_input where
  "ex_mint_input =
     \<lparr>mi_subjectId = ''alice'', mi_clientId = ''web'', mi_scope = [MCP_WRITE_SCOPE], mi_accessTtl = 3600,
      mi_audience = [''https://id/mcp''], mi_claimContext = ex_context ''alice'',
      mi_reachableRoleIds = [], mi_fullScopeAllowed = False, mi_accessTokenScope = [MCP_WRITE_SCOPE],
      mi_sessionId = Some ''s1'', mi_grantId = ''g0'', mi_requestedUserinfoClaims = None,
      mi_act = None, mi_endpointMinted = False, mi_expCeiling = Some 1300000\<rparr>"

lemma ex_mint_run: "\<exists>m. mintAccessToken ex_deps ex_mint_input ex_key 1000000 = Inr m \<and> mt_exp m = 1300
    \<and> mt_audience m = [''https://id/mcp'', ''https://id'']"
proof -
  have "\<not> isl (mintAccessToken ex_deps ex_mint_input ex_key 1000000)" by code_simp
  then obtain m where m: "mintAccessToken ex_deps ex_mint_input ex_key 1000000 = Inr m"
    by (cases "mintAccessToken ex_deps ex_mint_input ex_key 1000000") auto
  have "mint_exp ex_mint_input 1000000 = 1300" "mint_audience ex_deps ex_mint_input = [''https://id/mcp'', ''https://id'']"
    by code_simp+
  with mintAccessToken_Inr [OF m] m show ?thesis by simp
qed

text \<open>
  C28: whatever a tenant's claim mappers return, a signed access token says of itself what the
  code decided: its issuer, subject, client, scope, grant, audience (which always holds the
  issuer) and lifetime, and it says it was minted by the MCP endpoint only if it was.
\<close>

theorem access_token_envelope:
  assumes m: "mintAccessToken d input key now = Inr m"
  shows "\<exists>claims. mt_accessToken m = pf_sign (dp_platform d) key (Some ''at+jwt'') claims
    \<and> obj_get ''iss'' claims = Some (JStr (dp_issuer d))
    \<and> obj_get ''sub'' claims = Some (JStr (mi_subjectId input))
    \<and> obj_get ''client_id'' claims = Some (JStr (mi_clientId input))
    \<and> obj_get ''scope'' claims = Some (JStr (join_scope (mi_scope input)))
    \<and> obj_get ''grant_id'' claims = Some (JStr (mi_grantId input))
    \<and> obj_get ''iat'' claims = Some (JNum (mt_iat m)) \<and> obj_get ''exp'' claims = Some (JNum (mt_exp m))
    \<and> (\<exists>aud. obj_get ''aud'' claims = Some (JArr (map JStr aud)) \<and> aud = mt_audience m
         \<and> dp_issuer d \<in> set aud \<and> set aud = insert (dp_issuer d) (set (mi_audience input)))
    \<and> (\<forall>i. mi_sessionId input = Some i \<longrightarrow> obj_get ''sid'' claims = Some (JStr i))
    \<and> obj_get ''via'' claims = (if mi_endpointMinted input then Some (JStr ''mcp'') else None)"
proof -
  note run = mintAccessToken_Inr [OF m]
  have "set (mint_audience d input) = insert (dp_issuer d) (set (mi_audience input))"
    by (auto simp: mint_audience_def)
  with run show ?thesis
    using access_claims_envelope [of d input now]
    by (intro exI [of _ "access_claims d input now"])
       (simp add: access_claims_via access_claims_sid mint_audience_issuer)
qed

theorem access_token_envelope_witness:
  "obj_get ''via'' (dp_assemble ex_deps [] (ex_context ''alice'')) = Some (JStr ''forged'')
   \<and> (\<exists>m claims. mintAccessToken ex_deps ex_mint_input ex_key 1000000 = Inr m
        \<and> mt_accessToken m = pf_sign ex_platform ex_key (Some ''at+jwt'') claims
        \<and> obj_get ''via'' claims = None \<and> obj_get ''sub'' claims = Some (JStr ''alice''))"
proof -
  obtain m where m: "mintAccessToken ex_deps ex_mint_input ex_key 1000000 = Inr m"
    using ex_mint_run by blast
  from access_token_envelope [OF m] obtain claims where
    "mt_accessToken m = pf_sign ex_platform ex_key (Some ''at+jwt'') claims"
    "obj_get ''via'' claims = None" "obj_get ''sub'' claims = Some (JStr ''alice'')"
    by (auto simp: ex_deps_def ex_mint_input_def)
  with m show ?thesis by (auto simp: ex_deps_def)
qed

text \<open>
  C29: an access token that carries an MCP scope is addressed to the tenant's MCP resource or
  its administration API and, beside the issuer, to nothing else; one that may write lives at
  most ten minutes; and none outlives the client's lifetime or the ceiling of its grant.
\<close>

theorem mcp_token_confined:
  assumes m: "mintAccessToken d input key now = Inr m"
  shows "(holdsMcpScope (mi_scope input) \<longrightarrow>
        set (mt_audience m) - {dp_issuer d} \<noteq> {}
        \<and> set (mt_audience m) \<subseteq> {dp_issuer d, mcpAudienceOfIssuer (dp_issuer d), ADMIN_API_AUDIENCE})
    \<and> (MCP_WRITE_SCOPE \<in> set (mi_scope input) \<longrightarrow> mt_exp m - mt_iat m \<le> 600)
    \<and> mt_exp m - mt_iat m \<le> mi_accessTtl input
    \<and> (\<forall>c. mi_expCeiling input = Some c \<longrightarrow> mt_exp m * 1000 \<le> c)"
proof -
  note run = mintAccessToken_Inr [OF m]
  have "set (mt_audience m) = insert (dp_issuer d) (set (mi_audience input))"
    using run by (auto simp: mint_audience_def)
  with run have "holdsMcpScope (mi_scope input) \<longrightarrow>
        set (mt_audience m) - {dp_issuer d} \<noteq> {}
        \<and> set (mt_audience m) \<subseteq> {dp_issuer d, mcpAudienceOfIssuer (dp_issuer d), ADMIN_API_AUDIENCE}"
    by auto
  moreover have "\<forall>c. mi_expCeiling input = Some c \<longrightarrow> mint_exp input now * 1000 \<le> c"
    using mint_exp_bounds(3) by blast
  moreover have "MCP_WRITE_SCOPE \<in> set (mi_scope input) \<longrightarrow> mint_exp input now - epoch_seconds now \<le> 600"
    using mint_exp_bounds(2) [of input now] by linarith
  ultimately show ?thesis using run mint_exp_bounds(1) [of input now] by simp
qed

theorem mcp_token_confined_witness:
  "\<exists>m. mintAccessToken ex_deps ex_mint_input ex_key 1000000 = Inr m \<and> mt_exp m * 1000 \<le> 1300000
     \<and> set (mt_audience m) \<subseteq> {''https://id'', ''https://id/mcp'', ADMIN_API_AUDIENCE}"
proof -
  obtain m where m: "mintAccessToken ex_deps ex_mint_input ex_key 1000000 = Inr m"
    using ex_mint_run by blast
  have h: "holdsMcpScope (mi_scope ex_mint_input)" by code_simp
  have i: "mcpAudienceOfIssuer ''https://id'' = ''https://id/mcp''" "dp_issuer ex_deps = ''https://id''"
    "mi_expCeiling ex_mint_input = Some 1300000"
    by (simp_all add: ex_deps_def ex_mint_input_def mcpAudienceOfIssuer_def MCP_RESOURCE_PATH_def)
  from mcp_token_confined [OF m] m h show ?thesis unfolding i by simp
qed





section \<open>Exchange\<close>

definition ex_exchanged :: store where
  "ex_exchanged = snd (issueExchangedTokens ex_deps ex_exchange_request ex_client ex_config ex_lifetimes ex_store)"

lemma ex_exchanged_run:
  "\<exists>resp. issueExchangedTokens ex_deps ex_exchange_request ex_client ex_config ex_lifetimes ex_store = (Inr resp, ex_exchanged)"
  unfolding ex_exchanged_def by (rule run_Inr) code_simp

text \<open>A grant an exchange creates, against the token it was exchanged for.\<close>

definition grant_below :: "deps \<Rightarrow> client \<Rightarrow> oidc_config \<Rightarrow> token_grant list \<Rightarrow> resolved_token \<Rightarrow> token_grant \<Rightarrow> bool" where
  "grant_below d client config rows subject g \<longleftrightarrow>
     tg_clientId g = cl_id client \<and> tg_subjectId g = rv_subjectId subject
     \<and> tg_sessionId g = rv_sessionId subject \<and> tg_expCeiling g = rv_expiresAt subject
     \<and> tg_exchangedFromGrantId g = rv_grantId subject
     \<and> set (tokens (tg_scope g)) \<subseteq> set (rv_scope subject)
     \<and> set (tg_audience g) \<subseteq> insert (dp_issuer d) (set (oc_audiences config))
     \<and> (holdsMcpScope (rv_scope subject) \<longrightarrow> holdsMcpScope (tokens (tg_scope g)))
     \<and> (holdsMcpScope (rv_scope subject) \<or> rv_act subject \<noteq> None \<longrightarrow> tg_actChain g \<noteq> None)
     \<and> (\<forall>p. rv_grantId subject = Some p \<longrightarrow> tg_budgetGrantId g = budgetGrant p rows)"

lemma exchange_grant_below:
  assumes t: "exchange_terms_of d q client config st it s = (Inr t, s)"
    and aud: "set audience \<subseteq> insert (dp_issuer d) (set (xt_audience t))"
  shows "grant_below d client config (st_grants s) (xt_subject t)
    (grant_row (dp_dbNow d) (st_grants s)
      (exchange_grant d client (xt_subject t) (xt_actor t) (xt_act t) (xt_scope t) audience))"
    and "tokens (join_scope (xt_scope t)) = xt_scope t"
proof -
  note terms = exchange_terms_Inr [OF t]
  then obtain delegated where c: "carried_act client (xt_subject t) (xt_scope t) delegated = Inr (xt_act t)" by blast
  have sub: "set (xt_scope t) \<subseteq> set (rv_scope (xt_subject t))"
    using terms attenuateScope_subset by blast
  have "\<forall>x \<in> set (rv_scope (xt_subject t)). scope_token x" using terms resolve_scope_tokens by blast
  with sub show tok: "tokens (join_scope (xt_scope t)) = xt_scope t"
    by (intro tokens_join_scope) blast
  have "set (xt_audience t) \<subseteq> set (oc_audiences config)" using terms exchange_audience_Inr by blast
  with sub aud carried_act_Inr [OF c] tok show "grant_below d client config (st_grants s) (xt_subject t)
    (grant_row (dp_dbNow d) (st_grants s)
      (exchange_grant d client (xt_subject t) (xt_actor t) (xt_act t) (xt_scope t) audience))"
    unfolding grant_below_def grant_row_def exchange_grant_def by auto
qed

lemma mint_audience_within: "set (mint_audience d input) \<subseteq> insert (dp_issuer d) (set (mi_audience input))"
  by (auto simp: mint_audience_def)



text \<open>
  A token is exchanged only while what stands behind it stands. The grant of an access or
  refresh token is stored, live, of an enabled client and an enabled subject, and its session,
  if it has one, is live; a public client, or one with no actor token, exchanges only where its
  configuration allows it.
\<close>

theorem exchange_needs_live_grant:
  assumes run: "issueExchangedTokens d q client config lt s = (Inr resp, s')"
    and type: "xr_subjectTokenType q \<noteq> ID_TOKEN_TYPE"
  shows "(\<exists>g. grant_byId (tg_id g) (st_grants s) = Some g \<and> tg_revokedAt g = None
      \<and> clientIsLive (client_byId (tg_clientId g) (st_clients s))
      \<and> (\<forall>i. tg_sessionId g = Some i \<longrightarrow> sessionIsLive d i s)
      \<and> subjectIsEnabled (subject_byId (tg_subjectId g) (st_subjects s))
      \<and> set (tokens (tr_scope resp)) \<subseteq> set (tokens (tg_scope g)))
    \<and> (cl_type client = Public \<longrightarrow> oc_allowedForPublic config)
    \<and> (xr_actorToken q = None \<longrightarrow> oc_impersonationAllowed config)"
proof -
  from exchange_Inr [OF run] obtain st it t where
    st: "accepted_type client (xr_subjectTokenType q) = Inr st"
    and t: "exchange_terms_of d q client config st it s = (Inr t, s)"
    and b: "(case it of
         RefreshToken \<Rightarrow> exchanged_refresh_token d q client lt t s = (Inr resp, s')
       | IdToken \<Rightarrow> exchanged_id_token d q client config lt t s = (Inr resp, s')
       | AccessToken \<Rightarrow> exchanged_access_token d q client lt t s = (Inr resp, s'))" by blast
  note terms = exchange_terms_Inr [OF t]
  have "st \<noteq> IdToken"
    using st type by (auto simp: accepted_type_def parseTokenType_def split: token_type_outcome.splits if_splits)
  from resolve_grant [OF _ this] terms obtain g where
    g: "grant_byId (tg_id g) (st_grants s) = Some g" "grant_usable d g s" "held_of g (xt_subject t)"
    "subjectIsEnabled (subject_byId (tg_subjectId g) (st_subjects s))" by blast
  have "tr_scope resp = join_scope (xt_scope t)"
    using b by (cases it) (auto simp: exchanged_id_token_def exchanged_access_token_def
        exchanged_refresh_token_def Let_def tx_simps)
  then have "set (tokens (tr_scope resp)) \<subseteq> set (tokens (tg_scope g))"
    using exchange_grant_below(2) [OF t, of "[]"] terms attenuateScope_subset g(3)
    by (fastforce simp: held_of_def)
  with g terms show ?thesis
    by (auto simp: grant_usable_def grantClientIsLive_def)
qed

theorem exchange_needs_live_grant_witness:
  "\<exists>g. grant_byId (tg_id g) (st_grants ex_store) = Some g \<and> tg_revokedAt g = None
    \<and> clientIsLive (client_byId (tg_clientId g) (st_clients ex_store))"
proof -
  obtain resp where r: "issueExchangedTokens ex_deps ex_exchange_request ex_client ex_config ex_lifetimes ex_store
    = (Inr resp, ex_exchanged)" using ex_exchanged_run by blast
  have "xr_subjectTokenType ex_exchange_request \<noteq> ID_TOKEN_TYPE" by code_simp
  from exchange_needs_live_grant [OF r this] show ?thesis by blast
qed

text \<open>
  C32: the chain of actors an exchange records is at most eight deep, headed by the actor that
  was allowed to act for the subject, and the one read back from the grant it is stored on is
  the same chain.
\<close>

theorem delegation_chain_roundtrip:
  assumes act: "delegated_act q client config subject (Some actor) = Inr (Some act)"
    and named: "rv_subjectId actor \<noteq> []"
  shows "act_sub act = rv_subjectId actor \<and> act_depth act \<le> 8
    \<and> narrowActClaim (Some (act_json act)) = Some act
    \<and> mayActPermits (rv_mayAct subject) (rv_subjectId actor)
    \<and> (rv_clientDbId actor = cl_id client \<or> oc_actorFromOtherClient config)"
proof -
  from act have built: "buildActChain (rv_subjectId actor) (rv_act actor) = Narrowed act"
    and may: "mayActPermits (rv_mayAct subject) (rv_subjectId actor)"
    and own: "rv_clientDbId actor = cl_id client \<or> oc_actorFromOtherClient config"
    by (auto simp: delegated_act_def Let_def split: if_splits narrow_outcome.splits)
  have "act_sub act = rv_subjectId actor"
    using built by (auto simp: buildActChain_def split: option.splits narrow_outcome.splits)
  then show ?thesis
    using delegated_act_depth [OF act] buildActChain_stored [OF built named] may own
    by (simp add: MAX_DELEGATION_DEPTH_def)
qed

definition ex_actor :: resolved_token where
  "ex_actor =
     \<lparr>rv_subjectId = ''robot'', rv_scope = [], rv_sessionId = None, rv_grantId = None,
      rv_clientDbId = ''c1'', rv_requestedUserinfoClaims = None,
      rv_act = Some (JObj [(''sub'', JStr ''root'')]), rv_mayAct = None, rv_expiresAt = None\<rparr>"

theorem delegation_chain_roundtrip_witness:
  "narrowActClaim (Some (act_json (Act ''robot'' (Some (Act ''root'' None))))) = Some (Act ''robot'' (Some (Act ''root'' None)))
   \<and> act_depth (Act ''robot'' (Some (Act ''root'' None))) \<le> 8"
proof -
  have "delegated_act ex_exchange_request ex_client ex_config ex_actor (Some ex_actor)
      = Inr (Some (Act ''robot'' (Some (Act ''root'' None))))" by code_simp
  moreover have "rv_subjectId ex_actor \<noteq> []" by code_simp
  ultimately show ?thesis using delegation_chain_roundtrip by blast
qed

section \<open>An agent's write budget\<close>

text \<open>
  C33: however an agent spreads its writes over the tokens it exchanged from one grant, no more
  of them are granted than that grant's limit leaves: the calls granted add up to the counter
  of the root, which stays within the limit.
\<close>

theorem agent_budget_total:
  assumes d: "distinct (map tg_id rows)"
    and root: "\<forall>(i, kind) \<in> set calls. budgetGrant i rows = Some root"
    and run: "reserve_all limits calls rows = (granted, rows')"
    and start: "writes_of root rows \<le> wl_mutating limits"
  shows "int (length (filter id granted)) = writes_of root rows' - writes_of root rows
    \<and> int (length (filter id granted)) \<le> wl_mutating limits - writes_of root rows"
proof -
  have "writes_of root rows \<le> max (wl_mutating limits) (wl_mutating limits)" using start by simp
  from reserve_all_count [OF d root run this] show ?thesis by simp
qed

theorem agent_budget_total_witness:
  "reserve_all \<lparr>wl_mutating = 2, wl_creates = 1\<rparr> [(''g0'', Create), (''g0'', Create), (''g0'', Mutating), (''g0'', Mutating)]
     [ex_grant] = ([True, False, True, False], [ex_grant\<lparr>tg_agentWrites := 2, tg_agentCreates := 1\<rparr>])
   \<and> int (length (filter id [True, False, True, False])) \<le> 2"
proof -
  let ?l = "\<lparr>wl_mutating = 2, wl_creates = 1\<rparr>"
  let ?calls = "[(''g0'', Create), (''g0'', Create), (''g0'', Mutating), (''g0'', Mutating)]"
  have run: "reserve_all ?l ?calls [ex_grant]
      = ([True, False, True, False], [ex_grant\<lparr>tg_agentWrites := 2, tg_agentCreates := 1\<rparr>])" by code_simp
  have "\<forall>(i, kind) \<in> set ?calls. budgetGrant i [ex_grant] = Some ''g0''" by code_simp
  moreover have "writes_of ''g0'' [ex_grant] = 0" by code_simp
  moreover have "distinct (map tg_id [ex_grant])" by simp
  ultimately have "int (length (filter id [True, False, True, False])) \<le> wl_mutating ?l - 0"
    using agent_budget_total [OF _ _ run, of "''g0''"] by simp
  then show ?thesis using run by simp
qed

lemma one_with_key: "distinct (map key rs) \<Longrightarrow> length (filter (\<lambda>r. key r = k \<and> P r) rs) \<le> 1"
proof (induction rs)
  case (Cons a rs)
  show ?case
  proof (cases "key a = k")
    case True
    with Cons.prems have "filter (\<lambda>r. key r = k \<and> P r) rs = []" by (auto simp: filter_empty_conv image_iff)
    then show ?thesis by simp
  qed (use Cons in simp)
qed simp

text \<open>
  An exchange gives an agent no new budget: the grant created from another spends the
  counters of the same root, and is live only while both it and the root are.
\<close>

theorem exchanged_grant_shares_budget:
  assumes c: "create_grant now input s = (Inr g, s')"
    and from_grant: "ng_exchangedFromGrantId input = Some p" "budgetGrant p (st_grants s) = Some root"
    and d: "distinct (map tg_id (st_grants s))"
  shows "budgetGrant (ng_id input) (st_grants s') = Some root
    \<and> (root \<noteq> ng_id input \<and> isLive (ng_id input) (st_grants s') \<longrightarrow>
        (\<exists>r \<in> set (st_grants s'). tg_id r = root \<and> tg_revokedAt r = None))"
proof -
  note new = create_grant_Inr [OF c]
  have dd: "distinct (map tg_id (st_grants s'))"
    using new d by (auto simp: has_grant_def grant_row_def)
  have "grant_byId (ng_id input) (st_grants s') = Some g"
    using find_keyI [OF dd, of g "ng_id input"] new by (simp add: grant_byId_def grant_row_def)
  then have b: "budgetGrant (ng_id input) (st_grants s') = Some root"
    using new from_grant by (simp add: budgetGrant_def [of "ng_id input"] grant_row_def)
  have "\<exists>r \<in> set (st_grants s'). tg_id r = root \<and> tg_revokedAt r = None"
    if "root \<noteq> ng_id input" "isLive (ng_id input) (st_grants s')"
  proof (rule ccontr)
    assume none: "\<not> ?thesis"
    have "filter (\<lambda>r. tg_id r \<in> {ng_id input, root} \<and> tg_revokedAt r = None) (st_grants s')
        = filter (\<lambda>r. tg_id r = ng_id input \<and> tg_revokedAt r = None) (st_grants s')"
      using none by (intro filter_cong) auto
    moreover have "length (filter (\<lambda>r. tg_id r = ng_id input \<and> tg_revokedAt r = None) (st_grants s')) \<le> 1"
      using dd by (rule one_with_key)
    moreover have "card {ng_id input, root} = 2" using that(1) by auto
    ultimately show False using that(2) b by (simp add: isLive_def)
  qed
  with b show ?thesis by blast
qed

definition ex_child :: new_grant where
  "ex_child =
     \<lparr>ng_id = ''g1'', ng_clientId = ''c1'', ng_subjectId = ''alice'', ng_scope = ''profile'',
      ng_audience = [''https://api''], ng_sessionId = Some ''s1'', ng_actorSubjectId = None,
      ng_exchangedFromGrantId = Some ''g0'', ng_actChain = None, ng_expCeiling = None,
      ng_requestedUserinfoClaims = None\<rparr>"

theorem exchanged_grant_shares_budget_witness:
  "budgetGrant ''g1'' (st_grants (snd (create_grant 1000000 ex_child ex_store))) = Some ''g0''"
proof -
  have "\<not> isl (fst (create_grant 1000000 ex_child ex_store))" by code_simp
  from run_Inr [OF this] obtain g where
    c: "create_grant 1000000 ex_child ex_store = (Inr g, snd (create_grant 1000000 ex_child ex_store))" by blast
  have "ng_exchangedFromGrantId ex_child = Some ''g0''" "ng_id ex_child = ''g1''" by (simp_all add: ex_child_def)
  moreover have "budgetGrant ''g0'' (st_grants ex_store) = Some ''g0''" by code_simp
  moreover have "distinct (map tg_id (st_grants ex_store))" by (simp add: ex_store_def)
  ultimately show ?thesis using exchanged_grant_shares_budget [OF c] by metis
qed

section \<open>A client's own credentials, introspection and revocation\<close>

text \<open>
  A client speaks for itself only if it is confidential and has a service subject, within
  the scopes and audiences it is configured for; the grant it gets is its service subject's,
  with no session, no refresh token and no ID token.
\<close>

theorem client_credentials_bounds:
  assumes run: "issueClientCredentialsTokens d q client config lt s = (Inr resp, s')"
  shows "cl_type client = Confidential
    \<and> (\<exists>g. cl_serviceSubjectId client = Some (tg_subjectId g) \<and> st_grants s' = st_grants s @ [g]
        \<and> tg_clientId g = cl_id client \<and> tg_sessionId g = None \<and> tg_revokedAt g = None
        \<and> set (tokens (tg_scope g)) \<subseteq> set (oc_clientCredentialsScopes config) \<inter> set (tokens (cc_scope q))
        \<and> set (tg_audience g) \<subseteq> insert (dp_issuer d) (set (oc_audiences config)))
    \<and> st_refresh s' = st_refresh s \<and> tr_refresh_token resp = None \<and> tr_id_token resp = None"
proof -
  from client_credentials_Inr [OF run] obtain scope i resolved key audit g and m :: minted where
    scope: "evaluateClientCredentialsGrant client (oc_clientCredentialsScopes config) (cc_scope q) = Inr scope"
    and i: "cl_serviceSubjectId client = Some i"
    and aud: "resolveAudience d (oc_audiences config) (cc_resource q) = Inr resolved"
    and m: "mintAccessToken d (cc_mint_input d client i lt scope resolved s) key (dp_now d) = Inr m"
    and g: "g = grant_row (dp_dbNow d) (st_grants s) (cc_grant d client i scope (mt_audience m))"
    and s': "s' = s\<lparr>st_grants := st_grants s @ [g], st_audit := audit\<rparr>"
    and resp: "resp = \<lparr>tr_access_token = mt_accessToken m, tr_id_token = None, tr_refresh_token = None,
           tr_token_type = Bearer, tr_expires_in = mt_exp m - mt_iat m,
           tr_scope = join_scope scope, tr_issued_token_type = None\<rparr>" by metis
  note dec = evaluateClientCredentialsGrant_Inr [OF scope]
  then have "tokens (join_scope scope) = scope" using tokens_join_scope tokens_scope_token by metis
  moreover have "set (mt_audience m) \<subseteq> insert (dp_issuer d) (set (oc_audiences config))"
    using mintAccessToken_Inr [OF m] mint_audience_within [of d "cc_mint_input d client i lt scope resolved s"]
      resolveAudience_subset [OF aud] by (auto simp: cc_mint_input_def)
  moreover have "set scope \<subseteq> set (oc_clientCredentialsScopes config) \<inter> set (tokens (cc_scope q))"
    using dec by blast
  ultimately show ?thesis
    using dec(1) i by (simp add: s' resp g grant_row_def cc_grant_def del: Int_subset_iff)
qed

theorem client_credentials_bounds_witness:
  "\<exists>resp g. fst (issueClientCredentialsTokens ex_deps ex_cc_request ex_client ex_config ex_lifetimes ex_store) = Inr resp
    \<and> st_grants (snd (issueClientCredentialsTokens ex_deps ex_cc_request ex_client ex_config ex_lifetimes ex_store))
        = [ex_grant, g]
    \<and> tg_sessionId g = None \<and> set (tokens (tg_scope g)) \<subseteq> {''profile''}"
proof -
  let ?run = "issueClientCredentialsTokens ex_deps ex_cc_request ex_client ex_config ex_lifetimes ex_store"
  have "\<not> isl (fst ?run)" by code_simp
  from run_Inr [OF this] obtain resp where r: "?run = (Inr resp, snd ?run)" by blast
  then have f: "fst ?run = Inr resp" by (metis fst_conv)
  from client_credentials_bounds [OF r] obtain g where
    "st_grants (snd ?run) = st_grants ex_store @ [g]" "tg_sessionId g = None"
    "set (tokens (tg_scope g)) \<subseteq> set (oc_clientCredentialsScopes ex_config)" by blast
  moreover have "st_grants ex_store = [ex_grant]" "oc_clientCredentialsScopes ex_config = [''profile'']"
    by (simp_all add: ex_store_def ex_config_def)
  ultimately show ?thesis using f by (intro exI [of _ resp] exI [of _ g]) simp
qed

text \<open>
  C34: a token is reported active only to a caller it is addressed to, and only while its
  grant is stored and live, its client and subject are enabled, its session (if it names one)
  is live, and it verifies as an access token of this tenant.
\<close>

theorem introspection_sound:
  assumes "introspect d token caller s = Active scope clientId sub aud exp iat"
  shows "\<exists>payload g header. pf_header (dp_platform d) token = Some header
    \<and> obj_get ''typ'' header = Some (JStr ''at+jwt'')
    \<and> (\<exists>k \<in> set (key_listPublishable (st_keys s)).
        pf_verify (dp_platform d) k (named (dp_acceptedIssuers d)) None False token = Some payload)
    \<and> nonempty_claim ''grant_id'' payload = Some (tg_id g)
    \<and> grant_byId (tg_id g) (st_grants s) = Some g \<and> tg_revokedAt g = None
    \<and> clientIsLive (client_byClientId clientId (st_clients s))
    \<and> subjectIsEnabled (subject_byId sub (st_subjects s))
    \<and> (\<forall>i. nonempty_claim ''sid'' payload = Some i \<longrightarrow> sessionIsLive d i s)
    \<and> callerIsAddressed caller aud"
proof -
  from introspect_Active [OF assms] obtain payload g where
    v: "verifyJwt (dp_platform d) (key_listPublishable (st_keys s)) (dp_acceptedIssuers d) None
      (TypIs ''at+jwt'') False token = Inr payload"
    and rest: "nonempty_claim ''grant_id'' payload = Some (tg_id g)" "grant_byId (tg_id g) (st_grants s) = Some g"
      "tg_revokedAt g = None" "clientIsLive (client_byClientId clientId (st_clients s))"
      "subjectIsEnabled (subject_byId sub (st_subjects s))"
      "\<forall>i. nonempty_claim ''sid'' payload = Some i \<longrightarrow> sessionIsLive d i s" "callerIsAddressed caller aud"
    by blast
  from verifyJwt_typ [OF v] obtain header where
    "pf_header (dp_platform d) token = Some header" "obj_get ''typ'' header = Some (JStr ''at+jwt'')"
    by (auto simp: checkTyp_def)
  moreover from verifyJwt_key [OF v] have "\<exists>k \<in> set (key_listPublishable (st_keys s)).
      pf_verify (dp_platform d) k (named (dp_acceptedIssuers d)) None False token = Some payload" by simp
  ultimately show ?thesis using rest by blast
qed

theorem introspection_sound_witness:
  "introspect ex_deps ex_jwt (''https://api'', []) ex_store =
     Active ''openid profile'' ''web'' ''alice'' [''https://api'', ''https://id''] 1300 1000
   \<and> (\<exists>g. grant_byId (tg_id g) (st_grants ex_store) = Some g \<and> tg_revokedAt g = None)"
proof -
  have a: "introspect ex_deps ex_jwt (''https://api'', []) ex_store =
     Active ''openid profile'' ''web'' ''alice'' [''https://api'', ''https://id''] 1300 1000" by code_simp
  from introspection_sound [OF a] show ?thesis using a by blast
qed

text \<open>
  A client revokes its own grants and no other's. A request for a token whose grant is
  another client's is refused and changes nothing; one for its own leaves every row of that
  grant revoked and every other grant as it was; one for a token nobody knows is answered as
  done and changes nothing.
\<close>

theorem revocation_own_only:
  assumes run: "atomically (revokeFor d token client) s = (r, s')"
  shows "(case resolveGrantId d token s of
      None \<Rightarrow> r = Inr () \<and> s' = s
    | Some i \<Rightarrow>
        (case grant_byId i (st_grants s) of
           None \<Rightarrow> r = Inr () \<and> s' = s
         | Some g \<Rightarrow>
             if tg_clientId g \<noteq> cl_id client
             then s' = s \<and> (\<exists>te. r = Inl (TokenError te) \<and> response_of te = response_of invalidGrant)
             else r = Inr () \<longrightarrow>
               (\<forall>h \<in> set (st_grants s'). tg_id h = i \<longrightarrow> tg_revokedAt h \<noteq> None)
               \<and> (\<forall>h \<in> set (st_grants s). tg_id h \<noteq> i \<longrightarrow> h \<in> set (st_grants s'))))"
proof (cases "resolveGrantId d token s")
  case None
  with run show ?thesis
    by (auto simp: revokeFor_def tbind_def tget_def tret_def atomically_def)
next
  case (Some i)
  show ?thesis
  proof (cases "grant_byId i (st_grants s)")
    case None
    with Some run show ?thesis
      by (auto simp: revokeFor_def tbind_def tget_def tret_def atomically_def)
  next
    case g: (Some g)
    have gi: "tg_id g = i" using grant_byId_SomeD [OF g] by simp
    show ?thesis
    proof (cases "tg_clientId g = cl_id client")
      case False
      with Some g run show ?thesis
        by (auto simp: revokeFor_def tbind_def tget_def tfail_def atomically_def)
    next
      case True
      have "(\<forall>h \<in> set (st_grants s'). tg_id h = i \<longrightarrow> tg_revokedAt h \<noteq> None)
          \<and> (\<forall>h \<in> set (st_grants s). tg_id h \<noteq> i \<longrightarrow> h \<in> set (st_grants s'))" if "r = Inr ()"
      proof -
        have "st_grants s' = snd (revoke i (dp_now d) (st_grants s))"
          using run Some g True gi that
          by (auto simp: revokeFor_def tx_simps split: if_splits dest!: audit_record_rest)
        then show ?thesis using by_id.revoked_all by_id.unreached_kept by metis
      qed
      with Some g True show ?thesis by simp
    qed
  qed
qed

theorem revocation_own_only_witness:
  "snd (atomically (revokeFor ex_deps ''r0'' ex_other_client) ex_store) = ex_store
   \<and> map tg_revokedAt (st_grants (snd (atomically (revokeFor ex_deps ''r0'' ex_client) ex_store))) = [Some 1000000]"
proof -
  have g: "resolveGrantId ex_deps ''r0'' ex_store = Some ''g0''" by code_simp
  have b: "grant_byId ''g0'' (st_grants ex_store) = Some ex_grant"
    by (simp add: grant_byId_def ex_store_def ex_grant_def)
  have "tg_clientId ex_grant \<noteq> cl_id ex_other_client" by code_simp
  with revocation_own_only [OF surjective_pairing, of ex_deps "''r0''" ex_other_client ex_store]
  have "snd (atomically (revokeFor ex_deps ''r0'' ex_other_client) ex_store) = ex_store"
    by (simp add: g b)
  moreover have "map tg_revokedAt (st_grants (snd (atomically (revokeFor ex_deps ''r0'' ex_client) ex_store)))
      = [Some 1000000]" by code_simp
  ultimately show ?thesis by blast
qed

text \<open>
  C35: an access token is never taken for an ID token hint, at the authorization endpoint, at
  logout or as the subject of an exchange, nor an ID token for an access token: the type in
  the signed header tells them apart under every key.
\<close>

theorem token_types_disjoint:
  assumes "verifyJwt pl keys issuers audience (TypIs ''at+jwt'') expiry token = Inr payload"
  shows "subjectOfIdTokenHint pl keys' issuers' token audience' = None
    \<and> subjectOfLogoutHint pl keys' issuers' token = None
    \<and> subjectOfAuthorizeHint pl keys' issuers' token clientId = None"
proof -
  from verifyJwt_typ [OF assms] obtain header where
    h: "pf_header pl token = Some header" "obj_get ''typ'' header = Some (JStr ''at+jwt'')"
    by (auto simp: checkTyp_def)
  have "verifiedHint pl keys' issuers' token a e = None" for a e
    using verifyJwt_typ [of pl keys' issuers' a TypAbsent e token] h
    by (auto simp: verifiedHint_def checkTyp_def split: sum.splits)
  then show ?thesis
    by (simp add: subjectOfIdTokenHint_def subjectOfLogoutHint_def subjectOfAuthorizeHint_def)
qed

theorem token_types_disjoint_witness:
  "verifyJwt ex_platform [ex_key] [] None (TypIs ''at+jwt'') False ex_jwt = Inr ex_payload
   \<and> subjectOfLogoutHint ex_platform [ex_key] [] ex_jwt = None"
proof -
  have v: "verifyJwt ex_platform [ex_key] [] None (TypIs ''at+jwt'') False ex_jwt = Inr ex_payload" by code_simp
  from token_types_disjoint [OF v] v show ?thesis by blast
qed

end
