(* ===== verification/Session_Properties.thy ===== *)
theory Session_Properties
  imports Examples
begin

text \<open>
  The properties of established sessions: the cookies a browser proves them with, the cap on
  how many one browser holds, liveness as the program and as the database states it, the
  session a request may reuse, the steps of a login flow, and the end of all access.
\<close>

section \<open>Cookies\<close>

text \<open>What a browser sends back of the \<open>Set-Cookie\<close> lines it was given: the first part of
  each line that does not expire its cookie at once.\<close>

definition browser_keeps :: "string \<Rightarrow> bool" where
  "browser_keeps line \<longleftrightarrow> '' Max-Age=0'' \<notin> set (js_split CHR '';'' line)"

definition browser_sends :: "string list \<Rightarrow> string" where
  "browser_sends lines = join_with ''; '' (map (\<lambda>l. hd (js_split CHR '';'' l)) (filter browser_keeps lines))"

lemma cookie_parts:
  assumes "CHR '';'' \<notin> set name" "CHR '';'' \<notin> set val" "\<forall>a. maxAge = Some a \<longrightarrow> CHR '';'' \<notin> set a"
  shows "js_split CHR '';'' (cookie name val tls maxAge) =
    (name @ CHR ''='' # val) # map (\<lambda>a. CHR '' '' # a) (cookie_attributes tls
      @ (case maxAge of None \<Rightarrow> [] | Some a \<Rightarrow> [''Max-Age='' @ a]))"
proof -
  have first: "js_split CHR '';'' (name @ CHR ''='' # val @ CHR '';'' # rest)
      = (name @ CHR ''='' # val) # js_split CHR '';'' rest" for rest
    using js_split_app [of "CHR '';''" "name @ CHR ''='' # val" rest] assms(1,2) by simp
  have last: "js_split CHR '';'' a = [a]" if "maxAge = Some a" for a
    using js_split_word [of "CHR '';''" a] assms(3) that by simp
  show ?thesis
    using last by (cases tls; cases maxAge) (simp_all add: cookie_def cookie_attributes_def first)
qed

lemma listCookie_kept:
  assumes "cookie_name n" "\<forall>e \<in> set es. entry_wf e" "\<forall>a. age = Some a \<longrightarrow> CHR '';'' \<notin> set a \<and> a \<noteq> ''0''"
  shows "browser_keeps (listCookie n es tls age) \<longleftrightarrow> es \<noteq> []"
    and "es \<noteq> [] \<Longrightarrow> hd (js_split CHR '';'' (listCookie n es tls age)) = cookie_pair n es"
proof -
  have n: "CHR '';'' \<notin> set n" "CHR '';'' \<notin> set (entries_value es)"
    using assms(1) pair_no_semicolon [OF assms(1,2)] by (auto simp: cookie_name_def cookie_pair_def)
  note parts = cookie_parts [OF n(1), of _ _ tls]
  have "n = [] \<or> hd n \<noteq> CHR '' ''"
    using assms(1) by (cases n) (auto simp: cookie_name_def is_js_space_def)
  then have pairs: "'' Max-Age=0'' \<noteq> n @ CHR ''='' # v" for v
    by (cases n) auto
  show "browser_keeps (listCookie n es tls age) \<longleftrightarrow> es \<noteq> []"
    using parts [of "[]" "Some ''0''"] parts [OF n(2), of age] assms(3) pairs [of "[]"] pairs [of "entries_value es"]
    by (cases tls; cases age) (auto simp: browser_keeps_def listCookie_def cookie_attributes_def)
  show "hd (js_split CHR '';'' (listCookie n es tls age)) = cookie_pair n es" if "es \<noteq> []"
    using parts [OF n(2), of age] assms(3) that by (auto simp: listCookie_def cookie_pair_def)
qed

text \<open>A tenant's slug as it can stand in a cookie's name.\<close>

lemma cookie_names:
  assumes "cookie_name tenant"
  shows "cookie_name (sessionCookieName tenant tls)" "cookie_name (persistentName tenant tls)"
    "sessionCookieName tenant tls \<noteq> persistentName tenant tls"
  using assms by (auto simp: sessionCookieName_def persistentName_def PERSISTENT_SUFFIX_def cookie_name_def is_js_space_def)

text \<open>
  The sessions a browser is told of are the ones it proves: both lists of well-formed
  entries, written into the two cookies and sent back by a browser that drops what expired,
  are read as they were written.
\<close>

theorem session_cookies_roundtrip:
  assumes tenant: "cookie_name tenant"
    and es: "\<forall>e \<in> set ephemeral. entry_wf e" "\<forall>e \<in> set persistent. entry_wf e"
    and age: "CHR '';'' \<notin> set age" "age \<noteq> ''0''"
  shows "readSessionEntries (Some (browser_sends (sessionCookies tenant tls ephemeral persistent age))) tenant tls
    = (ephemeral, persistent)"
proof -
  let ?n1 = "sessionCookieName tenant tls" and ?n2 = "persistentName tenant tls"
  note names = cookie_names [OF tenant, of tls]
  note k1 = listCookie_kept [OF names(1) es(1), of None tls]
    and k2 = listCookie_kept [OF names(2) es(2), of "Some age" tls]
  have "browser_sends (sessionCookies tenant tls ephemeral persistent age) =
      cookie_header ?n1 ephemeral ?n2 persistent"
    using k1 k2 age by (auto simp: browser_sends_def sessionCookies_def cookie_header_def Let_def)
  with cookie_header_entries [OF names es] show ?thesis by (simp add: readSessionEntries_def)
qed

definition ex_entry :: session_entry where
  "ex_entry = \<lparr>en_id = ''01234567-89ab-cdef-0123-456789abcdef'', en_secret = replicate 43 CHR ''x''\<rparr>"

theorem session_cookies_roundtrip_witness:
  "readSessionEntries (Some (browser_sends (sessionCookies ''acme'' True [ex_entry] [ex_entry, ex_entry] ''86400''))) ''acme'' True
     = ([ex_entry], [ex_entry, ex_entry])"
proof (rule session_cookies_roundtrip)
  have "entry_wf ex_entry" by code_simp
  then show "\<forall>e \<in> set [ex_entry]. entry_wf e" "\<forall>e \<in> set [ex_entry, ex_entry]. entry_wf e" by simp_all
  show "cookie_name ''acme''" by code_simp
qed simp_all

section \<open>Liveness and the cap\<close>



definition ex_digest :: "string \<Rightarrow> string" where
  "ex_digest s = take 2 s"

definition ex_held :: session where
  "ex_held = ex_session\<lparr>ss_id := en_id ex_entry, ss_secretHash := Some (entry_secretHash ex_digest ex_entry)\<rparr>"





text \<open>
  The sessions ended to make room are the least recently active: none is ended while one
  active earlier is kept, and none is ended while the cap has room.
\<close>

theorem evictions_oldest_first:
  assumes d: "distinct (map ss_id live)"
    and x: "x \<in> set live" "ss_id x \<in> set (chooseEvictions live cap)"
    and y: "y \<in> set live" "ss_id y \<notin> set (chooseEvictions live cap)"
  shows "ss_lastActiveAt x \<le> ss_lastActiveAt y \<and> cap \<le> int (length live)"
proof -
  have "cap \<le> int (length live)"
    using x(2) by (auto simp: chooseEvictions_def Let_def split: if_splits)
  with chooseEvictions_oldest [OF d x y] show ?thesis by simp
qed

theorem evictions_oldest_first_witness:
  "chooseEvictions [ex_held, ex_session\<lparr>ss_lastActiveAt := 5\<rparr>] 2 = [''s1''] \<and> (5::int) \<le> 900000"
proof -
  let ?live = "[ex_held, ex_session\<lparr>ss_lastActiveAt := 5\<rparr>]"
  have c: "chooseEvictions ?live 2 = [''s1'']" by code_simp
  have "ss_id ex_held \<notin> set (chooseEvictions ?live 2)" unfolding c by code_simp
  moreover have "ss_id (ex_session\<lparr>ss_lastActiveAt := 5\<rparr>) \<in> set (chooseEvictions ?live 2)"
    unfolding c by code_simp
  moreover have "distinct (map ss_id ?live)" by code_simp
  ultimately have "ss_lastActiveAt (ex_session\<lparr>ss_lastActiveAt := 5\<rparr>) \<le> ss_lastActiveAt ex_held"
    using evictions_oldest_first by (metis list.set_intros)
  then show ?thesis using c by (simp add: ex_held_def ex_session_def)
qed

section \<open>Reuse and flows\<close>

text \<open>
  A silent request (\<open>prompt=none\<close>) never brings up a page: it reuses a session or is
  refused. And no request reuses a session but the one session that fits its maximum age, nor
  any where it asked to sign in again or to choose an account.
\<close>

theorem silent_never_prompts:
  "(PromptNone \<in> set prompts \<longrightarrow>
      decideReuse sessions prompts maxAge now \<noteq> Authenticate
      \<and> (\<forall>xs. decideReuse sessions prompts maxAge now \<noteq> Select xs))
   \<and> (\<forall>r. decideReuse sessions prompts maxAge now = Reuse r \<longrightarrow>
      filter (\<lambda>x. withinMaxAge (rs_authTime x) maxAge now) sessions = [r]
      \<and> (\<forall>m. maxAge = Some m \<longrightarrow> now - rs_authTime r < m * 1000)
      \<and> PromptLogin \<notin> set prompts \<and> PromptSelectAccount \<notin> set prompts)"
proof -
  have "now - rs_authTime r < m * 1000"
    if "filter (\<lambda>x. withinMaxAge (rs_authTime x) maxAge now) sessions = [r]" "maxAge = Some m" for r m
  proof -
    have "r \<in> set (filter (\<lambda>x. withinMaxAge (rs_authTime x) maxAge now) sessions)" using that(1) by simp
    then show ?thesis using that(2) by (simp add: withinMaxAge_def)
  qed
  then show ?thesis
    using decideReuse_silent [of prompts sessions maxAge now] decideReuse_Reuse [of sessions prompts maxAge now]
    by auto
qed

definition ex_resolved :: resolved_session where
  "ex_resolved = \<lparr>rs_id = ''s1'', rs_subjectId = ''alice'', rs_authTime = 900000\<rparr>"

theorem silent_never_prompts_witness:
  "decideReuse [ex_resolved] [PromptNone] (Some 50) 1000000 = RefuseReuse LoginRequired
   \<and> decideReuse [ex_resolved] [PromptNone] (Some 50) 1000000 \<noteq> Authenticate
   \<and> decideReuse [ex_resolved] [] (Some 200) 1000000 = Reuse ex_resolved"
proof -
  have "decideReuse [ex_resolved] [PromptNone] (Some 50) 1000000 \<noteq> Authenticate"
    using silent_never_prompts [of "[PromptNone]" "[ex_resolved]" "Some 50" 1000000] by simp
  moreover have "decideReuse [ex_resolved] [PromptNone] (Some 50) 1000000 = RefuseReuse LoginRequired"
    "decideReuse [ex_resolved] [] (Some 200) 1000000 = Reuse ex_resolved"
    by (simp_all add: decideReuse_def withinMaxAge_def ex_resolved_def)
  ultimately show ?thesis by blast
qed

text \<open>
  A login flow completes only when it is satisfied: every required step, every conditional
  step that applies, and one of every run of alternatives has been passed; a flow with no step
  enabled fails, and the step a flow asks for next is an enabled, applicable one not passed.
\<close>

theorem flow_completes_only_satisfied:
  "(nextStep steps satisfied = Complete \<longrightarrow>
      (\<forall>m \<in> set steps. sp_requirement m = Required \<longrightarrow> sp_authenticator m \<in> satisfied)
      \<and> (\<forall>m \<in> set steps. sp_requirement m = Conditional \<and> sp_applicable m \<longrightarrow> sp_authenticator m \<in> satisfied)
      \<and> ((\<exists>m \<in> set steps. sp_requirement m = Alternative) \<longrightarrow>
          (\<exists>m \<in> set steps. sp_requirement m = Alternative \<and> sp_authenticator m \<in> satisfied))
      \<and> (\<exists>m \<in> set steps. sp_requirement m \<noteq> Disabled))
   \<and> (\<forall>a. nextStep steps satisfied = Run a \<longrightarrow> a \<notin> satisfied
      \<and> (\<exists>m \<in> set steps. sp_authenticator m = a \<and> sp_requirement m \<noteq> Disabled \<and> sp_applicable m))"
  using nextStep_Complete nextStep_enabled nextStep_Run by blast

definition ex_flow :: "flow_step list" where
  "ex_flow =
     [\<lparr>sp_authenticator = ''password'', sp_requirement = Alternative, sp_applicable = True\<rparr>,
      \<lparr>sp_authenticator = ''passkey'', sp_requirement = Alternative, sp_applicable = True\<rparr>,
      \<lparr>sp_authenticator = ''otp'', sp_requirement = Conditional, sp_applicable = True\<rparr>]"

theorem flow_completes_only_satisfied_witness:
  "nextStep ex_flow {''passkey''} = Run ''otp'' \<and> ''otp'' \<notin> {''passkey''}
   \<and> nextStep ex_flow {''password'', ''otp''} = Complete"
proof -
  have r: "nextStep ex_flow {''passkey''} = Run ''otp''" by code_simp
  have "nextStep ex_flow {''password'', ''otp''} = Complete" by code_simp
  moreover have "''otp'' \<notin> {''passkey''}"
    using flow_completes_only_satisfied [of ex_flow "{''passkey''}"] r by blast
  ultimately show ?thesis using r by blast
qed

text \<open>
  Which of a browser's sessions is taken as the most recently active does not depend on
  the order they were read in: it is one of them, none was active later, and among those
  active at the same instant it has the greatest identifier.
\<close>

theorem most_recent_session_order_free:
  assumes "sessions \<noteq> []" and "set sessions = set others" and "distinct (map ss_id sessions)"
  shows "\<exists>m \<in> set sessions. mostRecentlyActive sessions = Some m \<and> mostRecentlyActive others = Some m
    \<and> (\<forall>x \<in> set sessions. ss_lastActiveAt x < ss_lastActiveAt m
         \<or> ss_lastActiveAt x = ss_lastActiveAt m \<and> ss_id x \<le> ss_id m)"
  using mostRecentlyActive_max [OF assms(1)] mostRecentlyActive_perm_lemma [OF assms(2,3)]
  by (auto simp: at_least_def)

theorem most_recent_session_order_free_witness:
  "mostRecentlyActive [ex_session, ex_held] = mostRecentlyActive [ex_held, ex_session]
   \<and> mostRecentlyActive [ex_session, ex_held] = Some ex_session"
proof -
  have "set [ex_session, ex_held] = set [ex_held, ex_session]" by auto
  moreover have "distinct (map ss_id [ex_session, ex_held])" by code_simp
  ultimately have "mostRecentlyActive [ex_session, ex_held] = mostRecentlyActive [ex_held, ex_session]"
    using most_recent_session_order_free [of "[ex_session, ex_held]" "[ex_held, ex_session]"] by auto
  moreover have "mostRecentlyActive [ex_session, ex_held] = Some ex_session" by code_simp
  ultimately show ?thesis by blast
qed

section \<open>Ending\<close>

lemma end_batches_deliveries:
  assumes "end_batches d newId sub s = (Inr u, s')" "distinct (map delivery_key (st_deliveries s))"
  shows "distinct (map delivery_key (st_deliveries s'))"
  using assms
proof (induction d newId sub s rule: end_batches.induct)
  case (1 d newId sub s)
  let ?batch = "session_liveIdsFor sub (dp_now d) SESSIONS_PER_BATCH (st_sessions s)"
  show ?case
  proof (cases "?batch = []")
    case True
    with "1.prems" show ?thesis by (simp add: end_batches.simps [of d newId sub s])
  next
    case False
    obtain r s1 where e: "endSessions d newId ?batch sub ''logout'' s = (r, s1)"
      using prod.exhaust by blast
    with False "1.prems"(1) obtain v where v: "r = Inr v" "end_batches d newId sub s1 = (Inr u, s')"
      by (cases r) (auto simp: end_batches.simps [of d newId sub s])
    have "distinct (map delivery_key (st_deliveries s1))"
      using e v(1) "1.prems"(2)
      by (auto simp: endSessions_def tx_simps distinct_enqueue
          dest!: queue_logouts_Inr audit_recordAll_state)
    then show ?thesis using "1.IH" [OF refl] False e v by simp
  qed
qed

text \<open>Ending sessions fails only for the trail or for want of a key to sign with.\<close>

lemma session_ended_valid: "validatedRow (session_ended_event sub ''logout'' i) = Inr (session_ended_event sub ''logout'' i)"
proof -
  have "assertActionKnown ''session'' ''session.ended'' = None"
    "assertDetailAllowed ''session.ended'' [(''via'', JStr ''logout'')] = None" by code_simp+
  then show ?thesis by (simp add: validatedRow_def session_ended_event_def)
qed

lemma queue_logouts_returns:
  assumes "key_active s = (Inr k, s)"
  shows "\<exists>rows. queue_logouts d newId sub targets s = (Inr (), s\<lparr>st_deliveries := rows\<rparr>)"
  using assms by (auto simp: queue_logouts_def tx_simps intro: exI [of _ "st_deliveries s"])

lemma endSessions_returns:
  assumes "\<And>row. \<not> dp_auditRefused d row" "key_active s = (Inr k, s)"
  shows "\<exists>s'. endSessions d newId ids sub ''logout'' s = (Inr (), s') \<and> key_active s' = (Inr k, s')"
proof -
  let ?s1 = "s\<lparr>st_sessions := snd (session_endAll ids (dp_now d) (st_sessions s))\<rparr>"
  have "\<exists>au. audit_recordAll d (map (session_ended_event sub ''logout'')
      (fst (session_endAll ids (dp_now d) (st_sessions s)))) ?s1 = (Inr (), ?s1\<lparr>st_audit := au\<rparr>)"
    by (rule record_succeeds [OF assms(1)]) (auto simp: session_ended_valid)
  then obtain au where "audit_recordAll d (map (session_ended_event sub ''logout'')
      (fst (session_endAll ids (dp_now d) (st_sessions s)))) ?s1 = (Inr (), ?s1\<lparr>st_audit := au\<rparr>)" ..
  moreover have k: "key_active (s\<lparr>st_sessions := a, st_audit := b, st_grants := c\<rparr>)
      = (Inr k, s\<lparr>st_sessions := a, st_audit := b, st_grants := c\<rparr>)" for a b c
    using assms(2) by (auto simp: key_active_def split: option.splits)
  moreover have "key_active (x\<lparr>st_deliveries := rows\<rparr>) = (Inr k, x\<lparr>st_deliveries := rows\<rparr>)"
    if "key_active x = (Inr k, x)" for x rows
    using that by (auto simp: key_active_def split: option.splits)
  ultimately show ?thesis
    using queue_logouts_returns [OF k] by (fastforce simp: endSessions_def tx_simps)
qed

lemma end_batches_returns:
  assumes "\<And>row. \<not> dp_auditRefused d row" "key_active s = (Inr k, s)"
  shows "\<exists>s'. end_batches d newId sub s = (Inr (), s')"
  using assms
proof (induction d newId sub s rule: end_batches.induct)
  case (1 d newId sub s)
  let ?batch = "session_liveIdsFor sub (dp_now d) SESSIONS_PER_BATCH (st_sessions s)"
  obtain s1 where e: "endSessions d newId ?batch sub ''logout'' s = (Inr (), s1)" "key_active s1 = (Inr k, s1)"
    using endSessions_returns [OF "1.prems"] by blast
  show ?case
  proof (cases "?batch = []")
    case True
    then show ?thesis by (simp add: end_batches.simps [of d newId sub s])
  next
    case False
    then have "length ?batch \<noteq> 0" by simp
    from "1.IH" [OF refl this e(1) [symmetric] refl "1.prems"(1) e(2)] False e(1) show ?thesis
      by (simp add: end_batches.simps [of d newId sub s])
  qed
qed

text \<open>
  C38: ending all of a subject's access returns, however many batches its sessions take, wherever
  the trail takes its rows and there is a key to sign with; none of its sessions is still running
  then, every grant of the subject is revoked, and at most one logout delivery is queued for a
  session and a client.
\<close>

theorem all_access_ended:
  assumes "\<And>row. \<not> dp_auditRefused d row" "key_active s = (Inr k, s)"
    and queue: "distinct (map delivery_key (st_deliveries s))"
  shows "\<exists>s'. endAllAccess d newId sub s = (Inr (), s')
    \<and> (\<forall>row \<in> set (st_sessions s'). ss_subjectId row = sub \<longrightarrow> \<not> stillLive row (dp_lifespans d) (dp_now d))
    \<and> (\<forall>g \<in> set (st_grants s'). tg_subjectId g = sub \<longrightarrow> tg_revokedAt g \<noteq> None)
    \<and> distinct (map delivery_key (st_deliveries s'))"
proof -
  obtain s1 where b: "end_batches d newId sub s = (Inr (), s1)" using end_batches_returns [OF assms(1,2)] by blast
  let ?s' = "s1\<lparr>st_grants := snd (revokeForSubject sub (dp_now d) (st_grants s1))\<rparr>"
  have run: "endAllAccess d newId sub s = (Inr (), ?s')" by (simp add: endAllAccess_def tx_simps b)
  have "distinct (map delivery_key (st_deliveries ?s'))" using end_batches_deliveries [OF b queue] by simp
  moreover have "\<not> stillLive row (dp_lifespans d) (dp_now d)"
    if "row \<in> set (st_sessions ?s')" "ss_subjectId row = sub" for row
    using endAllAccess_Inr [OF run] that ended_not_live [of row "dp_now d"]
    by (auto simp: pending_def filter_empty_conv)
  ultimately show ?thesis using endAllAccess_Inr [OF run] run by blast
qed

theorem all_access_ended_witness:
  "map tg_revokedAt (st_grants (snd (endAllAccess ex_deps (\<lambda>i c. ''jti'') ''alice'' ex_store))) = [Some 1000000]
   \<and> map ld_endpoint (st_deliveries (snd (endAllAccess ex_deps (\<lambda>i c. ''jti'') ''alice'' ex_store))) = [''https://app/bc'']
   \<and> filter (\<lambda>row. ss_subjectId row = ''alice'' \<and> stillLive row (dp_lifespans ex_deps) (dp_now ex_deps))
        (st_sessions (snd (endAllAccess ex_deps (\<lambda>i c. ''jti'') ''alice'' ex_store))) = []"
proof -
  let ?run = "endAllAccess ex_deps (\<lambda>i c. ''jti'') ''alice'' ex_store"
  have audit: "\<not> dp_auditRefused ex_deps row" for row by (simp add: ex_deps_def)
  have key: "key_active ex_store = (Inr (hd (st_keys ex_store)), ex_store)" by code_simp
  have "distinct (map delivery_key (st_deliveries ex_store))" by (simp add: ex_store_def)
  from all_access_ended [OF audit key this] obtain s' where "?run = (Inr (), s')"
    "\<forall>row \<in> set (st_sessions s'). ss_subjectId row = ''alice'' \<longrightarrow> \<not> stillLive row (dp_lifespans ex_deps) (dp_now ex_deps)"
    by blast
  then have "\<forall>row \<in> set (st_sessions (snd ?run)). ss_subjectId row = ''alice'' \<longrightarrow> \<not> stillLive row (dp_lifespans ex_deps) (dp_now ex_deps)"
    by simp
  moreover have "map tg_revokedAt (st_grants (snd ?run)) = [Some 1000000]" by code_simp
  moreover have "map ld_endpoint (st_deliveries (snd ?run)) = [''https://app/bc'']" by code_simp
  ultimately show ?thesis unfolding filter_empty_conv by blast
qed

text \<open>
  A logout token that is signed again for a later attempt is the token it was, but for
  its issuer and its clock: the same client, subject, session and identifier, and the same
  lifetime counted from the attempt.
\<close>

theorem logout_token_reissue:
  assumes "audience \<noteq> []" "sub \<noteq> []" "sid \<noteq> []" "jti \<noteq> []"
  shows "reissuedLogoutTokenClaims (logoutTokenClaims issuer audience sub sid now jti) issuer' now' =
    Some (logoutTokenClaims issuer' audience sub sid now' jti)"
  using assms
  by (simp add: reissuedLogoutTokenClaims_def logoutTokenClaims_def Let_def nonempty_claim_def
      str_claim_def num_claim_def LOGOUT_TOKEN_LIFETIME_SECONDS_def)

theorem logout_token_reissue_witness:
  "reissuedLogoutTokenClaims (logoutTokenClaims ''https://id'' ''web'' ''alice'' ''s1'' 1000000 ''j'') ''https://id'' 2000000 =
     Some (logoutTokenClaims ''https://id'' ''web'' ''alice'' ''s1'' 2000000 ''j'')"
  by (rule logout_token_reissue) simp_all

end
