(* ===== verification/Policy_Properties.thy ===== *)
theory Policy_Properties
  imports Examples
begin

text \<open>
  The properties of the rules beside the tokens: consent, what a client may register itself
  with, a request's structure, the audit trail, and a code whose session is gone.
\<close>

section \<open>Consent and registration\<close>

text \<open>
  C39: the scope that writes to the administration API is never granted without a page. A
  request for it, of a client that has it assigned, is put to the user every time, whatever
  was granted before and whether or not the client needs consent at all, or is refused where
  no page may be shown; and it is never offered as already granted.
\<close>

theorem write_scope_always_asked:
  assumes "MCP_WRITE_SCOPE \<in> set (ci_requestedScopes input)"
    and "MCP_WRITE_SCOPE \<in> set (ci_defaultScopes input) \<union> set (ci_optionalScopes input)"
  shows "decideConsent input \<noteq> ConsentNotRequired
    \<and> (decideConsent input = ConsentRefuse \<longleftrightarrow>
        PromptNone \<in> set (ci_prompt input) \<and> PromptConsent \<notin> set (ci_prompt input))
    \<and> (\<forall>ds os gs. decideConsent input = ConsentAsk ds os gs \<longrightarrow>
        MCP_WRITE_SCOPE \<in> set (ds @ os) \<and> MCP_WRITE_SCOPE \<notin> set gs
        \<and> set (ds @ os) \<subseteq> set (ci_requestedScopes input) \<and> set gs \<subseteq> set (ci_grantedScopes input))"
  using assms by (auto simp: decideConsent_def Let_def)

definition ex_consent :: consent_input where
  "ex_consent =
     \<lparr>ci_requestedScopes = [''openid'', MCP_WRITE_SCOPE], ci_defaultScopes = [''openid''],
      ci_optionalScopes = [MCP_WRITE_SCOPE], ci_grantedScopes = [''openid'', MCP_WRITE_SCOPE],
      ci_prompt = [], ci_consentRequired = False, ci_approvalRequired = False, ci_approved = True\<rparr>"

theorem write_scope_always_asked_witness:
  "decideConsent ex_consent = ConsentAsk [''openid''] [MCP_WRITE_SCOPE] [] \<and> decideConsent ex_consent \<noteq> ConsentNotRequired"
proof -
  have "MCP_WRITE_SCOPE \<in> set (ci_requestedScopes ex_consent)"
    "MCP_WRITE_SCOPE \<in> set (ci_defaultScopes ex_consent) \<union> set (ci_optionalScopes ex_consent)"
    by (simp_all add: ex_consent_def)
  from write_scope_always_asked [OF this] have "decideConsent ex_consent \<noteq> ConsentNotRequired" by blast
  moreover have "decideConsent ex_consent = ConsentAsk [''openid''] [MCP_WRITE_SCOPE] []" by code_simp
  ultimately show ?thesis by blast
qed

text \<open>
  C40: a client that registers itself under the \<open>mcp\<close> policy is a public client of the code
  and refresh grants, with no key and no logout address, redirected only to \<open>https\<close> or a
  loopback host, whose one audience is the tenant's MCP resource and whose scope is within
  the five a registration may hold: never the one that writes to the administration API.
\<close>

theorem mcp_registration_confined:
  assumes "decideMcpRegistration URL input = RegistrationOk audience scope"
  shows "ri_tokenEndpointAuthMethod input = ''none''
    \<and> set (ri_grantTypes input) \<subseteq> {''authorization_code'', ''refresh_token''}
    \<and> \<not> ri_holdsKeys input \<and> \<not> ri_hasLogoutUri input
    \<and> (\<forall>uri \<in> set (ri_redirectUris input). \<exists>u. URL uri = Some u
         \<and> (url_protocol u = ''https:'' \<or> url_protocol u = ''http:''
              \<and> url_hostname u \<in> {''127.0.0.1'', ''[::1]'', ''localhost''}))
    \<and> audience = [ri_mcpAudience input]
    \<and> (\<forall>s. scope = Some s \<longrightarrow>
         set (tokens s) \<subseteq> {''openid'', ''profile'', ''email'', ''offline_access'', ''mcp:read''}
         \<and> MCP_WRITE_SCOPE \<notin> set (tokens s))"
proof -
  have held: "set REGISTRATION_SCOPES = {''openid'', ''profile'', ''email'', ''offline_access'', ''mcp:read''}"
    "MCP_WRITE_SCOPE \<notin> set REGISTRATION_SCOPES"
    by (simp_all add: REGISTRATION_SCOPES_def MCP_READ_SCOPE_def MCP_WRITE_SCOPE_def)
  from assms have "ri_tokenEndpointAuthMethod input = ''none''"
    and g: "find (\<lambda>g. g \<notin> set REGISTRATION_GRANTS) (ri_grantTypes input) = None"
    and k: "\<not> ri_holdsKeys input" "\<not> ri_hasLogoutUri input"
    and u: "find (\<lambda>uri. \<not> isHttpsOrLoopbackHttp URL uri) (ri_redirectUris input) = None"
    and s: "registrableScope (ri_scope input) = ScopeOk scope" and a: "audience = [ri_mcpAudience input]"
    by (auto simp: decideMcpRegistration_def split: if_splits option.splits scope_decision.splits)
  moreover have "set (ri_grantTypes input) \<subseteq> {''authorization_code'', ''refresh_token''}"
    using g by (auto simp: find_None_iff REGISTRATION_GRANTS_def)
  moreover have "\<forall>uri \<in> set (ri_redirectUris input). \<exists>u. URL uri = Some u
         \<and> (url_protocol u = ''https:'' \<or> url_protocol u = ''http:''
              \<and> url_hostname u \<in> {''127.0.0.1'', ''[::1]'', ''localhost''})"
    using u by (auto simp: find_None_iff isHttpsOrLoopbackHttp_def isLoopbackHost_def split: option.splits)
  moreover have "set (tokens x) \<subseteq> {''openid'', ''profile'', ''email'', ''offline_access'', ''mcp:read''}
      \<and> MCP_WRITE_SCOPE \<notin> set (tokens x)" if "scope = Some x" for x
  proof -
    have sub: "set (tokens x) \<subseteq> set REGISTRATION_SCOPES"
      by (rule registrable_scope_held [OF s [unfolded that]])
    from sub held(2) have "MCP_WRITE_SCOPE \<notin> set (tokens x)" by (rule contra_subsetD)
    with sub show ?thesis unfolding held(1) by (rule conjI)
  qed
  ultimately show ?thesis by blast
qed

definition ex_registration :: registration_input where
  "ex_registration =
     \<lparr>ri_redirectUris = [''https://agent/cb''], ri_grantTypes = [''authorization_code''],
      ri_tokenEndpointAuthMethod = ''none'', ri_scope = Some (JStr ''openid mcp:read mcp:write admin''),
      ri_audience = None, ri_mcpAudience = ''https://id/mcp'', ri_holdsKeys = False, ri_hasLogoutUri = False\<rparr>"

theorem mcp_registration_confined_witness:
  "decideMcpRegistration ex_URL ex_registration = RegistrationOk [''https://id/mcp''] (Some ''openid mcp:read'')
   \<and> MCP_WRITE_SCOPE \<notin> set (tokens ''openid mcp:read'')"
proof -
  have r: "decideMcpRegistration ex_URL ex_registration = RegistrationOk [''https://id/mcp''] (Some ''openid mcp:read'')"
    by code_simp
  from mcp_registration_confined [OF r] r show ?thesis by blast
qed

text \<open>
  The default scope a client asks for when it names none is its default assignments and
  no other, and \<open>openid\<close> comes first whenever it is among them, whatever the collation.
\<close>

theorem default_scope_openid_first:
  "set (defaultScopeNames localeCompare rows) = {sr_name r |r. r \<in> set rows \<and> sr_assignment r = Default}
   \<and> (''openid'' \<in> set (defaultScopeNames localeCompare rows) \<longrightarrow>
        hd (defaultScopeNames localeCompare rows) = ''openid'')"
proof (intro conjI impI)
  let ?ds = "filter (\<lambda>row. sr_assignment row = Default) rows"
  show set: "set (defaultScopeNames localeCompare rows) = {sr_name r |r. r \<in> set rows \<and> sr_assignment r = Default}"
    by (auto simp: defaultScopeNames_def)
  assume "''openid'' \<in> set (defaultScopeNames localeCompare rows)"
  then obtain b where b: "b \<in> set ?ds" "sr_name b = ''openid''" by (auto simp: defaultScopeNames_def)
  then have "sort_cmp (scope_order localeCompare) ?ds \<noteq> []" by (metis empty_iff list.set(1) set_sort_cmp)
  then show "hd (defaultScopeNames localeCompare rows) = ''openid''"
    using hd_sort_openid [OF b] by (simp add: defaultScopeNames_def hd_map)
qed

theorem default_scope_openid_first_witness:
  "defaultScopeNames (\<lambda>a b. 1) [\<lparr>sr_name = ''email'', sr_displayOrder = 0, sr_assignment = Default\<rparr>,
     \<lparr>sr_name = ''openid'', sr_displayOrder = 9, sr_assignment = Default\<rparr>] = [''openid'', ''email'']
   \<and> hd (defaultScopeNames (\<lambda>a b. 1) [\<lparr>sr_name = ''email'', sr_displayOrder = 0, sr_assignment = Default\<rparr>,
     \<lparr>sr_name = ''openid'', sr_displayOrder = 9, sr_assignment = Default\<rparr>]) = ''openid''"
proof -
  let ?d = "defaultScopeNames (\<lambda>a b. 1) [\<lparr>sr_name = ''email'', sr_displayOrder = 0, sr_assignment = Default\<rparr>,
     \<lparr>sr_name = ''openid'', sr_displayOrder = 9, sr_assignment = Default\<rparr>]"
  have d: "?d = [''openid'', ''email'']" by code_simp
  then have "''openid'' \<in> set ?d" by simp
  with default_scope_openid_first have "hd ?d = ''openid''" by blast
  with d show ?thesis by blast
qed

section \<open>Requests and the trail\<close>

text \<open>
  A body that parses gives a request of the grant it names with every parameter that grant
  requires, an actor token never without its type; one that does not parse is
  \<open>invalid_request\<close>, or \<open>unsupported_grant_type\<close> exactly where it names a grant the endpoint
  has not.
\<close>

theorem parsed_request_complete:
  "(case parseStructure body of
      Inr request \<Rightarrow> well_structured request \<and> grantType request = readField body ''grant_type''
    | Inl e \<Rightarrow> (e = invalidRequest \<or> e = unsupportedGrantType)
        \<and> (e = unsupportedGrantType \<longleftrightarrow> readField body ''grant_type'' \<notin>
             {[], ''authorization_code'', ''refresh_token'', ''client_credentials'', TOKEN_EXCHANGE_GRANT}))"
proof (cases "parseStructure body")
  case (Inr request)
  then show ?thesis using parseStructure_well [OF Inr] by simp
next
  case (Inl e)
  have "invalidRequest \<noteq> unsupportedGrantType" by (simp add: token_error_defs)
  with Inl parseStructure_refusal [OF Inl] show ?thesis
    by (auto simp: parseStructure_def Let_def split: if_splits)
qed

theorem parsed_request_complete_witness:
  "parseStructure (\<lambda>k. None) = Inl invalidRequest
   \<and> (invalidRequest = unsupportedGrantType \<longleftrightarrow> readField (\<lambda>k. None) ''grant_type'' \<notin>
             {[], ''authorization_code'', ''refresh_token'', ''client_credentials'', TOKEN_EXCHANGE_GRANT})"
proof -
  have p: "parseStructure (\<lambda>k. None) = Inl invalidRequest" by (simp add: parseStructure_def readField_def)
  show ?thesis using parsed_request_complete [of "\<lambda>k. None"] by (simp add: p)
qed

text \<open>
  What the trail stores is valid, and what must be stored is. An event is written as it
  was given, of an action its type has, with no detail key the action does not allow and, if a
  refusal, with a known reason; an administrator's event is written whatever types the tenant
  chose to store, and any other only if its type is among them.
\<close>

theorem audit_row_stored:
  assumes "audit_record d e s = (Inr u, s')"
  shows "(ae_eventType e = ''admin_mutation'' \<or>
        ae_action e \<in> set (coalesce (map_of AUDIT_ACTIONS (ae_eventType e)) [])
        \<and> fst ` set (ae_detail e) \<subseteq> set (coalesce (map_of ACTION_DETAIL_KEYS (ae_action e)) []) \<union> {''reason''}
        \<and> (ae_outcome e = Refused \<longrightarrow> isAuditReason (obj_get ''reason'' (ae_detail e))))
    \<and> (if ae_eventType e \<in> {''admin_mutation'', ''admin_access''} \<or> ae_eventType e \<in> set (storedTypes s)
       then st_audit s' = st_audit s @ [e] else s' = s)"
proof -
  note r = audit_record_Inr [OF assms]
  have "storedOf s [e] = [] \<longleftrightarrow>
      ae_eventType e \<notin> {''admin_mutation'', ''admin_access''} \<and> ae_eventType e \<notin> set (storedTypes s)"
    by (auto simp: storedOf_def ALWAYS_STORED_def)
  with r show ?thesis by (auto simp: row_ok_def allowed_keys_def)
qed

theorem audit_row_stored_witness:
  "st_audit (snd (audit_record ex_deps (session_ended_event ''alice'' ''admin'' ''s1'') ex_store))
     = [session_ended_event ''alice'' ''admin'' ''s1'']"
proof -
  let ?e = "session_ended_event ''alice'' ''admin'' ''s1''"
  have "\<not> isl (fst (audit_record ex_deps ?e ex_store))" by code_simp
  from run_Inr [OF this] obtain u where
    r: "audit_record ex_deps ?e ex_store = (Inr u, snd (audit_record ex_deps ?e ex_store))" by blast
  have "ae_eventType ?e \<in> set (storedTypes ex_store)" "st_audit ex_store = []" by code_simp+
  with audit_row_stored [OF r] show ?thesis by simp
qed

section \<open>A code whose session is gone\<close>

text \<open>
  A code that belongs to a session whose row the retention pass has deleted cannot be
  redeemed: the grant it would become names that session, and the database refuses it. The
  request fails and leaves the store as it was. (The comment at the column says such a code
  must still redeem.)
\<close>

theorem reaped_session_code_fails:
  assumes codes: "codes_ok (st_codes s)" and row: "row \<in> set (st_codes s)" "ac_codeHash row = hash_token d (cr_code q)"
    and session: "ac_sessionId row = Some i" "\<not> has_session s i"
    and online: "''offline_access'' \<notin> set (tokens (ac_scope row))"
    and run: "in_request (issueAuthorizationCodeTokens d q client config lt) s = (r, s')"
  shows "isl r \<and> (ac_grantId row = None \<longrightarrow> s' = s)"
proof (cases r)
  case (Inr resp)
  let ?s1 = "s\<lparr>st_codes := snd (consume_code (dp_dbNow d) (hash_token d (cr_code q)) (st_codes s))\<rparr>"
  from code_request_Inr Inr run obtain c where red: "redeemable d q client s c" and
    iss: "issue_for_code d q client config lt (c\<lparr>ac_consumedAt := Some (dp_dbNow d)\<rparr>) ?s1 = (Inr resp, s')"
    by blast
  have "c = row"
    by (rule the_only_code [OF codes row(1)]) (use red row in \<open>simp_all add: redeemable_def\<close>)
  then have "''offline_access'' \<notin> set (code_scope (c\<lparr>ac_consumedAt := Some (dp_dbNow d)\<rparr>) client ?s1)"
    using online by (auto simp: code_scope_def set_resolveScope)
  then have "offline_session (code_scope (c\<lparr>ac_consumedAt := Some (dp_dbNow d)\<rparr>) client ?s1)
      (ac_sessionId (c\<lparr>ac_consumedAt := Some (dp_dbNow d)\<rparr>)) = Some i"
    using session(1) \<open>c = row\<close> by (simp add: offline_session_def)
  with issue_for_code_Inr [OF iss] have "has_session ?s1 i" by metis
  with session(2) show ?thesis by (simp add: has_session_def)
next
  case (Inl e)
  with run have e: "in_request (issueAuthorizationCodeTokens d q client config lt) s = (Inl e, s')" by simp
  have "s' = s" if "ac_grantId row = None"
  proof -
    have "code_byHash (hash_token d (cr_code q)) (st_codes s) = Some row"
      using find_keyI [of ac_codeHash "st_codes s" row] codes row by (simp add: codes_ok_def code_byHash_def)
    then have "replay_of d q s = None" using that by (auto simp: replay_of_def Let_def)
    with code_request_Inl [OF e] show ?thesis by simp
  qed
  with Inl show ?thesis by simp
qed

definition ex_reaped :: store where
  "ex_reaped = ex_store\<lparr>st_sessions := []\<rparr>"

theorem reaped_session_code_fails_witness:
  "in_request (issueAuthorizationCodeTokens ex_deps ex_code_request ex_client ex_config ex_lifetimes) ex_reaped
     = (Inl (ForeignKeyViolation ''token_grants_session_fk''), ex_reaped)"
proof -
  let ?run = "in_request (issueAuthorizationCodeTokens ex_deps ex_code_request ex_client ex_config ex_lifetimes) ex_reaped"
  have "codes_ok (st_codes ex_reaped)" by (simp add: ex_reaped_def ex_store_def ex_code_def codes_ok_def)
  moreover have "ex_code \<in> set (st_codes ex_reaped)" by (simp add: ex_reaped_def ex_store_def)
  moreover have "ac_codeHash ex_code = hash_token ex_deps (cr_code ex_code_request)" by code_simp
  moreover have "ac_sessionId ex_code = Some ''s1''" "ac_grantId ex_code = None" by (simp_all add: ex_code_def)
  moreover have "\<not> has_session ex_reaped ''s1''" by (simp add: has_session_def ex_reaped_def)
  moreover have "''offline_access'' \<notin> set (tokens (ac_scope ex_code))" by code_simp
  ultimately have "snd ?run = ex_reaped"
    using reaped_session_code_fails [OF _ _ _ _ _ _ surjective_pairing] by blast
  moreover have "fst ?run = Inl (ForeignKeyViolation ''token_grants_session_fk'')" by code_simp
  ultimately show ?thesis by (metis prod.collapse)
qed

end
