(* ===== verification/Spec2Isabelle.thy ===== *)
theory Spec2Isabelle
  imports Door_Properties Endpoint_Properties Sign_In_Properties Retention_Properties
    Credential_Properties Token_Properties Session_Properties Policy_Properties
begin

text \<open>
  Odudu is an OpenID Connect and OAuth 2.0 server for many tenants. This development models
  its core: how a request for authorization is judged and a person signs in to answer it; how a client authenticates and what a tenant's token endpoint
  issues, rotates, exchanges, reports and revokes; the browser sessions behind it and their
  logout; what a retention pass deletes; the policies on scopes, consent and registration; and
  the audit trail. All paths are under \<^verbatim>\<open>src/packages/\<close>.

  The program and the model.

  A tenant's rows are a record \<open>store\<close> of lists, one per table (theory Schema; the tables are
  the \<^verbatim>\<open>schema/\<close> files of protocol-oidc, domain-tenant, domain-identity, authn-flows, crypto and
  domain-audit). The program runs a request in one database transaction: the type \<open>tx\<close> of
  Prelude takes a store and gives an error or a value, with the store after it; \<open>atomically\<close>
  is the rollback of a transaction that throws. Places where the code opens a transaction of
  its own, so that a revocation commits although the request fails, are modelled as such
  (\<open>in_request\<close>, \<open>independently\<close> in Requests). What the code throws is the datatype \<open>exn\<close>. Time
  is an integer of milliseconds, the clock of the program and of the database being two fields
  of the dependencies \<open>deps\<close>. Numbers of the source are whole, and far below the width at which
  JavaScript loses precision, so they are \<open>int\<close> or \<open>nat\<close>; the one place where the code
  works on bits, the truncation of an HMAC in Totp, is on \<open>8 word\<close> and \<open>32 word\<close>.

  A login reads and writes rows of three packages, which make the record \<open>site\<close> of theory Site:
  the tenant's \<open>store\<close> with its accounts, credentials and login attempts beside it. A login runs
  in the same type of transactions, over sites.

  What the code calls and src/ does not define is a parameter: URL parsing, base64, SHA-256,
  HMAC and the password hash, the signing and verifying of a JWT and of a passkey's assertion,
  the collation \<open>localeCompare\<close>, fresh identifiers, and the claims a tenant's mappers return.
  They are fields of \<open>platform\<close>, \<open>deps\<close> and \<open>sign_deps\<close>, or arguments. Where a property needs
  something of one of them it says so as a hypothesis; all other properties hold for every such
  function.

  Theories.

  \<^descr> Prelude: transactions, tables and their keys, JSON objects, JavaScript string operations.
  \<^descr> Scopes: protocol-oidc \<^verbatim>\<open>service/scope.ts\<close>, \<^verbatim>\<open>mcp-scopes.ts\<close>, \<^verbatim>\<open>resource-indicator.ts\<close>,
    domain-tenant \<^verbatim>\<open>service/mcp-client.ts\<close>, kernel \<^verbatim>\<open>address.ts\<close>.
  \<^descr> Registration_Policy: \<^verbatim>\<open>service/consent.ts\<close>, \<^verbatim>\<open>mcp-registration-policy.ts\<close>, with the locale
    \<open>narrowing\<close> for the functions that filter a scope.
  \<^descr> Schema: the rows, the errors of the token endpoint and what they answer.
  \<^descr> Token_Rules: the decisions of the four grants, PKCE, delegation chains, claim precedence.
  \<^descr> Repositories, Grants: \<^verbatim>\<open>repository/codes.ts\<close>, \<^verbatim>\<open>refresh.ts\<close>, \<^verbatim>\<open>assertion-jti.ts\<close>,
    \<^verbatim>\<open>grants.ts\<close>, with the locales \<open>single_use\<close> (what a consume promises: one winner) and
    \<open>revocation\<close> (what every revocation promises), each interpreted on the SQL the code runs.
  \<^descr> Audit_Trail: domain-audit.
  \<^descr> Sessions, Admission: authn-flows' sessions, their entries and cookies, the cap of one
    browser, the order of a flow's steps; protocol-oidc's reuse of a session.
  \<^descr> Rotation, Subject_Tokens, Requests, Minting, Code_Grant, Issuance: the token endpoint after
    the client is authenticated, \<^verbatim>\<open>usecase/token-issuance.ts\<close> with \<^verbatim>\<open>refresh-rotation.ts\<close>,
    \<^verbatim>\<open>token-exchange-subject.ts\<close>, \<^verbatim>\<open>introspection.ts\<close> and \<^verbatim>\<open>revocation.ts\<close>.
  \<^descr> Client_Auth, Endpoints: \<^verbatim>\<open>usecase/client-authentication.ts\<close> (secret, key assertion,
    certificate) and the token, introspection and revocation endpoints with it, from the body of
    the request to the commit of its transaction.
  \<^descr> Retention: what a pass of the retention job deletes of the credentials' tables.
  \<^descr> End_Session: \<^verbatim>\<open>usecase/end-session.ts\<close> and the logout tokens and their queue.
  \<^descr> Issuance_Facts, Families, Lifecycle: no model of their own, but the facts of whole
    requests, the invariant of refresh token families, and the step relation \<open>step\<close> of a tenant
    (any of the modelled requests, and any other write that keeps the rows' keys), with what is
    reachable by it. The locale \<open>token_frame\<close> says what a request leaves alone, and is
    interpreted on each of its parts.
  \<^descr> Totp, Site, Identity, Attempts: crypto's one-time codes; the rows a login touches;
    domain-identity's password and lockout records, one-time codes, recovery codes and passkeys;
    authn-flows' \<^verbatim>\<open>repository/attempts.ts\<close>. The ways a factor or an attempt is used up are
    interpretations of the locale \<open>single_use\<close> again.
  \<^descr> Authenticators, Sign_In: the authenticators of authn-flows' \<^verbatim>\<open>service/authenticators/\<close> and
    \<^verbatim>\<open>usecase/executor.ts\<close>, which runs the steps of a flow until one asks the browser for
    something or the flow is done.
  \<^descr> Sign_In_Frame, Sign_In_Facts, Factor_Proofs, Attempt_Integrity: what a submission leaves
    alone (the locale \<open>sign_in_frame\<close>, interpreted twice), what each of its outcomes means, what
    a factor that was accepted proves, and the abstract protocol of one attempt
    (\<open>proto_step\<close>: absent, pending, bound to one subject, completed), which every step of
    the detailed model (\<open>sign_step\<close>) refines.
  \<^descr> Authorize, Doors, Authorization_Request: the way to a code. Authorize has the rules of
    \<^verbatim>\<open>/authorize\<close> that read only the request and the client's registration (\<^verbatim>\<open>service/\<close>
    \<^verbatim>\<open>authorize-validation.ts\<close>, \<^verbatim>\<open>query-normalization.ts\<close>, \<^verbatim>\<open>redirect-uri.ts\<close>, \<^verbatim>\<open>prompt.ts\<close>,
    \<^verbatim>\<open>claims-request.ts\<close>, \<^verbatim>\<open>ui-locales.ts\<close>); Doors the login form and the consent page
    (\<^verbatim>\<open>usecase/login-submission.ts\<close>, \<^verbatim>\<open>consent-submission.ts\<close>) and the transaction in which a login
    completes; Authorization_Request the endpoint itself and the account chooser
    (\<^verbatim>\<open>usecase/authorization-request.ts\<close>). Each runs over the rows of a \<open>site\<close>, one transaction
    per dependency of the code.
  \<^descr> Door_Facts, Request_Facts, Door_Trace: what the doors leave alone, what a code issued by
    one of them proves, and sequences of forms on one parked request (\<open>door_trace\<close>). The actions
    a subject owes are a linear order (\<open>instantiation\<close>), whose minimum is the one asked for.
  \<^descr> Examples, Sign_In_Examples, Door_Examples: a concrete tenant and concrete logins, on which the
    properties' witnesses run the model.
  \<^descr> Door_Properties, Endpoint_Properties, Sign_In_Properties, Retention_Properties, Credential_Properties,
    Token_Properties, Session_Properties, Policy_Properties: the properties.

  What the properties show.

  Authorization: a browser is sent only where the client registered; what forbids a page gets
  none; a code comes only behind a finished login or a session the browser proves, with every gate
  passed (an enabled subject, a verified address, the hint, owed actions, consent), one for a
  parked request; a login with its gates open does reach the client, and its code redeems into the
  request that was parked. Sign-in: a subject is signed in only on evidence of a factor that is its own, with its lockout
  respected; the flow the tenant chose is followed to its end, a second factor included; an
  attempt serves one subject; every factor that can be spent is spent once; a locked account is
  told nothing. Clients: an endpoint acts only for a client that authenticated in the way
  registered for it, and an assertion is used once. Codes and refresh tokens are used once in the
  life of a tenant, whatever is written between, and using one again ends what came of it;
  redemptions, refreshes, exchanges and client credentials stay within what they came from, as
  do the tokens minted and the writes of an agent; revocation is final, and introspection
  reports what is live; in every reachable store a family has one usable token; retention deletes
  nothing that still has a use. Sessions: liveness as the database and the program see it, the
  cap of one browser, what ending one ends. Policies: consent, registration, audit.

  One lemma shows a flaw: \<open>recovery_text_skips_second_factor\<close>. Where a flow offers the password
  and a recovery code as alternatives before a conditional one-time code step, a submission with
  the right password and any text in the recovery-code field is signed in without the one-time
  code: that step stands down for the field, and the recovery step never judges it.

  Termination: every definition is total. The recursions that are not structural are
  \<open>end_batches\<close> (each batch ends sessions that were running, by the number of them left), and
  the readers of JSON chains, by the size of the value or the bound the source itself gives. The
  loops of a login have the source's own bounds: the rounds in which a lockout record is written
  by compare and swap are \<open>CAS_ATTEMPTS\<close>, five, and the time steps tried for a one-time code
  are those of its window.

  Not modelled: HTTP adapters and pages, and the fetching of client documents; the
  claim mappers; registration, recovery and required actions of accounts; the administration
  API, the MCP server, the console and its gateway, mail, themes and the translations. Row level
  security keeps tenants apart in the database and appears here as a store being one tenant's.
  Concurrency is modelled at the level the database gives: every statement is atomic, and
  requests are sequences of whole transactions.
\<close>

end
